(* ===== verification/Prelude.thy ===== *)
theory Prelude
  imports Main "HOL-Library.Sublist"
begin

text \<open>
  Shared vocabulary of the development: the Python values the modelled components use.

  \<^item> Strings are HOL strings of ASCII characters; the functions of this theory are the
    string methods the sources call (\<open>lower\<close>, \<open>strip\<close>, \<open>startswith\<close>, \<open>split\<close> on one
    character, \<open>join\<close>, \<open>int\<close> and \<open>str\<close> on integers).
  \<^item> An optional text column is a \<open>string option\<close>; \<open>truthy\<close> is Python's truth test on it.
  \<^item> A table of the database is a list of rows. \<open>update_where\<close> is the PostgREST
    \<open>update(...).eq(...)\<close> call, \<open>select\<close> is \<open>filter\<close>.
  \<^item> Identifiers drawn by \<open>uuid.uuid4()\<close> are natural numbers taken from a counter.
\<close>

named_theorems row_simps \<open>how table updates act on lookups\<close>

type_synonym uuid = nat

type_synonym time = int \<comment> \<open>microseconds since the epoch, UTC\<close>


section \<open>Characters and strings\<close>

definition is_digit :: "char \<Rightarrow> bool" where
  "is_digit c \<longleftrightarrow> (of_char c :: nat) \<in> {48..57}"

definition digit_val :: "char \<Rightarrow> nat" where
  "digit_val c = of_char c - 48"

definition digit_char :: "nat \<Rightarrow> char" where
  "digit_char n = char_of (48 + n)"

definition is_space :: "char \<Rightarrow> bool" where
  "is_space c \<longleftrightarrow> (of_char c :: nat) \<in> {9, 10, 11, 12, 13, 28, 29, 30, 31, 32}"

definition to_lower :: "char \<Rightarrow> char" where
  "to_lower c = (let n = (of_char c :: nat) in if 65 \<le> n \<and> n \<le> 90 then char_of (n + 32) else c)"

definition to_upper :: "char \<Rightarrow> char" where
  "to_upper c = (let n = (of_char c :: nat) in if 97 \<le> n \<and> n \<le> 122 then char_of (n - 32) else c)"

definition lower :: "string \<Rightarrow> string" where
  "lower s = map to_lower s"

definition upper :: "string \<Rightarrow> string" where
  "upper s = map to_upper s"

definition lstrip :: "string \<Rightarrow> string" where
  "lstrip s = dropWhile is_space s"

definition strip :: "string \<Rightarrow> string" where
  "strip s = rev (lstrip (rev (lstrip s)))"

definition starts_with :: "string \<Rightarrow> string \<Rightarrow> bool" where
  "starts_with p s \<longleftrightarrow> take (length p) s = p"

fun split_on :: "char \<Rightarrow> string \<Rightarrow> string list" where
  "split_on c [] = [[]]"
| "split_on c (x # xs) =
     (if x = c then [] # split_on c xs
      else (case split_on c xs of [] \<Rightarrow> [[x]] | w # ws \<Rightarrow> (x # w) # ws))"

fun join :: "string \<Rightarrow> string list \<Rightarrow> string" where
  "join sep [] = []"
| "join sep [w] = w"
| "join sep (w # v # ws) = w @ sep @ join sep (v # ws)"

text \<open>Python's truth test on an optional string: neither \<open>None\<close> nor empty.\<close>

definition truthy :: "string option \<Rightarrow> bool" where
  "truthy s \<longleftrightarrow> s \<noteq> None \<and> s \<noteq> Some []"

text \<open>\<open>a or b\<close> on an optional string and a string.\<close>

definition or_else :: "string option \<Rightarrow> string \<Rightarrow> string" where
  "or_else s d = (case s of None \<Rightarrow> d | Some t \<Rightarrow> if t = [] then d else t)"

lemma truthy_simps [simp]: "\<not> truthy None" "truthy (Some s) \<longleftrightarrow> s \<noteq> []"
  by (simp_all add: truthy_def)

lemma or_else_simps [simp]:
  "or_else None d = d" "s \<noteq> [] \<Longrightarrow> or_else (Some s) d = s" "or_else (Some []) d = d"
  by (simp_all add: or_else_def)

lemma or_else_nonempty: "d \<noteq> [] \<Longrightarrow> or_else s d \<noteq> []"
  by (simp add: or_else_def split: option.split)

lemma split_on_nonempty [simp]: "split_on c s \<noteq> []"
  by (induction s) (auto split: list.split)

lemma split_on_notin: "c \<notin> set s \<Longrightarrow> split_on c s = [s]"
  by (induction s) auto

lemma split_on_append: "c \<notin> set w \<Longrightarrow> split_on c (w @ c # s) = w # split_on c s"
  by (induction w) auto

lemma split_on_join:
  assumes "ws \<noteq> []" and "\<forall>w \<in> set ws. c \<notin> set w"
  shows "split_on c (join [c] ws) = ws"
  using assms
proof (induction "[c]" ws rule: join.induct)
  case 1
  then show ?case by simp
next
  case (2 w)
  then show ?case by (simp add: split_on_notin)
next
  case (3 w v ws)
  then show ?case by (simp add: split_on_append)
qed

lemma join_split_on: "join [c] (split_on c s) = s"
proof (induction s)
  case Nil
  then show ?case by simp
next
  case (Cons x xs)
  obtain w ws where sp: "split_on c xs = w # ws"
    by (metis split_on_nonempty neq_Nil_conv)
  then show ?case using Cons by (cases ws) auto
qed

lemma split_on_parts: "w \<in> set (split_on c s) \<Longrightarrow> c \<notin> set w"
proof (induction s arbitrary: w)
  case Nil
  then show ?case by simp
next
  case (Cons x xs)
  obtain v vs where sp: "split_on c xs = v # vs"
    by (metis split_on_nonempty neq_Nil_conv)
  show ?case using Cons sp by (auto split: if_splits)
qed


section \<open>Integers as text\<close>

text \<open>\<open>int(s)\<close>: surrounding whitespace, a sign, digits with single underscores between.\<close>

fun digits_val :: "nat \<Rightarrow> bool \<Rightarrow> string \<Rightarrow> nat option" where
  "digits_val acc ok [] = (if ok then Some acc else None)"
| "digits_val acc ok (c # cs) =
     (if is_digit c then digits_val (10 * acc + digit_val c) True cs
      else if c = CHR ''_'' \<and> ok then digits_val acc False cs
      else None)"

definition py_int :: "string \<Rightarrow> int option" where
  "py_int s =
     (case strip s of
        [] \<Rightarrow> None
      | c # cs \<Rightarrow>
          if c = CHR ''-'' then map_option (\<lambda>n. - int n) (digits_val 0 False cs)
          else if c = CHR ''+'' then map_option int (digits_val 0 False cs)
          else map_option int (digits_val 0 False (c # cs)))"

fun show_nat :: "nat \<Rightarrow> string" where
  "show_nat n = (if n < 10 then [digit_char n] else show_nat (n div 10) @ [digit_char (n mod 10)])"

declare show_nat.simps [simp del]

definition show_int :: "int \<Rightarrow> string" where
  "show_int i = (if i < 0 then CHR ''-'' # show_nat (nat (- i)) else show_nat (nat i))"

lemma digit_char_props:
  assumes "n < 10"
  shows "is_digit (digit_char n)" "digit_val (digit_char n) = n"
    "\<not> is_space (digit_char n)" "digit_char n \<noteq> CHR ''-''" "digit_char n \<noteq> CHR ''+''"
    "digit_char n \<noteq> CHR '',''" "digit_char n \<noteq> CHR ''.''" "digit_char n \<noteq> CHR ''|''"
proof -
  have code: "(of_char (digit_char n) :: nat) = 48 + n"
    using assms by (simp add: digit_char_def)
  have "digit_char n \<noteq> c" if "(of_char c :: nat) < 48 \<or> 57 < (of_char c :: nat)" for c
    using that assms code by auto
  note this [of "CHR ''-''", simplified] this [of "CHR ''+''", simplified]
    this [of "CHR '',''", simplified] this [of "CHR ''.''", simplified]
    this [of "CHR ''|''", simplified]
  then show "is_digit (digit_char n)" "digit_val (digit_char n) = n"
    "\<not> is_space (digit_char n)" "digit_char n \<noteq> CHR ''-''" "digit_char n \<noteq> CHR ''+''"
    "digit_char n \<noteq> CHR '',''" "digit_char n \<noteq> CHR ''.''" "digit_char n \<noteq> CHR ''|''"
    using assms code by (auto simp: is_digit_def digit_val_def is_space_def)
qed

lemma show_nat_nonempty [simp]: "show_nat n \<noteq> []"
  by (subst show_nat.simps) simp

lemma show_nat_chars: "c \<in> set (show_nat n) \<Longrightarrow> \<exists>d < 10. c = digit_char d"
proof (induction n rule: show_nat.induct)
  case (1 n)
  show ?case
  proof (cases "n < 10")
    case True
    with "1.prems" show ?thesis by (subst (asm) show_nat.simps) auto
  next
    case False
    with "1.prems" have "c \<in> set (show_nat (n div 10)) \<or> c = digit_char (n mod 10)"
      by (subst (asm) show_nat.simps) auto
    moreover have "n mod 10 < 10" by simp
    ultimately show ?thesis using "1.IH" [OF False] by blast
  qed
qed

lemma digits_val_append:
  assumes "\<forall>c \<in> set s. is_digit c" and "s \<noteq> []"
  shows "digits_val acc ok (s @ t) = digits_val (fold (\<lambda>c a. 10 * a + digit_val c) s acc) True t"
  using assms by (induction s arbitrary: acc ok) (auto, (metis neq_Nil_conv append_Nil fold_simps(1))+)

lemma fold_digits_show_nat:
  "fold (\<lambda>c a. 10 * a + digit_val c) (show_nat n) 0 = n"
proof (induction n rule: show_nat.induct)
  case (1 n)
  show ?case
  proof (cases "n < 10")
    case True
    then show ?thesis by (subst show_nat.simps) (simp add: digit_char_props)
  next
    case False
    with "1.IH" show ?thesis
      by (subst show_nat.simps) (simp add: digit_char_props)
  qed
qed

lemma digits_val_show_nat: "digits_val 0 False (show_nat n) = Some n"
proof -
  have "\<forall>c \<in> set (show_nat n). is_digit c"
    using show_nat_chars digit_char_props(1) by blast
  then show ?thesis
    using digits_val_append [of "show_nat n" 0 False "[]"] by (simp add: fold_digits_show_nat)
qed

lemma strip_no_space:
  assumes "\<forall>c \<in> set s. \<not> is_space c"
  shows "strip s = s"
proof -
  have id: "dropWhile is_space t = t" if "\<forall>c \<in> set t. \<not> is_space c" for t
    using that by (cases t) auto
  show ?thesis using assms id [of s] id [of "rev s"] by (simp add: strip_def lstrip_def)
qed

lemma show_nat_no_space: "c \<in> set (show_nat n) \<Longrightarrow> \<not> is_space c"
  using show_nat_chars digit_char_props(3) by blast

lemma show_int_no_space: "c \<in> set (show_int i) \<Longrightarrow> \<not> is_space c"
  by (auto simp: show_int_def is_space_def [of "CHR ''-''"] split: if_splits dest: show_nat_no_space)

theorem py_int_show_int: "py_int (show_int i) = Some i"
proof (cases "i < 0")
  case True
  have "strip (show_int i) = show_int i"
    by (rule strip_no_space) (blast dest: show_int_no_space)
  with True show ?thesis by (simp add: py_int_def show_int_def digits_val_show_nat)
next
  case False
  have st: "strip (show_int i) = show_int i"
    by (rule strip_no_space) (blast dest: show_int_no_space)
  obtain c cs where sh: "show_nat (nat i) = c # cs"
    by (metis show_nat_nonempty neq_Nil_conv)
  then obtain d where "d < 10" "c = digit_char d"
    using show_nat_chars [of c "nat i"] by auto
  then have "c \<noteq> CHR ''-''" "c \<noteq> CHR ''+''" by (simp_all add: digit_char_props)
  with False st sh show ?thesis
    using digits_val_show_nat [of "nat i"] by (simp add: py_int_def show_int_def)
qed

lemma show_int_inject: "show_int i = show_int j \<longleftrightarrow> i = j"
  using py_int_show_int by (metis option.inject)

lemma show_int_nonempty [simp]: "show_int i \<noteq> []"
  by (simp add: show_int_def)

lemma show_int_chars:
  assumes "c \<in> set (show_int i)"
  shows "c = CHR ''-'' \<or> (\<exists>d < 10. c = digit_char d)"
  using assms show_nat_chars by (fastforce simp: show_int_def split: if_splits)

lemma show_int_no_sep:
  "CHR '','' \<notin> set (show_int i)" "CHR ''|'' \<notin> set (show_int i)" "CHR ''.'' \<notin> set (show_int i)"
proof -
  have "c \<notin> set (show_int i)" if "c \<noteq> CHR ''-''" "\<And>d. d < 10 \<Longrightarrow> digit_char d \<noteq> c" for c
    using that show_int_chars [of c i] by blast
  from this [OF _ digit_char_props(6)] this [OF _ digit_char_props(8)]
    this [OF _ digit_char_props(7)]
  show "CHR '','' \<notin> set (show_int i)" "CHR ''|'' \<notin> set (show_int i)"
    "CHR ''.'' \<notin> set (show_int i)" by simp_all
qed


section \<open>Tables\<close>

definition update_where :: "('r \<Rightarrow> bool) \<Rightarrow> ('r \<Rightarrow> 'r) \<Rightarrow> 'r list \<Rightarrow> 'r list" where
  "update_where P f rs = map (\<lambda>r. if P r then f r else r) rs"

lemma length_update_where [simp]: "length (update_where P f rs) = length rs"
  by (simp add: update_where_def)

lemma update_where_Nil [simp]: "update_where P f [] = []"
  by (simp add: update_where_def)

lemma update_where_Cons [simp]:
  "update_where P f (r # rs) = (if P r then f r else r) # update_where P f rs"
  by (simp add: update_where_def)

lemma update_where_append [simp]:
  "update_where P f (rs @ qs) = update_where P f rs @ update_where P f qs"
  by (simp add: update_where_def)

lemma set_update_where: "set (update_where P f rs) = (\<lambda>r. if P r then f r else r) ` set rs"
  by (auto simp: update_where_def)

lemma map_update_where:
  assumes "\<And>r. P r \<Longrightarrow> g (f r) = g r"
  shows "map g (update_where P f rs) = map g rs"
  using assms by (auto simp: update_where_def)

lemma update_where_id: "(\<And>r. r \<in> set rs \<Longrightarrow> \<not> P r) \<Longrightarrow> update_where P f rs = rs"
  by (induction rs) (auto simp: update_where_def)

lemma filter_update_where:
  assumes "\<And>r. P r \<Longrightarrow> Q (f r) = Q r"
  shows "filter Q (update_where P f rs) = update_where P f (filter Q rs)"
  using assms by (induction rs) auto

lemma update_where_ball:
  assumes "\<And>r. r \<in> set rs \<Longrightarrow> A r" and "\<And>r. P r \<Longrightarrow> A r \<Longrightarrow> A (f r)"
  shows "\<And>r. r \<in> set (update_where P f rs) \<Longrightarrow> A r"
  using assms by (auto simp: set_update_where)

text \<open>The first row of a result, \<open>resp.data[0] if resp.data else None\<close>.\<close>

definition first_row :: "'r list \<Rightarrow> 'r option" where
  "first_row rs = (case rs of [] \<Rightarrow> None | r # _ \<Rightarrow> Some r)"

lemma first_row_simps [simp]: "first_row [] = None" "first_row (r # rs) = Some r"
  by (simp_all add: first_row_def)

lemma first_row_None [simp]: "first_row rs = None \<longleftrightarrow> rs = []"
  by (cases rs) auto

lemma first_row_in: "first_row rs = Some r \<Longrightarrow> r \<in> set rs"
  by (cases rs) auto

lemma first_row_filter: "first_row (filter P rs) = find P rs"
  by (induction rs) auto

text \<open>
  A keyed table: rows carry a key, updates by key go through the operations of this interface.
  The laws are what every client needs of them: an update changes the row of its key alone and
  keeps the keys.
\<close>

locale keyed_table =
  fixes key :: "'r \<Rightarrow> 'k"
    and upd :: "'k \<Rightarrow> ('r \<Rightarrow> 'r) \<Rightarrow> 'r list \<Rightarrow> 'r list"
    and look :: "'k \<Rightarrow> 'r list \<Rightarrow> 'r option"
  assumes look_key: "look k rs = Some r \<Longrightarrow> key r = k \<and> r \<in> set rs"
    and look_upd: "(\<And>r. key (f r) = key r) \<Longrightarrow> look k (upd k' f rs) =
      (if k = k' then map_option f (look k rs) else look k rs)"
    and keys_upd: "(\<And>r. key (f r) = key r) \<Longrightarrow> map key (upd k f rs) = map key rs"
    and upd_in: "r \<in> set (upd k f rs) \<Longrightarrow>
      (r \<in> set rs \<and> key r \<noteq> k) \<or> (\<exists>q \<in> set rs. key q = k \<and> r = f q)"
begin

lemma look_upd_same: "(\<And>r. key (f r) = key r) \<Longrightarrow> look k (upd k f rs) = map_option f (look k rs)"
  by (simp add: look_upd)

lemma look_upd_other: "(\<And>r. key (f r) = key r) \<Longrightarrow> k \<noteq> k' \<Longrightarrow> look k (upd k' f rs) = look k rs"
  by (simp add: look_upd)

lemma distinct_upd:
  assumes "\<And>r. key (f r) = key r" and "distinct (map key rs)"
  shows "distinct (map key (upd k f rs))"
  using assms by (simp add: keys_upd)

lemma length_upd: "(\<And>r. key (f r) = key r) \<Longrightarrow> length (upd k f rs) = length rs"
  using keys_upd by (metis length_map)

lemma upd_all:
  assumes "\<And>r. r \<in> set rs \<Longrightarrow> A r" and "\<And>r. r \<in> set rs \<Longrightarrow> key r = k \<Longrightarrow> A r \<Longrightarrow> A (f r)"
    and "r \<in> set (upd k f rs)"
  shows "A r"
  using upd_in [OF assms(3)] assms(1,2) by auto

end

text \<open>The generic implementation every table of the model uses.\<close>

definition upd_key :: "('r \<Rightarrow> 'k) \<Rightarrow> 'k \<Rightarrow> ('r \<Rightarrow> 'r) \<Rightarrow> 'r list \<Rightarrow> 'r list" where
  "upd_key key k f rs = update_where (\<lambda>r. key r = k) f rs"

definition look_key :: "('r \<Rightarrow> 'k) \<Rightarrow> 'k \<Rightarrow> 'r list \<Rightarrow> 'r option" where
  "look_key key k rs = find (\<lambda>r. key r = k) rs"

lemma look_key_Some: "look_key key k rs = Some r \<Longrightarrow> key r = k \<and> r \<in> set rs"
  by (auto simp: look_key_def find_Some_iff)

lemma look_key_upd_key:
  assumes "\<And>r. key (f r) = key r"
  shows "look_key key k (upd_key key k' f rs) =
    (if k = k' then map_option f (look_key key k rs) else look_key key k rs)"
  using assms by (induction rs) (auto simp: look_key_def upd_key_def)

lemma keys_upd_key: "(\<And>r. key (f r) = key r) \<Longrightarrow> map key (upd_key key k f rs) = map key rs"
  by (simp add: upd_key_def map_update_where)

lemma upd_key_in: "r \<in> set (upd_key key k f rs) \<Longrightarrow>
    (r \<in> set rs \<and> key r \<noteq> k) \<or> (\<exists>q \<in> set rs. key q = k \<and> r = f q)"
  by (auto simp: upd_key_def set_update_where split: if_splits)

lemma keyed_table_upd_key: "keyed_table key (upd_key key) (look_key key)"
  by unfold_locales (auto simp: look_key_upd_key keys_upd_key dest: look_key_Some upd_key_in)

end
