(* ===== verification/Floats.thy ===== *)
theory Floats
  imports Complex_Main Prelude
begin

text \<open>
  Python floats. A \<open>float\<close> is an IEEE binary64 value; every arithmetic operation returns the
  exact result rounded to nearest, ties to even. The model keeps the value as a rational and
  applies \<open>fl\<close>, the rounding, after each operation. The exponent is unbounded, so overflow and
  subnormals are outside the model: the quantities of this program (ratios of counts,
  percentages, milliseconds) never reach them. Infinity, which the planner uses, is the
  constructor \<open>PInf\<close> of \<open>xfloat\<close>.

  The lemmas: rounding is monotone, exact on integers below \<open>2 ^ 53\<close>, and keeps 0 and 1.
\<close>

definition round_half_even :: "rat \<Rightarrow> int" where
  "round_half_even x =
     (let f = \<lfloor>x\<rfloor>; d = x - of_int f in
      if d < 1 / 2 then f else if d > 1 / 2 then f + 1 else if even f then f else f + 1)"

function lg_up :: "rat \<Rightarrow> nat" where
  "lg_up x = (if x < 2 then 0 else Suc (lg_up (x / 2)))"
  by pat_completeness auto
termination
proof (relation "measure (\<lambda>x. nat \<lfloor>x\<rfloor>)")
  fix x :: rat
  assume "\<not> x < 2"
  then have "2 \<le> \<lfloor>x\<rfloor>" "\<lfloor>x / 2\<rfloor> < \<lfloor>x\<rfloor>"
    by (simp_all add: le_floor_iff floor_less_iff) linarith
  then show "(x / 2, x) \<in> measure (\<lambda>x. nat \<lfloor>x\<rfloor>)" by simp
qed simp

function lg_dn :: "rat \<Rightarrow> nat" where
  "lg_dn x = (if x \<le> 0 \<or> 1 \<le> x then 0 else Suc (lg_dn (2 * x)))"
  by pat_completeness auto
termination
proof (relation "measure (\<lambda>x. nat \<lfloor>1 / x\<rfloor>)")
  fix x :: rat
  assume "\<not> (x \<le> 0 \<or> 1 \<le> x)"
  then have x: "0 < x" "1 < 1 / x" by auto
  then have one: "1 \<le> \<lfloor>1 / x\<rfloor>" by (simp add: le_floor_iff)
  have "1 / (2 * x) = (1 / x) / 2" by simp
  moreover have "\<lfloor>y / 2\<rfloor> < \<lfloor>y\<rfloor>" if "1 \<le> \<lfloor>y\<rfloor>" for y :: rat
  proof -
    have lt: "y < of_int \<lfloor>y\<rfloor> + 1" by linarith
    have ge: "1 \<le> (of_int \<lfloor>y\<rfloor> :: rat)" using that by (metis of_int_1 of_int_le_iff)
    have "y / 2 < of_int \<lfloor>y\<rfloor>" using lt ge by linarith
    then show ?thesis by (simp add: floor_less_iff)
  qed
  ultimately show "(2 * x, x) \<in> measure (\<lambda>x. nat \<lfloor>1 / x\<rfloor>)" using one by (metis in_measure nat_mono_iff zero_less_one order_less_le_trans)
qed simp

declare lg_up.simps [simp del] lg_dn.simps [simp del]

definition ilog2 :: "rat \<Rightarrow> int" where
  "ilog2 x = (if 1 \<le> x then int (lg_up x) else - int (lg_dn x))"

definition pow2 :: "int \<Rightarrow> rat" where
  "pow2 e = (if 0 \<le> e then 2 ^ nat e else 1 / 2 ^ nat (- e))"

definition fl_pos :: "rat \<Rightarrow> rat" where
  "fl_pos x = (let u = pow2 (ilog2 x - 52) in of_int (round_half_even (x / u)) * u)"

definition fl :: "rat \<Rightarrow> rat" where
  "fl x = (if x = 0 then 0 else if x < 0 then - fl_pos (- x) else fl_pos x)"


section \<open>Rounding to an integer\<close>

lemma round_half_even_of_int [simp]: "round_half_even (of_int n) = n"
  by (simp add: round_half_even_def)

lemma round_half_even_bounds: "\<lfloor>x\<rfloor> \<le> round_half_even x" "round_half_even x \<le> \<lfloor>x\<rfloor> + 1"
  by (simp_all add: round_half_even_def Let_def)

lemma round_half_even_mono:
  assumes "x \<le> y"
  shows "round_half_even x \<le> round_half_even y"
proof -
  have le: "\<lfloor>x\<rfloor> \<le> \<lfloor>y\<rfloor>" using assms by (rule floor_mono)
  show ?thesis
  proof (cases "\<lfloor>x\<rfloor> = \<lfloor>y\<rfloor>")
    case True
    with assms show ?thesis by (auto simp: round_half_even_def Let_def)
  next
    case False
    with le have "\<lfloor>x\<rfloor> + 1 \<le> \<lfloor>y\<rfloor>" by simp
    then show ?thesis using round_half_even_bounds [of x] round_half_even_bounds [of y] by linarith
  qed
qed

lemma round_half_even_nonneg: "0 \<le> x \<Longrightarrow> 0 \<le> round_half_even x"
  using round_half_even_mono [of 0 x] round_half_even_of_int [of 0] by simp


section \<open>The binade of a positive rational\<close>

lemma pow2_pos [simp]: "0 < pow2 e"
  by (simp add: pow2_def)

lemma pow2_0 [simp]: "pow2 0 = 1"
  by (simp add: pow2_def)

lemma pow2_Suc: "pow2 (e + 1) = 2 * pow2 e"
proof (cases "0 \<le> e")
  case True
  then show ?thesis by (simp add: pow2_def nat_add_distrib)
next
  case False
  then have n: "nat (- e) = Suc (nat (- (e + 1)))" by simp
  show ?thesis using False by (cases "e = -1") (auto simp: pow2_def n)
qed

lemma pow2_add_nat: "pow2 (e + int n) = pow2 e * 2 ^ n"
proof (induction n)
  case (Suc n)
  have "pow2 (e + int (Suc n)) = pow2 ((e + int n) + 1)" by (simp add: algebra_simps)
  then show ?case using Suc pow2_Suc [of "e + int n"] by simp
qed simp

lemma pow2_mono: "d \<le> e \<Longrightarrow> pow2 d \<le> pow2 e"
  using pow2_add_nat [of d "nat (e - d)"] by simp

lemma lg_up_bounds: "1 \<le> x \<Longrightarrow> 2 ^ lg_up x \<le> x \<and> x < 2 * 2 ^ lg_up x"
proof (induction x rule: lg_up.induct)
  case (1 x)
  show ?case
  proof (cases "x < 2")
    case True
    with 1 show ?thesis by (simp add: lg_up.simps [of x])
  next
    case False
    with 1 show ?thesis by (simp add: lg_up.simps [of x])
  qed
qed

lemma lg_dn_bounds: "0 < x \<Longrightarrow> x < 1 \<Longrightarrow> 1 \<le> x * 2 ^ lg_dn x \<and> x * 2 ^ lg_dn x < 2"
proof (induction x rule: lg_dn.induct)
  case (1 x)
  show ?case
  proof (cases "2 * x < 1")
    case True
    with 1 have "1 \<le> 2 * x * 2 ^ lg_dn (2 * x) \<and> 2 * x * 2 ^ lg_dn (2 * x) < 2" by simp
    with 1 show ?thesis by (simp add: lg_dn.simps [of x] mult.commute mult.left_commute)
  next
    case False
    with 1 have "lg_dn (2 * x) = 0" by (simp add: lg_dn.simps [of "2 * x"])
    with 1 False show ?thesis by (simp add: lg_dn.simps [of x])
  qed
qed

lemma ilog2_bounds:
  assumes "0 < x"
  shows "pow2 (ilog2 x) \<le> x" "x < pow2 (ilog2 x + 1)"
proof -
  have "pow2 (ilog2 x) \<le> x \<and> x < 2 * pow2 (ilog2 x)"
  proof (cases "1 \<le> x")
    case True
    then show ?thesis using lg_up_bounds [of x] by (simp add: ilog2_def pow2_def)
  next
    case False
    then have lt: "x < 1" by simp
    have "pow2 (- int (lg_dn x)) = 1 / 2 ^ lg_dn x"
      by (cases "lg_dn x") (simp_all add: pow2_def nat_add_distrib)
    moreover have "1 / 2 ^ lg_dn x \<le> x" "x < 2 * (1 / 2 ^ lg_dn x)"
      using lg_dn_bounds [OF assms lt] by (simp_all add: field_simps)
    ultimately show ?thesis using False by (simp add: ilog2_def)
  qed
  then show "pow2 (ilog2 x) \<le> x" "x < pow2 (ilog2 x + 1)" by (simp_all add: pow2_Suc)
qed

lemma ilog2_mono:
  assumes "0 < x" "x \<le> y"
  shows "ilog2 x \<le> ilog2 y"
proof (rule ccontr)
  assume "\<not> ilog2 x \<le> ilog2 y"
  then have "pow2 (ilog2 y + 1) \<le> pow2 (ilog2 x)" by (intro pow2_mono) simp
  then show False using ilog2_bounds [of x] ilog2_bounds [of y] assms by linarith
qed


section \<open>Rounding to binary64\<close>

lemma fl_pos_le:
  assumes "0 < x" and "x / pow2 (ilog2 x - 52) \<le> of_int k"
  shows "fl_pos x \<le> of_int k * pow2 (ilog2 x - 52)"
proof -
  have "round_half_even (x / pow2 (ilog2 x - 52)) \<le> k"
    using round_half_even_mono [OF assms(2)] by simp
  then have "(of_int (round_half_even (x / pow2 (ilog2 x - 52))) :: rat) \<le> of_int k" by simp
  then show ?thesis by (simp add: fl_pos_def Let_def)
qed

lemma fl_pos_ge:
  assumes "0 < x" and "of_int k \<le> x / pow2 (ilog2 x - 52)"
  shows "of_int k * pow2 (ilog2 x - 52) \<le> fl_pos x"
proof -
  have "k \<le> round_half_even (x / pow2 (ilog2 x - 52))"
    using round_half_even_mono [OF assms(2)] by simp
  then have "(of_int k :: rat) \<le> of_int (round_half_even (x / pow2 (ilog2 x - 52)))" by simp
  then show ?thesis by (simp add: fl_pos_def Let_def)
qed

lemma pow2_ulp: "pow2 e = 2 ^ 52 * pow2 (e - 52)" "pow2 (e + 1) = 2 ^ 53 * pow2 (e - 52)"
  using pow2_add_nat [of "e - 52" 52] pow2_add_nat [of "e - 52" 53]
  by (simp_all add: mult.commute add.commute)

lemma fl_pos_binade:
  assumes "0 < x"
  shows "pow2 (ilog2 x) \<le> fl_pos x" "fl_pos x \<le> pow2 (ilog2 x + 1)"
proof -
  let ?u = "pow2 (ilog2 x - 52)"
  have "of_int (2 ^ 52) \<le> x / ?u"
    using ilog2_bounds(1) [OF assms] by (simp add: pow2_ulp(1) [of "ilog2 x"] field_simps)
  from fl_pos_ge [OF assms this] show "pow2 (ilog2 x) \<le> fl_pos x"
    by (simp add: pow2_ulp(1) [of "ilog2 x"])
  have "x \<le> 2 ^ 53 * ?u"
    using ilog2_bounds(2) [OF assms] unfolding pow2_ulp(2) [of "ilog2 x"] by simp
  then have "x / ?u \<le> of_int (2 ^ 53)" by (simp add: pos_divide_le_eq)
  from fl_pos_le [OF assms this] show "fl_pos x \<le> pow2 (ilog2 x + 1)"
    by (simp add: pow2_ulp(2) [of "ilog2 x"])
qed

lemma fl_pos_pos: "0 < x \<Longrightarrow> 0 < fl_pos x"
  using fl_pos_binade(1) [of x] pow2_pos [of "ilog2 x"] by linarith

lemma fl_pos_mono:
  assumes "0 < x" "x \<le> y"
  shows "fl_pos x \<le> fl_pos y"
proof (cases "ilog2 x = ilog2 y")
  case True
  let ?u = "pow2 (ilog2 x - 52)"
  have "round_half_even (x / ?u) \<le> round_half_even (y / ?u)"
    using assms by (intro round_half_even_mono divide_right_mono less_imp_le [OF pow2_pos])
  then show ?thesis using True by (simp add: fl_pos_def Let_def)
next
  case False
  with ilog2_mono [OF assms] have "pow2 (ilog2 x + 1) \<le> pow2 (ilog2 y)"
    by (intro pow2_mono) simp
  then show ?thesis
    using fl_pos_binade(2) [of x] fl_pos_binade(1) [of y] assms by linarith
qed

theorem fl_mono:
  assumes "x \<le> y"
  shows "fl x \<le> fl y"
proof -
  consider "y < 0" | "x < 0" "0 \<le> y" | "x = 0" "0 \<le> y" | "0 < x" using assms by linarith
  then show ?thesis
  proof cases
    case 1
    with assms fl_pos_mono [of "- y" "- x"] show ?thesis by (simp add: fl_def)
  next
    case 2
    with fl_pos_pos [of "- x"] fl_pos_pos [of y] show ?thesis by (auto simp: fl_def)
  next
    case 3
    with fl_pos_pos [of y] show ?thesis by (auto simp: fl_def)
  next
    case 4
    with assms fl_pos_mono [of x y] show ?thesis by (simp add: fl_def)
  qed
qed

lemma fl_0 [simp]: "fl 0 = 0"
  by (simp add: fl_def)

lemma fl_nonneg: "0 \<le> x \<Longrightarrow> 0 \<le> fl x"
  using fl_mono [of 0 x] by simp

lemma fl_pos_iff: "0 < fl x \<longleftrightarrow> 0 < x"
  using fl_pos_pos [of x] fl_pos_pos [of "- x"] by (auto simp: fl_def)

lemma ilog2_le_52:
  assumes "0 < n" "n \<le> 2 ^ 53 - 1"
  shows "ilog2 (of_int n) \<le> 52"
proof (rule ccontr)
  assume "\<not> ilog2 (of_int n) \<le> 52"
  then have "pow2 53 \<le> pow2 (ilog2 (of_int n))" by (intro pow2_mono) simp
  also have "\<dots> \<le> of_int n" using assms by (intro ilog2_bounds) simp
  finally have "(2 ^ 53 :: rat) \<le> of_int n" by (simp add: pow2_def)
  then have "(2 ^ 53 :: int) \<le> n" by (metis of_int_le_iff of_int_numeral of_int_power)
  with assms show False by simp
qed

lemma fl_of_pos_int:
  assumes "0 < n" "n \<le> 2 ^ 53 - 1"
  shows "fl (of_int n) = of_int n"
proof -
  define e where "e = ilog2 (of_int n)"
  have e: "e \<le> 52" using ilog2_le_52 [OF assms] by (simp add: e_def)
  have e': "0 \<le> e" using assms by (simp add: e_def ilog2_def)
  have "pow2 (e - 52) * 2 ^ nat (52 - e) = 1"
    using pow2_add_nat [of "e - 52" "nat (52 - e)"] e by simp
  moreover have "(a :: rat) / p = a * q" if "p * q = 1" for a p q
    using that by (metis divide_eq_eq mult.assoc mult.commute mult.right_neutral mult_zero_left
        zero_neq_one)
  ultimately have u: "of_int n / pow2 (e - 52) = of_int (n * 2 ^ nat (52 - e))"
    by simp
  have "fl (of_int n) = of_int (n * 2 ^ nat (52 - e)) * pow2 (e - 52)"
    using assms unfolding fl_def fl_pos_def Let_def e_def [symmetric] u round_half_even_of_int
    by simp
  also have "\<dots> = of_int n" using u pow2_pos [of "e - 52"]
    by (metis nonzero_eq_divide_eq order_less_irrefl)
  finally show ?thesis .
qed

theorem fl_of_int:
  assumes "\<bar>n\<bar> \<le> 2 ^ 53 - 1"
  shows "fl (of_int n) = of_int n"
proof -
  consider "n = 0" | "0 < n" | "n < 0" by linarith
  then show ?thesis
  proof cases
    case 3
    then have "fl (of_int (- n)) = of_int (- n)" using assms by (intro fl_of_pos_int) auto
    with 3 show ?thesis by (simp add: fl_def)
  qed (use assms fl_of_pos_int in auto)
qed

lemma fl_1 [simp]: "fl 1 = 1"
  using fl_of_int [of 1] by simp

lemma fl_100 [simp]: "fl 100 = 100"
  using fl_of_int [of 100] by simp


text \<open>The rounding error is at most one part in \<open>2 ^ 53\<close>; the lower half of that bound.\<close>

lemma round_half_even_lower: "x - 1 / 2 \<le> of_int (round_half_even x)"
proof -
  have "x < of_int \<lfloor>x\<rfloor> + 1" "of_int \<lfloor>x\<rfloor> \<le> x" by linarith+
  then show ?thesis by (auto simp: round_half_even_def Let_def)
qed

lemma fl_lower:
  assumes "0 \<le> x"
  shows "x * (1 - 1 / 2 ^ 53) \<le> fl x"
proof (cases "x = 0")
  case False
  with assms have x: "0 < x" by simp
  let ?u = "pow2 (ilog2 x - 52)"
  have u: "?u * 2 ^ 52 \<le> x" using ilog2_bounds(1) [OF x] by (simp add: pow2_ulp(1) [of "ilog2 x"] mult.commute)
  have "x / ?u - 1 / 2 \<le> of_int (round_half_even (x / ?u))" by (rule round_half_even_lower)
  then have "(x / ?u - 1 / 2) * ?u \<le> of_int (round_half_even (x / ?u)) * ?u"
    by (intro mult_right_mono) (auto intro: less_imp_le)
  moreover have "(x / ?u - 1 / 2) * ?u = x - ?u / 2"
    using less_imp_neq [OF pow2_pos [of "ilog2 x - 52"]] by (simp add: left_diff_distrib)
  ultimately have "x - ?u / 2 \<le> fl x" using x by (simp add: fl_def fl_pos_def Let_def)
  moreover have "?u / 2 \<le> x / 2 ^ 53" using u by (simp add: field_simps)
  ultimately show ?thesis by (simp add: right_diff_distrib)
qed simp


section \<open>Operations\<close>

text \<open>\<open>a / b\<close> on two Python ints (the true quotient, rounded once) and on floats.\<close>

definition fdiv :: "rat \<Rightarrow> rat \<Rightarrow> rat" where
  "fdiv a b = fl (a / b)"

definition fmul :: "rat \<Rightarrow> rat \<Rightarrow> rat" where
  "fmul a b = fl (a * b)"

definition fadd :: "rat \<Rightarrow> rat \<Rightarrow> rat" where
  "fadd a b = fl (a + b)"

definition fsub :: "rat \<Rightarrow> rat \<Rightarrow> rat" where
  "fsub a b = fl (a - b)"

lemma fdiv_mono: "0 < c \<Longrightarrow> a \<le> b \<Longrightarrow> fdiv a c \<le> fdiv b c"
  by (simp add: fdiv_def fl_mono divide_right_mono)

lemma fmul_mono: "0 \<le> c \<Longrightarrow> a \<le> b \<Longrightarrow> fmul a c \<le> fmul b c"
  by (simp add: fmul_def fl_mono mult_right_mono)

lemma fadd_mono: "a \<le> b \<Longrightarrow> c \<le> d \<Longrightarrow> fadd a c \<le> fadd b d"
  by (simp add: fadd_def fl_mono)

lemma fdiv_nonneg: "0 \<le> a \<Longrightarrow> 0 \<le> b \<Longrightarrow> 0 \<le> fdiv a b"
  by (simp add: fdiv_def fl_nonneg)

lemma fdiv_self: "a \<noteq> 0 \<Longrightarrow> fdiv a a = 1"
  by (simp add: fdiv_def)

text \<open>A ratio of counts is between 0 and 1, also after rounding.\<close>

lemma fdiv_ratio: "0 \<le> a \<Longrightarrow> a \<le> b \<Longrightarrow> 0 < b \<Longrightarrow> 0 \<le> fdiv a b \<and> fdiv a b \<le> 1"
  using fdiv_mono [of b a b] by (simp add: fdiv_nonneg fdiv_self)


section \<open>Floats with infinity\<close>

datatype xfloat = Fin rat | PInf

fun xless :: "xfloat \<Rightarrow> xfloat \<Rightarrow> bool" where
  "xless (Fin a) (Fin b) = (a < b)"
| "xless (Fin a) PInf = True"
| "xless PInf _ = False"

fun xadd :: "xfloat \<Rightarrow> xfloat \<Rightarrow> xfloat" where
  "xadd (Fin a) (Fin b) = Fin (fadd a b)"
| "xadd _ _ = PInf"

text \<open>Product with a positive finite factor.\<close>

fun xscale :: "rat \<Rightarrow> xfloat \<Rightarrow> xfloat" where
  "xscale p (Fin a) = Fin (fmul p a)"
| "xscale p PInf = PInf"

text \<open>Quotient by a positive finite divisor.\<close>

fun xdiv :: "xfloat \<Rightarrow> rat \<Rightarrow> xfloat" where
  "xdiv (Fin a) p = Fin (fdiv a p)"
| "xdiv PInf p = PInf"

lemma xless_irrefl [simp]: "\<not> xless a a"
  by (cases a) auto

lemma xless_trans: "xless a b \<Longrightarrow> xless b c \<Longrightarrow> xless a c"
  by (cases a; cases b; cases c) auto

lemma xless_linear: "\<not> xless a b \<Longrightarrow> xless b a \<or> a = b"
  by (cases a; cases b) auto

end
