(* ===== verification/Json.thy ===== *)
theory Json
  imports Floats
begin

text \<open>
  JSON values as Python sees them after \<open>json.loads\<close>. Objects are association lists in document
  order. \<open>jget\<close> is \<open>d.get(k)\<close> on an object, \<open>jtruthy\<close> Python's truth test, \<open>py_eq\<close> Python's
  \<open>==\<close>, under which \<open>True\<close> equals 1 and an integer equals a float of the same value.
\<close>

datatype json =
    JNull
  | JBool bool
  | JInt int
  | JFloat rat
  | JStr string
  | JList "json list"
  | JObj "(string \<times> json) list"

definition jget :: "string \<Rightarrow> (string \<times> json) list \<Rightarrow> json" where
  "jget k d = (case map_of d k of None \<Rightarrow> JNull | Some v \<Rightarrow> v)"

definition jget_or :: "string \<Rightarrow> json \<Rightarrow> (string \<times> json) list \<Rightarrow> json" where
  "jget_or k v d = (case map_of d k of None \<Rightarrow> v | Some w \<Rightarrow> w)"

fun jtruthy :: "json \<Rightarrow> bool" where
  "jtruthy JNull = False"
| "jtruthy (JBool b) = b"
| "jtruthy (JInt i) = (i \<noteq> 0)"
| "jtruthy (JFloat r) = (r \<noteq> 0)"
| "jtruthy (JStr s) = (s \<noteq> [])"
| "jtruthy (JList xs) = (xs \<noteq> [])"
| "jtruthy (JObj d) = (d \<noteq> [])"

text \<open>The number a value compares as: \<open>bool\<close> is a subclass of \<open>int\<close>.\<close>

fun jnum :: "json \<Rightarrow> rat option" where
  "jnum (JBool b) = Some (if b then 1 else 0)"
| "jnum (JInt i) = Some (of_int i)"
| "jnum (JFloat r) = Some r"
| "jnum _ = None"

definition py_eq :: "json \<Rightarrow> json \<Rightarrow> bool" where
  "py_eq a b = (case (jnum a, jnum b) of
      (Some x, Some y) \<Rightarrow> x = y
    | _ \<Rightarrow> a = b)"

lemma jget_Nil [simp]: "jget k [] = JNull"
  by (simp add: jget_def)

lemma jget_Cons [simp]: "jget k ((k', v) # d) = (if k = k' then v else jget k d)"
  by (simp add: jget_def)

lemma jget_or_Nil [simp]: "jget_or k v [] = v"
  by (simp add: jget_or_def)

lemma jget_or_Cons [simp]: "jget_or k v ((k', w) # d) = (if k = k' then w else jget_or k v d)"
  by (simp add: jget_or_def)

lemma py_eq_refl [simp]: "py_eq a a"
  by (cases a) (simp_all add: py_eq_def)

lemma py_eq_sym: "py_eq a b \<Longrightarrow> py_eq b a"
  by (auto simp: py_eq_def split: option.splits)

end
