(* ===== verification/OTA_Types.thy ===== *)
theory OTA_Types
  imports Json "HOL-Library.List_Lexorder" "HOL-Library.Char_ord"
begin

text \<open>
  The data of nff-ota (\<open>src/observability/nff-ota/nff_ota/\<close>): the statuses, the rows of the
  tables the service reads and writes, its settings and the context an operation runs in.

  Every operation of nff-ota is a function of a \<open>ctx\<close> (clock, settings, the answers of the
  services it calls) and a \<open>db\<close>, and returns its result with the database it leaves.
  Identifiers made by \<open>uuid4\<close> are numbers taken from the counter \<open>db_next\<close>.
  A job's \<open>deployment_id\<close> is always present: rows written before deployments existed are not
  modelled.
\<close>

section \<open>Statuses\<close>

datatype device_status = DPending | DPreauthorized | DAccepted | DRejected | DDecommissioned

datatype dep_status = Scheduled | Active | Paused | Finished | Aborted

datatype job_status =
    JPending | JDownloading | JVerifying | JInstalling | JRebooting | JCommitted | JSuccess
  | JAlreadyInstalled | JFailure | JRolledBack | JAborted | JTimedOut | JDecommissioned

fun device_status_name :: "device_status \<Rightarrow> string" where
  "device_status_name DPending = ''pending''"
| "device_status_name DPreauthorized = ''preauthorized''"
| "device_status_name DAccepted = ''accepted''"
| "device_status_name DRejected = ''rejected''"
| "device_status_name DDecommissioned = ''decommissioned''"

fun dep_status_name :: "dep_status \<Rightarrow> string" where
  "dep_status_name Scheduled = ''scheduled''"
| "dep_status_name Active = ''active''"
| "dep_status_name Paused = ''paused''"
| "dep_status_name Finished = ''finished''"
| "dep_status_name Aborted = ''aborted''"

fun job_status_name :: "job_status \<Rightarrow> string" where
  "job_status_name JPending = ''pending''"
| "job_status_name JDownloading = ''downloading''"
| "job_status_name JVerifying = ''verifying''"
| "job_status_name JInstalling = ''installing''"
| "job_status_name JRebooting = ''rebooting''"
| "job_status_name JCommitted = ''committed''"
| "job_status_name JSuccess = ''success''"
| "job_status_name JAlreadyInstalled = ''already-installed''"
| "job_status_name JFailure = ''failure''"
| "job_status_name JRolledBack = ''rolled_back''"
| "job_status_name JAborted = ''aborted''"
| "job_status_name JTimedOut = ''timed_out''"
| "job_status_name JDecommissioned = ''decommissioned''"

lemma device_status_name_inject: "device_status_name a = device_status_name b \<longleftrightarrow> a = b"
  by (cases a; cases b) simp_all

lemma dep_status_name_inject: "dep_status_name a = dep_status_name b \<longleftrightarrow> a = b"
  by (cases a; cases b) simp_all

lemma job_status_name_inject: "job_status_name a = job_status_name b \<longleftrightarrow> a = b"
  by (cases a; cases b) simp_all

text \<open>\<open>_TERMINAL_DD\<close>, \<open>_FAILED_DD\<close>, \<open>_TERMINAL_DEP\<close> and \<open>_NO_FINISH_DEP\<close>.\<close>

definition terminal_dd :: "job_status list" where
  "terminal_dd = [JSuccess, JAlreadyInstalled, JAborted, JDecommissioned, JFailure, JTimedOut]"

definition failed_dd :: "job_status list" where
  "failed_dd = [JFailure, JTimedOut]"

definition terminal_dep :: "dep_status list" where
  "terminal_dep = [Finished, Aborted]"

definition no_finish_dep :: "dep_status list" where
  "no_finish_dep = terminal_dep @ [Paused]"

abbreviation job_terminal :: "job_status \<Rightarrow> bool" where
  "job_terminal s \<equiv> s \<in> set terminal_dd"

abbreviation job_failed :: "job_status \<Rightarrow> bool" where
  "job_failed s \<equiv> s \<in> set failed_dd"

abbreviation dep_terminal :: "dep_status \<Rightarrow> bool" where
  "dep_terminal s \<equiv> s \<in> set terminal_dep"


section \<open>Rows\<close>

text \<open>Why a deployment was paused: the supervisor's auto-halt or the rate limit.\<close>

datatype halt_reason =
    AutoHalt nat int int int rat \<comment> \<open>phase, its percentage, failures, released, threshold\<close>
  | RateLimited nat rat \<comment> \<open>devices held back, window in seconds\<close>

record device_row =
  d_id :: string
  d_name :: string
  d_conn :: string
  d_agent :: bool
  d_identity :: "(string \<times> string) list"
  d_key :: "string option"
  d_status :: device_status
  d_tags :: "string list"
  d_current :: "string option"
  d_firmware :: "string option"
  d_type :: "string option"
  d_project :: "uuid option"
  d_created :: time

record fw_row =
  f_version :: string
  f_storage :: "string option"
  f_checksum :: "string option"
  f_types :: "string list"
  f_release :: "string option"
  f_build :: "string option"
  f_size :: "int option"

record group_row =
  g_id :: uuid
  g_name :: string
  g_filter :: "(string \<times> string) list"
  g_project :: "uuid option"
  g_created :: time

record dep_row =
  p_id :: uuid
  p_name :: string
  p_target :: string
  p_group :: uuid
  p_project :: "uuid option"
  p_status :: dep_status
  p_max :: int
  p_retries :: int
  p_created :: time
  p_start :: "time option"
  p_phases :: "string option"
  p_phase :: nat
  p_entered :: "time option"
  p_threshold :: "rat option"
  p_soak :: int
  p_halted :: "halt_reason option"
  p_override :: bool

record job_row =
  j_id :: uuid
  j_dep :: uuid
  j_device :: string
  j_project :: "uuid option"
  j_from :: string
  j_target :: string
  j_status :: job_status
  j_progress :: int
  j_attempts :: int
  j_wave :: nat
  j_started :: time
  j_updated :: time
  j_completed :: "time option"
  j_reason :: "string option"

record project_row =
  pr_id :: uuid
  pr_rate_limit :: "rat option"
  pr_demo :: bool
  pr_pool :: bool

record run_row =
  r_id :: uuid
  r_dep :: uuid
  r_conn :: "uuid option"
  r_sha :: "string option"

record conn_row =
  c_id :: uuid
  c_project :: uuid
  c_repo :: string


section \<open>Messages to the agent\<close>

text \<open>
  The content of an \<open>agent_messages\<close> row: the data its text is made of. \<open>Playbook\<close> carries the
  repository the fix goes to, if one is connected; \<open>RepoCtx\<close> the repository, commit and run.
\<close>

datatype repo_ctx = RepoCtx string string uuid

datatype playbook = Playbook "string list" "string option"

record prompt =
  m_deployment :: uuid
  m_name :: string
  m_target :: string
  m_group :: uuid
  m_started :: time
  m_final :: dep_status
  m_halted :: "halt_reason option"
  m_counts :: "(job_status \<times> nat) list"
  m_total :: nat
  m_listed :: "(string \<times> string) list"
  m_overflow :: int
  m_phases :: "(string \<times> nat) option"
  m_repo :: "repo_ctx option"
  m_summary_only :: bool
  m_playbook :: "playbook option"

record message_row =
  a_id :: uuid
  a_project :: uuid
  a_content :: prompt
  a_ts :: time


section \<open>Database, settings, context\<close>

record db =
  db_devices :: "device_row list"
  db_groups :: "group_row list"
  db_members :: "(uuid \<times> string) list"
  db_fws :: "fw_row list"
  db_deps :: "dep_row list"
  db_jobs :: "job_row list"
  db_projects :: "project_row list"
  db_runs :: "run_row list"
  db_conns :: "conn_row list"
  db_messages :: "message_row list"
  db_emit :: "uuid \<Rightarrow> rat option" \<comment> \<open>\<open>_last_emit\<close>, process memory\<close>
  db_next :: uuid

record settings =
  s_confirm_threshold :: nat
  s_rate_limit :: rat
  s_download_timeout :: rat
  s_default_threshold :: rat
  s_agent_on_finish :: bool
  s_skip_demo :: bool
  s_cooldown :: rat
  s_fleet_url :: string
  s_fleet_secret :: string
  s_fleet_timeout :: rat
  s_esp_gate :: bool
  s_esp_min :: nat
  s_trusted_key :: string
  s_fix_stale :: rat
  s_fix_max :: nat

text \<open>
  \<open>cx_url\<close> is storage's \<open>create_signed_url\<close> (\<open>None\<close>: it raised) and \<open>cx_post\<close> the HTTP call to
  nff-fleet. Both are services outside this program.
\<close>

datatype post_outcome =
    TransportError string
  | Response nat "(string \<times> json) list + string" \<comment> \<open>status code; JSON object, or text that is not JSON\<close>

record command =
  cmd_device :: string
  cmd_project :: uuid
  cmd_payload :: "(string \<times> json) list"
  cmd_timeout :: rat

record ctx =
  cx_now :: time
  cx_mono :: rat
  cx_set :: settings
  cx_url :: "string \<Rightarrow> string option"
  cx_post :: "command \<Rightarrow> post_outcome"

text \<open>\<open>timedelta(seconds=x)\<close> in microseconds.\<close>

definition seconds :: "rat \<Rightarrow> int" where
  "seconds x = round_half_even (x * 1000000)"

lemma seconds_0 [simp]: "seconds 0 = 0"
  using round_half_even_of_int [of 0] by (simp add: seconds_def)

lemma seconds_mono: "x \<le> y \<Longrightarrow> seconds x \<le> seconds y"
  by (simp add: seconds_def round_half_even_mono)

lemma seconds_nonneg: "0 \<le> x \<Longrightarrow> 0 \<le> seconds x"
  using seconds_mono [of 0 x] by simp


section \<open>Updates and lookups by key\<close>

abbreviation dep_of :: "uuid \<Rightarrow> db \<Rightarrow> dep_row option" where
  "dep_of i s \<equiv> look_key p_id i (db_deps s)"

abbreviation job_of :: "uuid \<Rightarrow> db \<Rightarrow> job_row option" where
  "job_of i s \<equiv> look_key j_id i (db_jobs s)"

abbreviation device_of :: "string \<Rightarrow> db \<Rightarrow> device_row option" where
  "device_of i s \<equiv> look_key d_id i (db_devices s)"

abbreviation group_of :: "uuid \<Rightarrow> db \<Rightarrow> group_row option" where
  "group_of i s \<equiv> look_key g_id i (db_groups s)"

abbreviation fw_of :: "string \<Rightarrow> db \<Rightarrow> fw_row option" where
  "fw_of v s \<equiv> look_key f_version v (db_fws s)"

definition upd_dep :: "uuid \<Rightarrow> (dep_row \<Rightarrow> dep_row) \<Rightarrow> db \<Rightarrow> db" where
  "upd_dep i f s = s\<lparr>db_deps := upd_key p_id i f (db_deps s)\<rparr>"

definition upd_job :: "uuid \<Rightarrow> (job_row \<Rightarrow> job_row) \<Rightarrow> db \<Rightarrow> db" where
  "upd_job i f s = s\<lparr>db_jobs := upd_key j_id i f (db_jobs s)\<rparr>"

definition upd_device :: "string \<Rightarrow> (device_row \<Rightarrow> device_row) \<Rightarrow> db \<Rightarrow> db" where
  "upd_device i f s = s\<lparr>db_devices := upd_key d_id i f (db_devices s)\<rparr>"

definition jobs_of :: "uuid \<Rightarrow> db \<Rightarrow> job_row list" where
  "jobs_of i s = filter (\<lambda>j. j_dep j = i) (db_jobs s)"

definition fresh_uuid :: "db \<Rightarrow> uuid \<times> db" where
  "fresh_uuid s = (db_next s, s\<lparr>db_next := Suc (db_next s)\<rparr>)"

interpretation dept: keyed_table p_id "upd_key p_id" "look_key p_id"
  by (rule keyed_table_upd_key)

interpretation jobt: keyed_table j_id "upd_key j_id" "look_key j_id"
  by (rule keyed_table_upd_key)

interpretation devt: keyed_table d_id "upd_key d_id" "look_key d_id"
  by (rule keyed_table_upd_key)

lemma upd_dep_frame [simp, row_simps]:
  "db_jobs (upd_dep i f s) = db_jobs s" "db_devices (upd_dep i f s) = db_devices s"
  "db_groups (upd_dep i f s) = db_groups s" "db_members (upd_dep i f s) = db_members s"
  "db_fws (upd_dep i f s) = db_fws s" "db_projects (upd_dep i f s) = db_projects s"
  "db_runs (upd_dep i f s) = db_runs s" "db_conns (upd_dep i f s) = db_conns s"
  "db_messages (upd_dep i f s) = db_messages s" "db_emit (upd_dep i f s) = db_emit s"
  "db_next (upd_dep i f s) = db_next s"
  by (simp_all add: upd_dep_def)

lemma upd_job_frame [simp, row_simps]:
  "db_deps (upd_job i f s) = db_deps s" "db_devices (upd_job i f s) = db_devices s"
  "db_groups (upd_job i f s) = db_groups s" "db_members (upd_job i f s) = db_members s"
  "db_fws (upd_job i f s) = db_fws s" "db_projects (upd_job i f s) = db_projects s"
  "db_runs (upd_job i f s) = db_runs s" "db_conns (upd_job i f s) = db_conns s"
  "db_messages (upd_job i f s) = db_messages s" "db_emit (upd_job i f s) = db_emit s"
  "db_next (upd_job i f s) = db_next s"
  by (simp_all add: upd_job_def)

lemma upd_device_frame [simp, row_simps]:
  "db_deps (upd_device i f s) = db_deps s" "db_jobs (upd_device i f s) = db_jobs s"
  "db_groups (upd_device i f s) = db_groups s" "db_members (upd_device i f s) = db_members s"
  "db_fws (upd_device i f s) = db_fws s" "db_projects (upd_device i f s) = db_projects s"
  "db_runs (upd_device i f s) = db_runs s" "db_conns (upd_device i f s) = db_conns s"
  "db_messages (upd_device i f s) = db_messages s" "db_emit (upd_device i f s) = db_emit s"
  "db_next (upd_device i f s) = db_next s"
  by (simp_all add: upd_device_def)

lemma dep_of_upd_dep:
  assumes "\<And>r. p_id (f r) = p_id r"
  shows "dep_of i (upd_dep i' f s) = (if i = i' then map_option f (dep_of i s) else dep_of i s)"
  using dept.look_upd [of f i i' "db_deps s"] assms by (simp add: upd_dep_def)

lemma job_of_upd_job:
  assumes "\<And>r. j_id (f r) = j_id r"
  shows "job_of i (upd_job i' f s) = (if i = i' then map_option f (job_of i s) else job_of i s)"
  using jobt.look_upd [of f i i' "db_jobs s"] assms by (simp add: upd_job_def)

lemma device_of_upd_device:
  assumes "\<And>r. d_id (f r) = d_id r"
  shows "device_of i (upd_device i' f s) =
    (if i = i' then map_option f (device_of i s) else device_of i s)"
  using devt.look_upd [of f i i' "db_devices s"] assms by (simp add: upd_device_def)

lemma jobs_of_upd_dep [simp]: "jobs_of i (upd_dep k f s) = jobs_of i s"
  by (simp add: jobs_of_def)

lemma jobs_of_upd_device [simp]: "jobs_of i (upd_device k f s) = jobs_of i s"
  by (simp add: jobs_of_def)

lemma fresh_uuid_simps [simp]:
  "fst (fresh_uuid s) = db_next s" "snd (fresh_uuid s) = s\<lparr>db_next := Suc (db_next s)\<rparr>"
  by (simp_all add: fresh_uuid_def)

end
