(* ===== verification/Transitions.thy ===== *)
theory Transitions
  imports OTA_Types
begin

text \<open>
  \<open>nff_ota/transitions.py\<close>: the three registries of legal status changes and
  \<open>validate_transition\<close>, which every operation that moves a status asks first. The registries are
  the source's dictionaries of strings; a typed edge relation abstracts each of them and the
  refinement lemmas show that the check on names decides exactly those edges.

  The locale \<open>status_machine\<close> states what a registry promises, terminal statuses have no way out,
  and is interpreted on the three registries.
\<close>

type_synonym registry = "(string \<times> string list) list"

datatype transition_error =
    UnknownEntity string
  | IllegalTransition string string string "string list"

definition device_transitions :: registry where
  "device_transitions = [
     (''pending'', [''accepted'', ''rejected'']),
     (''preauthorized'', [''accepted'']),
     (''accepted'', [''rejected'', ''decommissioned'']),
     (''rejected'', [''accepted'']),
     (''decommissioned'', [])]"

definition deployment_transitions :: registry where
  "deployment_transitions = [
     (''scheduled'', [''active'', ''aborted'']),
     (''active'', [''paused'', ''finished'', ''aborted'']),
     (''paused'', [''active'', ''aborted'']),
     (''finished'', []),
     (''aborted'', [])]"

definition device_deployment_transitions :: registry where
  "device_deployment_transitions = [
     (''pending'', [''downloading'', ''aborted'', ''decommissioned'']),
     (''downloading'', [''installing'', ''failure'', ''aborted'']),
     (''installing'', [''rebooting'', ''failure'', ''aborted'']),
     (''rebooting'', [''success'', ''failure'', ''aborted'']),
     (''success'', []),
     (''failure'', [''pending'']),
     (''already-installed'', []),
     (''aborted'', []),
     (''decommissioned'', [])]"

definition registries :: "(string \<times> registry) list" where
  "registries = [
     (''device'', device_transitions),
     (''deployment'', deployment_transitions),
     (''device_deployment'', device_deployment_transitions)]"

definition validate_transition :: "string \<Rightarrow> string \<Rightarrow> string \<Rightarrow> transition_error + unit" where
  "validate_transition entity current target =
     (case map_of registries entity of
        None \<Rightarrow> Inl (UnknownEntity entity)
      | Some registry \<Rightarrow>
          (let allowed = (case map_of registry current of None \<Rightarrow> [] | Some ts \<Rightarrow> ts) in
           if target \<in> set allowed then Inr ()
           else Inl (IllegalTransition entity current target (sort allowed))))"


section \<open>Typed edges\<close>

fun device_edge :: "device_status \<Rightarrow> device_status \<Rightarrow> bool" where
  "device_edge DPending t = (t = DAccepted \<or> t = DRejected)"
| "device_edge DPreauthorized t = (t = DAccepted)"
| "device_edge DAccepted t = (t = DRejected \<or> t = DDecommissioned)"
| "device_edge DRejected t = (t = DAccepted)"
| "device_edge DDecommissioned t = False"

fun dep_edge :: "dep_status \<Rightarrow> dep_status \<Rightarrow> bool" where
  "dep_edge Scheduled t = (t = Active \<or> t = Aborted)"
| "dep_edge Active t = (t = Paused \<or> t = Finished \<or> t = Aborted)"
| "dep_edge Paused t = (t = Active \<or> t = Aborted)"
| "dep_edge Finished t = False"
| "dep_edge Aborted t = False"

fun job_edge :: "job_status \<Rightarrow> job_status \<Rightarrow> bool" where
  "job_edge JPending t = (t = JDownloading \<or> t = JAborted \<or> t = JDecommissioned)"
| "job_edge JDownloading t = (t = JInstalling \<or> t = JFailure \<or> t = JAborted)"
| "job_edge JInstalling t = (t = JRebooting \<or> t = JFailure \<or> t = JAborted)"
| "job_edge JRebooting t = (t = JSuccess \<or> t = JFailure \<or> t = JAborted)"
| "job_edge JFailure t = (t = JPending)"
| "job_edge _ t = False"

definition device_ok :: "device_status \<Rightarrow> device_status \<Rightarrow> transition_error + unit" where
  "device_ok a b = validate_transition ''device'' (device_status_name a) (device_status_name b)"

definition dep_ok :: "dep_status \<Rightarrow> dep_status \<Rightarrow> transition_error + unit" where
  "dep_ok a b = validate_transition ''deployment'' (dep_status_name a) (dep_status_name b)"

definition job_ok :: "job_status \<Rightarrow> job_status \<Rightarrow> transition_error + unit" where
  "job_ok a b = validate_transition ''device_deployment'' (job_status_name a) (job_status_name b)"

lemmas registry_defs =
  validate_transition_def registries_def device_transitions_def deployment_transitions_def
  device_deployment_transitions_def

lemma device_ok_iff: "device_ok a b = Inr () \<longleftrightarrow> device_edge a b"
  by (cases a; cases b) (simp_all add: device_ok_def registry_defs Let_def)

lemma dep_ok_iff: "dep_ok a b = Inr () \<longleftrightarrow> dep_edge a b"
  by (cases a; cases b) (simp_all add: dep_ok_def registry_defs Let_def)

lemma job_ok_iff: "job_ok a b = Inr () \<longleftrightarrow> job_edge a b"
  by (cases a; cases b) (simp_all add: job_ok_def registry_defs Let_def)

lemma ok_error: "x \<noteq> Inr () \<Longrightarrow> \<exists>e. x = Inl e" for x :: "transition_error + unit"
  by (cases x) auto

text \<open>The case split every guarded operation makes.\<close>

lemma dep_ok_cases:
  obtains "dep_edge a b" "dep_ok a b = Inr ()" | e where "\<not> dep_edge a b" "dep_ok a b = Inl e"
  using dep_ok_iff [of a b] by (cases "dep_ok a b") auto

lemma job_ok_cases:
  obtains "job_edge a b" "job_ok a b = Inr ()" | e where "\<not> job_edge a b" "job_ok a b = Inl e"
  using job_ok_iff [of a b] by (cases "job_ok a b") auto

lemma device_ok_cases:
  obtains "device_edge a b" "device_ok a b = Inr ()"
  | e where "\<not> device_edge a b" "device_ok a b = Inl e"
  using device_ok_iff [of a b] by (cases "device_ok a b") auto


section \<open>Status machines\<close>

locale status_machine =
  fixes edge :: "'s \<Rightarrow> 's \<Rightarrow> bool"
    and final :: "'s \<Rightarrow> bool"
  assumes final_stuck: "final s \<Longrightarrow> \<not> edge s t"
    and edge_changes: "edge s t \<Longrightarrow> s \<noteq> t"
begin

lemma final_absorbing:
  assumes "edge\<^sup>*\<^sup>* s t" and "final s"
  shows "t = s"
  using assms by (induction rule: converse_rtranclp_induct) (auto dest: final_stuck)

lemma final_fold:
  assumes "final s" and "\<And>s' t. t \<in> set ts \<Longrightarrow> step s' t = (if edge s' t then t else s')"
  shows "foldl step s ts = s"
  using assms by (induction ts) (auto dest: final_stuck)

end

interpretation device_machine: status_machine device_edge "\<lambda>s. s = DDecommissioned"
proof
  show "\<not> device_edge s t" if "s = DDecommissioned" for s t using that by simp
  show "s \<noteq> t" if "device_edge s t" for s t using that by (cases s) auto
qed

interpretation dep_machine: status_machine dep_edge dep_terminal
proof
  show "\<not> dep_edge s t" if "dep_terminal s" for s t
    using that by (cases s) (auto simp: terminal_dep_def)
  show "s \<noteq> t" if "dep_edge s t" for s t using that by (cases s) auto
qed

interpretation job_machine: status_machine job_edge "\<lambda>s. job_terminal s \<and> s \<noteq> JFailure"
proof
  show "\<not> job_edge s t" if "job_terminal s \<and> s \<noteq> JFailure" for s t
    using that by (cases s) (auto simp: terminal_dd_def)
  show "s \<noteq> t" if "job_edge s t" for s t using that by (cases s) auto
qed

text \<open>
  A run of requested status changes: each request is checked with \<open>validate_transition\<close> and
  dropped when it is refused, as every caller does.
\<close>

definition request_dep :: "dep_status \<Rightarrow> dep_status \<Rightarrow> dep_status" where
  "request_dep s t = (case dep_ok s t of Inr _ \<Rightarrow> t | Inl _ \<Rightarrow> s)"

lemma request_dep_edge: "request_dep s t = (if dep_edge s t then t else s)"
  by (cases rule: dep_ok_cases [of s t]) (simp_all add: request_dep_def)

lemma request_dep_final: "dep_terminal s \<Longrightarrow> foldl request_dep s ts = s"
  by (rule dep_machine.final_fold) (simp_all add: request_dep_edge)

text \<open>
  Terminal statuses are absorbing. A refused request leaves the status alone, so once a
  deployment is finished or aborted no sequence of requests ever moves it; and the check on status
  names accepts a change exactly when it is an edge of the typed machine, for all three registries.
\<close>

theorem transitions_exact_and_absorbing:
  "(device_ok a b = Inr () \<longleftrightarrow> device_edge a b) \<and>
   (dep_ok c d = Inr () \<longleftrightarrow> dep_edge c d) \<and>
   (job_ok e f = Inr () \<longleftrightarrow> job_edge e f) \<and>
   foldl request_dep Finished ts = Finished \<and> foldl request_dep Aborted ts = Aborted"
  using request_dep_final [of Finished ts] request_dep_final [of Aborted ts]
  by (simp add: device_ok_iff dep_ok_iff job_ok_iff terminal_dep_def)

end
