(* ===== verification/Phases.thy ===== *)
theory Phases
  imports OTA_Types "HOL-Library.Multiset"
begin

text \<open>
  The pure helpers of phased rollouts: the \<open>phases\<close> validator of \<open>models/deployment.py\<close>, and
  \<open>_parse_phases\<close>, \<open>_assign_waves\<close> and \<open>_phase_decision\<close> of \<open>tools/deployments/ops.py\<close>, with
  the float arithmetic of the percentage rounded as binary64 does it.
\<close>

datatype phases_error = PhasesEmpty | PhaseOutOfRange | PhasesNotAscending | LastPhaseNot100

definition check_phases :: "int list option \<Rightarrow> phases_error + int list option" where
  "check_phases v = (case v of
      None \<Rightarrow> Inr None
    | Some ps \<Rightarrow>
        if ps = [] then Inl PhasesEmpty
        else if list_ex (\<lambda>p. p \<le> 0 \<or> p > 100) ps then Inl PhaseOutOfRange
        else if list_ex (\<lambda>i. ps ! i \<ge> ps ! (i + 1)) [0..<length ps - 1] then Inl PhasesNotAscending
        else if last ps \<noteq> 100 then Inl LastPhaseNot100
        else Inr (Some ps))"

definition phases_csv :: "int list option \<Rightarrow> string option" where
  "phases_csv v = (case v of
      None \<Rightarrow> None
    | Some ps \<Rightarrow> if ps = [] then None else Some (join '','' (map show_int ps)))"

definition parse_phases :: "string option \<Rightarrow> int list option" where
  "parse_phases raw = (case raw of
      None \<Rightarrow> None
    | Some s \<Rightarrow>
        if s = [] then None
        else (case those (map py_int (filter (\<lambda>p. strip p \<noteq> []) (split_on (CHR '','') s))) of
            None \<Rightarrow> None
          | Some ps \<Rightarrow> if ps = [] then None else Some ps))"

definition covered :: "nat \<Rightarrow> nat \<Rightarrow> rat" where
  "covered idx n = fmul (fdiv (of_nat (idx + 1)) (of_nat n)) 100"

fun wave_at :: "rat \<Rightarrow> int list \<Rightarrow> nat \<Rightarrow> nat \<Rightarrow> nat" where
  "wave_at c [] w last_wave = last_wave"
| "wave_at c (pct # ps) w last_wave =
     (if c \<le> of_int pct then w else wave_at c ps (Suc w) last_wave)"

definition assign_waves :: "string list \<Rightarrow> int list option \<Rightarrow> (string \<times> nat) list" where
  "assign_waves device_ids phases = (case phases of
      None \<Rightarrow> map (\<lambda>d. (d, 0)) device_ids
    | Some ps \<Rightarrow>
        if ps = [] then map (\<lambda>d. (d, 0)) device_ids
        else
          (let ordered = sort device_ids; n = length ordered; last_wave = length ps - 1 in
           map (\<lambda>(idx, dev). (dev, wave_at (covered idx n) ps 0 last_wave))
             (enumerate 0 ordered)))"

text \<open>\<open>waves.get(dev, 0)\<close>; in a Python dict the last binding of a key is the one that counts.\<close>

definition wave_for :: "(string \<times> nat) list \<Rightarrow> string \<Rightarrow> nat" where
  "wave_for waves d = (case map_of (rev waves) d of None \<Rightarrow> 0 | Some w \<Rightarrow> w)"

datatype decision = Halt | Advance | Wait

definition phase_decision :: "nat \<Rightarrow> nat \<Rightarrow> nat \<Rightarrow> bool \<Rightarrow> bool \<Rightarrow> rat \<Rightarrow> decision" where
  "phase_decision released_total failures non_terminal soak_elapsed is_last_phase failure_threshold =
     (if released_total \<le> 0 then Wait
      else if fdiv (of_nat failures) (of_nat released_total) > failure_threshold then Halt
      else if non_terminal = 0 \<and> soak_elapsed \<and> \<not> is_last_phase then Advance
      else Wait)"


section \<open>The stored form of the phases\<close>

lemma those_map_Some: "(\<And>x. x \<in> set xs \<Longrightarrow> f x = Some (g x)) \<Longrightarrow> those (map f xs) = Some (map g xs)"
  by (induction xs) auto

lemma parse_phases_csv:
  assumes "ps \<noteq> []"
  shows "parse_phases (phases_csv (Some ps)) = Some ps"
proof -
  let ?s = "join '','' (map show_int ps)"
  have sp: "split_on (CHR '','') ?s = map show_int ps"
    by (rule split_on_join) (use assms show_int_no_sep in auto)
  have strip: "strip (show_int p) \<noteq> []" for p
    using strip_no_space [of "show_int p"] show_int_no_space by fastforce
  have ne: "?s \<noteq> []"
    using assms by (cases ps; cases "tl ps") auto
  have "those (map py_int (map show_int ps)) = Some ps"
    using those_map_Some [of ps "\<lambda>p. py_int (show_int p)" "\<lambda>p. p"]
    by (simp add: py_int_show_int o_def)
  moreover have "filter (\<lambda>p. strip p \<noteq> []) (map show_int ps) = map show_int ps"
    using strip by (simp add: filter_map o_def)
  ultimately show ?thesis
    using ne assms by (simp add: parse_phases_def phases_csv_def sp)
qed

lemma check_phases_Some:
  assumes "check_phases (Some ps) = Inr r"
  shows "r = Some ps" "ps \<noteq> []" "\<forall>p \<in> set ps. 0 < p \<and> p \<le> 100"
    "sorted_wrt (<) ps" "last ps = 100"
proof -
  have 1: "ps \<noteq> []" "\<not> list_ex (\<lambda>p. p \<le> 0 \<or> p > 100) ps"
    "\<not> list_ex (\<lambda>i. ps ! i \<ge> ps ! (i + 1)) [0..<length ps - 1]" "last ps = 100" "r = Some ps"
    using assms by (auto simp: check_phases_def split: if_splits)
  then show "r = Some ps" "ps \<noteq> []" "last ps = 100" by simp_all
  show "\<forall>p \<in> set ps. 0 < p \<and> p \<le> 100" using 1(2) by (auto simp: list_ex_iff not_le not_less)
  have "ps ! i < ps ! Suc i" if "Suc i < length ps" for i
    using 1(3) that by (auto simp: list_ex_iff not_le)
  then show "sorted_wrt (<) ps"
    by (subst sorted_wrt_iff_nth_Suc_transp) auto
qed

text \<open>
  The phases a deployment is created with survive storage: whatever list the parameter
  validator accepts is what the supervisor and the poller parse back from the CSV column.
\<close>

theorem phases_round_trip:
  assumes "check_phases v = Inr r"
  shows "parse_phases (phases_csv r) = r"
proof (cases v)
  case None
  with assms show ?thesis by (simp add: check_phases_def phases_csv_def parse_phases_def)
next
  case (Some ps)
  with assms check_phases_Some [of ps r] show ?thesis by (simp add: parse_phases_csv)
qed

lemma phases_round_trip_witness:
  "parse_phases (phases_csv (Some [5, 25, 100])) = Some [5, 25, 100]"
  by (rule phases_round_trip [of "Some [5, 25, 100]"]) (simp add: check_phases_def upt_rec)


section \<open>Waves\<close>

lemma wave_at_le: "w + length ps \<le> Suc k \<Longrightarrow> wave_at c ps w k \<le> k"
  by (induction c ps w k rule: wave_at.induct) auto

lemma wave_at_mono:
  assumes "c \<le> d" and "w + length ps \<le> Suc k"
  shows "wave_at c ps w k \<le> wave_at d ps w k"
  using assms
proof (induction c ps w k rule: wave_at.induct)
  case (2 c p ps w k)
  have "w \<le> wave_at d ps (Suc w) k" if "Suc w + length ps \<le> Suc k"
    using that
  proof (induction d ps "Suc w" k arbitrary: w rule: wave_at.induct)
    case (2 d p ps k)
    then show ?case by (auto intro: order_trans [of _ "Suc w" for w])
  qed auto
  with 2 show ?case by auto
qed auto

text \<open>A device is in a wave below the last one only if the percentage of that wave covers it.\<close>

lemma wave_at_covers:
  assumes "wave_at c ps w k = v" and "v < k" and "w + length ps = Suc k"
  shows "w \<le> v \<and> v - w < length ps \<and> c \<le> of_int (ps ! (v - w))"
  using assms
proof (induction c ps w k rule: wave_at.induct)
  case (2 c p ps w k)
  show ?case
  proof (cases "c \<le> of_int p")
    case False
    with 2 have "Suc w \<le> v \<and> v - Suc w < length ps \<and> c \<le> of_int (ps ! (v - Suc w))" by auto
    then show ?thesis by (auto simp: nth_Cons' intro: Suc_leD)
  qed (use 2 in auto)
qed auto

lemma covered_mono: "i \<le> j \<Longrightarrow> covered i n \<le> covered j n"
  unfolding covered_def
  by (cases "n = 0") (simp_all add: fmul_def fdiv_def fl_mono divide_right_mono mult_right_mono)

lemma covered_last: "0 < n \<Longrightarrow> covered (n - 1) n = 100"
  by (simp add: covered_def fdiv_self fmul_def)

text \<open>Rounding never brings a device into a cohort: the float percentage is above an integer
  percentage whenever the exact one is.\<close>

lemma covered_exceeds:
  assumes "0 < n" "n < 2 ^ 45" and p: "0 \<le> p" "p \<le> 100"
    and gt: "p * int n < 100 * int (idx + 1)"
  shows "of_int p < covered idx n"
proof -
  define q where "q = (of_nat (idx + 1) :: rat) / of_nat n"
  have q0: "0 \<le> q" by (simp add: q_def)
  define e where "e = (1 - 1 / 2 ^ 53 :: rat)"
  have e: "0 \<le> e" by (simp add: e_def)
  have "q * e \<le> fl q" unfolding e_def by (rule fl_lower [OF q0])
  then have a: "q * e * 100 \<le> fl q * 100" by simp
  have "fl q * 100 * e \<le> fl (fl q * 100)"
    unfolding e_def by (rule fl_lower) (simp add: fl_nonneg q0)
  moreover have "q * e * 100 * e \<le> fl q * 100 * e"
    using a e by (rule mult_right_mono)
  moreover have "covered idx n = fl (fl q * 100)"
    by (simp only: covered_def fmul_def fdiv_def q_def)
  ultimately have "q * 100 * (e * e) \<le> covered idx n" by (simp add: mult_ac)
  then have low: "q * 100 * ((1 - 1 / 2 ^ 53) * (1 - 1 / 2 ^ 53)) \<le> covered idx n"
    unfolding e_def .
  have "q * 100 * (1 - 1 / 2 ^ 52) \<le> q * 100 * ((1 - 1 / 2 ^ 53) * (1 - 1 / 2 ^ 53))"
    using q0 by (intro mult_left_mono) (simp_all add: field_simps)
  with low have low2: "q * 100 * (1 - 1 / 2 ^ 52) \<le> covered idx n" by simp
  have "p * int n + 1 \<le> 100 * int (idx + 1)" using gt by simp
  then have "(of_int (p * int n + 1) :: rat) \<le> of_int (100 * int (idx + 1))" by (simp only: of_int_le_iff)
  then have "of_int p * of_nat n + 1 \<le> 100 * (of_nat (idx + 1) :: rat)" by simp
  then have qn: "(of_int p * of_nat n + 1) / of_nat n \<le> q * 100"
    using divide_right_mono [of "of_int p * of_nat n + 1" "100 * (of_nat (idx + 1) :: rat)" "of_nat n"]
    by (simp only: q_def) (simp add: mult.commute)
  have "of_int p * (of_nat n :: rat) \<le> 100 * of_nat n"
    using p by (intro mult_right_mono) simp_all
  moreover have "(of_nat n :: rat) < 2 ^ 45" using assms(2) by (metis of_nat_less_iff of_nat_numeral of_nat_power)
  ultimately have "of_int p * of_nat n + 1 < (2 ^ 52 :: rat)" by simp
  then have "of_int p * of_nat n < (of_int p * of_nat n + 1) * (1 - 1 / 2 ^ 52 :: rat)"
    by (simp add: field_simps)
  then have "of_int p < (of_int p * of_nat n + 1) / of_nat n * (1 - 1 / 2 ^ 52 :: rat)"
    using \<open>0 < n\<close> by (simp add: field_simps)
  also have "\<dots> \<le> q * 100 * (1 - 1 / 2 ^ 52)" using qn by (rule mult_right_mono) simp
  also note low2
  finally show ?thesis .
qed

lemma assign_waves_fst:
  "map fst (assign_waves ids (Some ps)) = (if ps = [] then ids else sort ids)"
  by (auto simp: assign_waves_def Let_def o_def case_prod_unfold)

lemma map_of_rev_distinct: "distinct (map fst xs) \<Longrightarrow> map_of (rev xs) = map_of xs"
  by (rule map_of_inject_set [THEN iffD2]) (simp_all add: rev_map [symmetric])

lemma wave_for_nth:
  assumes "distinct ids" "ps \<noteq> []" "i < length ids"
  shows "wave_for (assign_waves ids (Some ps)) (sort ids ! i) =
    wave_at (covered i (length ids)) ps 0 (length ps - 1)"
proof -
  let ?ws = "assign_waves ids (Some ps)"
  have d: "distinct (map fst ?ws)" using assms by (simp add: assign_waves_fst)
  have len: "length ?ws = length ids" using assms(2) by (simp add: assign_waves_def Let_def)
  have nth: "?ws ! i = (sort ids ! i, wave_at (covered i (length ids)) ps 0 (length ps - 1))"
    using assms(2,3) by (simp add: assign_waves_def Let_def nth_enumerate_eq)
  then have "(sort ids ! i, wave_at (covered i (length ids)) ps 0 (length ps - 1)) \<in> set ?ws"
    using assms(3) len by (metis nth_mem)
  then have "map_of ?ws (sort ids ! i) = Some (wave_at (covered i (length ids)) ps 0 (length ps - 1))"
    using d by (simp add: map_of_eq_Some_iff)
  then show ?thesis by (simp add: wave_for_def map_of_rev_distinct [OF d])
qed

text \<open>
  The cohorts are a function of the fleet, not of the order the database returns it in; every
  device has a wave, none beyond the last, in the order of the device ids; and the device with the
  greatest id is in the last wave.
\<close>

theorem waves_total_monotone:
  assumes "check_phases (Some ps) = Inr r" and "distinct ids" and "ids \<noteq> []"
  shows "(\<forall>ids'. mset ids' = mset ids \<longrightarrow> assign_waves ids' (Some ps) = assign_waves ids (Some ps))
    \<and> set (map fst (assign_waves ids (Some ps))) = set ids
    \<and> (\<forall>d \<in> set ids. wave_for (assign_waves ids (Some ps)) d < length ps)
    \<and> (\<forall>d \<in> set ids. \<forall>e \<in> set ids. d \<le> e \<longrightarrow>
          wave_for (assign_waves ids (Some ps)) d \<le> wave_for (assign_waves ids (Some ps)) e)
    \<and> wave_for (assign_waves ids (Some ps)) (Max (set ids)) = length ps - 1"
proof -
  note ps = check_phases_Some [OF assms(1)]
  let ?w = "wave_for (assign_waves ids (Some ps))"
  have mem: "\<exists>i < length ids. d = sort ids ! i" if "d \<in> set ids" for d
    using that by (metis in_set_conv_nth length_sort set_sort)
  have lt: "?w d < length ps" if "d \<in> set ids" for d
    using mem [OF that] ps(2) wave_for_nth [OF assms(2) ps(2)]
      wave_at_le [of 0 ps "length ps - 1"] by (auto simp: less_Suc_eq_le)
       (metis Suc_pred le_imp_less_Suc length_greater_0_conv)
  have mono: "?w d \<le> ?w e" if de: "d \<in> set ids" "e \<in> set ids" "d \<le> e" for d e
  proof -
    obtain i j where ij: "i < length ids" "d = sort ids ! i" "j < length ids" "e = sort ids ! j"
      using mem de by meson
    show ?thesis
    proof (cases "i \<le> j")
      case True
      then show ?thesis
        using ij wave_for_nth [OF assms(2) ps(2)]
        by (auto intro!: wave_at_mono covered_mono)
    next
      case False
      then have "e \<le> d" using ij by (auto intro: sorted_nth_mono)
      with de have "d = e" by simp
      then show ?thesis by simp
    qed
  qed
  have top: "?w (Max (set ids)) = length ps - 1"
  proof -
    let ?n = "length ids"
    have n: "0 < ?n" using assms(3) by simp
    have "Max (set ids) = sort ids ! (?n - 1)"
    proof (rule Max_eqI)
      show "sort ids ! (?n - 1) \<in> set ids"
        using nth_mem [of "?n - 1" "sort ids"] n by simp
      show "y \<le> sort ids ! (?n - 1)" if "y \<in> set ids" for y
        using mem [OF that] n by (auto intro!: sorted_nth_mono)
    qed simp
    then have "?w (Max (set ids)) = wave_at 100 ps 0 (length ps - 1)"
      using wave_for_nth [OF assms(2) ps(2), of "?n - 1"] n covered_last [OF n] by simp
    also have "\<dots> = length ps - 1"
    proof (rule ccontr)
      let ?v = "wave_at 100 ps 0 (length ps - 1)"
      assume "?v \<noteq> length ps - 1"
      with wave_at_le [of 0 ps "length ps - 1" 100] ps(2) have v: "?v < length ps - 1"
        by simp
      with wave_at_covers [of 100 ps 0 "length ps - 1", OF refl] ps(2)
      have "(100 :: rat) \<le> of_int (ps ! ?v)" by simp
      then have "100 \<le> ps ! ?v" by simp
      moreover have "ps ! ?v < ps ! (length ps - 1)"
        using ps(4) v by (intro sorted_wrt_nth_less [of "(<)"]) auto
      ultimately show False using ps(2,5) by (simp add: last_conv_nth)
    qed
    finally show ?thesis .
  qed
  have perm: "assign_waves ids' (Some ps) = assign_waves ids (Some ps)" if "mset ids' = mset ids" for ids'
  proof -
    have "sort ids' = sort ids" using that by (metis properties_for_sort mset_sort sorted_sort)
    then show ?thesis by (simp add: assign_waves_def ps(2))
  qed
  have keys: "set (map fst (assign_waves ids (Some ps))) = set ids"
    by (simp only: assign_waves_fst ps(2) if_False set_sort)
  show ?thesis
    by (intro conjI allI impI ballI) (fact perm keys lt mono top | assumption)+
qed

lemma waves_total_monotone_witness:
  "wave_for (assign_waves [''c'', ''a'', ''b''] (Some [5, 25, 100])) (Max (set [''c'', ''a'', ''b''])) = 2"
proof -
  have "check_phases (Some [5, 25, 100]) = Inr (Some [5, 25, 100])"
    by (simp add: check_phases_def upt_rec)
  from waves_total_monotone [OF this, of "[''c'', ''a'', ''b'']", THEN conjunct2, THEN conjunct2,
      THEN conjunct2, THEN conjunct2]
  show ?thesis by simp
qed

lemma wave_le_index:
  assumes ps: "check_phases (Some ps) = Inr r" and "0 < n" "n < 2 ^ 45" and "w < length ps - 1"
    and "wave_at (covered i n) ps 0 (length ps - 1) \<le> w"
  shows "100 * int (i + 1) \<le> ps ! w * int n"
proof -
  note p = check_phases_Some [OF ps]
  define v where "v = wave_at (covered i n) ps 0 (length ps - 1)"
  have v: "v \<le> w" "v < length ps - 1" using assms by (simp_all add: v_def)
  have "covered i n \<le> of_int (ps ! v)"
    using wave_at_covers [of "covered i n" ps 0 "length ps - 1" v] v p(2) by (simp add: v_def)
  also have "ps ! v \<le> ps ! w"
  proof (cases "v = w")
    case False
    with v have "v < w" by simp
    moreover have "w < length ps" using assms(4) by linarith
    ultimately show ?thesis using sorted_wrt_nth_less [OF p(4), of v w] by linarith
  qed simp
  finally have "covered i n \<le> of_int (ps ! w)" by simp
  moreover have "w < length ps" using assms(4) by linarith
  then have "ps ! w \<in> set ps" by (rule nth_mem)
  with p(3) have "0 \<le> ps ! w" "ps ! w \<le> 100" by auto
  ultimately show ?thesis using covered_exceeds [of n "ps ! w" i] assms(2,3) by fastforce
qed

text \<open>
  C7. The blast radius of a phase is capped: with fewer than \<open>2 ^ 45\<close> devices, the devices in
  waves up to \<open>w\<close>, which is what the supervisor has released when the deployment is in phase \<open>w\<close>,
  are at most the phase's percentage of the fleet. The float arithmetic of the source is exact
  enough for this: rounding can only move a device to a later wave.
\<close>

theorem cohort_within_percentage:
  assumes "check_phases (Some ps) = Inr r" and "distinct ids" and "length ids < 2 ^ 45"
    and "w < length ps - 1"
  shows "100 * int (card {d \<in> set ids. wave_for (assign_waves ids (Some ps)) d \<le> w})
    \<le> ps ! w * int (length ids)"
proof (cases "ids = []")
  case False
  note ps = check_phases_Some [OF assms(1)]
  let ?n = "length ids"
  let ?C = "{d \<in> set ids. wave_for (assign_waves ids (Some ps)) d \<le> w}"
  define m where "m = nat (ps ! w * int ?n div 100)"
  have "w < length ps" using assms(4) by linarith
  then have pos: "0 \<le> ps ! w" using ps(3) nth_mem [of w ps] by fastforce
  have "?C \<subseteq> (\<lambda>i. sort ids ! i) ` {..<m}"
  proof
    fix d assume d: "d \<in> ?C"
    then have "d \<in> set (sort ids)" by simp
    then obtain i where i: "i < ?n" "d = sort ids ! i"
      unfolding in_set_conv_nth length_sort by blast
    have n: "0 < ?n" using False by simp
    have "wave_at (covered i ?n) ps 0 (length ps - 1) \<le> w"
      using d unfolding i(2) mem_Collect_eq wave_for_nth [OF assms(2) ps(2) i(1)] by (rule conjunct2)
    with n have "100 * int (i + 1) \<le> ps ! w * int ?n"
      by (intro wave_le_index [OF assms(1) _ assms(3,4)])
    from zdiv_mono1 [OF this, of 100] have "int (i + 1) \<le> ps ! w * int ?n div 100" by simp
    then have "i < m" by (simp add: m_def)
    with i show "d \<in> (\<lambda>i. sort ids ! i) ` {..<m}" by blast
  qed
  then have "card ?C \<le> card ((\<lambda>i. sort ids ! i) ` {..<m})" by (intro card_mono) simp_all
  also have "\<dots> \<le> m" using card_image_le [of "{..<m}" "\<lambda>i. sort ids ! i"] by simp
  finally have "card ?C \<le> m" .
  moreover have "100 * int m \<le> ps ! w * int ?n"
  proof -
    have "100 * (x div 100) \<le> x" for x :: int by linarith
    moreover have "int m = ps ! w * int ?n div 100"
      using pos by (simp add: m_def pos_imp_zdiv_nonneg_iff)
    ultimately show ?thesis by simp
  qed
  ultimately show ?thesis by linarith
qed simp

lemma cohort_within_percentage_witness:
  "100 * int (card {d \<in> set [''a'', ''b'', ''c'', ''d'']. wave_for (assign_waves [''a'', ''b'', ''c'', ''d''] (Some [25, 100])) d \<le> 0})
    \<le> 25 * 4"
proof -
  have "check_phases (Some [25, 100]) = Inr (Some [25, 100])"
    by (simp add: check_phases_def upt_rec)
  from cohort_within_percentage [OF this, of "[''a'', ''b'', ''c'', ''d'']" 0]
  show ?thesis by simp
qed

text \<open>
  Two consequences of the same arithmetic. A small fleet leaves the canary wave empty: of three
  devices with phases 5, 25, 100 none is in wave 0. And the rounding is visible: in a fleet of a
  hundred, the seventh device is above seven per cent.
\<close>

lemma canary_wave_empty:
  "map snd (assign_waves [''a'', ''b'', ''c''] (Some [5, 25, 100])) = [2, 2, 2]"
  by code_simp

lemma seventh_of_hundred_late:
  "wave_at (covered 6 100) [7, 100] 0 1 = 1 \<and> 100 * (int 6 + 1) = 7 * int 100"
  by code_simp

end
