(* ===== verification/Targeting.thy ===== *)
theory Targeting
  imports Transitions Phases
begin

text \<open>
  Who receives a firmware: the targeting half of \<open>tools/deployments/ops.py\<close>. A device gets a job
  when it is a member of the group, accepted, and its self-attested hardware type is one the
  artifact declares (or either side declares none); \<open>_insert_jobs\<close> and \<open>_materialize_jobs\<close> write
  the job rows with their waves.
\<close>

text \<open>The \<open>error\<close> strings of the results, with the data they quote.\<close>

datatype dep_error =
    FirmwareNotFound string
  | NoArtifact string
  | GroupNotFound uuid
  | NoProject uuid
  | NoMembers
  | NoAccepted
  | NoCompatible "string list" "string list"
  | NeedsConfirm nat nat
  | InvalidStartTime
  | DeploymentNotFound uuid
  | BadTransition transition_error
  | CannotStart dep_status
  | NoChecksum string
  | UrlFailed string
  | NoPending
  | NoJob uuid string

text \<open>Exceptions an operation lets escape.\<close>

datatype exn = TypeError | AttributeError | IndexError

datatype 'a reply = Ok 'a | Err dep_error | Exc exn

definition member_ids :: "uuid \<Rightarrow> db \<Rightarrow> string list" where
  "member_ids gid s = map snd (filter (\<lambda>(g, d). g = gid) (db_members s))"

definition resolve_accepted_devices :: "uuid \<Rightarrow> db \<Rightarrow> dep_error + device_row list" where
  "resolve_accepted_devices gid s =
     (let ids = member_ids gid s in
      if ids = [] then Inl NoMembers
      else
        (let accepted = filter (\<lambda>d. d_id d \<in> set ids \<and> d_status d = DAccepted) (db_devices s) in
         if accepted = [] then Inl NoAccepted else Inr accepted))"

text \<open>\<open>seen.setdefault(dt.lower(), dt)\<close> over the reported types.\<close>

definition set_default :: "(string \<times> string) list \<Rightarrow> string option \<Rightarrow> (string \<times> string) list" where
  "set_default seen reported =
     (let dt = strip (or_else reported []) in
      if dt = [] then seen
      else if map_of seen (lower dt) = None then seen @ [(lower dt, dt)]
      else seen)"

definition group_member_device_types :: "uuid \<Rightarrow> db \<Rightarrow> string list" where
  "group_member_device_types gid s =
     (let ids = member_ids gid s in
      if ids = [] then []
      else sort (map snd (foldl set_default []
             (map d_type (filter (\<lambda>d. d_id d \<in> set ids) (db_devices s))))))"

definition group_is_mock_only :: "uuid \<Rightarrow> db \<Rightarrow> bool" where
  "group_is_mock_only gid s =
     (let ids = member_ids gid s in
      if ids = [] then False
      else
        (let rows = filter (\<lambda>d. d_id d \<in> set ids) (db_devices s) in
         rows \<noteq> [] \<and>
         list_all (\<lambda>row. starts_with ''mock-'' (d_id row)
           \<and> lower (strip (or_else (d_type row) [])) \<noteq> ''nff-qemu-esp32'') rows))"

definition firmware_device_types :: "string \<Rightarrow> db \<Rightarrow> string list" where
  "firmware_device_types target s =
     (case fw_of target s of None \<Rightarrow> [] | Some fw \<Rightarrow> f_types fw)"

definition norm_type :: "string option \<Rightarrow> string" where
  "norm_type t = lower (strip (or_else t []))"

fun gate :: "string list \<Rightarrow> device_row list \<Rightarrow> device_row list \<times> device_row list" where
  "gate allowed [] = ([], [])"
| "gate allowed (dev # devs) =
     (let (compatible, skipped) = gate allowed devs; dt = norm_type (d_type dev) in
      if dt = [] then (dev # compatible, skipped)
      else if dt \<in> set allowed then (dev # compatible, skipped)
      else (compatible, dev # skipped))"

definition filter_compatible ::
  "device_row list \<Rightarrow> string list \<Rightarrow> device_row list \<times> device_row list" where
  "filter_compatible accepted artifact_types =
     (if artifact_types = [] then (accepted, [])
      else
        (let allowed = map (\<lambda>t. lower (strip t)) (filter (\<lambda>t. t \<noteq> [] \<and> strip t \<noteq> []) artifact_types) in
         if allowed = [] then (accepted, []) else gate allowed accepted))"

definition resolve_deployable_devices :: "uuid \<Rightarrow> string \<Rightarrow> db \<Rightarrow> dep_error + device_row list" where
  "resolve_deployable_devices gid target s =
     (case resolve_accepted_devices gid s of
        Inl err \<Rightarrow> Inl err
      | Inr accepted \<Rightarrow>
          (let types = firmware_device_types target s;
               (compatible, skipped) = filter_compatible accepted types in
           if compatible = []
           then Inl (NoCompatible types
                  (sort (remdups (map (\<lambda>d. or_else (d_type d) ''unknown'') accepted))))
           else Inr compatible))"

definition job_row_for ::
  "ctx \<Rightarrow> uuid \<Rightarrow> string \<Rightarrow> uuid option \<Rightarrow> (string \<times> nat) list \<Rightarrow> uuid \<Rightarrow> device_row \<Rightarrow> job_row" where
  "job_row_for c dep target project waves new_id dev =
     \<lparr>j_id = new_id, j_dep = dep, j_device = d_id dev, j_project = project,
      j_from = or_else (d_current dev) (or_else (d_firmware dev) ''unknown''),
      j_target = target, j_status = JPending, j_progress = 0, j_attempts = 0,
      j_wave = wave_for waves (d_id dev), j_started = cx_now c, j_updated = cx_now c,
      j_completed = None, j_reason = None\<rparr>"

definition insert_jobs ::
  "ctx \<Rightarrow> uuid \<Rightarrow> string \<Rightarrow> device_row list \<Rightarrow> uuid option \<Rightarrow> int list option \<Rightarrow> db \<Rightarrow> nat \<times> db" where
  "insert_jobs c dep target accepted project phases s =
     (let waves = assign_waves (map d_id accepted) phases;
          rows = map (\<lambda>(i, dev). job_row_for c dep target project waves (db_next s + i) dev)
                   (enumerate 0 accepted) in
      (length rows,
       s\<lparr>db_jobs := db_jobs s @ rows, db_next := db_next s + length rows\<rparr>))"

definition materialize_jobs ::
  "ctx \<Rightarrow> uuid \<Rightarrow> string \<Rightarrow> uuid \<Rightarrow> db \<Rightarrow> (nat \<times> dep_error option) \<times> db" where
  "materialize_jobs c dep target gid s =
     (case resolve_deployable_devices gid target s of
        Inl err \<Rightarrow> ((0, Some err), s)
      | Inr deployable \<Rightarrow>
          (let project = (case group_of gid s of None \<Rightarrow> None | Some g \<Rightarrow> g_project g);
               phases = (case dep_of dep s of None \<Rightarrow> None | Some d \<Rightarrow> parse_phases (p_phases d));
               (n, s') = insert_jobs c dep target deployable project phases s in
           ((n, None), s')))"


section \<open>The targeting rule\<close>

text \<open>The rule the code implements, stated once: who may receive an artifact of these types.\<close>

definition compatible_with :: "string list \<Rightarrow> device_row \<Rightarrow> bool" where
  "compatible_with types d \<longleftrightarrow>
     (\<forall>t \<in> set types. strip t = []) \<or> norm_type (d_type d) = [] \<or>
     (\<exists>t \<in> set types. strip t \<noteq> [] \<and> lower (strip t) = norm_type (d_type d))"

definition may_receive :: "uuid \<Rightarrow> string \<Rightarrow> db \<Rightarrow> device_row \<Rightarrow> bool" where
  "may_receive gid target s d \<longleftrightarrow>
     d \<in> set (db_devices s) \<and> (gid, d_id d) \<in> set (db_members s) \<and> d_status d = DAccepted \<and>
     compatible_with (firmware_device_types target s) d"

lemma gate_filter:
  "gate allowed devs =
     (filter (\<lambda>d. norm_type (d_type d) = [] \<or> norm_type (d_type d) \<in> set allowed) devs,
      filter (\<lambda>d. \<not> (norm_type (d_type d) = [] \<or> norm_type (d_type d) \<in> set allowed)) devs)"
  by (induction devs) (auto simp: Let_def)

lemma strip_Nil [simp]: "strip [] = []"
  by (simp add: strip_def lstrip_def)

lemma strip_nonempty [simp]: "t \<noteq> [] \<and> strip t \<noteq> [] \<longleftrightarrow> strip t \<noteq> []"
  by auto

lemma filter_compatible_eq:
  "filter_compatible accepted types =
     (filter (compatible_with types) accepted, filter (\<lambda>d. \<not> compatible_with types d) accepted)"
proof (cases "\<forall>t \<in> set types. strip t = []")
  case True
  then have "filter (\<lambda>t. t \<noteq> [] \<and> strip t \<noteq> []) types = []" by (auto simp: filter_empty_conv)
  moreover have "compatible_with types = (\<lambda>d. True)" using True by (auto simp: compatible_with_def)
  ultimately show ?thesis by (simp add: filter_compatible_def Let_def)
next
  case False
  let ?A = "filter (\<lambda>t. t \<noteq> [] \<and> strip t \<noteq> []) types"
  have ne: "types \<noteq> []" "?A \<noteq> []" using False by (auto simp: filter_empty_conv)
  have "compatible_with types d \<longleftrightarrow> norm_type (d_type d) = [] \<or>
      norm_type (d_type d) \<in> set (map (\<lambda>t. lower (strip t)) ?A)" for d
    using False by (auto simp: compatible_with_def image_iff)
  then have "compatible_with types = (\<lambda>d. norm_type (d_type d) = [] \<or>
      norm_type (d_type d) \<in> set (map (\<lambda>t. lower (strip t)) ?A))" by blast
  then show ?thesis using ne by (simp only: filter_compatible_def Let_def gate_filter if_False)
     (simp del: set_map)
qed

lemma resolve_accepted_Inr:
  "resolve_accepted_devices gid s = Inr ds \<Longrightarrow>
     ds = filter (\<lambda>d. d_id d \<in> set (member_ids gid s) \<and> d_status d = DAccepted) (db_devices s) \<and> ds \<noteq> []"
  by (auto simp: resolve_accepted_devices_def Let_def split: if_splits)

lemma member_ids_iff: "i \<in> set (member_ids gid s) \<longleftrightarrow> (gid, i) \<in> set (db_members s)"
  by (force simp: member_ids_def)

lemma resolve_deployable_Inr:
  assumes "resolve_deployable_devices gid target s = Inr ds"
  shows "ds = filter (may_receive gid target s) (db_devices s)" "ds \<noteq> []"
proof -
  obtain acc where acc: "resolve_accepted_devices gid s = Inr acc"
    using assms by (cases "resolve_accepted_devices gid s") (auto simp: resolve_deployable_devices_def)
  then have ds: "ds = filter (compatible_with (firmware_device_types target s)) acc \<and> ds \<noteq> []"
    using assms by (auto simp: resolve_deployable_devices_def filter_compatible_eq Let_def split: if_splits)
  moreover note resolve_accepted_Inr [OF acc]
  ultimately show "ds = filter (may_receive gid target s) (db_devices s)" "ds \<noteq> []"
    by (auto simp: may_receive_def member_ids_iff intro!: filter_cong)
qed

text \<open>
  C11. The deploy gate: the devices a deployment resolves to are exactly the group's accepted,
  hardware-compatible members, and when there is none the call reports an error instead of an
  empty rollout.
\<close>

theorem deployable_devices_exact:
  "(case resolve_deployable_devices gid target s of
      Inr ds \<Rightarrow> ds = filter (may_receive gid target s) (db_devices s) \<and> ds \<noteq> []
    | Inl err \<Rightarrow> filter (may_receive gid target s) (db_devices s) = [])"
proof (cases "resolve_deployable_devices gid target s")
  case (Inr ds)
  then show ?thesis using resolve_deployable_Inr [OF Inr] by simp
next
  case (Inl err)
  have "\<not> may_receive gid target s d" if "d \<in> set (db_devices s)" for d
  proof
    assume m: "may_receive gid target s d"
    then have mem: "d_id d \<in> set (member_ids gid s)" by (simp add: may_receive_def member_ids_iff)
    then have "member_ids gid s \<noteq> []" by auto
    with m mem that have acc: "resolve_accepted_devices gid s =
        Inr (filter (\<lambda>d. d_id d \<in> set (member_ids gid s) \<and> d_status d = DAccepted) (db_devices s))"
      by (auto simp: resolve_accepted_devices_def Let_def may_receive_def filter_empty_conv)
    have "d \<in> set (filter (compatible_with (firmware_device_types target s))
        (filter (\<lambda>d. d_id d \<in> set (member_ids gid s) \<and> d_status d = DAccepted) (db_devices s)))"
      using m mem that by (simp add: may_receive_def)
    with Inl acc show False
      by (auto simp: resolve_deployable_devices_def filter_compatible_eq Let_def filter_empty_conv
          split: if_splits)
  qed
  with Inl show ?thesis by (simp add: filter_empty_conv)
qed

lemma insert_jobs_rows:
  "snd (insert_jobs c dep target ds project phases s) =
     s\<lparr>db_jobs := db_jobs s @ map (\<lambda>(i, dev). job_row_for c dep target project
          (assign_waves (map d_id ds) phases) (db_next s + i) dev) (enumerate 0 ds),
       db_next := db_next s + length ds\<rparr>"
  "fst (insert_jobs c dep target ds project phases s) = length ds"
  by (simp_all add: insert_jobs_def Let_def)

lemma insert_jobs_new:
  assumes "j \<in> set (db_jobs (snd (insert_jobs c dep target ds project phases s)))"
  shows "j \<in> set (db_jobs s) \<or>
    (\<exists>d \<in> set ds. j_device j = d_id d \<and> j_dep j = dep \<and> j_status j = JPending \<and> j_target j = target
       \<and> j_wave j = wave_for (assign_waves (map d_id ds) phases) (d_id d) \<and> db_next s \<le> j_id j)"
  using assms
  by (auto simp: insert_jobs_rows job_row_for_def in_set_enumerate_eq)

end
