(* ===== verification/OTA_Samples.thy ===== *)
theory OTA_Samples
  imports OTA_Types
begin

text \<open>
  A small concrete installation, on which the theorems about nff-ota are instantiated: project 1,
  group 10 with three accepted devices, firmware \<open>1.0.1\<close> and one active deployment 20 with its
  three jobs.
\<close>

definition sample_settings :: settings where
  "sample_settings = \<lparr>s_confirm_threshold = 50, s_rate_limit = 3600, s_download_timeout = 600,
     s_default_threshold = 1 / 20, s_agent_on_finish = True, s_skip_demo = True, s_cooldown = 900,
     s_fleet_url = ''u'', s_fleet_secret = ''k'', s_fleet_timeout = 120,
     s_esp_gate = True, s_esp_min = 32768, s_trusted_key = [], s_fix_stale = 2400, s_fix_max = 2\<rparr>"

definition sample_ctx :: ctx where
  "sample_ctx = \<lparr>cx_now = 10000000000, cx_mono = 5000, cx_set = sample_settings,
     cx_url = (\<lambda>v. Some (''s'' @ v)),
     cx_post = (\<lambda>cmd. Response 200 (Inl [(''response'', JObj [(''status'', JStr ''ota_started'')])]))\<rparr>"

text \<open>The same service with the hand-off to the agent switched off.\<close>

definition quiet_ctx :: ctx where
  "quiet_ctx = sample_ctx\<lparr>cx_set := sample_settings\<lparr>s_agent_on_finish := False\<rparr>\<rparr>"

definition sample_device :: "string \<Rightarrow> device_row" where
  "sample_device i = \<lparr>d_id = i, d_name = [], d_conn = [], d_agent = False, d_identity = [],
     d_key = None, d_status = DAccepted, d_tags = [], d_current = Some ''v1'',
     d_firmware = Some ''v1'', d_type = Some ''esp32'', d_project = Some 1, d_created = 0\<rparr>"

definition sample_fw :: fw_row where
  "sample_fw = \<lparr>f_version = ''v2'', f_storage = Some ''p'', f_checksum = Some ''c'',
     f_types = [''ESP32''], f_release = None, f_build = None, f_size = Some 100000\<rparr>"

definition sample_dep :: dep_row where
  "sample_dep = \<lparr>p_id = 20, p_name = ''d'', p_target = ''v2'', p_group = 10, p_project = Some 1,
     p_status = Active, p_max = 10, p_retries = 3, p_created = 0, p_start = None, p_phases = None,
     p_phase = 0, p_entered = Some 0, p_threshold = Some (1 / 20), p_soak = 0, p_halted = None,
     p_override = False\<rparr>"

definition sample_job :: "nat \<Rightarrow> string \<Rightarrow> job_status \<Rightarrow> job_row" where
  "sample_job i d st = \<lparr>j_id = i, j_dep = 20, j_device = d, j_project = Some 1,
     j_from = ''v1'', j_target = ''v2'', j_status = st, j_progress = 0, j_attempts = 0,
     j_wave = 0, j_started = 0, j_updated = 0, j_completed = None, j_reason = None\<rparr>"

definition sample_db :: "job_status \<Rightarrow> job_status \<Rightarrow> job_status \<Rightarrow> db" where
  "sample_db a b c = \<lparr>db_devices = map sample_device [''d1'', ''d2'', ''d3''],
     db_groups = [\<lparr>g_id = 10, g_name = ''g'', g_filter = [], g_project = Some 1, g_created = 0\<rparr>],
     db_members = [(10, ''d1''), (10, ''d2''), (10, ''d3'')], db_fws = [sample_fw],
     db_deps = [sample_dep],
     db_jobs = [sample_job 30 ''d1'' a, sample_job 31 ''d2'' b, sample_job 32 ''d3'' c],
     db_projects = [\<lparr>pr_id = 1, pr_rate_limit = None, pr_demo = False, pr_pool = False\<rparr>],
     db_runs = [], db_conns = [], db_messages = [], db_emit = (\<lambda>_. None), db_next = 100\<rparr>"

lemmas sample_defs = sample_settings_def sample_ctx_def quiet_ctx_def sample_device_def sample_fw_def
  sample_dep_def sample_job_def sample_db_def

end
