(* ===== verification/Agent_Notify.thy ===== *)
theory Agent_Notify
  imports Targeting OTA_Samples
begin

text \<open>
  \<open>nff_ota/agent_notify.py\<close>: when a deployment reaches a terminal state, one user message is
  inserted for the agent. Which deployments are handed off, the cooldown, and what the message is
  made of (counts, failed devices, playbook) are modelled; the English text around that data is
  not. The row inserts of this function cannot fail here; in the source every exception is
  swallowed.
\<close>

definition status_counts :: "job_row list \<Rightarrow> (job_status \<times> nat) list" where
  "status_counts jobs =
     (let order = rev (remdups (rev (map j_status jobs))) in
      map (\<lambda>st. (st, length (filter (\<lambda>j. j_status j = st) jobs))) order)"

definition count_of :: "(job_status \<times> nat) list \<Rightarrow> job_status \<Rightarrow> nat" where
  "count_of counts st = (case map_of counts st of None \<Rightarrow> 0 | Some n \<Rightarrow> n)"

definition failed_jobs :: "job_row list \<Rightarrow> job_row list" where
  "failed_jobs jobs = filter (\<lambda>j. job_failed (j_status j)) jobs"

definition failure_playbook :: "job_row list \<Rightarrow> string option \<Rightarrow> playbook" where
  "failure_playbook jobs repo =
     Playbook (filter (\<lambda>d. d \<noteq> []) (map j_device (take 2 (failed_jobs jobs))))
       (if truthy repo then repo else None)"

definition summary_prompt ::
  "dep_row \<Rightarrow> dep_status \<Rightarrow> job_row list \<Rightarrow> repo_ctx option \<Rightarrow> bool \<Rightarrow> playbook option \<Rightarrow> prompt" where
  "summary_prompt dep final jobs repo pipeline_managed playbook =
     (let failed = failed_jobs jobs in
      \<lparr>m_deployment = p_id dep, m_name = p_name dep, m_target = p_target dep, m_group = p_group dep,
       m_started = (case p_start dep of Some t \<Rightarrow> t | None \<Rightarrow> p_created dep),
       m_final = final, m_halted = p_halted dep, m_counts = status_counts jobs,
       m_total = length jobs,
       m_listed = map (\<lambda>j. (j_device j,
           take 300 (or_else (j_reason j) (job_status_name (j_status j))))) (take 10 failed),
       m_overflow = int (length failed) - 10,
       m_phases = (if truthy (p_phases dep) then Some (the (p_phases dep), p_phase dep) else None),
       m_repo = (if pipeline_managed then repo else None),
       m_summary_only = (pipeline_managed \<and> failed \<noteq> []),
       m_playbook = playbook\<rparr>)"

text \<open>Demo and pool projects are skipped when the setting says so.\<close>

definition skip_demo :: "ctx \<Rightarrow> uuid \<Rightarrow> db \<Rightarrow> bool" where
  "skip_demo c project s \<longleftrightarrow> s_skip_demo (cx_set c) \<and>
     (case look_key pr_id project (db_projects s) of
        None \<Rightarrow> False
      | Some p \<Rightarrow> pr_demo p \<or> pr_pool p)"

definition cooling_down :: "ctx \<Rightarrow> uuid \<Rightarrow> job_row list \<Rightarrow> db \<Rightarrow> bool" where
  "cooling_down c project failed s \<longleftrightarrow>
     failed = [] \<and> s_cooldown (cx_set c) > 0 \<and>
     (case db_emit s project of
        None \<Rightarrow> False
      | Some stamp \<Rightarrow> fsub (cx_mono c) stamp < s_cooldown (cx_set c))"

definition hand_off_prompt ::
  "dep_row \<Rightarrow> uuid \<Rightarrow> dep_status \<Rightarrow> job_row list \<Rightarrow> db \<Rightarrow> prompt" where
  "hand_off_prompt dep project final jobs s =
     (let failed = failed_jobs jobs;
          run = look_key r_dep (p_id dep) (db_runs s);
          repo_ctx = (case run of
              None \<Rightarrow> None
            | Some r \<Rightarrow> (case r_conn r of
                None \<Rightarrow> None
              | Some conn \<Rightarrow> Some (RepoCtx
                  (case look_key c_id conn (db_conns s) of None \<Rightarrow> ''?'' | Some k \<Rightarrow> c_repo k)
                  (take 7 (or_else (r_sha r) [])) (r_id r))));
          fix_repo = (if run = None \<and> failed \<noteq> []
            then map_option c_repo (look_key c_project project (db_conns s)) else None);
          playbook = (if failed \<noteq> [] \<and> run = None
            then Some (failure_playbook jobs fix_repo) else None) in
      summary_prompt dep final jobs repo_ctx (run \<noteq> None) playbook)"

definition notify_deployment_terminal :: "ctx \<Rightarrow> uuid \<Rightarrow> dep_status \<Rightarrow> db \<Rightarrow> db" where
  "notify_deployment_terminal c dep_id final s =
     (if \<not> s_agent_on_finish (cx_set c) then s
      else (case dep_of dep_id s of
        None \<Rightarrow> s
      | Some dep \<Rightarrow> (case p_project dep of
          None \<Rightarrow> s
        | Some project \<Rightarrow>
            if skip_demo c project s then s
            else
              (let jobs = jobs_of dep_id s; failed = failed_jobs jobs in
               if cooling_down c project failed s then s
               else
                 (let msg = \<lparr>a_id = db_next s, a_project = project,
                        a_content = hand_off_prompt dep project final jobs s, a_ts = cx_now c\<rparr>;
                      s' = s\<lparr>db_messages := db_messages s @ [msg], db_next := Suc (db_next s)\<rparr> in
                  if failed = [] then s'\<lparr>db_emit := (db_emit s)(project \<mapsto> cx_mono c)\<rparr> else s')))))"


section \<open>Frame and behaviour\<close>

lemma notify_frame [simp, row_simps]:
  "db_deps (notify_deployment_terminal c i f s) = db_deps s"
  "db_jobs (notify_deployment_terminal c i f s) = db_jobs s"
  "db_devices (notify_deployment_terminal c i f s) = db_devices s"
  "db_groups (notify_deployment_terminal c i f s) = db_groups s"
  "db_members (notify_deployment_terminal c i f s) = db_members s"
  "db_fws (notify_deployment_terminal c i f s) = db_fws s"
  "db_projects (notify_deployment_terminal c i f s) = db_projects s"
  by (simp_all add: notify_deployment_terminal_def Let_def split: option.split)

lemma jobs_of_notify [simp]: "jobs_of k (notify_deployment_terminal c i f s) = jobs_of k s"
  by (simp add: jobs_of_def)

lemma notify_messages:
  "db_messages (notify_deployment_terminal c i f s) = db_messages s \<or>
   (\<exists>m. db_messages (notify_deployment_terminal c i f s) = db_messages s @ [m] \<and>
        m_deployment (a_content m) = i \<and> m_final (a_content m) = f)"
proof (cases "dep_of i s")
  case (Some dep)
  then have "p_id dep = i" using dept.look_key by blast
  with Some show ?thesis
    by (auto simp: notify_deployment_terminal_def Let_def hand_off_prompt_def summary_prompt_def
        split: option.split)
qed (simp add: notify_deployment_terminal_def)

lemma db_next_notify: "db_next s \<le> db_next (notify_deployment_terminal c i f s)"
  by (simp add: notify_deployment_terminal_def Let_def split: option.split)

lemma count_of_status_counts:
  "count_of (status_counts jobs) st = length (filter (\<lambda>j. j_status j = st) jobs)"
proof (cases "st \<in> j_status ` set jobs")
  case True
  then show ?thesis
    by (simp add: count_of_def status_counts_def Let_def map_of_map_restrict)
next
  case False
  then have "filter (\<lambda>j. j_status j = st) jobs = []" by (auto simp: filter_empty_conv)
  with False show ?thesis
    by (simp add: count_of_def status_counts_def Let_def map_of_map_restrict)
qed

text \<open>
  The hand-off decision. A failed deployment of a project that is not skipped always produces
  exactly one message, whatever the cooldown says; a deployment without failures produces one
  unless a message of the same project started a cooldown that is still running.
\<close>

theorem failure_always_handed_off:
  assumes "s_agent_on_finish (cx_set c)" and "dep_of i s = Some dep" and "p_project dep = Some project"
    and "\<not> skip_demo c project s"
  shows "length (db_messages (notify_deployment_terminal c i f s)) =
     length (db_messages s) +
       (if (\<exists>j \<in> set (db_jobs s). j_dep j = i \<and> job_failed (j_status j))
           \<or> s_cooldown (cx_set c) \<le> 0 \<or> db_emit s project = None
           \<or> s_cooldown (cx_set c) \<le> fsub (cx_mono c) (the (db_emit s project))
        then 1 else 0)"
proof -
  have "failed_jobs (jobs_of i s) = [] \<longleftrightarrow> \<not> (\<exists>j \<in> set (db_jobs s). j_dep j = i \<and> job_failed (j_status j))"
    by (auto simp: failed_jobs_def jobs_of_def filter_empty_conv)
  then show ?thesis
    using assms
    by (auto simp: notify_deployment_terminal_def Let_def cooling_down_def not_less
        split: option.split)
qed


lemma failure_always_handed_off_witness:
  "length (db_messages (notify_deployment_terminal sample_ctx 20 Finished
     ((sample_db JFailure JSuccess JSuccess)\<lparr>db_emit := (\<lambda>_. Some 5000)\<rparr>))) = 1"
proof -
  let ?s = "(sample_db JFailure JSuccess JSuccess)\<lparr>db_emit := (\<lambda>_. Some 5000)\<rparr>"
  have d: "s_agent_on_finish (cx_set sample_ctx)" "dep_of 20 ?s = Some sample_dep"
    "p_project sample_dep = Some 1" "\<not> skip_demo sample_ctx 1 ?s"
    by (simp_all add: sample_defs look_key_def skip_demo_def)
  have "\<exists>j \<in> set (db_jobs ?s). j_dep j = 20 \<and> job_failed (j_status j)"
    by (simp add: sample_defs failed_dd_def)
  with failure_always_handed_off [OF d, of Finished]
  have "length (db_messages (notify_deployment_terminal sample_ctx 20 Finished ?s)) = length (db_messages ?s) + 1"
    by (simp only: simp_thms if_True)
  then show ?thesis by (simp add: sample_db_def)
qed

end
