(* ===== verification/Deployments.thy ===== *)
theory Deployments
  imports Agent_Notify OTA_Samples
begin

text \<open>
  The deployment operations of \<open>tools/deployments/ops.py\<close> that the tools call: create, status,
  abort, resume, list, and \<open>_recompute_deployment_status\<close>, the roll-up every job update ends with.
\<close>

section \<open>What the client sees\<close>

record dep_info =
  i_id :: uuid
  i_name :: string
  i_target :: string
  i_group :: uuid
  i_status :: dep_status
  i_max :: int
  i_retries :: int
  i_created :: time
  i_start :: "time option"
  i_phases :: "int list option"
  i_phase :: nat
  i_entered :: "time option"
  i_halted :: "halt_reason option"

definition dep_row_to_info :: "dep_row \<Rightarrow> dep_info" where
  "dep_row_to_info r =
     \<lparr>i_id = p_id r, i_name = p_name r, i_target = p_target r, i_group = p_group r,
      i_status = p_status r, i_max = p_max r, i_retries = p_retries r, i_created = p_created r,
      i_start = p_start r, i_phases = parse_phases (p_phases r), i_phase = p_phase r,
      i_entered = p_entered r, i_halted = p_halted r\<rparr>"

text \<open>What \<open>datetime.fromisoformat\<close> makes of the \<open>start_time\<close> argument.\<close>

datatype iso_time = AwareTime time | NaiveTime time | Malformed

record create_params =
  cp_name :: string
  cp_target :: string
  cp_group :: uuid
  cp_start :: "iso_time option"
  cp_max :: int
  cp_retries :: int
  cp_phases :: "int list option"
  cp_threshold :: rat
  cp_soak :: int
  cp_confirm :: bool

definition valid_create_params :: "create_params \<Rightarrow> bool" where
  "valid_create_params p \<longleftrightarrow>
     cp_name p \<noteq> [] \<and> cp_target p \<noteq> [] \<and> 1 \<le> cp_max p \<and> 0 \<le> cp_retries p \<and>
     check_phases (cp_phases p) = Inr (cp_phases p) \<and>
     0 \<le> cp_threshold p \<and> cp_threshold p \<le> 1 \<and> 0 \<le> cp_soak p"


section \<open>Roll-up\<close>

definition recompute_deployment_status :: "ctx \<Rightarrow> uuid \<Rightarrow> db \<Rightarrow> db" where
  "recompute_deployment_status c dep_id s =
     (case dep_of dep_id s of
        None \<Rightarrow> s
      | Some dep \<Rightarrow>
          if p_status dep \<in> set no_finish_dep then s
          else
            (let jobs = jobs_of dep_id s in
             if jobs = [] then s
             else if list_all (\<lambda>j. job_terminal (j_status j)) jobs then
               (let hit = list_ex (\<lambda>d. p_id d = dep_id \<and> p_status d = p_status dep) (db_deps s);
                    s' = s\<lparr>db_deps := update_where
                      (\<lambda>d. p_id d = dep_id \<and> p_status d = p_status dep)
                      (\<lambda>d. d\<lparr>p_status := Finished\<rparr>) (db_deps s)\<rparr> in
                if hit then notify_deployment_terminal c dep_id Finished s' else s')
             else s))"


section \<open>Operations\<close>

definition initial_status :: "ctx \<Rightarrow> iso_time option \<Rightarrow> (dep_error + exn) + dep_status" where
  "initial_status c start = (case start of
      None \<Rightarrow> Inr Active
    | Some (AwareTime st) \<Rightarrow> Inr (if st \<le> cx_now c then Active else Scheduled)
    | Some (NaiveTime st) \<Rightarrow> Inl (Inr TypeError)
    | Some Malformed \<Rightarrow> Inl (Inl InvalidStartTime))"

definition new_dep_row :: "ctx \<Rightarrow> create_params \<Rightarrow> uuid \<Rightarrow> uuid \<Rightarrow> dep_status \<Rightarrow> dep_row" where
  "new_dep_row c p new_id project status =
     \<lparr>p_id = new_id, p_name = cp_name p, p_target = cp_target p, p_group = cp_group p,
      p_project = Some project, p_status = status, p_max = cp_max p, p_retries = cp_retries p,
      p_created = cx_now c,
      p_start = (case cp_start p of Some (AwareTime t) \<Rightarrow> Some t | _ \<Rightarrow> None),
      p_phases = phases_csv (cp_phases p), p_phase = 0, p_entered = Some (cx_now c),
      p_threshold = Some (cp_threshold p), p_soak = cp_soak p, p_halted = None,
      p_override = False\<rparr>"

definition create_deployment :: "ctx \<Rightarrow> create_params \<Rightarrow> db \<Rightarrow> dep_info reply \<times> db" where
  "create_deployment c p s =
     (case fw_of (cp_target p) s of
        None \<Rightarrow> (Err (FirmwareNotFound (cp_target p)), s)
      | Some fw \<Rightarrow>
          if \<not> truthy (f_storage fw) then (Err (NoArtifact (cp_target p)), s)
          else (case group_of (cp_group p) s of
              None \<Rightarrow> (Err (GroupNotFound (cp_group p)), s)
            | Some g \<Rightarrow> (case g_project g of
                None \<Rightarrow> (Err (NoProject (cp_group p)), s)
              | Some project \<Rightarrow> (case resolve_deployable_devices (cp_group p) (cp_target p) s of
                  Inl err \<Rightarrow> (Err err, s)
                | Inr deployable \<Rightarrow>
                    if \<not> cp_confirm p \<and> length deployable > s_confirm_threshold (cx_set c)
                    then (Err (NeedsConfirm (length deployable) (s_confirm_threshold (cx_set c))), s)
                    else (case initial_status c (cp_start p) of
                        Inl (Inl err) \<Rightarrow> (Err err, s)
                      | Inl (Inr e) \<Rightarrow> (Exc e, s)
                      | Inr status \<Rightarrow>
                          (let (new_id, s1) = fresh_uuid s;
                               row = new_dep_row c p new_id project status;
                               s2 = s1\<lparr>db_deps := db_deps s1 @ [row]\<rparr>;
                               (_, s3) = insert_jobs c new_id (cp_target p) deployable (Some project)
                                 (cp_phases p) s2 in
                           (Ok (dep_row_to_info row), s3)))))))"

record dep_progress =
  dp_info :: dep_info
  dp_total :: nat
  dp_pending :: nat
  dp_downloading :: nat
  dp_installing :: nat
  dp_rebooting :: nat
  dp_success :: nat
  dp_failure :: nat
  dp_aborted :: nat
  dp_already :: nat

definition get_deployment_status :: "uuid \<Rightarrow> db \<Rightarrow> dep_progress reply" where
  "get_deployment_status dep_id s = (case dep_of dep_id s of
      None \<Rightarrow> Err (DeploymentNotFound dep_id)
    | Some dep \<Rightarrow>
        (let jobs = jobs_of dep_id s; counts = status_counts jobs in
         Ok \<lparr>dp_info = dep_row_to_info dep, dp_total = length jobs,
             dp_pending = count_of counts JPending, dp_downloading = count_of counts JDownloading,
             dp_installing = count_of counts JInstalling, dp_rebooting = count_of counts JRebooting,
             dp_success = count_of counts JSuccess, dp_failure = count_of counts JFailure,
             dp_aborted = count_of counts JAborted,
             dp_already = count_of counts JAlreadyInstalled\<rparr>))"

definition in_flight :: "job_status list" where
  "in_flight = [JPending, JDownloading, JInstalling, JRebooting]"

definition abort_deployment :: "ctx \<Rightarrow> uuid \<Rightarrow> db \<Rightarrow> dep_info reply \<times> db" where
  "abort_deployment c dep_id s = (case dep_of dep_id s of
      None \<Rightarrow> (Err (DeploymentNotFound dep_id), s)
    | Some dep \<Rightarrow> (case dep_ok (p_status dep) Aborted of
        Inl e \<Rightarrow> (Err (BadTransition e), s)
      | Inr _ \<Rightarrow>
          (let s1 = upd_dep dep_id (\<lambda>d. d\<lparr>p_status := Aborted\<rparr>) s;
               s2 = s1\<lparr>db_jobs := update_where
                 (\<lambda>j. j_dep j = dep_id \<and> j_status j \<in> set in_flight)
                 (\<lambda>j. j\<lparr>j_status := JAborted\<rparr>) (db_jobs s1)\<rparr>;
               s3 = notify_deployment_terminal c dep_id Aborted s2 in
           (Ok (dep_row_to_info (dep\<lparr>p_status := Aborted\<rparr>)), s3))))"

definition resume_deployment :: "ctx \<Rightarrow> uuid \<Rightarrow> db \<Rightarrow> dep_info reply \<times> db" where
  "resume_deployment c dep_id s = (case dep_of dep_id s of
      None \<Rightarrow> (Err (DeploymentNotFound dep_id), s)
    | Some dep \<Rightarrow> (case dep_ok (p_status dep) Active of
        Inl e \<Rightarrow> (Err (BadTransition e), s)
      | Inr _ \<Rightarrow>
          (let f = (\<lambda>d. d\<lparr>p_status := Active, p_halted := None, p_entered := Some (cx_now c)\<rparr>) in
           (Ok (dep_row_to_info (f dep)), upd_dep dep_id f s))))"

definition list_deployments :: "dep_status option \<Rightarrow> db \<Rightarrow> dep_info list" where
  "list_deployments status s =
     map dep_row_to_info
       (filter (\<lambda>d. case status of None \<Rightarrow> True | Some st \<Rightarrow> p_status d = st)
         (sort_key (\<lambda>d. - p_created d) (db_deps s)))"


section \<open>Lookups and frames\<close>

lemma look_key_update_where:
  assumes "\<And>r. key (f r) = key r" "\<And>r. P r \<Longrightarrow> key r = k"
    and "look_key key k rs = Some r" "P r"
  shows "look_key key k (update_where P f rs) = Some (f r)"
  using assms(3,4)
proof (induction rs)
  case (Cons q rs)
  then show ?case using assms(1,2) by (auto simp: look_key_def split: if_splits)
qed (simp add: look_key_def)

lemma look_key_update_where_other:
  assumes "\<And>r. key (f r) = key r" "\<And>r. P r \<Longrightarrow> key r \<noteq> k"
  shows "look_key key k (update_where P f rs) = look_key key k rs"
  using assms by (induction rs) (auto simp: look_key_def)

lemma recompute_frame [simp, row_simps]:
  "db_jobs (recompute_deployment_status c i s) = db_jobs s"
  "db_devices (recompute_deployment_status c i s) = db_devices s"
  "db_groups (recompute_deployment_status c i s) = db_groups s"
  "db_members (recompute_deployment_status c i s) = db_members s"
  "db_fws (recompute_deployment_status c i s) = db_fws s"
  "db_projects (recompute_deployment_status c i s) = db_projects s"
  by (simp_all add: recompute_deployment_status_def Let_def split: option.split)

lemma db_next_recompute: "db_next s \<le> db_next (recompute_deployment_status c i s)"
  by (auto simp: recompute_deployment_status_def Let_def split: option.split
      intro: order_trans [OF _ db_next_notify])

lemma recompute_dep_of:
  "dep_of k (recompute_deployment_status c i s) =
     (case dep_of k s of
        None \<Rightarrow> None
      | Some d \<Rightarrow>
          if k = i \<and> p_status d \<notin> set no_finish_dep \<and> jobs_of i s \<noteq> [] \<and>
             (\<forall>j \<in> set (jobs_of i s). job_terminal (j_status j))
          then Some (d\<lparr>p_status := Finished\<rparr>) else Some d)"
proof (cases "dep_of i s")
  case None
  then show ?thesis by (auto simp: recompute_deployment_status_def split: option.split)
next
  case (Some dep)
  let ?P = "\<lambda>d. p_id d = i \<and> p_status d = p_status dep"
  let ?f = "\<lambda>d. d\<lparr>p_status := Finished\<rparr>"
  have key: "p_id dep = i" using dept.look_key [OF Some] by simp
  have upd: "look_key p_id l (update_where ?P ?f (db_deps s)) =
      (if l = i then Some (?f dep) else dep_of l s)" for l
    using look_key_update_where [of p_id ?f ?P i "db_deps s" dep] Some key
      look_key_update_where_other [of p_id ?f ?P l "db_deps s"] by auto
  show ?thesis
    using Some by (cases "k = i") (auto simp: recompute_deployment_status_def Let_def upd list_all_iff
        split: option.split)
qed

text \<open>
  The roll-up: a deployment becomes finished exactly when it is neither terminal nor paused, has
  jobs, and all of them are terminal; nothing else of any deployment changes, no job, device or
  group changes, and the agent is told at most once, of this deployment, with status finished.
\<close>

theorem recompute_exact:
  "(\<forall>k. dep_of k (recompute_deployment_status c i s) =
     (case dep_of k s of
        None \<Rightarrow> None
      | Some d \<Rightarrow>
          if k = i \<and> p_status d \<notin> {Finished, Aborted, Paused} \<and> jobs_of i s \<noteq> [] \<and>
             filter (\<lambda>j. \<not> job_terminal (j_status j)) (jobs_of i s) = []
          then Some (d\<lparr>p_status := Finished\<rparr>) else Some d))
   \<and> db_jobs (recompute_deployment_status c i s) = db_jobs s
   \<and> db_devices (recompute_deployment_status c i s) = db_devices s
   \<and> length (db_messages (recompute_deployment_status c i s)) \<le> Suc (length (db_messages s))"
proof (intro conjI)
  show "length (db_messages (recompute_deployment_status c i s)) \<le> Suc (length (db_messages s))"
  proof -
    have "length (db_messages (notify_deployment_terminal c i Finished t)) \<le> Suc (length (db_messages t))" for t
      using notify_messages [of c i Finished t] by auto
    then show ?thesis
      by (auto simp: recompute_deployment_status_def Let_def split: option.split intro: le_SucI)
        (metis (no_types, lifting) db.select_convs(10) db.surjective db.update_convs(5))
  qed
qed (auto simp: recompute_dep_of no_finish_dep_def terminal_dep_def filter_empty_conv split: option.split)


section \<open>Create\<close>

lemma create_deployment_Ok:
  assumes "create_deployment c p s = (Ok info, s')"
  obtains fw g project status deployable where
    "fw_of (cp_target p) s = Some fw" "truthy (f_storage fw)" "group_of (cp_group p) s = Some g"
    "g_project g = Some project"
    "resolve_deployable_devices (cp_group p) (cp_target p) s = Inr deployable"
    "cp_confirm p \<or> length deployable \<le> s_confirm_threshold (cx_set c)"
    "initial_status c (cp_start p) = Inr status"
    "info = dep_row_to_info (new_dep_row c p (db_next s) project status)"
    "s' = snd (insert_jobs c (db_next s) (cp_target p) deployable (Some project) (cp_phases p)
        (s\<lparr>db_next := Suc (db_next s),
           db_deps := db_deps s @ [new_dep_row c p (db_next s) project status]\<rparr>))"
  using assms
  by (auto simp: create_deployment_def Let_def fresh_uuid_def insert_jobs_rows case_prod_unfold
      split: option.splits if_splits sum.splits)

lemma create_deployment_refused:
  assumes "create_deployment c p s = (r, s')" and "\<And>i. r \<noteq> Ok i"
  shows "s' = s"
  using assms
  by (auto simp: create_deployment_def Let_def fresh_uuid_def case_prod_unfold
      split: option.splits if_splits sum.splits)

lemma new_rows:
  "map j_device (map (\<lambda>(i, dev). job_row_for c dep target project waves (k + i) dev) (enumerate m ds))
     = map d_id ds"
  "map j_id (map (\<lambda>(i, dev). job_row_for c dep target project waves (k + i) dev) (enumerate m ds))
     = [k + m ..< k + m + length ds]"
  "filter (\<lambda>j. \<not> (j_dep j = dep \<and> j_status j = JPending \<and> j_attempts j = 0 \<and> j_target j = target \<and>
       j_wave j = wave_for waves (j_device j)))
     (map (\<lambda>(i, dev). job_row_for c dep target project waves (k + i) dev) (enumerate m ds)) = []"
proof (induction ds arbitrary: m)
  case (Cons d ds)
  case 2
  show ?case using Cons.IH(2) [of "Suc m"] by (simp add: job_row_for_def upt_conv_Cons del: upt_Suc)
qed (simp_all add: job_row_for_def)

lemma initial_status_Inr:
  "initial_status c st = Inr status \<Longrightarrow> status = Active \<or> status = Scheduled"
  by (auto simp: initial_status_def split: option.splits iso_time.splits if_splits)

text \<open>
  C5. Creating a deployment. A refused or failing call writes nothing. An accepted one adds exactly
  one deployment and, for it, one pending job for each device the targeting rule admits, in the
  wave its phases give it; the blast-radius confirmation was given or not needed; and the firmware
  has an artifact.
\<close>

theorem create_deployment_correct:
  "(case create_deployment c p s of
      (Ok info, s') \<Rightarrow>
        (let ds = filter (may_receive (cp_group p) (cp_target p) s) (db_devices s) in
         ds \<noteq> [] \<and> (cp_confirm p \<or> length ds \<le> s_confirm_threshold (cx_set c)) \<and>
         (\<exists>row new. db_deps s' = db_deps s @ [row] \<and> info = dep_row_to_info row \<and>
            p_id row = db_next s \<and> p_status row \<in> {Active, Scheduled} \<and>
            p_phases row = phases_csv (cp_phases p) \<and> p_phase row = 0 \<and>
            db_jobs s' = db_jobs s @ new \<and> map j_device new = map d_id ds \<and>
            map j_id new = [Suc (db_next s) ..< Suc (db_next s) + length ds] \<and>
            filter (\<lambda>j. \<not> (j_dep j = p_id row \<and> j_status j = JPending \<and> j_attempts j = 0 \<and>
              j_target j = cp_target p \<and>
              j_wave j = wave_for (assign_waves (map d_id ds) (cp_phases p)) (j_device j))) new = []) \<and>
         db_devices s' = db_devices s \<and> db_messages s' = db_messages s)
    | (_, s') \<Rightarrow> s' = s)"
proof -
  obtain r s' where cr: "create_deployment c p s = (r, s')" by (cases "create_deployment c p s")
  show ?thesis
  proof (cases r)
    case (Ok info)
    note dec = cr [unfolded Ok]
    show ?thesis
    proof (rule create_deployment_Ok [OF dec])
      fix fw g project status ds
      assume res: "resolve_deployable_devices (cp_group p) (cp_target p) s = Inr ds"
        and conf: "cp_confirm p \<or> length ds \<le> s_confirm_threshold (cx_set c)"
        and st: "initial_status c (cp_start p) = Inr status"
        and info: "info = dep_row_to_info (new_dep_row c p (db_next s) project status)"
        and s': "s' = snd (insert_jobs c (db_next s) (cp_target p) ds (Some project) (cp_phases p)
          (s\<lparr>db_next := Suc (db_next s),
             db_deps := db_deps s @ [new_dep_row c p (db_next s) project status]\<rparr>))"
      note ds = resolve_deployable_Inr [OF res]
      let ?row = "new_dep_row c p (db_next s) project status"
      let ?new = "map (\<lambda>(i, dev). job_row_for c (db_next s) (cp_target p) (Some project)
          (assign_waves (map d_id ds) (cp_phases p)) (Suc (db_next s) + i) dev) (enumerate 0 ds)"
      have rows: "db_deps s' = db_deps s @ [?row]" "db_jobs s' = db_jobs s @ ?new"
        "db_devices s' = db_devices s" "db_messages s' = db_messages s"
        by (simp_all add: s' insert_jobs_rows)
      have row_id: "p_id ?row = db_next s" by (simp add: new_dep_row_def)
      have new: "map j_device ?new = map d_id ds"
        "map j_id ?new = [Suc (db_next s) ..< Suc (db_next s) + length ds]"
        "filter (\<lambda>j. \<not> (j_dep j = p_id ?row \<and> j_status j = JPending \<and> j_attempts j = 0 \<and>
              j_target j = cp_target p \<and>
              j_wave j = wave_for (assign_waves (map d_id ds) (cp_phases p)) (j_device j))) ?new = []"
        using new_rows [where c = c and dep = "db_next s" and target = "cp_target p"
            and project = "Some project" and waves = "assign_waves (map d_id ds) (cp_phases p)"
            and k = "Suc (db_next s)" and m = 0 and ds = ds]
        by (simp_all only: row_id add_0_right)
      have row: "p_id ?row = db_next s" "p_status ?row \<in> {Active, Scheduled}"
        "p_phases ?row = phases_csv (cp_phases p)" "p_phase ?row = 0"
        using initial_status_Inr [OF st] by (auto simp: new_dep_row_def)
      define P where "P row nw \<longleftrightarrow> db_deps s' = db_deps s @ [row] \<and> info = dep_row_to_info row \<and>
            p_id row = db_next s \<and> p_status row \<in> {Active, Scheduled} \<and>
            p_phases row = phases_csv (cp_phases p) \<and> p_phase row = 0 \<and>
            db_jobs s' = db_jobs s @ nw \<and> map j_device nw = map d_id ds \<and>
            map j_id nw = [Suc (db_next s) ..< Suc (db_next s) + length ds] \<and>
            filter (\<lambda>j. \<not> (j_dep j = p_id row \<and> j_status j = JPending \<and> j_attempts j = 0 \<and>
              j_target j = cp_target p \<and>
              j_wave j = wave_for (assign_waves (map d_id ds) (cp_phases p)) (j_device j))) nw = []"
        for row nw
      have "P ?row ?new"
        unfolding P_def by (intro conjI) (rule rows info new row)+
      then have ex: "\<exists>row nw. P row nw" by blast
      show ?thesis
        unfolding cr Ok prod.case reply.case Let_def ds(1) [symmetric]
        using ds(2) conf ex rows(3,4) unfolding P_def by (intro conjI) assumption+
    qed
  next
    case (Err e)
    with create_deployment_refused [OF cr] show ?thesis by (simp add: cr)
  next
    case (Exc e)
    with create_deployment_refused [OF cr] show ?thesis by (simp add: cr)
  qed
qed

text \<open>A start time without an offset escapes as a \<open>TypeError\<close> once the checks before it pass.\<close>

lemma naive_start_time_raises:
  assumes "fw_of (cp_target p) s = Some fw" and "truthy (f_storage fw)"
    and "group_of (cp_group p) s = Some g" and "g_project g = Some project"
    and "resolve_deployable_devices (cp_group p) (cp_target p) s = Inr ds" and "cp_confirm p"
    and "cp_start p = Some (NaiveTime t)"
  shows "create_deployment c p s = (Exc TypeError, s)"
  using assms by (simp add: create_deployment_def initial_status_def)


section \<open>Abort, resume, status\<close>

lemma aborted_jobs_none:
  "filter (\<lambda>j. j_status j \<in> set in_flight) (filter (\<lambda>j. j_dep j = i)
     (map (\<lambda>j. if j_dep j = i \<and> j_status j \<in> set in_flight then j\<lparr>j_status := JAborted\<rparr> else j) js)) = []"
  by (induction js) (auto simp: in_flight_def)

lemma abort_deployment_flight:
  "(case abort_deployment c i s of
      (Ok info, s') \<Rightarrow>
        (\<exists>d. dep_of i s = Some d \<and> p_status d \<in> {Scheduled, Active, Paused} \<and>
             dep_of i s' = Some (d\<lparr>p_status := Aborted\<rparr>) \<and> i_status info = Aborted) \<and>
        db_jobs s' = map (\<lambda>j. if j_dep j = i \<and> j_status j \<in> set in_flight
                              then j\<lparr>j_status := JAborted\<rparr> else j) (db_jobs s) \<and>
        filter (\<lambda>j. j_status j \<in> set in_flight) (jobs_of i s') = [] \<and>
        db_devices s' = db_devices s
    | (_, s') \<Rightarrow> s' = s \<and> (case dep_of i s of None \<Rightarrow> True | Some d \<Rightarrow> p_status d \<in> {Finished, Aborted}))"
proof (cases "dep_of i s")
  case None
  then show ?thesis by (simp add: abort_deployment_def)
next
  case (Some d)
  show ?thesis
  proof (cases rule: dep_ok_cases [of "p_status d" Aborted])
    case 1
    let ?jobs = "map (\<lambda>j. if j_dep j = i \<and> j_status j \<in> set in_flight
        then j\<lparr>j_status := JAborted\<rparr> else j) (db_jobs s)"
    let ?s' = "snd (abort_deployment c i s)"
    have jobs: "db_jobs ?s' = ?jobs"
      using Some 1 by (simp add: abort_deployment_def Let_def update_where_def)
    have none: "filter (\<lambda>j. j_status j \<in> set in_flight) (jobs_of i ?s') = []"
      unfolding jobs_of_def jobs by (rule aborted_jobs_none)
    have st: "p_status d \<in> {Scheduled, Active, Paused}" using 1(1) by (cases "p_status d") auto
    have dep: "dep_of i ?s' = Some (d\<lparr>p_status := Aborted\<rparr>)"
      using Some 1 dep_of_upd_dep [of "\<lambda>d. d\<lparr>p_status := Aborted\<rparr>" i i s]
      by (simp add: abort_deployment_def Let_def upd_dep_def)
    have dev: "db_devices ?s' = db_devices s"
      using Some 1 by (simp add: abort_deployment_def Let_def)
    have "fst (abort_deployment c i s) = Ok (dep_row_to_info (d\<lparr>p_status := Aborted\<rparr>))"
      using Some 1 by (simp add: abort_deployment_def Let_def)
    then have eq: "abort_deployment c i s = (Ok (dep_row_to_info (d\<lparr>p_status := Aborted\<rparr>)), ?s')"
      by (metis prod.collapse)
    have info: "i_status (dep_row_to_info (d\<lparr>p_status := Aborted\<rparr>)) = Aborted"
      by (simp add: dep_row_to_info_def)
    show ?thesis
      by (subst eq, unfold prod.case reply.case)
        (intro conjI exI [of _ d]; (rule Some st dep info jobs dev none))
  next
    case (2 e)
    then have "p_status d \<in> {Finished, Aborted}" by (cases "p_status d") auto
    with Some 2 show ?thesis by (simp add: abort_deployment_def)
  qed
qed

text \<open>
  Aborting. The call is refused, and writes nothing, unless the deployment is scheduled, active
  or paused; when it is accepted the deployment is aborted, every job of it that was pending,
  downloading, installing or rebooting is aborted, jobs of other deployments and jobs already
  terminal are as they were, and no device row changes.
\<close>

theorem abort_deployment_correct:
  "(case abort_deployment c i s of
      (Ok info, s') \<Rightarrow>
        (\<exists>d. dep_of i s = Some d \<and> p_status d \<in> {Scheduled, Active, Paused} \<and>
             dep_of i s' = Some (d\<lparr>p_status := Aborted\<rparr>) \<and> i_status info = Aborted) \<and>
        db_jobs s' = map (\<lambda>j. if j_dep j = i \<and> j_status j \<in> {JPending, JDownloading, JInstalling, JRebooting}
                              then j\<lparr>j_status := JAborted\<rparr> else j) (db_jobs s) \<and>
        filter (\<lambda>j. j_status j \<in> {JPending, JDownloading, JInstalling, JRebooting}) (jobs_of i s') = [] \<and>
        db_devices s' = db_devices s
    | (_, s') \<Rightarrow> s' = s \<and> (case dep_of i s of None \<Rightarrow> True | Some d \<Rightarrow> p_status d \<in> {Finished, Aborted}))"
  using abort_deployment_flight [where c = c and i = i and s = s] unfolding in_flight_def list.set .

text \<open>
  The breakdown of \<open>get_deployment_status\<close> leaves out timed-out and decommissioned jobs.
\<close>

lemma sum_status_counts:
  "length jobs = sum_list (map (\<lambda>st. count_of (status_counts jobs) st)
     [JPending, JDownloading, JVerifying, JInstalling, JRebooting, JCommitted, JSuccess,
      JAlreadyInstalled, JFailure, JRolledBack, JAborted, JTimedOut, JDecommissioned])"
proof (induction jobs)
  case (Cons j jobs)
  then show ?case by (cases "j_status j") (simp_all add: count_of_status_counts)
qed (simp add: count_of_status_counts)

text \<open>
  The status report counts each job once under its own status, and its counts miss exactly the
  jobs that timed out, were decommissioned with their device, or are in one of the three statuses
  of the dashboard's vocabulary.
\<close>

theorem status_report_counts:
  assumes "get_deployment_status i s = Ok r"
  shows "dp_total r = dp_pending r + dp_downloading r + dp_installing r + dp_rebooting r
    + dp_success r + dp_failure r + dp_aborted r + dp_already r
    + length (filter (\<lambda>j. j_status j \<in> {JTimedOut, JDecommissioned, JVerifying, JCommitted, JRolledBack})
        (jobs_of i s))"
proof -
  let ?js = "jobs_of i s"
  have split: "length (filter (\<lambda>j. j_status j \<in> {JTimedOut, JDecommissioned, JVerifying, JCommitted, JRolledBack}) js)
    = sum_list (map (\<lambda>st. length (filter (\<lambda>j. j_status j = st) js))
        [JTimedOut, JDecommissioned, JVerifying, JCommitted, JRolledBack])" for js
    by (induction js) (auto simp del: length_filter_conv_card)
  show ?thesis
    using assms sum_status_counts [of ?js] split [of ?js]
    by (auto simp: get_deployment_status_def Let_def count_of_status_counts split: option.splits)
qed

lemma status_report_counts_witness:
  "\<exists>r. get_deployment_status 20 (sample_db JTimedOut JSuccess JPending) = Ok r \<and> dp_total r = 3
     \<and> dp_pending r + dp_downloading r + dp_installing r + dp_rebooting r
       + dp_success r + dp_failure r + dp_aborted r + dp_already r = 2"
proof -
  obtain r where r: "get_deployment_status 20 (sample_db JTimedOut JSuccess JPending) = Ok r"
    by (simp add: get_deployment_status_def look_key_def sample_defs Let_def)
  then have "dp_total r = 3"
    by (auto simp: get_deployment_status_def look_key_def sample_defs Let_def jobs_of_def)
  moreover have "length (filter (\<lambda>j. j_status j \<in> {JTimedOut, JDecommissioned, JVerifying, JCommitted, JRolledBack})
        (jobs_of 20 (sample_db JTimedOut JSuccess JPending))) = 1"
    by (simp add: jobs_of_def sample_defs)
  ultimately show ?thesis using r status_report_counts [OF r] by auto
qed

end
