(* ===== verification/Delivery.thy ===== *)
theory Delivery
  imports Deployments
begin

text \<open>
  Delivering a wave: \<open>fleet.py\<close> (the request to nff-fleet and how its answer is read) and
  \<open>start_deployment\<close>, \<open>_deliver_wave\<close> and the rate limit of \<open>tools/deployments/ops.py\<close>.
  \<open>asyncio.gather\<close> runs one \<open>_deliver_one\<close> per job; each touches the row of its own job only, and
  the model runs them in the order of the jobs. An exception other than \<open>FleetError\<close> lets the
  other deliveries finish and escapes from the call, skipping what follows the gather.
\<close>

section \<open>Asking the fleet\<close>

datatype fleet_error =
    NoFleetUrl
  | NoFleetSecret
  | RequestFailed string
  | FleetStatus nat json

definition require_config :: "settings \<Rightarrow> fleet_error option" where
  "require_config st =
     (if s_fleet_url st = [] then Some NoFleetUrl
      else if s_fleet_secret st = [] then Some NoFleetSecret else None)"

definition send_command ::
  "ctx \<Rightarrow> string \<Rightarrow> (string \<times> json) list \<Rightarrow> uuid \<Rightarrow> rat option \<Rightarrow> fleet_error + json" where
  "send_command c mqtt_id payload project timeout =
     (case require_config (cx_set c) of
        Some e \<Rightarrow> Inl e
      | None \<Rightarrow>
          (let t = (case timeout of None \<Rightarrow> s_fleet_timeout (cx_set c) | Some x \<Rightarrow> x) in
           case cx_post c \<lparr>cmd_device = mqtt_id, cmd_project = project, cmd_payload = payload,
                cmd_timeout = t\<rparr> of
             TransportError msg \<Rightarrow> Inl (RequestFailed msg)
           | Response code body \<Rightarrow>
               (let data = (case body of Inl d \<Rightarrow> d | Inr txt \<Rightarrow> [(''error'', JStr txt)]) in
                if code \<noteq> 200 then Inl (FleetStatus code (jget_or ''error'' (JObj data) data))
                else Inr (jget_or ''response'' (JObj []) data))))"

definition ota_payload ::
  "string \<Rightarrow> string \<Rightarrow> string \<Rightarrow> string option \<Rightarrow> int option \<Rightarrow> (string \<times> json) list" where
  "ota_payload version sha256 url build_id nbytes =
     [(''action'', JStr ''ota''), (''version'', JStr version), (''sha256'', JStr sha256),
      (''url'', JStr url)]
     @ (if truthy build_id then [(''build_id'', JStr (the build_id))] else [])
     @ (case nbytes of None \<Rightarrow> [] | Some n \<Rightarrow> if n = 0 then [] else [(''size'', JInt n)])"

definition deliver_ota ::
  "ctx \<Rightarrow> string \<Rightarrow> string \<Rightarrow> string \<Rightarrow> string \<Rightarrow> uuid \<Rightarrow> string option \<Rightarrow> int option \<Rightarrow> fleet_error + json" where
  "deliver_ota c mqtt_id version sha256 url project build_id nbytes =
     send_command c mqtt_id (ota_payload version sha256 url build_id nbytes) project None"


section \<open>The rate limit\<close>

definition project_rate_limit_window :: "ctx \<Rightarrow> uuid option \<Rightarrow> db \<Rightarrow> rat" where
  "project_rate_limit_window c project s = (case project of
      None \<Rightarrow> s_rate_limit (cx_set c)
    | Some pid \<Rightarrow> (case look_key pr_id pid (db_projects s) of
        None \<Rightarrow> s_rate_limit (cx_set c)
      | Some row \<Rightarrow> (case pr_rate_limit row of
          None \<Rightarrow> s_rate_limit (cx_set c) | Some v \<Rightarrow> v)))"

definition rate_limited_devices ::
  "ctx \<Rightarrow> string list \<Rightarrow> uuid \<Rightarrow> rat option \<Rightarrow> db \<Rightarrow> string list" where
  "rate_limited_devices c device_ids exclude window s =
     (let w = (case window of None \<Rightarrow> s_rate_limit (cx_set c) | Some x \<Rightarrow> x) in
      if w \<le> 0 \<or> device_ids = [] then []
      else
        (let cutoff = cx_now c - seconds w;
             rows = filter (\<lambda>j. j_device j \<in> set device_ids \<and> j_updated j > cutoff) (db_jobs s) in
         remdups (map j_device (filter (\<lambda>j. j_dep j \<noteq> exclude \<and> j_status j \<noteq> JPending) rows))))"


section \<open>Delivering a wave\<close>

datatype outcome = Delivered | Failed | Skipped

datatype detail = RateLimitDetail int | NoProjectDetail | StatusDetail json | FleetDetail fleet_error

record delivery =
  dl_device :: string
  dl_mqtt :: "string option"
  dl_outcome :: outcome
  dl_detail :: detail

text \<open>The artifact a wave ships: wire version, checksum, URL, build id and size.\<close>

record shipment =
  sh_version :: string
  sh_sha :: string
  sh_url :: string
  sh_build :: "string option"
  sh_size :: "int option"

definition resolve_shipment :: "ctx \<Rightarrow> string \<Rightarrow> db \<Rightarrow> dep_error + shipment" where
  "resolve_shipment c version s = (case fw_of version s of
      None \<Rightarrow> Inl (FirmwareNotFound version)
    | Some fw \<Rightarrow>
        if \<not> truthy (f_checksum fw) then Inl (NoChecksum version)
        else (case cx_url c version of
            None \<Rightarrow> Inl (UrlFailed version)
          | Some url \<Rightarrow> Inr \<lparr>sh_version = or_else (f_release fw) version,
              sh_sha = the (f_checksum fw), sh_url = url, sh_build = f_build fw,
              sh_size = f_size fw\<rparr>))"

definition released_pending :: "uuid \<Rightarrow> nat \<Rightarrow> db \<Rightarrow> job_row list" where
  "released_pending dep_id max_wave s =
     filter (\<lambda>j. j_dep j = dep_id \<and> j_status j = JPending \<and> j_wave j \<le> max_wave) (db_jobs s)"

definition mqtt_id_of :: "device_row list \<Rightarrow> string \<Rightarrow> string" where
  "mqtt_id_of devs d = (case look_key d_id d devs of
      None \<Rightarrow> d
    | Some row \<Rightarrow> or_else (map_of (d_identity row) ''mqtt_id'') d)"

definition project_of :: "device_row list \<Rightarrow> string \<Rightarrow> uuid option" where
  "project_of devs d = (case look_key d_id d devs of None \<Rightarrow> None | Some row \<Rightarrow> d_project row)"

text \<open>The two writes of one delivery: at dispatch, and when the fleet reports an error.\<close>

definition dispatch_job :: "ctx \<Rightarrow> job_row \<Rightarrow> db \<Rightarrow> db" where
  "dispatch_job c job s = upd_job (j_id job)
     (\<lambda>j. j\<lparr>j_status := JDownloading, j_attempts := j_attempts job + 1, j_updated := cx_now c\<rparr>) s"

definition delivery_failed :: "ctx \<Rightarrow> job_row \<Rightarrow> db \<Rightarrow> db" where
  "delivery_failed c job s =
     upd_job (j_id job) (\<lambda>j. j\<lparr>j_status := JFailure, j_updated := cx_now c\<rparr>) s"

text \<open>\<open>_deliver_one\<close>; \<open>None\<close> as its result means an exception that is not a \<open>FleetError\<close>, from
  \<open>resp.get\<close> on a device response that is not an object.\<close>

definition deliver_one ::
  "ctx \<Rightarrow> shipment \<Rightarrow> device_row list \<Rightarrow> string list \<Rightarrow> rat \<Rightarrow> job_row \<Rightarrow> db \<Rightarrow> delivery option \<times> db" where
  "deliver_one c sh devs limited window job s =
     (let device = j_device job in
      if device \<in> set limited then
        (Some \<lparr>dl_device = device, dl_mqtt = None, dl_outcome = Skipped,
            dl_detail = RateLimitDetail \<lfloor>window\<rfloor>\<rparr>, s)
      else
        (let mqtt = mqtt_id_of devs device in
         case project_of devs device of
           None \<Rightarrow> (Some \<lparr>dl_device = device, dl_mqtt = None, dl_outcome = Skipped,
                       dl_detail = NoProjectDetail\<rparr>, s)
         | Some project \<Rightarrow>
             (let s1 = dispatch_job c job s in
              case deliver_ota c mqtt (sh_version sh) (sh_sha sh) (sh_url sh) project (sh_build sh)
                  (sh_size sh) of
                Inr (JObj resp) \<Rightarrow> (Some \<lparr>dl_device = device, dl_mqtt = Some mqtt,
                    dl_outcome = Delivered, dl_detail = StatusDetail (jget_or ''status'' (JStr []) resp)\<rparr>, s1)
              | Inr _ \<Rightarrow> (None, s1)
              | Inl e \<Rightarrow> (Some \<lparr>dl_device = device, dl_mqtt = Some mqtt, dl_outcome = Failed,
                    dl_detail = FleetDetail e\<rparr>, delivery_failed c job s1))))"

fun deliver_all ::
  "(job_row \<Rightarrow> db \<Rightarrow> delivery option \<times> db) \<Rightarrow> job_row list \<Rightarrow> db \<Rightarrow> delivery option list \<times> db" where
  "deliver_all f [] s = ([], s)"
| "deliver_all f (j # js) s =
     (let (r, s1) = f j s; (rs, s2) = deliver_all f js s1 in (r # rs, s2))"

record start_result =
  st_info :: dep_info
  st_delivered :: nat
  st_failed :: nat
  st_skipped :: nat
  st_devices :: "delivery list"

definition count_outcome :: "outcome \<Rightarrow> delivery list \<Rightarrow> nat" where
  "count_outcome out rs = length (filter (\<lambda>r. dl_outcome r = out) rs)"

text \<open>What follows the gather: pause when the rate limit blocked the wave, else roll up.\<close>

definition settle_wave ::
  "ctx \<Rightarrow> dep_row \<Rightarrow> uuid \<Rightarrow> bool \<Rightarrow> string list \<Rightarrow> rat \<Rightarrow> delivery list \<Rightarrow> db \<Rightarrow> db" where
  "settle_wave c dep dep_id bypass limited window results s =
     (if \<not> bypass \<and> count_outcome Delivered results = 0 \<and> limited \<noteq> [] \<and> p_status dep = Active
      then upd_dep dep_id (\<lambda>d. d\<lparr>p_status := Paused,
             p_halted := Some (RateLimited (length limited) window)\<rparr>) s
      else recompute_deployment_status c dep_id s)"

definition deliver_wave ::
  "ctx \<Rightarrow> dep_row \<Rightarrow> uuid \<Rightarrow> nat \<Rightarrow> bool \<Rightarrow> db \<Rightarrow> start_result reply \<times> db" where
  "deliver_wave c dep dep_id max_wave bypass_rate_limit s =
     (case resolve_shipment c (p_target dep) s of
        Inl e \<Rightarrow> (Err e, s)
      | Inr sh \<Rightarrow>
          (let pending = released_pending dep_id max_wave s in
           if pending = [] then (Err NoPending, s)
           else
             (let ids = map j_device pending;
                  devs = filter (\<lambda>d. d_id d \<in> set ids) (db_devices s);
                  bypass = (bypass_rate_limit \<or> p_override dep);
                  s1 = (if p_override dep then upd_dep dep_id (\<lambda>d. d\<lparr>p_override := False\<rparr>) s else s);
                  window = project_rate_limit_window c (p_project dep) s1;
                  limited = (if bypass then [] else rate_limited_devices c ids dep_id (Some window) s1);
                  (raw, s2) = deliver_all (deliver_one c sh devs limited window) pending s1 in
              if None \<in> set raw then (Exc AttributeError, s2)
              else
                (let results = List.map_filter (\<lambda>r. r) raw;
                     s3 = settle_wave c dep dep_id bypass limited window results s2 in
                 (Ok \<lparr>st_info = (case dep_of dep_id s3 of
                          Some d \<Rightarrow> dep_row_to_info d | None \<Rightarrow> dep_row_to_info dep),
                      st_delivered = count_outcome Delivered results,
                      st_failed = count_outcome Failed results,
                      st_skipped = count_outcome Skipped results,
                      st_devices = results\<rparr>, s3)))))"

definition start_deployment :: "ctx \<Rightarrow> uuid \<Rightarrow> bool \<Rightarrow> db \<Rightarrow> start_result reply \<times> db" where
  "start_deployment c dep_id force s = (case dep_of dep_id s of
      None \<Rightarrow> (Err (DeploymentNotFound dep_id), s)
    | Some dep \<Rightarrow>
        if p_status dep \<noteq> Scheduled \<and> p_status dep \<noteq> Active then (Err (CannotStart (p_status dep)), s)
        else
          (let s1 = (if p_status dep = Scheduled
                then upd_dep dep_id (\<lambda>d. d\<lparr>p_status := Active\<rparr>) s else s);
               dep1 = dep\<lparr>p_status := Active\<rparr> in
           deliver_wave c dep1 dep_id (p_phase dep) force s1))"


section \<open>What a delivery changes\<close>

text \<open>A step on the jobs that may only move jobs of the deployment, pending and released.\<close>

definition job_moved :: "ctx \<Rightarrow> job_row \<Rightarrow> job_row \<Rightarrow> bool" where
  "job_moved c j j' \<longleftrightarrow>
     j' = j \<or>
     (j' = j\<lparr>j_status := JDownloading, j_attempts := j_attempts j + 1, j_updated := cx_now c\<rparr>) \<or>
     (j' = j\<lparr>j_status := JFailure, j_attempts := j_attempts j + 1, j_updated := cx_now c\<rparr>)"

lemma deliver_one_frame:
  "db_deps (snd (deliver_one c sh devs limited window job s)) = db_deps s"
  "db_devices (snd (deliver_one c sh devs limited window job s)) = db_devices s"
  "db_groups (snd (deliver_one c sh devs limited window job s)) = db_groups s"
  "db_members (snd (deliver_one c sh devs limited window job s)) = db_members s"
  "db_fws (snd (deliver_one c sh devs limited window job s)) = db_fws s"
  "db_projects (snd (deliver_one c sh devs limited window job s)) = db_projects s"
  "db_messages (snd (deliver_one c sh devs limited window job s)) = db_messages s"
  "db_next (snd (deliver_one c sh devs limited window job s)) = db_next s"
  by (simp_all add: deliver_one_def Let_def dispatch_job_def delivery_failed_def
      split: option.split sum.split json.split)

lemma deliver_all_frame:
  assumes "\<And>j s. g (snd (f j s)) = g s"
  shows "g (snd (deliver_all f js s)) = g s"
  using assms by (induction js arbitrary: s) (auto simp: Let_def case_prod_unfold)

lemma dispatch_then_failed:
  "delivery_failed c job (dispatch_job c job s) = upd_job (j_id job)
     (\<lambda>j. j\<lparr>j_status := JFailure, j_attempts := j_attempts job + 1, j_updated := cx_now c\<rparr>) s"
  by (simp add: delivery_failed_def dispatch_job_def upd_job_def upd_key_def update_where_def o_def
      if_distrib cong: if_cong)

lemma deliver_one_jobs:
  "snd (deliver_one c sh devs limited window job s) = s \<or>
   snd (deliver_one c sh devs limited window job s) = dispatch_job c job s \<or>
   snd (deliver_one c sh devs limited window job s) = delivery_failed c job (dispatch_job c job s)"
  by (simp add: deliver_one_def Let_def split: option.split sum.split json.split)

text \<open>One delivery leaves every other row alone and moves its own row from the value it was read
  with; a rate-limited device is not touched.\<close>

definition moves :: "ctx \<Rightarrow> job_row set \<Rightarrow> job_row \<Rightarrow> job_row \<Rightarrow> bool" where
  "moves c A j j' \<longleftrightarrow> j_id j' = j_id j \<and> (if j \<in> A then job_moved c j j' else j' = j)"

lemma moves_upd_job:
  assumes "distinct (map j_id (db_jobs s))" "job \<in> set (db_jobs s)"
    and "job_moved c job (f job)" "j_id (f job) = j_id job"
  shows "list_all2 (moves c {job}) (db_jobs s) (db_jobs (upd_job (j_id job) f s))"
proof -
  have uniq: "j = job" if "j \<in> set (db_jobs s)" "j_id j = j_id job" for j
    using that assms by (auto simp: distinct_map dest: inj_onD)
  show ?thesis
    using assms(3,4) uniq
    by (auto simp: upd_job_def upd_key_def update_where_def list_all2_conv_all_nth moves_def)
qed

lemma moves_refl: "A = {} \<or> (\<forall>j. job_moved c j j) \<Longrightarrow> list_all2 (moves c A) js js"
  by (auto simp: list_all2_conv_all_nth moves_def)

lemma job_moved_refl [simp]: "job_moved c j j"
  by (simp add: job_moved_def)

lemma deliver_one_list:
  assumes "distinct (map j_id (db_jobs s))" "job \<in> set (db_jobs s)"
  shows "list_all2 (moves c (if j_device job \<in> set limited then {} else {job}))
    (db_jobs s) (db_jobs (snd (deliver_one c sh devs limited window job s)))"
proof (cases "j_device job \<in> set limited")
  case True
  then show ?thesis by (simp add: deliver_one_def moves_refl)
next
  case False
  from deliver_one_jobs [of c sh devs limited window job s] show ?thesis
  proof (elim disjE)
    assume "snd (deliver_one c sh devs limited window job s) = s"
    then show ?thesis by (simp add: moves_refl)
  next
    assume "snd (deliver_one c sh devs limited window job s) = dispatch_job c job s"
    then show ?thesis
      using moves_upd_job [OF assms] False by (simp add: dispatch_job_def job_moved_def)
  next
    assume "snd (deliver_one c sh devs limited window job s) = delivery_failed c job (dispatch_job c job s)"
    then show ?thesis
      using moves_upd_job [OF assms] False by (simp add: dispatch_then_failed job_moved_def)
  qed
qed

lemma moves_ids: "list_all2 (moves c A) js js' \<Longrightarrow> map j_id js' = map j_id js"
  by (induction rule: list_all2_induct) (auto simp: moves_def)

lemma deliver_all_list:
  assumes "distinct (map j_id (db_jobs s))" "set js \<subseteq> set (db_jobs s)" "distinct js"
  shows "list_all2 (moves c {j \<in> set js. j_device j \<notin> set limited})
    (db_jobs s) (db_jobs (snd (deliver_all (deliver_one c sh devs limited window) js s)))"
  using assms
proof (induction js arbitrary: s)
  case Nil
  then show ?case by (simp add: moves_refl)
next
  case (Cons job js)
  define s1 where "s1 = snd (deliver_one c sh devs limited window job s)"
  define s2 where "s2 = snd (deliver_all (deliver_one c sh devs limited window) js s1)"
  let ?A = "if j_device job \<in> set limited then {} else {job}"
  let ?B = "{j \<in> set js. j_device j \<notin> set limited}"
  have step: "list_all2 (moves c ?A) (db_jobs s) (db_jobs s1)"
    unfolding s1_def using Cons.prems by (intro deliver_one_list) auto
  note ids = moves_ids [OF step]
  have uniq: "q = r" if "q \<in> set (db_jobs s)" "r \<in> set (db_jobs s)" "j_id q = j_id r" for q r
    using that Cons.prems(1) by (auto simp: distinct_map dest: inj_onD)
  have sub: "set js \<subseteq> set (db_jobs s1)"
  proof
    fix j assume j: "j \<in> set js"
    then obtain n where n: "n < length (db_jobs s)" "db_jobs s ! n = j"
      using Cons.prems(2) by (auto simp: in_set_conv_nth dest!: subsetD)
    have "moves c ?A j (db_jobs s1 ! n)" using list_all2_nthD [OF step n(1)] n(2) by simp
    moreover have "j \<noteq> job" using j Cons.prems(3) by auto
    ultimately have "db_jobs s1 ! n = j" by (simp add: moves_def split: if_splits)
    then show "j \<in> set (db_jobs s1)" using n(1) list_all2_lengthD [OF step] by (metis nth_mem)
  qed
  have rest: "list_all2 (moves c ?B) (db_jobs s1) (db_jobs s2)"
    unfolding s2_def using Cons.prems sub ids by (intro Cons.IH) auto
  have "moves c {j \<in> set (job # js). j_device j \<notin> set limited} j j2"
    if j: "j \<in> set (db_jobs s)" and m1: "moves c ?A j j1" and m2: "moves c ?B j1 j2" for j j1 j2
  proof (cases "j = job")
    case True
    have "j1 \<notin> set js"
    proof
      assume "j1 \<in> set js"
      with Cons.prems(2) have "j1 \<in> set (db_jobs s)" by auto
      with uniq [OF this j] m1 have "j1 = job" by (simp add: moves_def True)
      with \<open>j1 \<in> set js\<close> Cons.prems(3) show False by simp
    qed
    then show ?thesis using m1 m2 True by (auto simp: moves_def split: if_splits)
  next
    case False
    then have "j1 = j" using m1 by (simp add: moves_def split: if_splits)
    with m2 False show ?thesis by (auto simp: moves_def)
  qed
  then have "list_all2 (moves c {j \<in> set (job # js). j_device j \<notin> set limited}) (db_jobs s) (db_jobs s2)"
    using step rest by (auto simp: list_all2_conv_all_nth)
  moreover have "snd (deliver_all (deliver_one c sh devs limited window) (job # js) s) = s2"
    by (simp add: Let_def case_prod_unfold s1_def s2_def)
  ultimately show ?case by simp
qed


section \<open>What a wave changes\<close>

definition wave_limited :: "ctx \<Rightarrow> dep_row \<Rightarrow> uuid \<Rightarrow> nat \<Rightarrow> bool \<Rightarrow> db \<Rightarrow> string list" where
  "wave_limited c dep dep_id max_wave bypass s =
     (if bypass \<or> p_override dep then []
      else rate_limited_devices c (map j_device (released_pending dep_id max_wave s)) dep_id
        (Some (project_rate_limit_window c (p_project dep) s)) s)"

lemma settle_frame [simp]:
  "db_jobs (settle_wave c dep i b limited w rs s) = db_jobs s"
  "db_devices (settle_wave c dep i b limited w rs s) = db_devices s"
  "db_groups (settle_wave c dep i b limited w rs s) = db_groups s"
  "db_members (settle_wave c dep i b limited w rs s) = db_members s"
  "db_fws (settle_wave c dep i b limited w rs s) = db_fws s"
  by (simp_all add: settle_wave_def)

text \<open>The delivery part of a wave, and what follows it.\<close>

lemma deliver_wave_cases:
  obtains (nothing) e where "deliver_wave c dep i w force s = (Err e, s)"
  | (wave) sh s1 s2 raw window devs where
      "s1 = (if p_override dep then upd_dep i (\<lambda>d. d\<lparr>p_override := False\<rparr>) s else s)"
      "released_pending i w s \<noteq> []"
      "(raw, s2) = deliver_all (deliver_one c sh devs (wave_limited c dep i w force s) window)
          (released_pending i w s) s1"
      "snd (deliver_wave c dep i w force s) =
         (if None \<in> set raw then s2
          else settle_wave c dep i (force \<or> p_override dep) (wave_limited c dep i w force s) window
            (List.map_filter (\<lambda>r. r) raw) s2)"
proof (cases "resolve_shipment c (p_target dep) s")
  case (Inl e)
  then have "deliver_wave c dep i w force s = (Err e, s)" by (simp add: deliver_wave_def)
  then show thesis by (rule nothing)
next
  case (Inr sh)
  show thesis
  proof (cases "released_pending i w s = []")
    case True
    with Inr have "deliver_wave c dep i w force s = (Err NoPending, s)"
      by (simp add: deliver_wave_def)
    then show thesis by (rule nothing)
  next
    case False
    let ?pending = "released_pending i w s"
    let ?devs = "filter (\<lambda>d. d_id d \<in> set (map j_device ?pending)) (db_devices s)"
    let ?s1 = "if p_override dep then upd_dep i (\<lambda>d. d\<lparr>p_override := False\<rparr>) s else s"
    let ?window = "project_rate_limit_window c (p_project dep) ?s1"
    let ?limited = "wave_limited c dep i w force s"
    have lim: "(if force \<or> p_override dep then []
        else rate_limited_devices c (map j_device ?pending) i (Some ?window) ?s1) = ?limited"
      by (simp add: wave_limited_def)
    obtain raw s2 where run: "deliver_all (deliver_one c sh ?devs ?limited ?window) ?pending ?s1 = (raw, s2)"
      by (cases "deliver_all (deliver_one c sh ?devs ?limited ?window) ?pending ?s1")
    show thesis
    proof (rule wave [OF refl False run [symmetric]])
      show "snd (deliver_wave c dep i w force s) =
         (if None \<in> set raw then s2
          else settle_wave c dep i (force \<or> p_override dep) ?limited ?window
            (List.map_filter (\<lambda>r. r) raw) s2)"
        unfolding deliver_wave_def Inr sum.case Let_def if_not_P [OF False] lim run prod.case
        by (simp split: if_split)
    qed
  qed
qed

lemma deliver_wave_jobs:
  assumes "distinct (map j_id (db_jobs s))"
  shows "list_all2 (moves c {j \<in> set (released_pending i w s).
       j_device j \<notin> set (wave_limited c dep i w force s)})
     (db_jobs s) (db_jobs (snd (deliver_wave c dep i w force s)))"
proof (cases rule: deliver_wave_cases [of c dep i w force s])
  case (nothing e)
  then show ?thesis by (simp add: moves_refl)
next
  case (wave sh s1 s2 raw window devs)
  have s1: "db_jobs s1 = db_jobs s" by (simp add: wave(1))
  have "db_jobs (snd (deliver_wave c dep i w force s)) = db_jobs s2"
    by (simp add: wave(4))
  also have "s2 = snd (deliver_all (deliver_one c sh devs (wave_limited c dep i w force s) window)
      (released_pending i w s) s1)"
    by (simp flip: wave(3))
  finally have eq: "db_jobs (snd (deliver_wave c dep i w force s)) =
      db_jobs (snd (deliver_all (deliver_one c sh devs (wave_limited c dep i w force s) window)
        (released_pending i w s) s1))" .
  have sub: "set (released_pending i w s) \<subseteq> set (db_jobs s1)" "distinct (released_pending i w s)"
    using assms by (auto simp: released_pending_def s1 distinct_map)
  have "distinct (map j_id (db_jobs s1))" using assms by (simp add: s1)
  from deliver_all_list [OF this sub, of c "wave_limited c dep i w force s" sh devs window]
  show ?thesis unfolding eq s1 by simp
qed

lemma deliver_wave_deps:
  "db_devices (snd (deliver_wave c dep i w force s)) = db_devices s"
  "k \<noteq> i \<Longrightarrow> dep_of k (snd (deliver_wave c dep i w force s)) = dep_of k s"
  "dep_of i s = Some d \<Longrightarrow> \<exists>d'. dep_of i (snd (deliver_wave c dep i w force s)) = Some d' \<and>
     (p_status d' = p_status d \<or> p_status d \<notin> set no_finish_dep \<and> p_status d' = Finished \<or>
      p_status dep = Active \<and> p_status d' = Paused) \<and>
     p_phase d' = p_phase d \<and> p_phases d' = p_phases d"
proof -
  have frame: "db_deps s2 = db_deps s1" "db_devices s2 = db_devices s1"
    if "(raw, s2) = deliver_all (deliver_one c sh devs limited window) js s1"
    for raw s2 s1 sh devs limited window js
    using deliver_all_frame [of db_deps "deliver_one c sh devs limited window" js s1]
      deliver_all_frame [of db_devices "deliver_one c sh devs limited window" js s1] that
    by (simp_all add: deliver_one_frame) (metis snd_conv)+
  show "db_devices (snd (deliver_wave c dep i w force s)) = db_devices s"
    by (cases rule: deliver_wave_cases [of c dep i w force s]) (simp_all add: frame)
  show "dep_of k (snd (deliver_wave c dep i w force s)) = dep_of k s" if "k \<noteq> i"
  proof (cases rule: deliver_wave_cases [of c dep i w force s])
    case (wave sh s1 s2 raw window devs)
    with that show ?thesis
      by (auto simp: settle_wave_def frame dep_of_upd_dep recompute_dep_of split: option.split)
  qed simp
  show "\<exists>d'. dep_of i (snd (deliver_wave c dep i w force s)) = Some d' \<and>
     (p_status d' = p_status d \<or> p_status d \<notin> set no_finish_dep \<and> p_status d' = Finished \<or>
      p_status dep = Active \<and> p_status d' = Paused) \<and>
     p_phase d' = p_phase d \<and> p_phases d' = p_phases d" if "dep_of i s = Some d"
  proof (cases rule: deliver_wave_cases [of c dep i w force s])
    case (wave sh s1 s2 raw window devs)
    have "\<exists>d1. dep_of i s2 = Some d1 \<and> p_status d1 = p_status d \<and> p_phase d1 = p_phase d \<and> p_phases d1 = p_phases d"
      using that wave(1) by (simp add: frame [OF wave(3)] dep_of_upd_dep)
    then show ?thesis
      unfolding wave(4)
      by (auto simp: settle_wave_def dep_of_upd_dep recompute_dep_of split: option.split)
  qed (simp add: that)
qed

text \<open>
  C3. A wave reaches only its own cohort. Whatever the fleet answers, and whether or not an
  exception escapes, delivering wave \<open>w\<close> of a deployment changes no job except pending jobs of that
  deployment in waves up to \<open>w\<close>; each of those is untouched, downloading or failed, with one more
  attempt; no other deployment and no device row changes.
\<close>

theorem deliver_wave_confined:
  assumes "distinct (map j_id (db_jobs s))"
  shows "list_all2 (\<lambda>j j'. j' = j \<or>
       (j_dep j = i \<and> j_status j = JPending \<and> j_wave j \<le> w \<and> job_moved c j j'))
     (db_jobs s) (db_jobs (snd (deliver_wave c dep i w force s)))
   \<and> db_devices (snd (deliver_wave c dep i w force s)) = db_devices s
   \<and> (\<forall>k. k = i \<or> dep_of k (snd (deliver_wave c dep i w force s)) = dep_of k s)"
proof (intro conjI allI)
  show "list_all2 (\<lambda>j j'. j' = j \<or>
       (j_dep j = i \<and> j_status j = JPending \<and> j_wave j \<le> w \<and> job_moved c j j'))
     (db_jobs s) (db_jobs (snd (deliver_wave c dep i w force s)))"
    using deliver_wave_jobs [OF assms, of c i w dep force]
    by (rule list_all2_mono) (auto simp: moves_def released_pending_def split: if_splits)
  show "k = i \<or> dep_of k (snd (deliver_wave c dep i w force s)) = dep_of k s" for k
    using deliver_wave_deps(2) by (cases "k = i") auto
qed (rule deliver_wave_deps(1))

text \<open>
  C10. The rate limit holds. Unless the caller forces the delivery or the one-shot override is set,
  no wave touches a job whose device had a job of another deployment leave pending within the
  window.
\<close>

theorem rate_limit_respected:
  assumes "distinct (map j_id (db_jobs s))" and "\<not> force" and "\<not> p_override dep"
    and "window = project_rate_limit_window c (p_project dep) s" and "0 < window"
    and "n < length (db_jobs s)" and "q \<in> set (db_jobs s)"
    and "j_device q = j_device (db_jobs s ! n)" and "j_dep q \<noteq> i" and "j_status q \<noteq> JPending"
    and "cx_now c - seconds window < j_updated q"
  shows "db_jobs (snd (deliver_wave c dep i w force s)) ! n = db_jobs s ! n"
proof -
  let ?j = "db_jobs s ! n"
  have "moves c {j \<in> set (released_pending i w s). j_device j \<notin> set (wave_limited c dep i w force s)}
      ?j (db_jobs (snd (deliver_wave c dep i w force s)) ! n)"
    using list_all2_nthD [OF deliver_wave_jobs [OF assms(1), of c i w dep force] assms(6)] .
  moreover have "j_device ?j \<in> set (wave_limited c dep i w force s)" if "?j \<in> set (released_pending i w s)"
    using that assms(2-5,7-11)
    by (auto simp: wave_limited_def rate_limited_devices_def Let_def not_le intro!: rev_image_eqI)
  ultimately show ?thesis by (auto simp: moves_def split: if_splits)
qed

text \<open>A concrete wave: the third device took another update a moment ago and is skipped.\<close>

definition recent_db :: db where
  "recent_db = (sample_db JPending JPending JPending)
     \<lparr>db_jobs := db_jobs (sample_db JPending JPending JPending) @
        [(sample_job 33 ''d3'' JSuccess)\<lparr>j_dep := 21, j_updated := 9999999999\<rparr>]\<rparr>"

lemma deliver_wave_confined_witness:
  "distinct (map j_id (db_jobs (sample_db JPending JPending JPending))) \<and>
   db_devices (snd (deliver_wave sample_ctx sample_dep 20 0 False (sample_db JPending JPending JPending)))
     = db_devices (sample_db JPending JPending JPending)"
proof -
  have d: "distinct (map j_id (db_jobs (sample_db JPending JPending JPending)))"
    by (simp add: sample_defs)
  from deliver_wave_confined [OF this, of 20 0 sample_ctx sample_dep False] d show ?thesis by blast
qed

lemma seconds_3600: "seconds 3600 = 3600000000"
  using round_half_even_of_int [of 3600000000] by (simp add: seconds_def)

lemma rate_limit_respected_witness:
  "j_status (db_jobs (snd (deliver_wave sample_ctx sample_dep 20 0 False recent_db)) ! 2) = JPending"
proof -
  have w: "project_rate_limit_window sample_ctx (p_project sample_dep) recent_db = 3600"
    by (simp add: project_rate_limit_window_def look_key_def recent_db_def sample_defs)
  have "db_jobs (snd (deliver_wave sample_ctx sample_dep 20 0 False recent_db)) ! 2 = db_jobs recent_db ! 2"
  proof (rule rate_limit_respected [of recent_db False sample_dep 3600 sample_ctx 2
        "(sample_job 33 ''d3'' JSuccess)\<lparr>j_dep := 21, j_updated := 9999999999\<rparr>" 20 0])
    show "cx_now sample_ctx - seconds 3600
        < j_updated ((sample_job 33 ''d3'' JSuccess)\<lparr>j_dep := 21, j_updated := 9999999999\<rparr>)"
      by (simp add: seconds_3600 sample_ctx_def)
    show "3600 = project_rate_limit_window sample_ctx (p_project sample_dep) recent_db" by (simp add: w)
  qed (simp_all add: recent_db_def sample_defs)
  then show ?thesis by (simp add: recent_db_def sample_defs)
qed

end
