(* ===== verification/Feedback.thy ===== *)
theory Feedback
  imports Delivery
begin

text \<open>
  The device's reports: \<open>report_device_status\<close> (explicit, validated), \<open>finalize_ota_result\<close> (the
  device's authoritative outcome) and \<open>record_ota_progress\<close> (lossy telemetry), with the helpers
  they share, from \<open>tools/deployments/ops.py\<close>.
\<close>

text \<open>\<open>extra_update\<close> is a function on the row; it is applied after the status and before the
  success stamps, as \<open>update.update(extra_update)\<close> is.\<close>

definition apply_job_status ::
  "ctx \<Rightarrow> job_row \<Rightarrow> job_status \<Rightarrow> uuid \<Rightarrow> string \<Rightarrow> (job_row \<Rightarrow> job_row) \<Rightarrow> db \<Rightarrow> db" where
  "apply_job_status c job new_status dep_id device extra s =
     (let stamp = (\<lambda>j. if new_status = JSuccess \<or> new_status = JAlreadyInstalled
              then j\<lparr>j_progress := 100, j_completed := Some (cx_now c), j_reason := None\<rparr> else j);
          s1 = upd_job (j_id job)
            (\<lambda>j. stamp (extra (j\<lparr>j_status := new_status, j_updated := cx_now c\<rparr>))) s;
          s2 = (if new_status = JSuccess
            then (case dep_of dep_id s1 of
                None \<Rightarrow> s1
              | Some dep \<Rightarrow> upd_device device (\<lambda>d. d\<lparr>d_current := Some (p_target dep)\<rparr>) s1)
            else s1) in
      recompute_deployment_status c dep_id s2)"

definition report_device_status ::
  "ctx \<Rightarrow> string \<Rightarrow> uuid \<Rightarrow> job_status \<Rightarrow> db \<Rightarrow> dep_info option reply \<times> db" where
  "report_device_status c device dep_id status s =
     (case find (\<lambda>j. j_device j = device \<and> j_dep j = dep_id) (db_jobs s) of
        None \<Rightarrow> (Err (NoJob dep_id device), s)
      | Some job \<Rightarrow> (case job_ok (j_status job) status of
          Inl e \<Rightarrow> (Err (BadTransition e), s)
        | Inr _ \<Rightarrow>
            (let new_attempts = (if status = JDownloading then j_attempts job + 1 else j_attempts job);
                 s' = apply_job_status c job status dep_id device
                   (\<lambda>j. j\<lparr>j_attempts := new_attempts\<rparr>) s in
             (Ok (map_option dep_row_to_info (dep_of dep_id s')), s'))))"

definition resolve_device_id :: "string \<Rightarrow> db \<Rightarrow> string option" where
  "resolve_device_id reported s =
     (case device_of reported s of
        Some _ \<Rightarrow> Some reported
      | None \<Rightarrow> map_option d_id
          (find (\<lambda>d. map_of (d_identity d) ''mqtt_id'' = Some reported) (db_devices s)))"

definition newest_first :: "job_row list \<Rightarrow> job_row list" where
  "newest_first js = sort_key (\<lambda>j. - j_updated j) js"

definition find_active_job :: "string \<Rightarrow> string \<Rightarrow> db \<Rightarrow> job_row option" where
  "find_active_job device version s =
     (let exact = newest_first (filter (\<lambda>j. j_device j = device \<and> j_target j = version) (db_jobs s));
          active = filter (\<lambda>j. \<not> job_terminal (j_status j)) exact;
          active' = (if active = []
            then filter (\<lambda>j. \<not> job_terminal (j_status j))
                   (newest_first (filter (\<lambda>j. j_device j = device) (db_jobs s)))
            else active) in
      first_row active')"

datatype finalize_reply =
    DeviceNotFound string
  | NoActiveJob string string
  | Finalized string uuid uuid job_status

definition finalize_ota_result ::
  "ctx \<Rightarrow> string \<Rightarrow> string \<Rightarrow> string \<Rightarrow> string option \<Rightarrow> db \<Rightarrow> finalize_reply \<times> db" where
  "finalize_ota_result c device status version reason s =
     (let new_status = (if status = ''committed'' then JSuccess else JFailure) in
      case resolve_device_id device s of
        None \<Rightarrow> (DeviceNotFound device, s)
      | Some dev \<Rightarrow> (case find_active_job dev version s of
          None \<Rightarrow> (NoActiveJob dev version, s)
        | Some job \<Rightarrow>
            (let extra = (if new_status = JFailure \<and> truthy reason
                   then (\<lambda>j. j\<lparr>j_reason := reason\<rparr>) else (\<lambda>j. j)) in
             (Finalized dev (j_dep job) (j_id job) new_status,
              apply_job_status c job new_status (j_dep job) dev extra s))))"

datatype progress_reply =
    UnknownStage
  | ProgressNoDevice
  | ProgressNoJob
  | IllegalTick job_status
  | NotDownloading job_status
  | Recorded uuid job_status

text \<open>The row update of a pure progress tick.\<close>

definition tick_update :: "ctx \<Rightarrow> job_row \<Rightarrow> int option \<Rightarrow> int option \<Rightarrow> job_row \<Rightarrow> job_row" where
  "tick_update c job progress attempt j =
     (let bumped = (case attempt of None \<Rightarrow> False | Some a \<Rightarrow> a > j_attempts job);
          j1 = j\<lparr>j_updated := cx_now c, j_status := JDownloading\<rparr>;
          j2 = (if bumped then j1\<lparr>j_attempts := the attempt\<rparr> else j1) in
      (case progress of
         None \<Rightarrow> j2
       | Some p \<Rightarrow> if 0 \<le> p \<and> p \<le> 100 \<and> (p \<ge> j_progress job \<or> bumped)
           then j2\<lparr>j_progress := p\<rparr> else j2))"

definition record_ota_progress ::
  "ctx \<Rightarrow> string \<Rightarrow> string \<Rightarrow> string \<Rightarrow> int option \<Rightarrow> int option \<Rightarrow> db \<Rightarrow> progress_reply \<times> db" where
  "record_ota_progress c device version stage progress attempt s =
     (if stage \<notin> {''downloading'', ''installing'', ''rebooting''} then (UnknownStage, s)
      else (case resolve_device_id device s of
        None \<Rightarrow> (ProgressNoDevice, s)
      | Some dev \<Rightarrow> (case find_active_job dev version s of
          None \<Rightarrow> (ProgressNoJob, s)
        | Some job \<Rightarrow>
            if stage \<in> {''installing'', ''rebooting''} then
              (let st = (if stage = ''installing'' then JInstalling else JRebooting) in
               if j_status job = st then (Recorded (j_id job) st, s)
               else (case job_ok (j_status job) st of
                   Inl _ \<Rightarrow> (IllegalTick (j_status job), s)
                 | Inr _ \<Rightarrow> (Recorded (j_id job) st,
                     apply_job_status c job st (j_dep job) dev (\<lambda>j. j\<lparr>j_progress := 100\<rparr>) s)))
            else if j_status job \<noteq> JPending \<and> j_status job \<noteq> JDownloading
            then (NotDownloading (j_status job), s)
            else
              (Recorded (j_id job) JDownloading,
               upd_job (j_id job) (tick_update c job progress attempt) s))))"


lemma resolve_device_id_cong:
  assumes "map d_id (db_devices s) = map d_id (db_devices t)"
    and "map d_identity (db_devices s) = map d_identity (db_devices t)"
  shows "resolve_device_id r s = resolve_device_id r t"
proof -
  have len: "length (db_devices s) = length (db_devices t)" using assms(1) by (metis length_map)
  have "look_key d_id r xs = None \<longleftrightarrow> look_key d_id r ys = None"
    and "map_option d_id (find (\<lambda>d. map_of (d_identity d) ''mqtt_id'' = Some r) xs) =
      map_option d_id (find (\<lambda>d. map_of (d_identity d) ''mqtt_id'' = Some r) ys)"
    if "map d_id xs = map d_id ys" "map d_identity xs = map d_identity ys" "length xs = length ys"
    for xs ys :: "device_row list"
    using that(3,1,2) by (induction xs ys rule: list_induct2) (auto simp: look_key_def)
  from this [OF assms len] show ?thesis
    by (auto simp: resolve_device_id_def split: option.split)
qed


section \<open>The job a report lands on\<close>

lemma find_active_job_Some:
  assumes "find_active_job device version s = Some j"
  shows "j \<in> set (db_jobs s)" "j_device j = device" "\<not> job_terminal (j_status j)"
  using assms
  by (auto simp: find_active_job_def Let_def newest_first_def dest!: first_row_in split: if_splits)

lemma find_active_job_None:
  "find_active_job device version s = None \<longleftrightarrow>
     (\<forall>j \<in> set (db_jobs s). j_device j = device \<longrightarrow> job_terminal (j_status j))"
  by (auto simp: find_active_job_def Let_def newest_first_def filter_empty_conv)

lemma find_active_job_exact:
  assumes "j \<in> set (db_jobs s)" "j_device j = device" "j_target j = version"
    "\<not> job_terminal (j_status j)" and "find_active_job device version s = Some k"
  shows "j_target k = version"
proof -
  have "filter (\<lambda>j. \<not> job_terminal (j_status j))
      (newest_first (filter (\<lambda>j. j_device j = device \<and> j_target j = version) (db_jobs s))) \<noteq> []"
    using assms(1-4) by (auto simp: newest_first_def filter_empty_conv)
  then show ?thesis
    using assms(5) by (auto simp: find_active_job_def Let_def newest_first_def dest!: first_row_in)
qed


section \<open>What a report changes\<close>

definition stamp_row :: "ctx \<Rightarrow> job_status \<Rightarrow> (job_row \<Rightarrow> job_row) \<Rightarrow> job_row \<Rightarrow> job_row" where
  "stamp_row c st extra j =
     (let k = extra (j\<lparr>j_status := st, j_updated := cx_now c\<rparr>) in
      if st = JSuccess \<or> st = JAlreadyInstalled
      then k\<lparr>j_progress := 100, j_completed := Some (cx_now c), j_reason := None\<rparr> else k)"

lemma apply_job_status_jobs:
  "db_jobs (apply_job_status c job st i d extra s) =
     upd_key j_id (j_id job) (stamp_row c st extra) (db_jobs s)"
proof -
  have "(\<lambda>j. stamp_row c st extra j) = stamp_row c st extra" by simp
  then show ?thesis
    by (simp add: apply_job_status_def Let_def upd_job_def stamp_row_def [abs_def] split: option.split)
qed

lemma apply_job_status_deps:
  "db_groups (apply_job_status c job st i d extra s) = db_groups s"
  "db_members (apply_job_status c job st i d extra s) = db_members s"
  "db_fws (apply_job_status c job st i d extra s) = db_fws s"
  by (simp_all add: apply_job_status_def Let_def split: option.split)

lemma apply_job_status_dep_of:
  "dep_of k (apply_job_status c job st i d extra s) = (case dep_of k s of None \<Rightarrow> None
     | Some p \<Rightarrow>
         if k = i \<and> p_status p \<notin> set no_finish_dep \<and>
            jobs_of i (s\<lparr>db_jobs := upd_key j_id (j_id job) (stamp_row c st extra) (db_jobs s)\<rparr>) \<noteq> [] \<and>
            (\<forall>j \<in> set (jobs_of i (s\<lparr>db_jobs := upd_key j_id (j_id job) (stamp_row c st extra) (db_jobs s)\<rparr>)).
              job_terminal (j_status j))
         then Some (p\<lparr>p_status := Finished\<rparr>) else Some p)"
proof -
  have st: "(\<lambda>j. if st = JSuccess \<or> st = JAlreadyInstalled
        then (extra (j\<lparr>j_status := st, j_updated := cx_now c\<rparr>))
          \<lparr>j_progress := 100, j_completed := Some (cx_now c), j_reason := None\<rparr>
        else extra (j\<lparr>j_status := st, j_updated := cx_now c\<rparr>)) = stamp_row c st extra"
    by (rule ext) (simp add: stamp_row_def Let_def)
  have jobs: "jobs_of i (upd_job k f s) = jobs_of i (s\<lparr>db_jobs := upd_key j_id k f (db_jobs s)\<rparr>)" for k f
    by (simp add: jobs_of_def upd_job_def)
  show ?thesis
    unfolding apply_job_status_def Let_def st
    by (auto simp: recompute_dep_of jobs split: option.split)
qed

lemma upd_key_list_all2:
  assumes "distinct (map key rs)" "r \<in> set rs" "key r = k" "\<And>q. q \<noteq> r \<Longrightarrow> R q q" "R r (f r)"
  shows "list_all2 R rs (upd_key key k f rs)"
proof -
  have uniq: "q = r" if "q \<in> set rs" "key q = k" for q
    using that assms(1-3) by (auto simp: distinct_map dest: inj_onD)
  have "R (rs ! i) (if key (rs ! i) = k then f (rs ! i) else rs ! i)" if "i < length rs" for i
  proof (cases "key (rs ! i) = k")
    case True
    with uniq [of "rs ! i"] that assms(5) show ?thesis by simp
  next
    case False
    then have "rs ! i \<noteq> r" using assms(3) by auto
    with False assms(4) show ?thesis by simp
  qed
  then show ?thesis by (simp add: upd_key_def update_where_def list_all2_conv_all_nth)
qed

text \<open>
  C8. A device's outcome report is authoritative for one job and harmless for all others: it changes
  at most one job row, a job of that device that had not ended, which becomes success (with
  progress 100 and no failure reason) or failure; jobs that had ended keep their row; and only
  the deployment of that job can change, to finished.
\<close>

theorem finalize_changes_one_active_job:
  assumes "distinct (map j_id (db_jobs s))"
  shows "(case finalize_ota_result c device status version reason s of
     (Finalized dev dep job st, s') \<Rightarrow>
        resolve_device_id device s = Some dev \<and>
        st = (if status = ''committed'' then JSuccess else JFailure) \<and>
        list_all2 (\<lambda>j j'. if j_id j = job
            then j_device j = dev \<and> j_dep j = dep \<and> \<not> job_terminal (j_status j) \<and>
                 j_status j' = st \<and> j_updated j' = cx_now c \<and> j_attempts j' = j_attempts j \<and>
                 (st = JFailure \<or> (j_progress j' = 100 \<and> j_reason j' = None))
            else j' = j) (db_jobs s) (db_jobs s') \<and>
        (\<forall>k. dep_of k s' = dep_of k s \<or>
             k = dep \<and> map_option p_status (dep_of k s') = Some Finished)
   | (_, s') \<Rightarrow> s' = s)"
proof (cases "resolve_device_id device s")
  case None
  then show ?thesis by (simp add: finalize_ota_result_def Let_def)
next
  case (Some dev)
  show ?thesis
  proof (cases "find_active_job dev version s")
    case None
    with Some show ?thesis by (simp add: finalize_ota_result_def Let_def)
  next
    case job: (Some job)
    note a = find_active_job_Some [OF job]
    define st where "st = (if status = ''committed'' then JSuccess else JFailure)"
    define extra where "extra = (if st = JFailure \<and> truthy reason
        then (\<lambda>j :: job_row. j\<lparr>j_reason := reason\<rparr>) else (\<lambda>j. j))"
    define s' where "s' = apply_job_status c job st (j_dep job) dev extra s"
    have run: "finalize_ota_result c device status version reason s =
        (Finalized dev (j_dep job) (j_id job) st, s')"
      using Some job by (simp add: finalize_ota_result_def Let_def st_def extra_def s'_def)
    have uniq: "j = job" if "j \<in> set (db_jobs s)" "j_id j = j_id job" for j
      using that assms a(1) by (auto simp: distinct_map dest: inj_onD)
    have rows: "list_all2 (\<lambda>j j'. if j_id j = j_id job
            then j_device j = dev \<and> j_dep j = j_dep job \<and> \<not> job_terminal (j_status j) \<and>
                 j_status j' = st \<and> j_updated j' = cx_now c \<and> j_attempts j' = j_attempts j \<and>
                 (st = JFailure \<or> (j_progress j' = 100 \<and> j_reason j' = None))
            else j' = j) (db_jobs s) (db_jobs s')"
      unfolding s'_def apply_job_status_jobs upd_key_def update_where_def list_all2_conv_all_nth
      using a uniq by (auto simp: stamp_row_def Let_def extra_def st_def dest: nth_mem)
    have deps: "dep_of k s' = dep_of k s \<or>
             k = j_dep job \<and> map_option p_status (dep_of k s') = Some Finished" for k
      by (auto simp: s'_def apply_job_status_dep_of split: option.split)
    show ?thesis
      unfolding run prod.case finalize_reply.case
      by (intro conjI allI) (fact Some st_def rows deps)+
  qed
qed


text \<open>
  Reporting the same outcome again is a no-op. When the device has no other job under way, the
  second report finds no active job and leaves the database as the first one made it.
\<close>

theorem finalize_idempotent:
  assumes "finalize_ota_result c device status version reason s = (Finalized dev dep job st, s')"
    and "distinct (map j_id (db_jobs s))"
    and "\<forall>j \<in> set (db_jobs s). j_device j = dev \<and> j_id j \<noteq> job \<longrightarrow> job_terminal (j_status j)"
  shows "finalize_ota_result c' device status' version' reason' s' = (NoActiveJob dev version', s')"
proof -
  obtain jb where res: "resolve_device_id device s = Some dev"
    and job: "find_active_job dev version s = Some jb" "job = j_id jb"
    and st: "st = (if status = ''committed'' then JSuccess else JFailure)"
    and s': "s' = apply_job_status c jb st (j_dep jb) dev
        (if st = JFailure \<and> truthy reason then (\<lambda>j. j\<lparr>j_reason := reason\<rparr>) else (\<lambda>j. j)) s"
    using assms(1) by (auto simp: finalize_ota_result_def Let_def split: option.splits if_splits)
  have jobs: "db_jobs s' = upd_key j_id job (stamp_row c st
      (if st = JFailure \<and> truthy reason then (\<lambda>j. j\<lparr>j_reason := reason\<rparr>) else (\<lambda>j. j))) (db_jobs s)"
    by (simp add: s' job(2) apply_job_status_jobs)
  have "job_terminal (j_status j)" if "j \<in> set (db_jobs s')" "j_device j = dev" for j
    using that assms(3) st
    by (auto simp: jobs upd_key_def set_update_where stamp_row_def Let_def terminal_dd_def
        split: if_splits)
  then have none: "find_active_job dev version' s' = None" by (simp add: find_active_job_None)
  have ids: "map d_id (db_devices s') = map d_id (db_devices s)"
    "map d_identity (db_devices s') = map d_identity (db_devices s)"
    by (simp_all add: s' apply_job_status_def Let_def upd_device_def upd_key_def update_where_def
        o_def split: option.split)
  have "resolve_device_id device s' = Some dev"
    using res resolve_device_id_cong [OF ids] by simp
  with none show ?thesis by (simp add: finalize_ota_result_def Let_def)
qed

lemma notify_quiet: "\<not> s_agent_on_finish (cx_set c) \<Longrightarrow> notify_deployment_terminal c i st s = s"
  by (simp add: notify_deployment_terminal_def)

text \<open>What the sample installation finds for a report of device \<open>d1\<close>.\<close>

lemma sample_resolve: "resolve_device_id ''d1'' (sample_db a b c) = Some ''d1''"
  by (simp add: resolve_device_id_def look_key_def sample_db_def sample_device_def)

lemma sample_active:
  "\<not> job_terminal a \<Longrightarrow> find_active_job ''d1'' ''v2'' (sample_db a b c) = Some (sample_job 30 ''d1'' a)"
  by (simp add: find_active_job_def newest_first_def sample_db_def sample_job_def)

lemma sample_finalize:
  "\<not> job_terminal a \<Longrightarrow> fst (finalize_ota_result ctx ''d1'' ''committed'' ''v2'' None (sample_db a b c)) =
     Finalized ''d1'' 20 30 JSuccess"
  by (simp add: finalize_ota_result_def sample_resolve sample_active sample_job_def)

lemma finalize_idempotent_witness:
  "fst (finalize_ota_result quiet_ctx ''d1'' ''committed'' ''v2'' None
     (snd (finalize_ota_result quiet_ctx ''d1'' ''committed'' ''v2'' None
        (sample_db JDownloading JPending JSuccess)))) = NoActiveJob ''d1'' ''v2''"
proof -
  let ?s = "sample_db JDownloading JPending JSuccess"
  let ?s' = "snd (finalize_ota_result quiet_ctx ''d1'' ''committed'' ''v2'' None ?s)"
  have "fst (finalize_ota_result quiet_ctx ''d1'' ''committed'' ''v2'' None ?s)
      = Finalized ''d1'' 20 30 JSuccess"
    by (rule sample_finalize) (simp add: terminal_dd_def)
  then have run: "finalize_ota_result quiet_ctx ''d1'' ''committed'' ''v2'' None ?s
      = (Finalized ''d1'' 20 30 JSuccess, ?s')"
    by (metis prod.collapse)
  have "finalize_ota_result quiet_ctx ''d1'' ''committed'' ''v2'' None ?s'
      = (NoActiveJob ''d1'' ''v2'', ?s')"
    by (rule finalize_idempotent [OF run]) (simp_all add: sample_defs)
  then show ?thesis by simp
qed

lemma finalize_changes_one_active_job_witness:
  "map j_status (db_jobs (snd (finalize_ota_result quiet_ctx ''d1'' ''committed'' ''v2'' None
     (sample_db JDownloading JPending JFailure)))) ! 2 = JFailure"
proof -
  let ?s = "sample_db JDownloading JPending JFailure"
  have d: "distinct (map j_id (db_jobs ?s))" by (simp add: sample_defs)
  have "fst (finalize_ota_result quiet_ctx ''d1'' ''committed'' ''v2'' None ?s)
      = Finalized ''d1'' 20 30 JSuccess"
    by (rule sample_finalize) (simp add: terminal_dd_def)
  then obtain t where run: "finalize_ota_result quiet_ctx ''d1'' ''committed'' ''v2'' None ?s
      = (Finalized ''d1'' 20 30 JSuccess, t)"
    by (metis prod.collapse)
  from finalize_changes_one_active_job [OF d, where c = quiet_ctx and device = "''d1''"
      and status = "''committed''" and version = "''v2''" and reason = None]
  have "list_all2 (\<lambda>j j'. j_id j = 30 \<or> j' = j) (db_jobs ?s) (db_jobs t)"
    unfolding run by (auto elim!: list_all2_mono split: if_splits)
  from list_all2_nthD [OF this, of 2] list_all2_lengthD [OF this]
  show ?thesis unfolding run snd_conv by (simp add: sample_defs)
qed


section \<open>Progress ticks\<close>

text \<open>What a tick may do to a job: forward along the status machine, forward in progress unless
  the device started a new attempt.\<close>

definition ticked :: "job_row \<Rightarrow> job_row \<Rightarrow> bool" where
  "ticked j j' \<longleftrightarrow> j' = j \<or>
     (\<not> job_terminal (j_status j) \<and> \<not> job_terminal (j_status j') \<and>
      (j_status j' = j_status j \<or> job_edge (j_status j) (j_status j')) \<and>
      (j_progress j \<le> j_progress j' \<or> j_attempts j < j_attempts j') \<and>
      j_attempts j \<le> j_attempts j' \<and> j_progress j' \<le> 100 \<and>
      j_device j' = j_device j \<and> j_dep j' = j_dep j)"

lemma ticked_refl [simp]: "ticked j j"
  by (simp add: ticked_def)

lemma tick_update_sel:
  "j_id (tick_update c job progress attempt j) = j_id j"
  "j_device (tick_update c job progress attempt j) = j_device j"
  "j_dep (tick_update c job progress attempt j) = j_dep j"
  "j_status (tick_update c job progress attempt j) = JDownloading"
  "j_attempts (tick_update c job progress attempt j) =
     (case attempt of None \<Rightarrow> j_attempts j | Some a \<Rightarrow> if a > j_attempts job then a else j_attempts j)"
  "j_progress (tick_update c job progress attempt j) = j_progress j \<or>
     (\<exists>p. progress = Some p \<and> j_progress (tick_update c job progress attempt j) = p \<and> p \<le> 100 \<and>
       (j_progress job \<le> p \<or> (\<exists>a. attempt = Some a \<and> a > j_attempts job)))"
  by (simp_all add: tick_update_def Let_def split: option.split)

lemma tick_row:
  assumes "find_active_job dev version s = Some job" and "j_progress job \<le> 100"
    and "j_status job = JPending \<or> j_status job = JDownloading"
  shows "ticked job (tick_update c job progress attempt job)"
proof -
  have "\<not> job_terminal JDownloading" by (simp add: terminal_dd_def)
  moreover note find_active_job_Some(3) [OF assms(1)]
  moreover have "JDownloading = j_status job \<or> job_edge (j_status job) JDownloading"
    using assms(3) by auto
  moreover have "j_attempts job \<le> j_attempts (tick_update c job progress attempt job)"
    by (simp add: tick_update_sel(5) split: option.split)
  moreover have "j_progress job \<le> j_progress (tick_update c job progress attempt job) \<or>
      j_attempts job < j_attempts (tick_update c job progress attempt job)"
    using tick_update_sel(6) [of c job progress attempt job]
    by (auto simp: tick_update_sel(5))
  moreover have "j_progress (tick_update c job progress attempt job) \<le> 100"
    using tick_update_sel(6) [of c job progress attempt job] assms(2) by auto
  ultimately show ?thesis
    unfolding ticked_def tick_update_sel(2-4) by blast
qed

lemma record_ota_progress_jobs:
  assumes "distinct (map j_id (db_jobs s))" and "\<forall>j \<in> set (db_jobs s). j_progress j \<le> 100"
  shows "list_all2 ticked (db_jobs s)
    (db_jobs (snd (record_ota_progress c device version stage progress attempt s)))"
proof -
  have refl: "list_all2 ticked js js" for js by (simp add: list_all2_conv_all_nth)
  show ?thesis
  proof (cases "resolve_device_id device s")
    case None
    then show ?thesis by (simp add: record_ota_progress_def refl)
  next
    case (Some dev)
    note dev = Some
    show ?thesis
    proof (cases "find_active_job dev version s")
      case None
      with dev show ?thesis by (simp add: record_ota_progress_def refl)
    next
      case (Some job)
      note a = find_active_job_Some [OF Some]
      have p: "j_progress job \<le> 100" using assms(2) a(1) by blast
      have upd: "list_all2 ticked (db_jobs s) (upd_key j_id (j_id job) f (db_jobs s))"
        if "ticked job (f job)" for f
        by (rule upd_key_list_all2 [OF assms(1) a(1)]) (simp_all add: that)
      consider "stage \<notin> {''downloading'', ''installing'', ''rebooting''}"
        | "stage \<in> {''installing'', ''rebooting''}" | "stage = ''downloading''" by auto
      then show ?thesis
      proof cases
        case 1
        then show ?thesis by (simp add: record_ota_progress_def refl)
      next
        case 2
        define st where "st = (if stage = ''installing'' then JInstalling else JRebooting)"
        have "\<not> job_terminal st" "st \<noteq> JSuccess" "st \<noteq> JAlreadyInstalled"
          by (auto simp: st_def terminal_dd_def)
        then have "ticked job (stamp_row c st (\<lambda>j. j\<lparr>j_progress := 100\<rparr>) job)" if "job_edge (j_status job) st"
          using that a(3) p by (simp add: ticked_def stamp_row_def Let_def)
        then have "list_all2 ticked (db_jobs s)
            (upd_key j_id (j_id job) (stamp_row c st (\<lambda>j. j\<lparr>j_progress := 100\<rparr>)) (db_jobs s))"
          if "job_edge (j_status job) st"
          using that upd by blast
        then show ?thesis
          using 2 dev Some
          by (cases rule: job_ok_cases [of "j_status job" st])
            (auto simp: record_ota_progress_def Let_def refl apply_job_status_jobs simp flip: st_def)
      next
        case 3
        show ?thesis
        proof (cases "j_status job = JPending \<or> j_status job = JDownloading")
          case True
          show ?thesis
            using 3 dev Some True
              upd [of "tick_update c job progress attempt", OF tick_row [OF Some p True]]
            by (auto simp: record_ota_progress_def Let_def upd_job_def)
        next
          case False
          with 3 dev Some show ?thesis by (simp add: record_ota_progress_def refl)
        qed
      qed
    qed
  qed
qed

definition tick :: "ctx \<times> string \<times> string \<times> string \<times> int option \<times> int option \<Rightarrow> db \<Rightarrow> db" where
  "tick t s = (case t of (c, device, version, stage, progress, attempt) \<Rightarrow>
     snd (record_ota_progress c device version stage progress attempt s))"

definition tick_path :: "job_row \<Rightarrow> job_row \<Rightarrow> bool" where
  "tick_path j j' \<longleftrightarrow> j_device j' = j_device j \<and> j_dep j' = j_dep j \<and>
     (job_terminal (j_status j) \<or> job_terminal (j_status j') \<longrightarrow> j' = j) \<and>
     job_edge\<^sup>*\<^sup>* (j_status j) (j_status j') \<and> j_attempts j \<le> j_attempts j' \<and>
     (j_progress j \<le> j_progress j' \<or> j_attempts j < j_attempts j') \<and>
     (j_progress j \<le> 100 \<longrightarrow> j_progress j' \<le> 100)"

lemma ticked_path: "ticked j j' \<Longrightarrow> tick_path j j'"
  by (auto simp: ticked_def tick_path_def)

lemma tick_path_trans:
  assumes "tick_path j k" "tick_path k l"
  shows "tick_path j l"
proof -
  note 1 = assms(1) [unfolded tick_path_def] and 2 = assms(2) [unfolded tick_path_def]
  have fixed: "job_terminal (j_status j) \<or> job_terminal (j_status l) \<longrightarrow> l = j"
  proof
    assume "job_terminal (j_status j) \<or> job_terminal (j_status l)"
    then show "l = j"
    proof
      assume "job_terminal (j_status j)"
      with 1 have "k = j" by (elim conjE) (erule mp, rule disjI1)
      with 2 \<open>job_terminal (j_status j)\<close> show "l = j" by (elim conjE) (drule mp, rule disjI1, auto)
    next
      assume "job_terminal (j_status l)"
      with 2 have "l = k" by (elim conjE) (drule mp, rule disjI2, auto)
      with 1 \<open>job_terminal (j_status l)\<close> show "l = j" by (elim conjE) (drule mp, rule disjI2, auto)
    qed
  qed
  have path: "job_edge\<^sup>*\<^sup>* (j_status j) (j_status l)"
    by (rule rtranclp_trans [OF 1 [THEN conjunct2, THEN conjunct2, THEN conjunct2, THEN conjunct1]
        2 [THEN conjunct2, THEN conjunct2, THEN conjunct2, THEN conjunct1]])
  have nums: "j_progress j \<le> j_progress l \<or> j_attempts j < j_attempts l"
    "j_attempts j \<le> j_attempts l" "j_progress j \<le> 100 \<longrightarrow> j_progress l \<le> 100"
    using 1 2 by linarith+
  have "j_device k = j_device j" "j_device l = j_device k" "j_dep k = j_dep j" "j_dep l = j_dep k"
    by (rule 1 [THEN conjunct1] 2 [THEN conjunct1]
        1 [THEN conjunct2, THEN conjunct1] 2 [THEN conjunct2, THEN conjunct1])+
  then have "j_device l = j_device j" "j_dep l = j_dep j" by simp_all
  with fixed path nums show ?thesis unfolding tick_path_def by (intro conjI) assumption+
qed

lemma tick_ids: "map j_id (db_jobs (tick t s)) = map j_id (db_jobs s)"
proof -
  have upd: "map j_id (upd_key j_id k f js) = map j_id js" if "\<And>j. j_id (f j) = j_id j" for k f js
    by (rule jobt.keys_upd [OF that])
  have "j_id (tick_update c job p a j) = j_id j" for c job p a j
    by (simp add: tick_update_def Let_def split: option.split)
  moreover have "j_id (stamp_row c st (\<lambda>j. j\<lparr>j_progress := 100\<rparr>) j) = j_id j" for c st j
    by (simp add: stamp_row_def Let_def)
  ultimately show ?thesis
    by (auto simp: tick_def record_ota_progress_def Let_def upd_job_def apply_job_status_jobs upd
        split: prod.split option.split sum.split)
qed

text \<open>
  C9. Telemetry cannot hurt. However ticks are lost, repeated or reordered, each of them leaves
  every ended job as it is, moves a job only along an edge of its status machine, and never lowers
  the progress of a job unless it raises its attempt count; progress stays at most 100 over any
  sequence of ticks.
\<close>

theorem ticks_monotone:
  assumes "distinct (map j_id (db_jobs s))" and "\<forall>j \<in> set (db_jobs s). j_progress j \<le> 100"
  shows "list_all2 tick_path (db_jobs s) (db_jobs (fold tick ts s))"
  using assms
proof (induction ts arbitrary: s)
  case Nil
  then show ?case by (simp add: list_all2_conv_all_nth tick_path_def)
next
  case (Cons t ts)
  let ?s1 = "tick t s"
  have "list_all2 ticked (db_jobs s) (db_jobs ?s1)"
    using record_ota_progress_jobs [OF Cons.prems] by (simp add: tick_def split: prod.split)
  then have step: "list_all2 tick_path (db_jobs s) (db_jobs ?s1)"
    by (rule list_all2_mono) (rule ticked_path)
  have "\<forall>j \<in> set (db_jobs ?s1). j_progress j \<le> 100"
  proof
    fix k assume "k \<in> set (db_jobs ?s1)"
    then obtain n where n: "n < length (db_jobs ?s1)" "db_jobs ?s1 ! n = k" by (auto simp: in_set_conv_nth)
    then have "tick_path (db_jobs s ! n) k" using list_all2_nthD2 [OF step n(1)] by simp
    moreover have "db_jobs s ! n \<in> set (db_jobs s)"
      using n(1) list_all2_lengthD [OF step] by (simp add: nth_mem)
    ultimately show "j_progress k \<le> 100" using Cons.prems(2) by (simp add: tick_path_def)
  qed
  then have "list_all2 tick_path (db_jobs ?s1) (db_jobs (fold tick ts ?s1))"
    using Cons.prems(1) by (intro Cons.IH) (simp_all add: tick_ids)
  with step show ?case by (auto intro: list_all2_trans [OF tick_path_trans])
qed

lemma ticks_monotone_witness:
  "j_status (db_jobs (fold tick [(sample_ctx, ''d3'', ''v2'', ''downloading'', Some 10, None)]
     (sample_db JPending JPending JSuccess)) ! 2) = JSuccess"
proof -
  let ?s = "sample_db JPending JPending JSuccess"
  let ?ts = "[(sample_ctx, ''d3'', ''v2'', ''downloading'', Some 10, None)]"
  have d: "distinct (map j_id (db_jobs ?s))" "\<forall>j \<in> set (db_jobs ?s). j_progress j \<le> 100"
    by (simp_all add: sample_defs)
  have "tick_path (db_jobs ?s ! 2) (db_jobs (fold tick ?ts ?s) ! 2)"
    by (rule list_all2_nthD [OF ticks_monotone [OF d]]) (simp add: sample_defs)
  moreover have "j_status (db_jobs ?s ! 2) = JSuccess" by (simp add: sample_defs)
  ultimately show ?thesis by (simp add: tick_path_def terminal_dd_def)
qed


section \<open>Two limits of the feedback loop\<close>

definition late_db :: db where
  "late_db = (sample_db JAborted JSuccess JSuccess)
     \<lparr>db_deps := [sample_dep\<lparr>p_status := Aborted\<rparr>, sample_dep\<lparr>p_id := 21, p_target := ''v3''\<rparr>],
      db_jobs := [sample_job 30 ''d1'' JAborted,
        (sample_job 40 ''d1'' JPending)\<lparr>j_dep := 21, j_target := ''v3''\<rparr>]\<rparr>"

text \<open>
  A late report can land on the wrong job: the report of version 1.0.1 arrives after its job was
  aborted, the device has a pending, never delivered job for version 2.0.0, and the fallback of
  \<open>_find_active_job\<close> marks that job a success and records 2.0.0 as the device's firmware.
\<close>

theorem late_report_finalizes_other_job:
  "(let (r, s') = finalize_ota_result quiet_ctx ''d1'' ''committed'' ''v2'' None late_db in
    r = Finalized ''d1'' 21 40 JSuccess \<and>
    map j_status (db_jobs s') = [JAborted, JSuccess] \<and>
    map j_attempts (db_jobs s') = [0, 0] \<and>
    map_option d_current (device_of ''d1'' s') = Some (Some ''v3'') \<and>
    map_option p_status (dep_of 21 s') = Some Finished)"
proof -
  have r: "resolve_device_id ''d1'' late_db = Some ''d1''"
    by (simp add: resolve_device_id_def look_key_def late_db_def sample_db_def sample_device_def)
  have f: "find_active_job ''d1'' ''v2'' late_db = Some ((sample_job 40 ''d1'' JPending)\<lparr>j_dep := 21, j_target := ''v3''\<rparr>)"
    by (simp add: find_active_job_def newest_first_def late_db_def sample_job_def terminal_dd_def)
  have run: "finalize_ota_result quiet_ctx ''d1'' ''committed'' ''v2'' None late_db =
      (Finalized ''d1'' 21 40 JSuccess, apply_job_status quiet_ctx
        ((sample_job 40 ''d1'' JPending)\<lparr>j_dep := 21, j_target := ''v3''\<rparr>) JSuccess 21 ''d1'' (\<lambda>j. j) late_db)"
    by (simp add: finalize_ota_result_def r f sample_job_def)
  show ?thesis unfolding run
    by (simp add: Let_def apply_job_status_def recompute_deployment_status_def
        notify_quiet quiet_ctx_def late_db_def sample_job_def sample_dep_def sample_db_def sample_device_def
        upd_job_def upd_key_def upd_device_def look_key_def jobs_of_def terminal_dd_def no_finish_dep_def
        terminal_dep_def)
qed

text \<open>
  An outcome can be overwritten by its own delivery: between the dispatch of a job and the
  moment the fleet's request fails (it waits for the device's acknowledgement), the device can
  already have reported success. The failure write is not conditional on the status, so the job
  ends as a failure while the device is recorded on the new firmware.
\<close>

theorem delivery_error_overwrites_outcome:
  "(let s0 = sample_db JPending JSuccess JSuccess; job = sample_job 30 ''d1'' JPending;
        s1 = dispatch_job quiet_ctx job s0;
        (r, s2) = finalize_ota_result quiet_ctx ''d1'' ''committed'' ''v2'' None s1;
        s3 = delivery_failed quiet_ctx job s2 in
    r = Finalized ''d1'' 20 30 JSuccess \<and>
    map_option j_status (job_of 30 s2) = Some JSuccess \<and>
    map_option j_status (job_of 30 s3) = Some JFailure \<and>
    map_option d_current (device_of ''d1'' s3) = Some (Some ''v2'') \<and>
    map_option p_status (dep_of 20 s3) = Some Finished)"
  by (simp add: finalize_ota_result_def apply_job_status_def recompute_deployment_status_def
      resolve_device_id_def find_active_job_def newest_first_def dispatch_job_def delivery_failed_def
      notify_quiet quiet_ctx_def sample_job_def sample_dep_def sample_db_def sample_device_def
      upd_job_def upd_key_def upd_device_def look_key_def jobs_of_def terminal_dd_def no_finish_dep_def
      terminal_dep_def)

end
