(* ===== verification/Devices.thy ===== *)
theory Devices
  imports Feedback
begin

text \<open>
  \<open>tools/devices/ops.py\<close> and \<open>tools/device_groups/ops.py\<close>: enrollment of devices and membership of
  groups. The database's primary key on \<open>(group_id, device_id)\<close>, its foreign key to \<open>devices\<close> and
  the unique group name (migration 0001) are part of the model: an insert that violates one of
  them fails as a whole.
\<close>

section \<open>Devices\<close>

record device_info =
  di_id :: string
  di_identity :: "(string \<times> string) list"
  di_key :: "string option"
  di_status :: device_status
  di_current :: "string option"
  di_tags :: "string list"
  di_created :: time

definition device_row_to_info :: "device_row \<Rightarrow> device_info" where
  "device_row_to_info r =
     \<lparr>di_id = d_id r, di_identity = d_identity r, di_key = d_key r, di_status = d_status r,
      di_current = d_current r, di_tags = d_tags r, di_created = d_created r\<rparr>"

datatype device_error = DeviceMissing string | DeviceTransition transition_error

record register_params =
  rp_device :: string
  rp_identity :: "(string \<times> string) list"
  rp_key :: string
  rp_tags :: "string list"

definition valid_register_params :: "register_params \<Rightarrow> bool" where
  "valid_register_params p \<longleftrightarrow> rp_device p \<noteq> [] \<and> rp_identity p \<noteq> []"

text \<open>A row with the fleet's NOT NULL columns filled in (\<open>_FLEET_DEFAULTS\<close>).\<close>

definition new_device_row ::
  "ctx \<Rightarrow> string \<Rightarrow> (string \<times> string) list \<Rightarrow> string \<Rightarrow> string list \<Rightarrow> device_status \<Rightarrow> device_row" where
  "new_device_row c device identity key tags status =
     \<lparr>d_id = device, d_name = device, d_conn = ''offline'', d_agent = False, d_identity = identity,
      d_key = (if key = [] then None else Some key), d_status = status, d_tags = tags,
      d_current = None, d_firmware = Some ''unknown'', d_type = None, d_project = None,
      d_created = cx_now c\<rparr>"

definition register_device :: "ctx \<Rightarrow> register_params \<Rightarrow> db \<Rightarrow> device_info \<times> db" where
  "register_device c p s = (case device_of (rp_device p) s of
      Some row \<Rightarrow>
        (let target = (if d_status row = DPreauthorized then DAccepted else DPending);
             f = (\<lambda>d. d\<lparr>d_identity := rp_identity p,
                   d_key := (if rp_key p = [] then None else Some (rp_key p)),
                   d_tags := rp_tags p, d_status := target\<rparr>) in
         (device_row_to_info (f row), upd_device (rp_device p) f s))
    | None \<Rightarrow>
        (let row = new_device_row c (rp_device p) (rp_identity p) (rp_key p) (rp_tags p) DPending in
         (device_row_to_info row, s\<lparr>db_devices := db_devices s @ [row]\<rparr>)))"

definition preauthorize_device ::
  "ctx \<Rightarrow> string \<Rightarrow> (string \<times> string) list \<Rightarrow> string \<Rightarrow> db \<Rightarrow> device_info \<times> db" where
  "preauthorize_device c device identity key s = (case device_of device s of
      Some row \<Rightarrow>
        (let f = (\<lambda>d. d\<lparr>d_identity := identity, d_key := (if key = [] then None else Some key),
                   d_status := DPreauthorized\<rparr>) in
         (device_row_to_info (f row), upd_device device f s))
    | None \<Rightarrow>
        (let row = new_device_row c device identity key [] DPreauthorized in
         (device_row_to_info row, s\<lparr>db_devices := db_devices s @ [row]\<rparr>)))"

definition transition_device ::
  "string \<Rightarrow> device_status \<Rightarrow> db \<Rightarrow> (device_error + device_info) \<times> db" where
  "transition_device device target s = (case device_of device s of
      None \<Rightarrow> (Inl (DeviceMissing device), s)
    | Some row \<Rightarrow> (case device_ok (d_status row) target of
        Inl e \<Rightarrow> (Inl (DeviceTransition e), s)
      | Inr _ \<Rightarrow>
          (Inr (device_row_to_info (row\<lparr>d_status := target\<rparr>)),
           upd_device device (\<lambda>d. d\<lparr>d_status := target\<rparr>) s)))"

definition accept_device :: "string \<Rightarrow> db \<Rightarrow> (device_error + device_info) \<times> db" where
  "accept_device device s = transition_device device DAccepted s"

definition reject_device :: "string \<Rightarrow> db \<Rightarrow> (device_error + device_info) \<times> db" where
  "reject_device device s = transition_device device DRejected s"

definition decommission_device :: "string \<Rightarrow> db \<Rightarrow> (device_error + device_info) \<times> db" where
  "decommission_device device s =
     (let (r, s1) = transition_device device DDecommissioned s in
      case r of
        Inl e \<Rightarrow> (Inl e, s1)
      | Inr info \<Rightarrow>
          (Inr info, s1\<lparr>db_jobs := update_where
             (\<lambda>j. j_device j = device \<and> j_status j \<in> set in_flight)
             (\<lambda>j. j\<lparr>j_status := JDecommissioned\<rparr>) (db_jobs s1)\<rparr>))"

definition list_devices :: "device_status option \<Rightarrow> uuid option \<Rightarrow> db \<Rightarrow> device_info list" where
  "list_devices status gid s =
     (let rows = sort_key (\<lambda>d. - d_created d) (db_devices s);
          rows1 = (case status of None \<Rightarrow> rows | Some st \<Rightarrow> filter (\<lambda>d. d_status d = st) rows);
          infos = map device_row_to_info rows1 in
      case gid of None \<Rightarrow> infos
      | Some g \<Rightarrow> filter (\<lambda>d. di_id d \<in> set (member_ids g s)) infos)"


section \<open>Groups\<close>

record group_info =
  gi_id :: uuid
  gi_name :: string
  gi_filter :: "(string \<times> string) list"
  gi_count :: nat
  gi_created :: time

definition group_row_to_info :: "group_row \<Rightarrow> nat \<Rightarrow> group_info" where
  "group_row_to_info r n =
     \<lparr>gi_id = g_id r, gi_name = g_name r, gi_filter = g_filter r, gi_count = n, gi_created = g_created r\<rparr>"

definition member_count :: "uuid \<Rightarrow> db \<Rightarrow> nat" where
  "member_count gid s = length (member_ids gid s)"

datatype group_error = InsertFailed | GroupMissing uuid

definition create_group ::
  "ctx \<Rightarrow> string \<Rightarrow> (string \<times> string) list \<Rightarrow> db \<Rightarrow> (group_error + group_info) \<times> db" where
  "create_group c name criteria s =
     (let (gid, s1) = fresh_uuid s;
          row = \<lparr>g_id = gid, g_name = name, g_filter = criteria, g_project = None, g_created = cx_now c\<rparr> in
      if name \<in> set (map g_name (db_groups s)) then (Inl InsertFailed, s1)
      else (Inr (group_row_to_info row 0), s1\<lparr>db_groups := db_groups s1 @ [row]\<rparr>))"

text \<open>The batch insert: \<open>None\<close> when a row violates a key.\<close>

definition insert_members :: "(uuid \<times> string) list \<Rightarrow> db \<Rightarrow> db option" where
  "insert_members rows s =
     (if distinct rows \<and> list_all (\<lambda>(g, d). (g, d) \<notin> set (db_members s)
           \<and> d \<in> set (map d_id (db_devices s))) rows
      then Some (s\<lparr>db_members := db_members s @ rows\<rparr>) else None)"

definition add_devices_to_group ::
  "uuid \<Rightarrow> string list \<Rightarrow> db \<Rightarrow> (group_error + group_info) \<times> db" where
  "add_devices_to_group gid ids s = (case group_of gid s of
      None \<Rightarrow> (Inl (GroupMissing gid), s)
    | Some g \<Rightarrow>
        (let s1 = (case insert_members (map (\<lambda>d. (gid, d)) ids) s of None \<Rightarrow> s | Some t \<Rightarrow> t) in
         (Inr (group_row_to_info g (member_count gid s1)), s1)))"

definition remove_devices_from_group ::
  "uuid \<Rightarrow> string list \<Rightarrow> db \<Rightarrow> (group_error + group_info) \<times> db" where
  "remove_devices_from_group gid ids s = (case group_of gid s of
      None \<Rightarrow> (Inl (GroupMissing gid), s)
    | Some g \<Rightarrow>
        (let s1 = s\<lparr>db_members := filter (\<lambda>(h, d). \<not> (h = gid \<and> d \<in> set ids)) (db_members s)\<rparr> in
         (Inr (group_row_to_info g (member_count gid s1)), s1)))"

definition list_groups :: "db \<Rightarrow> group_info list" where
  "list_groups s = map (\<lambda>r. group_row_to_info r (member_count (g_id r) s))
     (sort_key (\<lambda>r. - g_created r) (db_groups s))"


section \<open>Properties\<close>

lemma upd_device_in:
  "r \<in> set (db_devices (upd_device i f s)) \<Longrightarrow>
     (r \<in> set (db_devices s) \<and> d_id r \<noteq> i) \<or> (\<exists>q \<in> set (db_devices s). d_id q = i \<and> r = f q)"
  unfolding upd_device_def by (simp, erule devt.upd_in)

lemma transition_device_cases:
  obtains (missing) "device_of device s = None" "transition_device device t s = (Inl (DeviceMissing device), s)"
  | (refused) row e where "device_of device s = Some row" "\<not> device_edge (d_status row) t"
      "transition_device device t s = (Inl (DeviceTransition e), s)"
  | (moved) row where "device_of device s = Some row" "device_edge (d_status row) t"
      "transition_device device t s = (Inr (device_row_to_info (row\<lparr>d_status := t\<rparr>)),
         upd_device device (\<lambda>d. d\<lparr>d_status := t\<rparr>) s)"
proof (cases "device_of device s")
  case None
  then show thesis by (intro missing) (simp_all add: transition_device_def)
next
  case (Some row)
  then show thesis
    by (cases rule: device_ok_cases [of "d_status row" t])
      (auto intro: refused moved simp: transition_device_def)
qed

text \<open>
  Decommissioning a device. Only an accepted device can be decommissioned; a refused call
  changes nothing. An accepted call changes the status of that device only, and closes every job of
  it that was pending, downloading, installing or rebooting, leaving the jobs of other devices and
  the ended ones as they were.
\<close>

theorem decommission_device_correct:
  "(case decommission_device device s of
      (Inr info, s') \<Rightarrow>
        (\<exists>row. device_of device s = Some row \<and> d_status row = DAccepted) \<and>
        map_option d_status (device_of device s') = Some DDecommissioned \<and>
        (\<forall>d. d = device \<or> device_of d s' = device_of d s) \<and>
        db_jobs s' = map (\<lambda>j. if j_device j = device \<and> j_status j \<in> set in_flight
                              then j\<lparr>j_status := JDecommissioned\<rparr> else j) (db_jobs s) \<and>
        filter (\<lambda>j. j_device j = device \<and> j_status j \<in> set in_flight) (db_jobs s') = []
    | (Inl e, s') \<Rightarrow> s' = s)"
proof (cases rule: transition_device_cases [of device s DDecommissioned])
  case missing
  then show ?thesis by (simp add: decommission_device_def)
next
  case (refused row e)
  then show ?thesis by (simp add: decommission_device_def)
next
  case (moved row)
  have acc: "d_status row = DAccepted" using moved(2) by (cases "d_status row") auto
  have none: "filter (\<lambda>j. j_device j = device \<and> j_status j \<in> set in_flight)
      (map (\<lambda>j. if j_device j = device \<and> j_status j \<in> set in_flight
                then j\<lparr>j_status := JDecommissioned\<rparr> else j) js) = []" for js
    by (induction js) (auto simp: in_flight_def)
  have dev: "device_of d (upd_device device (\<lambda>d. d\<lparr>d_status := DDecommissioned\<rparr>) s) =
      (if d = device then map_option (\<lambda>d. d\<lparr>d_status := DDecommissioned\<rparr>) (device_of d s) else device_of d s)" for d
    by (rule device_of_upd_device) simp
  show ?thesis
    unfolding decommission_device_def moved(3) Let_def prod.case sum.case update_where_def
    using moved(1) acc none dev by simp
qed

text \<open>
  Decommissioning is not permanent: registering the device again puts it back to pending, from
  where it can be accepted, although the registry of device transitions gives decommissioned no way
  out. Registration and preauthorisation do not ask \<open>validate_transition\<close>.
\<close>

theorem decommissioned_device_returns:
  "\<not> device_edge DDecommissioned t \<and>
   (let s0 = sample_db JPending JSuccess JSuccess;
        s1 = snd (decommission_device ''d1'' s0);
        s2 = snd (register_device sample_ctx \<lparr>rp_device = ''d1'', rp_identity = [(''mac'', ''aa'')],
               rp_key = [], rp_tags = []\<rparr> s1);
        s3 = snd (accept_device ''d1'' s2) in
    map_option d_status (device_of ''d1'' s1) = Some DDecommissioned \<and>
    map_option d_status (device_of ''d1'' s2) = Some DPending \<and>
    map_option d_status (device_of ''d1'' s3) = Some DAccepted)"
proof
  show "\<not> device_edge DDecommissioned t" by simp
  show "let s0 = sample_db JPending JSuccess JSuccess;
        s1 = snd (decommission_device ''d1'' s0);
        s2 = snd (register_device sample_ctx \<lparr>rp_device = ''d1'', rp_identity = [(''mac'', ''aa'')],
               rp_key = [], rp_tags = []\<rparr> s1);
        s3 = snd (accept_device ''d1'' s2) in
    map_option d_status (device_of ''d1'' s1) = Some DDecommissioned \<and>
    map_option d_status (device_of ''d1'' s2) = Some DPending \<and>
    map_option d_status (device_of ''d1'' s3) = Some DAccepted"
    by (simp add: Let_def decommission_device_def register_device_def accept_device_def transition_device_def
        device_ok_def registry_defs look_key_def upd_device_def upd_key_def sample_db_def sample_device_def
        sample_job_def terminal_dd_def)
qed

text \<open>
  Decommissioning the last devices of a deployment leaves it active for good: its jobs are all
  terminal, the report counts none of them, and no operation on those jobs will roll it up.
\<close>

theorem decommission_leaves_deployment_active:
  "(let s1 = snd (decommission_device ''d1'' (sample_db JDownloading JSuccess JSuccess)) in
    list_all (\<lambda>j. job_terminal (j_status j)) (jobs_of 20 s1) \<and>
    map_option p_status (dep_of 20 s1) = Some Active \<and>
    finalize_ota_result sample_ctx ''d1'' ''committed'' ''v2'' None s1 = (NoActiveJob ''d1'' ''v2'', s1))"
proof -
  define s1 where "s1 = snd (decommission_device ''d1'' (sample_db JDownloading JSuccess JSuccess))"
  have f: "list_all (\<lambda>j. job_terminal (j_status j)) (jobs_of 20 s1)"
    "map_option p_status (dep_of 20 s1) = Some Active"
    "resolve_device_id ''d1'' s1 = Some ''d1''" "find_active_job ''d1'' ''v2'' s1 = None"
    unfolding s1_def
    by (simp_all add: Let_def decommission_device_def transition_device_def device_ok_def registry_defs
        look_key_def upd_device_def upd_key_def sample_db_def sample_device_def sample_job_def sample_dep_def
        terminal_dd_def in_flight_def jobs_of_def resolve_device_id_def find_active_job_def newest_first_def)
  then have "finalize_ota_result sample_ctx ''d1'' ''committed'' ''v2'' None s1 = (NoActiveJob ''d1'' ''v2'', s1)"
    by (simp add: finalize_ota_result_def)
  with f show ?thesis by (simp add: Let_def flip: s1_def)
qed

text \<open>
  Adding devices to a group is all or nothing. If every device of the request exists, is
  requested once and is not yet a member, exactly the requested devices join, in order, and the
  count grows by their number; otherwise, one device already in the group being enough, none joins
  and the call still answers with the group.
\<close>

theorem add_devices_all_or_nothing:
  assumes "group_of gid s = Some g"
  shows "(let (r, s') = add_devices_to_group gid ids s in
     (\<exists>info. r = Inr info \<and> gi_count info = length (member_ids gid s')) \<and>
     (if distinct ids \<and> filter (\<lambda>d. d \<in> set (member_ids gid s) \<or> d \<notin> set (map d_id (db_devices s))) ids = []
      then db_members s' = db_members s @ map (Pair gid) ids \<and>
           length (member_ids gid s') = length (member_ids gid s) + length ids
      else s' = s))"
proof -
  have dist: "distinct (map (\<lambda>d. (gid, d)) ids) \<longleftrightarrow> distinct ids"
    by (simp add: distinct_map inj_on_def)
  have ok: "list_all (\<lambda>(g, d). (g, d) \<notin> set (db_members s) \<and> d \<in> set (map d_id (db_devices s)))
      (map (\<lambda>d. (gid, d)) ids) \<longleftrightarrow>
      filter (\<lambda>d. d \<in> set (member_ids gid s) \<or> d \<notin> set (map d_id (db_devices s))) ids = []"
    by (auto simp: list_all_iff filter_empty_conv member_ids_iff)
  have len: "length (member_ids gid (s\<lparr>db_members := db_members s @ map (Pair gid) ids\<rparr>)) =
      length (member_ids gid s) + length ids"
    by (simp add: member_ids_def filter_map o_def)
  define fine where "fine \<longleftrightarrow> distinct ids \<and>
      filter (\<lambda>d. d \<in> set (member_ids gid s) \<or> d \<notin> set (map d_id (db_devices s))) ids = []"
  have ins: "insert_members (map (\<lambda>d. (gid, d)) ids) s =
      (if fine then Some (s\<lparr>db_members := db_members s @ map (Pair gid) ids\<rparr>) else None)"
    unfolding insert_members_def dist ok fine_def ..
  show ?thesis
    unfolding fine_def [symmetric] add_devices_to_group_def assms option.case ins
    by (cases fine) (simp_all add: Let_def len group_row_to_info_def member_count_def)
qed

lemma add_devices_all_or_nothing_witness:
  "snd (add_devices_to_group 10 [''d1'', ''d9''] (sample_db JPending JPending JPending))
     = sample_db JPending JPending JPending"
proof -
  let ?s = "sample_db JPending JPending JPending"
  have g: "group_of 10 ?s = Some \<lparr>g_id = 10, g_name = ''g'', g_filter = [], g_project = Some 1, g_created = 0\<rparr>"
    by (simp add: sample_db_def look_key_def)
  have m: "''d1'' \<in> set (member_ids 10 ?s)"
    by (simp add: member_ids_iff sample_db_def)
  from add_devices_all_or_nothing [OF g, of "[''d1'', ''d9'']"] m show ?thesis
    by (auto simp: Let_def case_prod_unfold)
qed

end
