(* ===== verification/Sweeps.thy ===== *)
theory Sweeps
  imports Devices
begin

text \<open>
  The background sweeps: \<open>reaper.py\<close>, \<open>supervisor.py\<close> and \<open>poller.py\<close>. Each sweep reads the rows it
  works on once and then handles them one after the other, reading again where the source does.
  \<open>in_flight\<close> is the module-level set of deployments a previous slow tick still works on.
\<close>

section \<open>Reaper\<close>

definition stuck_jobs :: "ctx \<Rightarrow> db \<Rightarrow> job_row list" where
  "stuck_jobs c s =
     (let cutoff = cx_now c - seconds (s_download_timeout (cx_set c)) in
      filter (\<lambda>j. j_status j \<in> {JDownloading, JInstalling, JRebooting} \<and> j_updated j < cutoff) (db_jobs s))"

definition reap_job :: "ctx \<Rightarrow> job_row \<Rightarrow> db \<Rightarrow> db" where
  "reap_job c job s = upd_job (j_id job) (\<lambda>j. j\<lparr>j_status := JTimedOut, j_updated := cx_now c\<rparr>) s"

definition reaper_sweep :: "ctx \<Rightarrow> db \<Rightarrow> nat \<times> db" where
  "reaper_sweep c s =
     (let jobs = stuck_jobs c s in
      if jobs = [] then (0, s)
      else
        (let s1 = fold (reap_job c) jobs s;
             s2 = fold (recompute_deployment_status c) (remdups (map j_dep jobs)) s1 in
         (length jobs, s2)))"


section \<open>Supervisor\<close>

datatype 'a attempt = Done 'a | Raised exn

definition soak_elapsed :: "ctx \<Rightarrow> dep_row \<Rightarrow> bool" where
  "soak_elapsed c dep =
     (if p_soak dep > 0 then
        (case p_entered dep of
           None \<Rightarrow> True
         | Some t0 \<Rightarrow> of_int (p_soak dep) \<le> fdiv (of_int (cx_now c - t0)) 1000000)
      else True)"

definition released_jobs :: "uuid \<Rightarrow> nat \<Rightarrow> db \<Rightarrow> job_row list" where
  "released_jobs i phase s = filter (\<lambda>j. j_dep j = i \<and> j_wave j \<le> phase) (db_jobs s)"

text \<open>\<open>float(dep.get("failure_threshold") or settings.default_failure_threshold)\<close>: 0.0 is falsy.\<close>

definition effective_threshold :: "ctx \<Rightarrow> dep_row \<Rightarrow> rat" where
  "effective_threshold c dep = (case p_threshold dep of
      None \<Rightarrow> s_default_threshold (cx_set c)
    | Some t \<Rightarrow> if t = 0 then s_default_threshold (cx_set c) else t)"

definition supervise_decision :: "ctx \<Rightarrow> dep_row \<Rightarrow> int list \<Rightarrow> db \<Rightarrow> decision" where
  "supervise_decision c dep phases s =
     (let released = released_jobs (p_id dep) (p_phase dep) s in
      phase_decision (length released)
        (length (filter (\<lambda>j. job_failed (j_status j)) released))
        (length (filter (\<lambda>j. \<not> job_terminal (j_status j)) released))
        (soak_elapsed c dep) (int (p_phase dep) \<ge> int (length phases) - 1)
        (effective_threshold c dep))"

definition supervise_one :: "ctx \<Rightarrow> dep_row \<Rightarrow> db \<Rightarrow> unit attempt \<times> db" where
  "supervise_one c dep s = (case parse_phases (p_phases dep) of
      None \<Rightarrow> (Done (), s)
    | Some phases \<Rightarrow>
        (let i = p_id dep; released = released_jobs i (p_phase dep) s;
             failures = length (filter (\<lambda>j. job_failed (j_status j)) released) in
         case supervise_decision c dep phases s of
           Halt \<Rightarrow>
             if p_phase dep \<ge> length phases then (Raised IndexError, s)
             else (Done (), upd_dep i (\<lambda>d. d\<lparr>p_status := Paused, p_halted := Some (AutoHalt (p_phase dep)
                     (phases ! p_phase dep) (int failures) (int (length released))
                     (effective_threshold c dep))\<rparr>) s)
         | Advance \<Rightarrow>
             (let nxt = p_phase dep + 1;
                  s1 = upd_dep i (\<lambda>d. d\<lparr>p_phase := nxt, p_entered := Some (cx_now c)\<rparr>) s;
                  dep1 = dep\<lparr>p_phase := nxt, p_entered := Some (cx_now c)\<rparr>;
                  (r, s2) = deliver_wave c dep1 i nxt False s1 in
              (case r of Exc e \<Rightarrow> Raised e | _ \<Rightarrow> Done (), s2))
         | Wait \<Rightarrow> (Done (), s)))"

fun supervise_rows :: "ctx \<Rightarrow> uuid set \<Rightarrow> dep_row list \<Rightarrow> db \<Rightarrow> nat \<times> db" where
  "supervise_rows c busy [] s = (0, s)"
| "supervise_rows c busy (dep # deps) s =
     (if p_id dep \<in> busy then supervise_rows c busy deps s
      else
        (let (r, s1) = supervise_one c dep s;
             (n, s2) = supervise_rows c busy deps s1 in
         ((case r of Done _ \<Rightarrow> Suc n | Raised _ \<Rightarrow> n), s2)))"

definition supervisor_sweep :: "ctx \<Rightarrow> uuid set \<Rightarrow> db \<Rightarrow> nat \<times> db" where
  "supervisor_sweep c busy s =
     supervise_rows c busy
       (filter (\<lambda>d. p_status d = Active \<and> truthy (p_phases d)) (db_deps s)) s"


section \<open>Poller\<close>

text \<open>One deployment of a tick; the first result is 1 when it was started.\<close>

definition poll_dep :: "ctx \<Rightarrow> dep_row \<Rightarrow> db \<Rightarrow> nat \<times> db" where
  "poll_dep c dep s =
     (let i = p_id dep in
      if p_status dep = Scheduled \<and> (case p_start dep of None \<Rightarrow> False | Some st \<Rightarrow> st > cx_now c)
      then (0, s)
      else
        (let (go, s1) =
           (if p_status dep = Scheduled \<and> jobs_of i s = [] then
              (let ((created, err), s') = materialize_jobs c i (p_target dep) (p_group dep) s in
               (created \<noteq> 0, s'))
            else (True, s)) in
         if \<not> go then (0, s1)
         else
           (let (r, s2) = start_deployment c i False s1 in
            (case r of Ok _ \<Rightarrow> 1 | Err _ \<Rightarrow> 0 | Exc _ \<Rightarrow> 0, s2))))"

fun poll_rows :: "ctx \<Rightarrow> uuid set \<Rightarrow> dep_row list \<Rightarrow> db \<Rightarrow> nat \<times> db" where
  "poll_rows c busy [] s = (0, s)"
| "poll_rows c busy (dep # deps) s =
     (if p_id dep \<in> busy then poll_rows c busy deps s
      else
        (let (n, s1) = poll_dep c dep s; (m, s2) = poll_rows c busy deps s1 in (n + m, s2)))"

definition poll_once :: "ctx \<Rightarrow> uuid set \<Rightarrow> db \<Rightarrow> nat \<times> db" where
  "poll_once c busy s =
     poll_rows c busy (filter (\<lambda>d. p_status d = Scheduled \<or> p_status d = Active) (db_deps s)) s"


section \<open>The reaper\<close>

lemma recompute_fold_frame [simp]:
  "db_jobs (fold (recompute_deployment_status c) ids s) = db_jobs s"
  "db_devices (fold (recompute_deployment_status c) ids s) = db_devices s"
  by (induction ids arbitrary: s) simp_all

lemma recompute_fold_dep_of:
  "dep_of k (fold (recompute_deployment_status c) ids s) = dep_of k s \<or>
   (k \<in> set ids \<and> (\<exists>d. dep_of k s = Some d \<and> p_status d \<notin> set no_finish_dep \<and>
      (\<forall>j \<in> set (jobs_of k s). job_terminal (j_status j)) \<and>
      dep_of k (fold (recompute_deployment_status c) ids s) = Some (d\<lparr>p_status := Finished\<rparr>)))"
proof (induction ids arbitrary: s)
  case (Cons i ids)
  let ?t = "recompute_deployment_status c i s"
  have jobs: "jobs_of k ?t = jobs_of k s" by (simp add: jobs_of_def)
  have fin: "Finished \<in> set no_finish_dep" by (simp add: no_finish_dep_def terminal_dep_def)
  have first: "dep_of k ?t = dep_of k s \<or>
      (k = i \<and> (\<exists>d. dep_of k s = Some d \<and> p_status d \<notin> set no_finish_dep \<and>
        (\<forall>j \<in> set (jobs_of k s). job_terminal (j_status j)) \<and> dep_of k ?t = Some (d\<lparr>p_status := Finished\<rparr>)))"
    by (auto simp: recompute_dep_of split: option.split)
  from Cons.IH [of ?t] first show ?case
    by (cases "dep_of k ?t = dep_of k s") (auto simp: jobs fin)
qed simp

lemma fold_reap_jobs:
  "db_jobs (fold (reap_job c) js s) =
     map (\<lambda>j. if j_id j \<in> j_id ` set js then j\<lparr>j_status := JTimedOut, j_updated := cx_now c\<rparr> else j) (db_jobs s)"
  "db_deps (fold (reap_job c) js s) = db_deps s"
  "db_devices (fold (reap_job c) js s) = db_devices s"
  "db_messages (fold (reap_job c) js s) = db_messages s"
  by (induction js arbitrary: s)
    (auto simp: reap_job_def upd_job_def upd_key_def update_where_def)




section \<open>The supervisor\<close>

lemma supervise_one_cases:
  obtains (idle) r where "supervise_one c dep s = (r, s)"
      "parse_phases (p_phases dep) = None \<or> r = Raised IndexError \<or>
       (\<exists>phases. supervise_decision c dep phases s = Wait)"
  | (halt) phases reason where "parse_phases (p_phases dep) = Some phases"
      "supervise_decision c dep phases s = Halt" "p_phase dep < length phases"
      "supervise_one c dep s = (Done (), upd_dep (p_id dep) (\<lambda>d. d\<lparr>p_status := Paused, p_halted := Some reason\<rparr>) s)"
  | (advance) phases where "parse_phases (p_phases dep) = Some phases"
      "supervise_decision c dep phases s = Advance"
      "snd (supervise_one c dep s) = snd (deliver_wave c
         (dep\<lparr>p_phase := p_phase dep + 1, p_entered := Some (cx_now c)\<rparr>) (p_id dep) (p_phase dep + 1) False
         (upd_dep (p_id dep) (\<lambda>d. d\<lparr>p_phase := p_phase dep + 1, p_entered := Some (cx_now c)\<rparr>) s))"
proof (cases "parse_phases (p_phases dep)")
  case None
  then have "supervise_one c dep s = (Done (), s)" by (simp add: supervise_one_def)
  then show thesis by (rule idle) (simp add: None)
next
  case (Some phases)
  show thesis
  proof (cases "supervise_decision c dep phases s")
    case Halt
    show thesis
    proof (cases "p_phase dep \<ge> length phases")
      case True
      with Some Halt have "supervise_one c dep s = (Raised IndexError, s)"
        by (simp add: supervise_one_def Let_def)
      then show thesis by (rule idle) simp
    next
      case False
      with Some Halt show thesis
        by (intro halt) (auto simp: supervise_one_def Let_def)
    qed
  next
    case Advance
    with Some show thesis
      by (intro advance) (auto simp: supervise_one_def Let_def case_prod_unfold)
  next
    case Wait
    with Some have "supervise_one c dep s = (Done (), s)" by (simp add: supervise_one_def Let_def)
    then show thesis by (rule idle) (use Wait in blast)
  qed
qed

definition healthy :: "ctx \<Rightarrow> dep_row \<Rightarrow> db \<Rightarrow> bool" where
  "healthy c dep s \<longleftrightarrow>
     (let rel = released_jobs (p_id dep) (p_phase dep) s in
      rel \<noteq> [] \<and> list_all (\<lambda>j. job_terminal (j_status j)) rel \<and>
      fdiv (of_nat (length (filter (\<lambda>j. job_failed (j_status j)) rel))) (of_nat (length rel))
        \<le> effective_threshold c dep \<and> soak_elapsed c dep)"

lemma supervise_decision_Advance:
  assumes "supervise_decision c dep phases s = Advance"
  shows "healthy c dep s" "p_phase dep + 1 < length phases"
  using assms
  by (auto simp: supervise_decision_def phase_decision_def healthy_def Let_def list_all_iff
      filter_empty_conv not_less split: if_splits)

text \<open>
  C4. The supervisor widens a rollout only on evidence, and never skips a wave. If a tick releases a
  wave, then some job was released before, every released job had ended, the failed ones were at
  most the threshold's share of them, the soak time had passed, the deployment was not in its last
  phase, and the new phase is the next one. If the failed share is above the threshold the tick
  pauses the deployment and touches no job. In every case no job of a later wave than the next
  phase, and no job of another deployment, is touched.
\<close>

theorem supervisor_safe:
  assumes "distinct (map j_id (db_jobs s))" and "dep_of (p_id dep) s = Some dep"
    and "supervise_one c dep s = (r, s')"
  shows "\<exists>d'. dep_of (p_id dep) s' = Some d' \<and>
      (p_phase d' = p_phase dep \<or> p_phase d' = p_phase dep + 1 \<and> healthy c dep s) \<and>
      list_all2 (\<lambda>j j'. j' = j \<or> (healthy c dep s \<and> j_dep j = p_id dep \<and> j_status j = JPending \<and>
          j_wave j \<le> p_phase dep + 1 \<and> job_moved c j j')) (db_jobs s) (db_jobs s') \<and>
      (fdiv (of_nat (length (filter (\<lambda>j. job_failed (j_status j)) (released_jobs (p_id dep) (p_phase dep) s))))
          (of_nat (length (released_jobs (p_id dep) (p_phase dep) s))) \<le> effective_threshold c dep
        \<or> released_jobs (p_id dep) (p_phase dep) s = [] \<or> parse_phases (p_phases dep) = None
        \<or> r = Raised IndexError \<or> p_status d' = Paused \<and> db_jobs s' = db_jobs s)"
proof (cases rule: supervise_one_cases [of c dep s])
  case (idle q)
  have refl: "list_all2 (\<lambda>j j'. j' = j \<or> P j j') js js" for P and js :: "job_row list"
    by (simp add: list_all2_conv_all_nth)
  have eq: "r = q" "s' = s" using assms(3) idle by simp_all
  have "fdiv (of_nat (length (filter (\<lambda>j. job_failed (j_status j)) (released_jobs (p_id dep) (p_phase dep) s))))
          (of_nat (length (released_jobs (p_id dep) (p_phase dep) s))) \<le> effective_threshold c dep
        \<or> released_jobs (p_id dep) (p_phase dep) s = [] \<or> parse_phases (p_phases dep) = None
        \<or> r = Raised IndexError"
    using idle(2)
    by (auto simp: eq supervise_decision_def phase_decision_def Let_def not_less split: if_splits)
  then show ?thesis using assms(2) refl by (auto simp: eq)
next
  case (halt phases reason)
  have s': "s' = upd_dep (p_id dep) (\<lambda>d. d\<lparr>p_status := Paused, p_halted := Some reason\<rparr>) s"
    using assms(3) halt(4) by simp
  have "dep_of (p_id dep) s' = Some (dep\<lparr>p_status := Paused, p_halted := Some reason\<rparr>)"
    by (simp add: s' dep_of_upd_dep assms(2))
  then show ?thesis by (auto simp: s' list_all2_conv_all_nth)
next
  case (advance phases)
  let ?f = "\<lambda>d. d\<lparr>p_phase := p_phase dep + 1, p_entered := Some (cx_now c)\<rparr>"
  let ?s1 = "upd_dep (p_id dep) ?f s"
  have s': "s' = snd (deliver_wave c (?f dep) (p_id dep) (p_phase dep + 1) False ?s1)"
    using assms(3) advance(3) by simp
  note h = supervise_decision_Advance [OF advance(2)]
  have "dep_of (p_id dep) ?s1 = Some (?f dep)" by (simp add: dep_of_upd_dep assms(2))
  from deliver_wave_deps(3) [OF this, of c "?f dep" "p_phase dep + 1" False]
  obtain d' where d': "dep_of (p_id dep) s' = Some d'" "p_phase d' = p_phase dep + 1"
    by (auto simp: s')
  have rows: "list_all2 (\<lambda>j j'. j' = j \<or> (healthy c dep s \<and> j_dep j = p_id dep \<and> j_status j = JPending \<and>
          j_wave j \<le> p_phase dep + 1 \<and> job_moved c j j')) (db_jobs s) (db_jobs s')"
    using deliver_wave_jobs [of ?s1 c "p_id dep" "p_phase dep + 1" "?f dep" False] assms(1) h(1)
    by (auto simp: s' moves_def released_pending_def elim!: list_all2_mono split: if_splits)
  have "fdiv (of_nat (length (filter (\<lambda>j. job_failed (j_status j)) (released_jobs (p_id dep) (p_phase dep) s))))
          (of_nat (length (released_jobs (p_id dep) (p_phase dep) s))) \<le> effective_threshold c dep"
    using h(1) by (simp add: healthy_def Let_def)
  with d' rows h(1) show ?thesis by (intro exI [of _ d'] conjI disjI1 disjI2) simp_all
qed


lemma supervisor_safe_witness:
  "\<exists>d'. dep_of 20 (snd (supervise_one sample_ctx (sample_dep\<lparr>p_phases := Some ''50,100''\<rparr>)
       ((sample_db JSuccess JFailure JSuccess)\<lparr>db_deps := [sample_dep\<lparr>p_phases := Some ''50,100''\<rparr>]\<rparr>)))
     = Some d' \<and> p_phase d' \<le> 1"
proof -
  let ?d = "sample_dep\<lparr>p_phases := Some ''50,100''\<rparr>"
  let ?s = "(sample_db JSuccess JFailure JSuccess)\<lparr>db_deps := [?d]\<rparr>"
  obtain r s' where run: "supervise_one sample_ctx ?d ?s = (r, s')"
    by (cases "supervise_one sample_ctx ?d ?s")
  have "distinct (map j_id (db_jobs ?s))" "dep_of (p_id ?d) ?s = Some ?d"
    by (simp_all add: sample_defs look_key_def)
  from supervisor_safe [OF this run]
  obtain d' where "dep_of (p_id ?d) s' = Some d'"
    "p_phase d' = p_phase ?d \<or> p_phase d' = p_phase ?d + 1 \<and> healthy sample_ctx ?d ?s" by blast
  moreover have "p_id ?d = 20" "p_phase ?d = 0" by (simp_all add: sample_dep_def)
  ultimately show ?thesis unfolding run snd_conv by auto
qed

text \<open>
  A phased rollout whose first wave is empty never starts. While no job of the deployment is in a
  released wave, the supervisor's decision is to wait and starting it delivers nothing, so neither
  the supervisor nor the poller nor a forced start changes the database; and a fleet of three
  devices with phases 5, 25, 100 is created in that state.
\<close>

theorem empty_canary_never_starts:
  assumes "dep_of i s = Some dep" and "p_status dep = Active"
    and "\<forall>j \<in> set (db_jobs s). j_dep j = i \<longrightarrow> p_phase dep < j_wave j"
  shows "snd (supervise_one c dep s) = s \<and> snd (start_deployment c i force s) = s \<and>
     snd (poll_dep c dep s) = s \<and>
     map snd (assign_waves [''a'', ''b'', ''c''] (Some [5, 25, 100])) = [2, 2, 2]"
proof -
  have i: "p_id dep = i" using dept.look_key [OF assms(1)] by simp
  have "released_jobs i (p_phase dep) s = []" "released_pending i (p_phase dep) s = []"
    using assms(3) by (auto simp: released_jobs_def released_pending_def filter_empty_conv)
  moreover have "dep\<lparr>p_status := Active\<rparr> = dep" using assms(2) by simp
  ultimately have "snd (supervise_one c dep s) = s" "snd (start_deployment c i f s) = s" for f
    using assms(1,2)
    by (auto simp: supervise_one_def supervise_decision_def phase_decision_def i Let_def
        start_deployment_def deliver_wave_def split: option.split sum.split)
  moreover from this have "snd (poll_dep c dep s) = s"
    using assms(2) i by (simp add: poll_dep_def Let_def case_prod_unfold)
  ultimately show ?thesis using canary_wave_empty by blast
qed

definition canary_db :: db where
  "canary_db = (sample_db JPending JPending JPending)
     \<lparr>db_deps := [sample_dep\<lparr>p_phases := Some ''5,25,100''\<rparr>],
      db_jobs := [(sample_job 30 ''a'' JPending)\<lparr>j_wave := 2\<rparr>, (sample_job 31 ''b'' JPending)\<lparr>j_wave := 2\<rparr>,
        (sample_job 32 ''c'' JPending)\<lparr>j_wave := 2\<rparr>]\<rparr>"

lemma empty_canary_never_starts_witness:
  "snd (start_deployment sample_ctx 20 True canary_db) = canary_db"
proof -
  have "dep_of 20 canary_db = Some (sample_dep\<lparr>p_phases := Some ''5,25,100''\<rparr>)"
    by (simp add: canary_db_def look_key_def sample_dep_def)
  from empty_canary_never_starts [OF this, of sample_ctx True] show ?thesis
    by (simp add: canary_db_def sample_dep_def sample_job_def)
qed

text \<open>
  A failure threshold of zero is not honoured: the supervisor reads 0.0 as unset and applies the
  default, so a deployment that asked for no failures at all does not halt until the default share
  is exceeded.
\<close>

theorem zero_threshold_ignored:
  assumes "p_threshold dep = Some 0"
    and "fdiv (of_nat (length (filter (\<lambda>j. job_failed (j_status j)) (released_jobs (p_id dep) (p_phase dep) s))))
          (of_nat (length (released_jobs (p_id dep) (p_phase dep) s))) \<le> s_default_threshold (cx_set c)"
  shows "supervise_decision c dep phases s \<noteq> Halt"
  using assms
  by (auto simp: supervise_decision_def phase_decision_def effective_threshold_def Let_def)


section \<open>The poller\<close>

lemma start_deployment_jobs:
  assumes "distinct (map j_id (db_jobs s))"
  shows "map j_device (db_jobs (snd (start_deployment c i force s))) = map j_device (db_jobs s)"
proof -
  have dev: "map j_device (db_jobs (snd (deliver_wave c dep i w f t))) = map j_device (db_jobs t)"
    if "distinct (map j_id (db_jobs t))" for dep w f t
  proof (rule nth_equalityI)
    note * = deliver_wave_jobs [OF that, of c i w dep f]
    then have len: "length (db_jobs t) = length (db_jobs (snd (deliver_wave c dep i w f t)))"
      by (rule list_all2_lengthD)
    then show "length (map j_device (db_jobs (snd (deliver_wave c dep i w f t)))) = length (map j_device (db_jobs t))"
      by simp
    fix n assume "n < length (map j_device (db_jobs (snd (deliver_wave c dep i w f t))))"
    then have n: "n < length (db_jobs t)" using len by simp
    from list_all2_nthD [OF * n]
    have "j_device (db_jobs (snd (deliver_wave c dep i w f t)) ! n) = j_device (db_jobs t ! n)"
      by (auto simp: moves_def job_moved_def split: if_splits)
    then show "map j_device (db_jobs (snd (deliver_wave c dep i w f t))) ! n = map j_device (db_jobs t) ! n"
      using n len by simp
  qed
  then show ?thesis using assms by (auto simp: start_deployment_def Let_def split: option.split)
qed

lemma materialize_cases:
  obtains (none) e where "materialize_jobs c i t g s = ((0, Some e), s)"
  | (some) ds project phases where "resolve_deployable_devices g t s = Inr ds" "ds \<noteq> []"
      "materialize_jobs c i t g s = ((length ds, None), snd (insert_jobs c i t ds project phases s))"
proof (cases "resolve_deployable_devices g t s")
  case (Inl e)
  then show thesis by (intro none) (simp add: materialize_jobs_def)
next
  case (Inr ds)
  let ?project = "case group_of g s of None \<Rightarrow> None | Some g \<Rightarrow> g_project g"
  let ?phases = "case dep_of i s of None \<Rightarrow> None | Some d \<Rightarrow> parse_phases (p_phases d)"
  have "materialize_jobs c i t g s = ((length ds, None), snd (insert_jobs c i t ds ?project ?phases s))"
    unfolding materialize_jobs_def Inr sum.case Let_def
    by (simp add: case_prod_unfold insert_jobs_rows(2))
  with Inr resolve_deployable_Inr(2) [OF Inr] show thesis by (rule some)
qed

lemma poll_dep_snd:
  "snd (poll_dep c dep s) =
     (if p_status dep = Scheduled \<and> (case p_start dep of None \<Rightarrow> False | Some st \<Rightarrow> st > cx_now c) then s
      else if p_status dep = Scheduled \<and> jobs_of (p_id dep) s = []
      then (if fst (fst (materialize_jobs c (p_id dep) (p_target dep) (p_group dep) s)) = 0
            then snd (materialize_jobs c (p_id dep) (p_target dep) (p_group dep) s)
            else snd (start_deployment c (p_id dep) False
              (snd (materialize_jobs c (p_id dep) (p_target dep) (p_group dep) s))))
      else snd (start_deployment c (p_id dep) False s))"
  by (simp add: poll_dep_def Let_def case_prod_unfold)

lemma poll_dep_cases:
  obtains (idle) "snd (poll_dep c dep s) = s"
  | (start) "snd (poll_dep c dep s) = snd (start_deployment c (p_id dep) False s)"
  | (create) ds project phases where "p_status dep = Scheduled" "jobs_of (p_id dep) s = []"
      "resolve_deployable_devices (p_group dep) (p_target dep) s = Inr ds"
      "snd (poll_dep c dep s) = snd (start_deployment c (p_id dep) False
          (snd (insert_jobs c (p_id dep) (p_target dep) ds project phases s)))"
proof (cases "p_status dep = Scheduled \<and> (case p_start dep of None \<Rightarrow> False | Some st \<Rightarrow> st > cx_now c)")
  case True
  then have "snd (poll_dep c dep s) = s" unfolding poll_dep_snd by (rule if_P)
  then show thesis by (rule idle)
next
  case now: False
  show thesis
  proof (cases "p_status dep = Scheduled \<and> jobs_of (p_id dep) s = []")
    case False
    have "snd (poll_dep c dep s) = snd (start_deployment c (p_id dep) False s)"
      unfolding poll_dep_snd if_not_P [OF now] by (rule if_not_P [OF False])
    then show thesis by (rule start)
  next
    case True
    show thesis
    proof (cases rule: materialize_cases [of c "p_id dep" "p_target dep" "p_group dep" s])
      case (none e)
      have "snd (poll_dep c dep s) = s"
        unfolding poll_dep_snd if_not_P [OF now] if_P [OF True] none by simp
      then show thesis by (rule idle)
    next
      case (some ds project phases)
      have "snd (poll_dep c dep s) = snd (start_deployment c (p_id dep) False
          (snd (insert_jobs c (p_id dep) (p_target dep) ds project phases s)))"
        unfolding poll_dep_snd if_not_P [OF now] if_P [OF True] some(3) using some(2) by simp
      with True some(1) show thesis by (intro create) simp_all
    qed
  qed
qed

text \<open>
  The poller respects the schedule and materialises once. Before its start time a scheduled
  deployment is left alone; jobs are created only for a scheduled deployment that has none, and then
  exactly one for each device the targeting rule admits; otherwise no job is created.
\<close>

theorem poller_respects_schedule:
  assumes "distinct (map j_id (db_jobs s))" and "\<forall>j \<in> set (db_jobs s). j_id j < db_next s"
  shows "(p_status dep = Scheduled \<and> cx_now c < st \<and> p_start dep = Some st \<longrightarrow> poll_dep c dep s = (0, s)) \<and>
    (map j_device (db_jobs (snd (poll_dep c dep s))) = map j_device (db_jobs s) \<or>
     p_status dep = Scheduled \<and> jobs_of (p_id dep) s = [] \<and>
     map j_device (db_jobs (snd (poll_dep c dep s))) = map j_device (db_jobs s) @
       map d_id (filter (may_receive (p_group dep) (p_target dep) s) (db_devices s)))"
proof
  show "p_status dep = Scheduled \<and> cx_now c < st \<and> p_start dep = Some st \<longrightarrow> poll_dep c dep s = (0, s)"
    by (simp add: poll_dep_def Let_def)
next
  let ?i = "p_id dep"
  consider "snd (poll_dep c dep s) = s"
    | "snd (poll_dep c dep s) = snd (start_deployment c ?i False s)"
    | ds where "p_status dep = Scheduled" "jobs_of ?i s = []"
        "resolve_deployable_devices (p_group dep) (p_target dep) s = Inr ds"
        "\<exists>project phases. snd (poll_dep c dep s) = snd (start_deployment c ?i False
          (snd (insert_jobs c ?i (p_target dep) ds project phases s)))"
    using poll_dep_cases by metis
  then show "map j_device (db_jobs (snd (poll_dep c dep s))) = map j_device (db_jobs s) \<or>
     p_status dep = Scheduled \<and> jobs_of (p_id dep) s = [] \<and>
     map j_device (db_jobs (snd (poll_dep c dep s))) = map j_device (db_jobs s) @
       map d_id (filter (may_receive (p_group dep) (p_target dep) s) (db_devices s))"
  proof cases
    case 1
    then show ?thesis by simp
  next
    case 2
    then show ?thesis using start_deployment_jobs [OF assms(1)] by simp
  next
    case (3 ds)
    then obtain project phases where run: "snd (poll_dep c dep s) = snd (start_deployment c ?i False
          (snd (insert_jobs c ?i (p_target dep) ds project phases s)))" by blast
    let ?t = "snd (insert_jobs c ?i (p_target dep) ds project phases s)"
    let ?new = "map (\<lambda>(i, dev). job_row_for c ?i (p_target dep) project
          (assign_waves (map d_id ds) phases) (db_next s + i) dev) (enumerate 0 ds)"
    have t: "db_jobs ?t = db_jobs s @ ?new" by (simp add: insert_jobs_rows)
    have ids: "map j_id ?new = [db_next s ..< db_next s + length ds]"
      using new_rows(2) [where k = "db_next s" and m = 0] by simp
    have "distinct (map j_id (db_jobs ?t))"
      unfolding t map_append ids using assms by auto
    then have "map j_device (db_jobs (snd (poll_dep c dep s))) = map j_device (db_jobs s) @ map d_id ds"
      unfolding run by (subst start_deployment_jobs) (simp_all only: t map_append new_rows(1))
    then show ?thesis using 3(1,2) resolve_deployable_Inr(1) [OF 3(3)] by simp
  qed
qed

lemma poller_respects_schedule_witness:
  "poll_dep sample_ctx (sample_dep\<lparr>p_status := Scheduled, p_start := Some 10000000001\<rparr>)
     (sample_db JPending JPending JPending) = (0, sample_db JPending JPending JPending)"
proof -
  have "distinct (map j_id (db_jobs (sample_db JPending JPending JPending)))"
    "\<forall>j \<in> set (db_jobs (sample_db JPending JPending JPending)).
       j_id j < db_next (sample_db JPending JPending JPending)"
    by (simp_all add: sample_defs)
  from poller_respects_schedule [OF this, of "sample_dep\<lparr>p_status := Scheduled, p_start := Some 10000000001\<rparr>"
      sample_ctx 10000000001, THEN conjunct1]
  show ?thesis by (simp add: sample_ctx_def)
qed

end
