(* ===== verification/OTA_System.thy ===== *)
theory OTA_System
  imports Sweeps
begin

text \<open>
  nff-ota as a whole. \<open>ota_step\<close> is one operation of the service, run to its end: a tool call, the
  webhook of a device report, one deployment of a sweep, or a write the dashboard makes straight
  into the shared database. \<open>evolves\<close> is the contract every operation keeps with respect to the
  deployments: their status moves along \<open>flow\<close>, ended deployments stay ended, and the agent is told
  once, when a deployment ends. It is reflexive and transitive, so each operation is checked from
  the primitive writes it is made of, and the invariants of all reachable states follow.
\<close>

section \<open>The contract\<close>

text \<open>The registry's edges, and the one edge the roll-up adds: a scheduled deployment can finish.\<close>

definition flow :: "dep_status \<Rightarrow> dep_status \<Rightarrow> bool" where
  "flow a b \<longleftrightarrow> dep_edge a b \<or> (a = Scheduled \<and> b = Finished)"

definition closed :: "uuid \<Rightarrow> db \<Rightarrow> bool" where
  "closed i s \<longleftrightarrow> (case dep_of i s of None \<Rightarrow> False | Some d \<Rightarrow> dep_terminal (p_status d))"

definition told :: "uuid \<Rightarrow> message_row list \<Rightarrow> nat" where
  "told i ms = length (filter (\<lambda>m. m_deployment (a_content m) = i) ms)"

definition evolves :: "db \<Rightarrow> db \<Rightarrow> bool" where
  "evolves s s' \<longleftrightarrow>
     (\<forall>i d. dep_of i s = Some d \<longrightarrow> (\<exists>d'. dep_of i s' = Some d' \<and> flow\<^sup>*\<^sup>* (p_status d) (p_status d'))) \<and>
     (\<exists>new. db_messages s' = db_messages s @ new \<and>
        (\<forall>i. told i new \<le> 1 \<and> (told i new = 1 \<longrightarrow> \<not> closed i s \<and> closed i s')))"

lemma flow_terminal: "dep_terminal a \<Longrightarrow> \<not> flow a b"
  by (cases a) (auto simp: flow_def terminal_dep_def)

interpretation flow_machine: status_machine flow dep_terminal
proof
  show "\<not> flow s t" if "dep_terminal s" for s t using flow_terminal [OF that] .
  show "s \<noteq> t" if "flow s t" for s t using that dep_machine.edge_changes by (auto simp: flow_def)
qed

lemma told_simps [simp]: "told i [] = 0" "told i (xs @ ys) = told i xs + told i ys"
  by (simp_all add: told_def)

lemma evolves_closed: "evolves s s' \<Longrightarrow> closed i s \<Longrightarrow> closed i s'"
  by (fastforce simp: evolves_def closed_def dest: flow_machine.final_absorbing split: option.splits)

lemma evolves_status:
  assumes "evolves s s'" and "dep_of i s = Some d" and "dep_terminal (p_status d)"
  shows "\<exists>d'. dep_of i s' = Some d' \<and> p_status d' = p_status d"
  using assms flow_machine.final_absorbing unfolding evolves_def by metis

lemma evolves_refl [simp]: "evolves s s"
  by (auto simp: evolves_def)

lemma evolves_trans:
  assumes "evolves s t" and "evolves t u"
  shows "evolves s u"
proof -
  obtain new1 where n1: "db_messages t = db_messages s @ new1"
      "\<And>i. told i new1 \<le> 1 \<and> (told i new1 = 1 \<longrightarrow> \<not> closed i s \<and> closed i t)"
    using assms(1) unfolding evolves_def by blast
  obtain new2 where n2: "db_messages u = db_messages t @ new2"
      "\<And>i. told i new2 \<le> 1 \<and> (told i new2 = 1 \<longrightarrow> \<not> closed i t \<and> closed i u)"
    using assms(2) unfolding evolves_def by blast
  have "told i (new1 @ new2) \<le> 1 \<and> (told i (new1 @ new2) = 1 \<longrightarrow> \<not> closed i s \<and> closed i u)" for i
    using n1(2) [of i] n2(2) [of i] evolves_closed [OF assms(1), of i] evolves_closed [OF assms(2), of i]
    by (auto simp: le_Suc_eq)
  moreover have "\<exists>d'. dep_of i u = Some d' \<and> flow\<^sup>*\<^sup>* (p_status d) (p_status d')" if "dep_of i s = Some d" for i d
    using that assms unfolding evolves_def by (meson rtranclp_trans)
  ultimately show ?thesis using n1(1) n2(1) unfolding evolves_def by auto
qed

text \<open>Writes that touch neither deployments nor messages.\<close>

lemma evolves_same: "db_deps s' = db_deps s \<Longrightarrow> db_messages s' = db_messages s \<Longrightarrow> evolves s s'"
  by (auto simp: evolves_def)

lemma evolves_upd_job [simp]: "evolves s (upd_job i f s)"
  by (rule evolves_same) (simp_all add: upd_job_def)

lemma evolves_upd_device [simp]: "evolves s (upd_device i f s)"
  by (rule evolves_same) (simp_all add: upd_device_def)

lemma evolves_upd_dep:
  assumes "\<And>r. p_id (f r) = p_id r" and "\<And>d. dep_of i s = Some d \<Longrightarrow> flow\<^sup>*\<^sup>* (p_status d) (p_status (f d))"
  shows "evolves s (upd_dep i f s)"
  using assms(2) unfolding evolves_def
  by (auto simp: dep_of_upd_dep [of f, OF assms(1)] intro!: exI [of _ "[]"])

lemma evolves_insert_dep:
  assumes "dep_of (p_id row) s = None"
  shows "evolves s (s\<lparr>db_deps := db_deps s @ [row], db_next := n\<rparr>)"
proof -
  have "look_key p_id i (db_deps s @ [row]) = (case dep_of i s of Some d \<Rightarrow> Some d
      | None \<Rightarrow> if p_id row = i then Some row else None)" for i
    proof -
    have "find P (rs @ [r]) = (case find P rs of Some d \<Rightarrow> Some d | None \<Rightarrow> if P r then Some r else None)"
      for P rs and r :: dep_row
      by (induction rs) auto
    then show ?thesis by (simp add: look_key_def)
  qed
  then show ?thesis by (auto simp: evolves_def intro!: exI [of _ "[]"])
qed

lemma told_le_1: "told i [m] \<le> 1" "told i [m] = 1 \<longleftrightarrow> m_deployment (a_content m) = i"
  by (simp_all add: told_def)

text \<open>Ending a deployment and telling the agent, as one step.\<close>

lemma evolves_end:
  assumes "dep_of i s = Some d" and "flow (p_status d) st" and "dep_terminal st"
    and "\<And>k. dep_of k t = (if k = i then Some (d\<lparr>p_status := st\<rparr>) else dep_of k s)"
    and "db_messages t = db_messages s"
  shows "evolves s (notify_deployment_terminal c i st t)"
proof -
  let ?u = "notify_deployment_terminal c i st t"
  have deps: "dep_of k ?u = (if k = i then Some (d\<lparr>p_status := st\<rparr>) else dep_of k s)" for k
    by (simp add: assms(4))
  have open_closed: "\<not> closed i s" "closed i ?u"
    using assms(1-3) deps flow_terminal by (auto simp: closed_def)
  from notify_messages [of c i st t] obtain new where
    "db_messages ?u = db_messages s @ new" "new = [] \<or> (\<exists>m. new = [m] \<and> m_deployment (a_content m) = i)"
    using assms(5) by auto
  then have "\<exists>new. db_messages ?u = db_messages s @ new \<and>
        (\<forall>k. told k new \<le> 1 \<and> (told k new = 1 \<longrightarrow> \<not> closed k s \<and> closed k ?u))"
    using open_closed by (intro exI [of _ new]) (auto simp: told_def split: if_splits)
  then show ?thesis
    using assms(1,2) deps unfolding evolves_def by (auto intro: r_into_rtranclp)
qed

lemma evolves_recompute [simp]: "evolves s (recompute_deployment_status c i s)"
proof (cases "dep_of i s")
  case None
  then show ?thesis by (simp add: recompute_deployment_status_def)
next
  case (Some d)
  let ?P = "\<lambda>r. p_id r = i \<and> p_status r = p_status d"
  let ?t = "s\<lparr>db_deps := update_where ?P (\<lambda>d. d\<lparr>p_status := Finished\<rparr>) (db_deps s)\<rparr>"
  have id: "p_id d = i" "d \<in> set (db_deps s)" using dept.look_key [OF Some] by simp_all
  then have hit: "list_ex ?P (db_deps s)" by (auto simp: list_ex_iff)
  have t: "dep_of k ?t = (if k = i then Some (d\<lparr>p_status := Finished\<rparr>) else dep_of k s)" for k
    using look_key_update_where [of p_id "\<lambda>d. d\<lparr>p_status := Finished\<rparr>" ?P i "db_deps s" d] Some id
      look_key_update_where_other [of p_id "\<lambda>d. d\<lparr>p_status := Finished\<rparr>" ?P k "db_deps s"] by auto
  have "evolves s (notify_deployment_terminal c i Finished ?t)" if "p_status d \<notin> set no_finish_dep"
  proof (rule evolves_end [OF Some])
    show "flow (p_status d) Finished"
      using that by (cases "p_status d") (auto simp: flow_def no_finish_dep_def terminal_dep_def)
    show "dep_of k ?t = (if k = i then Some (d\<lparr>p_status := Finished\<rparr>) else dep_of k s)" for k
      by (rule t)
  qed (simp_all add: terminal_dep_def)
  then show ?thesis
    using Some hit by (simp add: recompute_deployment_status_def Let_def)
qed

lemma evolves_fold: "(\<And>x s. evolves s (f x s)) \<Longrightarrow> evolves s (fold f xs s)"
  by (induction xs arbitrary: s) (auto intro: evolves_trans)


section \<open>Every operation keeps it\<close>

lemma evolves_insert_jobs [simp]: "evolves s (snd (insert_jobs c i t ds p ph s))"
  by (rule evolves_same) (simp_all add: insert_jobs_rows)

lemma evolves_create:
  assumes "dep_of (db_next s) s = None"
  shows "evolves s (snd (create_deployment c p s))"
proof (cases "create_deployment c p s")
  case (Pair r s')
  show ?thesis
  proof (cases "\<exists>info. r = Ok info")
    case False
    then show ?thesis using create_deployment_refused [OF Pair] Pair by auto
  next
    case True
    then obtain info where "create_deployment c p s = (Ok info, s')" using Pair by auto
    then show ?thesis
    proof (rule create_deployment_Ok)
      fix fw g project status ds
      assume s': "s' = snd (insert_jobs c (db_next s) (cp_target p) ds (Some project) (cp_phases p)
          (s\<lparr>db_next := Suc (db_next s),
             db_deps := db_deps s @ [new_dep_row c p (db_next s) project status]\<rparr>))"
      have "evolves s (s\<lparr>db_deps := db_deps s @ [new_dep_row c p (db_next s) project status],
          db_next := Suc (db_next s)\<rparr>)"
        by (rule evolves_insert_dep) (simp add: assms new_dep_row_def)
      then have "evolves s s'" unfolding s' by (rule evolves_trans) (rule evolves_same, simp_all add: insert_jobs_rows)
      then show ?thesis by (simp add: Pair)
    qed
  qed
qed

lemma evolves_abort [simp]: "evolves s (snd (abort_deployment c i s))"
proof (cases "dep_of i s")
  case None
  then show ?thesis by (simp add: abort_deployment_def)
next
  case (Some d)
  show ?thesis
  proof (cases rule: dep_ok_cases [of "p_status d" Aborted])
    case 1
    let ?s1 = "upd_dep i (\<lambda>d. d\<lparr>p_status := Aborted\<rparr>) s"
    let ?t = "?s1\<lparr>db_jobs := update_where (\<lambda>j. j_dep j = i \<and> j_status j \<in> set in_flight)
                 (\<lambda>j. j\<lparr>j_status := JAborted\<rparr>) (db_jobs ?s1)\<rparr>"
    have "evolves s (notify_deployment_terminal c i Aborted ?t)"
      by (rule evolves_end [OF Some])
        (use 1(1) Some in \<open>auto simp: flow_def terminal_dep_def dep_of_upd_dep\<close>)
    then show ?thesis using Some 1(2) by (simp add: abort_deployment_def Let_def)
  next
    case (2 e)
    then show ?thesis using Some by (simp add: abort_deployment_def)
  qed
qed

lemma evolves_resume [simp]: "evolves s (snd (resume_deployment c i s))"
proof (cases "dep_of i s")
  case None
  then show ?thesis by (simp add: resume_deployment_def)
next
  case (Some d)
  show ?thesis
  proof (cases rule: dep_ok_cases [of "p_status d" Active])
    case 1
    have "evolves s (upd_dep i (\<lambda>d. d\<lparr>p_status := Active, p_halted := None, p_entered := Some (cx_now c)\<rparr>) s)"
      by (rule evolves_upd_dep) (use 1(1) Some in \<open>auto simp: flow_def\<close>)
    then show ?thesis using Some 1(2) by (simp add: resume_deployment_def Let_def)
  next
    case (2 e)
    then show ?thesis using Some by (simp add: resume_deployment_def)
  qed
qed

lemma evolves_deliver_wave:
  assumes "\<And>d. dep_of i s = Some d \<Longrightarrow> p_status d = p_status dep"
  shows "evolves s (snd (deliver_wave c dep i w force s))"
proof (cases rule: deliver_wave_cases [of c dep i w force s])
  case (nothing e)
  then show ?thesis by simp
next
  case (wave sh s1 s2 raw window devs)
  have 1: "evolves s s1"
    unfolding wave(1) by (auto intro!: evolves_upd_dep)
  have "db_deps s2 = db_deps s1" "db_messages s2 = db_messages s1"
    using deliver_all_frame [of db_deps "deliver_one c sh devs (wave_limited c dep i w force s) window"
        "released_pending i w s" s1]
      deliver_all_frame [of db_messages "deliver_one c sh devs (wave_limited c dep i w force s) window"
        "released_pending i w s" s1] wave(3)
    by (simp_all add: deliver_one_frame) (metis snd_conv)+
  then have 2: "evolves s1 s2" by (rule evolves_same)
  have st: "p_status d = p_status dep" if "dep_of i s2 = Some d" for d
    using that assms wave(1) \<open>db_deps s2 = db_deps s1\<close>
    by (auto simp: dep_of_upd_dep split: if_splits)
  have 3: "evolves s2 (settle_wave c dep i b limited window rs s2)" for b limited rs
    unfolding settle_wave_def
    by (auto intro!: evolves_upd_dep simp: st flow_def)
  show ?thesis
    unfolding wave(4) using evolves_trans [OF evolves_trans [OF 1 2] 3] evolves_trans [OF 1 2] by simp
qed

lemma evolves_start [simp]: "evolves s (snd (start_deployment c i force s))"
proof (cases "dep_of i s")
  case None
  then show ?thesis by (simp add: start_deployment_def)
next
  case (Some d)
  have 1: "evolves s (if p_status d = Scheduled then upd_dep i (\<lambda>d. d\<lparr>p_status := Active\<rparr>) s else s)"
    using Some by (auto intro!: evolves_upd_dep simp: flow_def)
  have 2: "evolves t (snd (deliver_wave c (d\<lparr>p_status := Active\<rparr>) i (p_phase d) force t))"
    if "t = (if p_status d = Scheduled then upd_dep i (\<lambda>d. d\<lparr>p_status := Active\<rparr>) s else s)"
      and "p_status d = Scheduled \<or> p_status d = Active" for t
    by (rule evolves_deliver_wave) (use that Some in \<open>auto simp: dep_of_upd_dep split: if_splits\<close>)
  show ?thesis using Some evolves_trans [OF 1 2 [OF refl]] by (auto simp: start_deployment_def Let_def)
qed

lemma evolves_apply_job_status [simp]: "evolves s (apply_job_status c job st i d extra s)"
proof -
  have "evolves s t" if "t = (if st = JSuccess then (case dep_of i u of None \<Rightarrow> u
      | Some dep \<Rightarrow> upd_device d (g dep) u) else u)" and "evolves s u" for t u g
    using that by (auto split: option.split intro: evolves_trans)
  then show ?thesis
    unfolding apply_job_status_def Let_def by (intro evolves_trans [OF _ evolves_recompute]) auto
qed

lemma evolves_report [simp]: "evolves s (snd (report_device_status c device i st s))"
  by (simp add: report_device_status_def Let_def split: option.split sum.split)

lemma evolves_finalize [simp]: "evolves s (snd (finalize_ota_result c device st v r s))"
  by (simp add: finalize_ota_result_def Let_def split: option.split)

lemma evolves_progress [simp]: "evolves s (snd (record_ota_progress c device v st p a s))"
  by (simp add: record_ota_progress_def Let_def split: option.split sum.split)

lemma evolves_reaper [simp]: "evolves s (snd (reaper_sweep c s))"
proof -
  have "evolves s (fold (reap_job c) js s)" for js
    by (rule evolves_fold) (simp add: reap_job_def)
  moreover have "evolves t (fold (recompute_deployment_status c) ids t)" for ids t
    by (rule evolves_fold) simp
  ultimately show ?thesis by (auto simp: reaper_sweep_def Let_def intro: evolves_trans)
qed

lemma evolves_supervise:
  assumes "dep_of (p_id dep) s = Some dep" and "p_status dep = Active"
  shows "evolves s (snd (supervise_one c dep s))"
proof (cases rule: supervise_one_cases [of c dep s])
  case (idle r)
  then show ?thesis by simp
next
  case (halt phases reason)
  then show ?thesis using assms by (auto intro!: evolves_upd_dep simp: flow_def)
next
  case (advance phases)
  let ?f = "\<lambda>d. d\<lparr>p_phase := p_phase dep + 1, p_entered := Some (cx_now c)\<rparr>"
  have 1: "evolves s (upd_dep (p_id dep) ?f s)" by (rule evolves_upd_dep) simp_all
  have "evolves (upd_dep (p_id dep) ?f s)
      (snd (deliver_wave c (?f dep) (p_id dep) (p_phase dep + 1) False (upd_dep (p_id dep) ?f s)))"
    by (rule evolves_deliver_wave) (use assms in \<open>auto simp: dep_of_upd_dep\<close>)
  with 1 show ?thesis unfolding advance(3) by (rule evolves_trans)
qed

lemma evolves_poll [simp]: "evolves s (snd (poll_dep c dep s))"
  by (cases rule: poll_dep_cases [of c dep s])
    (auto intro: evolves_trans [OF evolves_insert_jobs evolves_start])

lemma evolves_devices:
  "evolves s (snd (register_device c rp s))" "evolves s (snd (preauthorize_device c d idn k s))"
  "evolves s (snd (transition_device d t s))" "evolves s (snd (decommission_device d s))"
  "evolves s (snd (create_group c nm cr s))" "evolves s (snd (add_devices_to_group g ids s))"
  "evolves s (snd (remove_devices_from_group g ids s))"
proof -
  show "evolves s (snd (register_device c rp s))" "evolves s (snd (preauthorize_device c d idn k s))"
    by (auto simp: register_device_def preauthorize_device_def Let_def
        intro: evolves_same split: option.split)
  show t: "evolves s (snd (transition_device d t s))" for t
    by (auto simp: transition_device_def split: option.split sum.split)
  have "evolves s s1 \<Longrightarrow> evolves s (s1\<lparr>db_jobs := x\<rparr>)" for s1 x
    by (erule evolves_trans) (rule evolves_same, simp_all)
  then show "evolves s (snd (decommission_device d s))"
    using t [of DDecommissioned] by (auto simp: decommission_device_def Let_def case_prod_unfold split: sum.split)
  show "evolves s (snd (create_group c nm cr s))"
    by (rule evolves_same) (simp_all add: create_group_def Let_def case_prod_unfold)
  show "evolves s (snd (add_devices_to_group g ids s))" "evolves s (snd (remove_devices_from_group g ids s))"
    by (auto simp: add_devices_to_group_def insert_members_def remove_devices_from_group_def Let_def
        intro: evolves_same split: option.split)
qed


section \<open>The step relation\<close>

text \<open>
  Writes from outside the service: heartbeats and uploads replace device, firmware and project rows
  and group tables at will, the dashboard inserts scheduled deployments with fresh ids and resumes a
  rate-limited one by setting it active with the one-shot override.
\<close>

inductive ota_step :: "db \<Rightarrow> db \<Rightarrow> bool" where
  create: "ota_step s (snd (create_deployment c p s))"
| abort: "ota_step s (snd (abort_deployment c i s))"
| resume: "ota_step s (snd (resume_deployment c i s))"
| start: "ota_step s (snd (start_deployment c i force s))"
| report: "ota_step s (snd (report_device_status c device i st s))"
| finalize: "ota_step s (snd (finalize_ota_result c device status v reason s))"
| progress: "ota_step s (snd (record_ota_progress c device v stage prg att s))"
| reaper: "ota_step s (snd (reaper_sweep c s))"
| supervise: "dep_of (p_id dep) s = Some dep \<Longrightarrow> p_status dep = Active \<Longrightarrow>
    ota_step s (snd (supervise_one c dep s))"
| poll: "ota_step s (snd (poll_dep c dep s))"
| register: "ota_step s (snd (register_device c rp s))"
| preauthorize: "ota_step s (snd (preauthorize_device c device idn key s))"
| accept: "ota_step s (snd (accept_device device s))"
| reject: "ota_step s (snd (reject_device device s))"
| decommission: "ota_step s (snd (decommission_device device s))"
| group_create: "ota_step s (snd (create_group c name criteria s))"
| group_add: "ota_step s (snd (add_devices_to_group g ids s))"
| group_remove: "ota_step s (snd (remove_devices_from_group g ids s))"
| world: "ota_step s (s\<lparr>db_devices := ds, db_fws := fws, db_groups := gs, db_projects := prs,
    db_runs := rs, db_conns := cs\<rparr>)"
| dashboard_insert: "p_id row = db_next s \<Longrightarrow> p_status row = Scheduled \<Longrightarrow>
    ota_step s (s\<lparr>db_deps := db_deps s @ [row], db_next := Suc (db_next s)\<rparr>)"
| dashboard_override: "dep_of i s = Some d \<Longrightarrow> p_status d = Paused \<Longrightarrow>
    ota_step s (upd_dep i (\<lambda>d. d\<lparr>p_status := Active, p_override := True\<rparr>) s)"

inductive_cases ota_stepE: "ota_step s s'"

text \<open>Identifiers in use are below the counter.\<close>

definition fresh_ok :: "db \<Rightarrow> bool" where
  "fresh_ok s \<longleftrightarrow> (\<forall>d \<in> set (db_deps s). p_id d < db_next s) \<and> (\<forall>j \<in> set (db_jobs s). j_id j < db_next s)
     \<and> distinct (map p_id (db_deps s)) \<and> distinct (map j_id (db_jobs s))"

lemma fresh_dep_of: "fresh_ok s \<Longrightarrow> dep_of (db_next s) s = None"
  unfolding fresh_ok_def look_key_def find_None_iff by auto

lemma step_evolves:
  assumes "ota_step s s'" and "fresh_ok s"
  shows "evolves s s'"
  using assms
proof (cases rule: ota_step.cases)
  case (dashboard_insert row)
  then show ?thesis using assms(2) by (auto intro!: evolves_insert_dep simp: fresh_dep_of)
next
  case (dashboard_override i d)
  then show ?thesis by (auto intro!: evolves_upd_dep simp: flow_def)
next
  case (world ds fws gs prs rs cs)
  then show ?thesis by (auto intro: evolves_same)
next
  case (create c p)
  then show ?thesis using assms(2) by (auto intro: evolves_create simp: fresh_dep_of)
qed (auto simp: evolves_devices accept_device_def reject_device_def intro: evolves_supervise)


section \<open>Fresh identifiers\<close>

text \<open>Rows are only appended, with identifiers taken from the counter.\<close>

definition fresh_range :: "uuid \<Rightarrow> uuid \<Rightarrow> uuid list \<Rightarrow> bool" where
  "fresh_range a b xs \<longleftrightarrow> distinct xs \<and> (\<forall>i \<in> set xs. a \<le> i \<and> i < b)"

definition grows :: "db \<Rightarrow> db \<Rightarrow> bool" where
  "grows s s' \<longleftrightarrow> db_next s \<le> db_next s' \<and>
     (\<exists>xs. map p_id (db_deps s') = map p_id (db_deps s) @ xs \<and> fresh_range (db_next s) (db_next s') xs) \<and>
     (\<exists>xs. map j_id (db_jobs s') = map j_id (db_jobs s) @ xs \<and> fresh_range (db_next s) (db_next s') xs)"

lemma fresh_range_append:
  "fresh_range a b xs \<Longrightarrow> fresh_range b c js \<Longrightarrow> a \<le> b \<Longrightarrow> b \<le> c \<Longrightarrow> fresh_range a c (xs @ js)"
  by (fastforce simp: fresh_range_def)

lemma fresh_range_Nil [simp]: "fresh_range a b []"
  by (simp add: fresh_range_def)

lemma grows_trans:
  assumes "grows s t" "grows t u"
  shows "grows s u"
proof -
  obtain xs js where 1: "map p_id (db_deps t) = map p_id (db_deps s) @ xs"
      "map j_id (db_jobs t) = map j_id (db_jobs s) @ js" "db_next s \<le> db_next t"
      "fresh_range (db_next s) (db_next t) xs" "fresh_range (db_next s) (db_next t) js"
    using assms(1) unfolding grows_def by blast
  obtain xs' js' where 2: "map p_id (db_deps u) = map p_id (db_deps t) @ xs'"
      "map j_id (db_jobs u) = map j_id (db_jobs t) @ js'" "db_next t \<le> db_next u"
      "fresh_range (db_next t) (db_next u) xs'" "fresh_range (db_next t) (db_next u) js'"
    using assms(2) unfolding grows_def by blast
  show ?thesis
    unfolding grows_def
    using 1 2 fresh_range_append [OF 1(4) 2(4)] fresh_range_append [OF 1(5) 2(5)]
    by (intro conjI exI [of _ "xs @ xs'"] exI [of _ "js @ js'"]) simp_all
qed

lemma grows_same:
  assumes "map p_id (db_deps s') = map p_id (db_deps s)" "map j_id (db_jobs s') = map j_id (db_jobs s)"
    and "db_next s \<le> db_next s'"
  shows "grows s s'"
  using assms unfolding grows_def by (metis append_Nil2 fresh_range_Nil)

lemma grows_refl [simp]: "grows s s"
  by (rule grows_same) simp_all

lemma grows_upd [simp]:
  "(\<And>r. p_id (f r) = p_id r) \<Longrightarrow> grows s (upd_dep i f s)"
  "(\<And>r. j_id (g r) = j_id r) \<Longrightarrow> grows s (upd_job k g s)"
  "grows s (upd_device d h s)"
  by (auto intro!: grows_same simp: upd_dep_def upd_job_def dept.keys_upd jobt.keys_upd upd_device_def)

lemma grows_notify [simp]: "grows s (notify_deployment_terminal c i st s)"
  by (rule grows_same) (simp_all add: db_next_notify)

lemma grows_recompute [simp]: "grows s (recompute_deployment_status c i s)"
proof (rule grows_same)
  show "map p_id (db_deps (recompute_deployment_status c i s)) = map p_id (db_deps s)"
    by (auto simp: recompute_deployment_status_def Let_def map_update_where split: option.split)
qed (simp_all add: db_next_recompute)

lemma grows_fold: "(\<And>x s. grows s (f x s)) \<Longrightarrow> grows s (fold f xs s)"
  by (induction xs arbitrary: s) (auto intro: grows_trans)

lemma grows_insert_jobs [simp]: "grows s (snd (insert_jobs c i t ds p ph s))"
proof -
  have "map j_id (db_jobs (snd (insert_jobs c i t ds p ph s))) =
      map j_id (db_jobs s) @ [db_next s ..< db_next s + length ds]"
    using new_rows(2) [where k = "db_next s" and m = 0 and c = c and dep = i and target = t and project = p
        and waves = "assign_waves (map d_id ds) ph" and ds = ds]
    by (simp add: insert_jobs_rows)
  then show ?thesis
    unfolding grows_def
    by (auto simp: insert_jobs_rows fresh_range_def)
qed

lemma grows_insert_dep:
  "p_id row = db_next s \<Longrightarrow> grows s (s\<lparr>db_deps := db_deps s @ [row], db_next := Suc (db_next s)\<rparr>)"
  by (auto simp: grows_def fresh_range_def)

lemma grows_create [simp]: "grows s (snd (create_deployment c p s))"
proof (cases "create_deployment c p s")
  case (Pair r s')
  show ?thesis
  proof (cases "\<exists>info. r = Ok info")
    case False
    then show ?thesis using create_deployment_refused [OF Pair] Pair by auto
  next
    case True
    then obtain info where "create_deployment c p s = (Ok info, s')" using Pair by auto
    then show ?thesis
    proof (rule create_deployment_Ok)
      fix fw g project status ds
      let ?row = "new_dep_row c p (db_next s) project status"
      assume s': "s' = snd (insert_jobs c (db_next s) (cp_target p) ds (Some project) (cp_phases p)
          (s\<lparr>db_next := Suc (db_next s), db_deps := db_deps s @ [?row]\<rparr>))"
      have "grows s (s\<lparr>db_deps := db_deps s @ [?row], db_next := Suc (db_next s)\<rparr>)"
        by (rule grows_insert_dep) (simp add: new_dep_row_def)
      moreover have "s\<lparr>db_next := Suc (db_next s), db_deps := db_deps s @ [?row]\<rparr> =
          s\<lparr>db_deps := db_deps s @ [?row], db_next := Suc (db_next s)\<rparr>" by simp
      ultimately have "grows s s'" unfolding s' by (metis grows_trans grows_insert_jobs)
      then show ?thesis by (simp add: Pair)
    qed
  qed
qed

lemma grows_jobs_map:
  "(\<And>j. j_id (f j) = j_id j) \<Longrightarrow> grows s (s\<lparr>db_jobs := update_where P f (db_jobs s)\<rparr>)"
  by (rule grows_same) (simp_all add: map_update_where)

lemma grows_abort [simp]: "grows s (snd (abort_deployment c i s))"
proof -
  have "grows s (notify_deployment_terminal c i Aborted
      ((upd_dep i f s)\<lparr>db_jobs := update_where P g (db_jobs (upd_dep i f s))\<rparr>))"
    if "\<And>r. p_id (f r) = p_id r" "\<And>j. j_id (g j) = j_id j" for f P g
    by (intro grows_trans [OF grows_trans [OF grows_upd(1) grows_jobs_map] grows_notify] that)
  then show ?thesis by (simp add: abort_deployment_def Let_def split: option.split sum.split)
qed

lemma grows_resume [simp]: "grows s (snd (resume_deployment c i s))"
  by (simp add: resume_deployment_def Let_def split: option.split sum.split)

lemma grows_deliver_wave [simp]: "grows s (snd (deliver_wave c dep i w force s))"
proof (cases rule: deliver_wave_cases [of c dep i w force s])
  case (nothing e)
  then show ?thesis by simp
next
  case (wave sh s1 s2 raw window devs)
  have 1: "grows s s1" unfolding wave(1) by simp
  have disp: "grows t (dispatch_job c j t)" and fail: "grows t (delivery_failed c j t)" for j t
    by (simp_all add: dispatch_job_def delivery_failed_def)
  have one: "grows t (snd (deliver_one c sh devs l window j t))" for j t l
    using deliver_one_jobs [of c sh devs l window j t] disp grows_trans [OF disp fail] by auto
  have "grows t (snd (deliver_all (deliver_one c sh devs l window) js t))" for js t l
  proof (induction js arbitrary: t)
    case (Cons j js)
    from grows_trans [OF one Cons.IH] show ?case by (simp add: Let_def case_prod_unfold)
  qed simp
  then have 2: "grows s1 s2" using wave(3) by (metis snd_conv)
  have 3: "grows s2 (settle_wave c dep i b l window rs s2)" for b l rs
    by (simp add: settle_wave_def)
  show ?thesis
    unfolding wave(4) using grows_trans [OF grows_trans [OF 1 2] 3] grows_trans [OF 1 2] by simp
qed

lemma grows_start [simp]: "grows s (snd (start_deployment c i force s))"
  by (auto simp: start_deployment_def Let_def intro: grows_trans [OF grows_upd(1) grows_deliver_wave]
      split: option.split)

lemma grows_apply_job_status:
  assumes "\<And>j. j_id (extra j) = j_id j"
  shows "grows s (apply_job_status c job st i d extra s)"
proof -
  have u: "grows s (upd_job (j_id job) h s)" if "\<And>j. j_id (h j) = j_id j" for h
    using that by simp
  have v: "grows s (recompute_deployment_status c i t)" if "grows s t" for t
    using that by (rule grows_trans) simp
  have w: "grows s (upd_device d h t)" if "grows s t" for t h
    using that by (rule grows_trans) simp
  show ?thesis
    unfolding apply_job_status_def Let_def
    by (auto intro!: u v w simp: assms split: option.split)
qed

lemma grows_report [simp]: "grows s (snd (report_device_status c device i st s))"
  by (simp add: report_device_status_def Let_def grows_apply_job_status split: option.split sum.split)

lemma grows_finalize [simp]: "grows s (snd (finalize_ota_result c device sta v r s))"
  by (simp add: finalize_ota_result_def Let_def grows_apply_job_status split: option.split)

lemma grows_progress [simp]: "grows s (snd (record_ota_progress c device v sg p a s))"
  by (simp add: record_ota_progress_def Let_def grows_apply_job_status tick_update_sel(1)
      split: option.split sum.split)

lemma grows_reaper [simp]: "grows s (snd (reaper_sweep c s))"
proof -
  have "grows s (fold (reap_job c) js s)" for js
    by (rule grows_fold) (simp add: reap_job_def)
  moreover have "grows t (fold (recompute_deployment_status c) ids t)" for ids t
    by (rule grows_fold) simp
  ultimately show ?thesis by (auto simp: reaper_sweep_def Let_def intro: grows_trans)
qed

lemma grows_supervise [simp]: "grows s (snd (supervise_one c dep s))"
proof (cases rule: supervise_one_cases [of c dep s])
  case (advance phases)
  then show ?thesis by (auto intro: grows_trans [OF grows_upd(1) grows_deliver_wave])
qed auto

lemma grows_poll [simp]: "grows s (snd (poll_dep c dep s))"
  by (cases rule: poll_dep_cases [of c dep s])
    (auto intro: grows_trans [OF grows_insert_jobs grows_start])

lemma grows_devices:
  "grows s (snd (register_device c rp s))" "grows s (snd (preauthorize_device c d idn k s))"
  "grows s (snd (transition_device d t s))" "grows s (snd (decommission_device d s))"
  "grows s (snd (create_group c nm cr s))" "grows s (snd (add_devices_to_group g ids s))"
  "grows s (snd (remove_devices_from_group g ids s))"
proof -
  show "grows s (snd (register_device c rp s))" "grows s (snd (preauthorize_device c d idn k s))"
    by (auto simp: register_device_def preauthorize_device_def Let_def
        intro: grows_same split: option.split)
  show t: "grows s (snd (transition_device d t s))" for t
    by (auto simp: transition_device_def split: option.split sum.split)
  show "grows s (snd (decommission_device d s))"
    using t [of DDecommissioned]
    by (auto simp: decommission_device_def Let_def case_prod_unfold intro: grows_trans [OF _ grows_jobs_map]
        split: sum.split)
  show "grows s (snd (create_group c nm cr s))"
    by (rule grows_same) (simp_all add: create_group_def Let_def case_prod_unfold)
  show "grows s (snd (add_devices_to_group g ids s))" "grows s (snd (remove_devices_from_group g ids s))"
    by (auto simp: add_devices_to_group_def insert_members_def remove_devices_from_group_def Let_def
        intro: grows_same split: option.split)
qed

lemma step_grows: "ota_step s s' \<Longrightarrow> grows s s'"
proof (induction rule: ota_step.induct)
  case (world s ds fws gs prs rs cs)
  then show ?case by (auto intro: grows_same)
next
  case (dashboard_insert row s)
  then show ?case by (auto intro: grows_insert_dep)
qed (auto simp: grows_devices accept_device_def reject_device_def)

lemma grows_fresh: "grows s s' \<Longrightarrow> fresh_ok s \<Longrightarrow> fresh_ok s'"
proof -
  assume g: "grows s s'" and f: "fresh_ok s"
  obtain xs js where 1: "map p_id (db_deps s') = map p_id (db_deps s) @ xs"
      "map j_id (db_jobs s') = map j_id (db_jobs s) @ js" "db_next s \<le> db_next s'"
      "fresh_range (db_next s) (db_next s') xs" "fresh_range (db_next s) (db_next s') js"
    using g unfolding grows_def by blast
  have "\<forall>i \<in> set (map p_id (db_deps s')). i < db_next s'" "\<forall>i \<in> set (map j_id (db_jobs s')). i < db_next s'"
    unfolding 1(1,2) using f 1(3-5) by (fastforce simp: fresh_ok_def fresh_range_def)+
  moreover have "distinct (map p_id (db_deps s'))" "distinct (map j_id (db_jobs s'))"
    unfolding 1(1,2) using f 1(4,5) by (fastforce simp: fresh_ok_def fresh_range_def)+
  ultimately show ?thesis by (simp add: fresh_ok_def)
qed


section \<open>Reachable states\<close>

definition empty_db :: db where
  "empty_db = \<lparr>db_devices = [], db_groups = [], db_members = [], db_fws = [], db_deps = [], db_jobs = [],
     db_projects = [], db_runs = [], db_conns = [], db_messages = [], db_emit = (\<lambda>_. None), db_next = 0\<rparr>"

definition reachable :: "db \<Rightarrow> bool" where
  "reachable s \<longleftrightarrow> ota_step\<^sup>*\<^sup>* empty_db s"

lemma run_evolves:
  assumes "ota_step\<^sup>*\<^sup>* s s'" and "fresh_ok s"
  shows "evolves s s' \<and> fresh_ok s'"
  using assms
proof (induction rule: rtranclp_induct)
  case (step t u)
  then show ?case
    using step_evolves evolves_trans step_grows grows_fresh by blast
qed simp




definition later_db :: db where
  "later_db = (sample_db JSuccess JSuccess JSuccess)
     \<lparr>db_deps := [sample_dep\<lparr>p_status := Scheduled, p_start := Some 20000000000\<rparr>],
      db_jobs := [sample_job 30 ''d1'' JPending]\<rparr>"

text \<open>
  The roll-up can finish a deployment that was never started: a device's outcome report, through
  the fallback of \<open>_find_active_job\<close>, ends the only job of a deployment scheduled for later, and the
  deployment goes from scheduled to finished, an edge the registry does not have.
\<close>

theorem scheduled_can_finish:
  "\<not> dep_edge Scheduled Finished \<and> map_option p_status (dep_of 20 later_db) = Some Scheduled \<and>
   map_option p_status (dep_of 20
     (snd (finalize_ota_result quiet_ctx ''d1'' ''committed'' ''v1'' None later_db))) = Some Finished"
proof -
  have r: "resolve_device_id ''d1'' later_db = Some ''d1''"
    by (simp add: resolve_device_id_def look_key_def later_db_def sample_db_def sample_device_def)
  have f: "find_active_job ''d1'' ''v1'' later_db = Some (sample_job 30 ''d1'' JPending)"
    by (simp add: find_active_job_def newest_first_def later_db_def sample_job_def terminal_dd_def)
  have run: "snd (finalize_ota_result quiet_ctx ''d1'' ''committed'' ''v1'' None later_db) =
      apply_job_status quiet_ctx (sample_job 30 ''d1'' JPending) JSuccess 20 ''d1'' (\<lambda>j. j) later_db"
    by (simp add: finalize_ota_result_def r f sample_job_def)
  show ?thesis unfolding run
    by (simp add: Let_def apply_job_status_def recompute_deployment_status_def
        notify_quiet quiet_ctx_def later_db_def sample_job_def sample_dep_def sample_db_def sample_device_def
        upd_job_def upd_key_def upd_device_def look_key_def jobs_of_def terminal_dd_def no_finish_dep_def
        terminal_dep_def)
qed

text \<open>A run of the whole service from nothing: the dashboard's world, a deployment, its abort.\<close>

definition world_db :: db where
  "world_db = empty_db\<lparr>db_devices := map sample_device [''d1''], db_fws := [sample_fw],
     db_groups := [\<lparr>g_id = 10, g_name = ''g'', g_filter = [], g_project = Some 1, g_created = 0\<rparr>],
     db_projects := [], db_runs := [], db_conns := []\<rparr>"

definition demo_params :: create_params where
  "demo_params = \<lparr>cp_name = ''d'', cp_target = ''v2'', cp_group = 10, cp_start = None, cp_max = 10,
     cp_retries = 3, cp_phases = None, cp_threshold = 1 / 20, cp_soak = 0, cp_confirm = False\<rparr>"

definition demo_run :: db where
  "demo_run = snd (abort_deployment sample_ctx 0 (snd (create_deployment sample_ctx demo_params
     (snd (add_devices_to_group 10 [''d1''] world_db)))))"

lemma demo_reachable: "reachable demo_run"
proof -
  have "ota_step empty_db world_db" unfolding world_db_def by (rule world)
  moreover have "ota_step world_db (snd (add_devices_to_group 10 [''d1''] world_db))" by (rule group_add)
  moreover have "ota_step (snd (add_devices_to_group 10 [''d1''] world_db))
      (snd (create_deployment sample_ctx demo_params (snd (add_devices_to_group 10 [''d1''] world_db))))"
    by (rule create)
  moreover have "ota_step (snd (create_deployment sample_ctx demo_params (snd (add_devices_to_group 10 [''d1''] world_db))))
      demo_run" unfolding demo_run_def by (rule abort)
  ultimately show ?thesis
    unfolding reachable_def by (meson rtranclp.rtrancl_into_rtrancl rtranclp.rtrancl_refl)
qed



end
