(* ===== verification/Artifacts.thy ===== *)
theory Artifacts
  imports OTA_System
begin

text \<open>
  \<open>tools/artifacts/ops.py\<close>: registering, listing and deleting firmware artifacts. Reading files,
  SHA-256, Ed25519 and object storage are outside the program and parameters of the model; the
  columns of \<open>firmware_versions\<close> that the OTA path reads are modelled, the lineage columns nobody
  in nff-ota reads are not.
\<close>

text \<open>
  \<open>ax_sign path data\<close> reads the key and signs (\<open>None\<close>: an exception), \<open>ax_trusted\<close> is the text of
  the trusted key (\<open>None\<close>: unreadable), \<open>ax_put\<close> and \<open>ax_drop\<close> whether the storage call succeeds.
\<close>

record art_ext =
  ax_read :: "string \<Rightarrow> nat list option"
  ax_sha :: "nat list \<Rightarrow> string"
  ax_sign :: "string \<Rightarrow> nat list \<Rightarrow> string option"
  ax_trusted :: "string option"
  ax_verify :: "string \<Rightarrow> nat list \<Rightarrow> string \<Rightarrow> bool"
  ax_path :: "string \<Rightarrow> string"
  ax_put :: "string \<Rightarrow> nat list \<Rightarrow> bool"
  ax_drop :: "string \<Rightarrow> bool"

record upload_params =
  up_version :: string
  up_types :: "string list"
  up_file :: string
  up_sign_key :: "string option"
  up_build :: "string option"
  up_release :: "string option"

datatype artifact_error =
    CannotRead
  | NotEspImage "nat option" nat nat
  | SigningFailed
  | MustBeSigned
  | CannotReadTrusted
  | BadSignature
  | StorageFailed
  | UpsertFailed
  | ReferencedBy nat
  | VersionNotFound string
  | NothingToDelete string

definition esp_magic :: nat where
  "esp_magic = 233"

definition image_gate :: "settings \<Rightarrow> bool \<Rightarrow> nat list \<Rightarrow> artifact_error option" where
  "image_gate st allow_synthetic data =
     (if s_esp_gate st \<and> \<not> allow_synthetic \<and>
         (length data < s_esp_min st \<or> (case data of [] \<Rightarrow> True | b # _ \<Rightarrow> b \<noteq> esp_magic))
      then Some (NotEspImage (first_row data) (length data) (s_esp_min st)) else None)"

definition signature_policy ::
  "settings \<Rightarrow> art_ext \<Rightarrow> string option \<Rightarrow> nat list \<Rightarrow> artifact_error + string option" where
  "signature_policy st e sign_key data =
     (let signed = (if truthy sign_key
          then (case ax_sign e (the sign_key) data of None \<Rightarrow> Inl SigningFailed | Some g \<Rightarrow> Inr (Some g))
          else Inr None) in
      case signed of
        Inl err \<Rightarrow> Inl err
      | Inr signature \<Rightarrow>
          if s_trusted_key st = [] then Inr signature
          else if \<not> truthy signature then Inl MustBeSigned
          else (case ax_trusted e of
              None \<Rightarrow> Inl CannotReadTrusted
            | Some pub \<Rightarrow>
                if ax_verify e pub data (the signature) then Inr signature else Inl BadSignature))"

text \<open>The upsert on \<open>version\<close>: columns the row does not carry keep their value.\<close>

definition upsert_fw :: "fw_row \<Rightarrow> db \<Rightarrow> db" where
  "upsert_fw row s = (case fw_of (f_version row) s of
      None \<Rightarrow> s\<lparr>db_fws := db_fws s @ [row]\<rparr>
    | Some old \<Rightarrow>
        s\<lparr>db_fws := upd_key f_version (f_version row) (\<lambda>r.
            row\<lparr>f_release := (if f_release row = None then f_release r else f_release row),
                f_build := (if f_build row = None then f_build r else f_build row)\<rparr>) (db_fws s)\<rparr>)"

text \<open>\<open>firmware_versions.build_id\<close> is unique: a row with the build id of another version is refused.\<close>

definition build_taken :: "upload_params \<Rightarrow> db \<Rightarrow> bool" where
  "build_taken p s \<longleftrightarrow> up_build p \<noteq> None \<and>
     list_ex (\<lambda>r. f_version r \<noteq> up_version p \<and> f_build r = up_build p) (db_fws s)"

definition upload_artifact_impl ::
  "ctx \<Rightarrow> art_ext \<Rightarrow> upload_params \<Rightarrow> bool \<Rightarrow> db \<Rightarrow> (artifact_error + fw_row) \<times> db" where
  "upload_artifact_impl c e p allow_synthetic s =
     (case ax_read e (up_file p) of
        None \<Rightarrow> (Inl CannotRead, s)
      | Some data \<Rightarrow> (case image_gate (cx_set c) allow_synthetic data of
          Some err \<Rightarrow> (Inl err, s)
        | None \<Rightarrow> (case signature_policy (cx_set c) e (up_sign_key p) data of
            Inl err \<Rightarrow> (Inl err, s)
          | Inr signature \<Rightarrow>
              if \<not> ax_put e (up_version p) data then (Inl StorageFailed, s)
              else if build_taken p s then (Inl UpsertFailed, s)
              else
                (let row = \<lparr>f_version = up_version p, f_storage = Some (ax_path e (up_version p)),
                       f_checksum = Some (ax_sha e data), f_types = up_types p,
                       f_release = up_release p, f_build = up_build p,
                       f_size = Some (int (length data))\<rparr>;
                     s' = upsert_fw row s in
                 (Inr (case fw_of (up_version p) s' of Some r \<Rightarrow> r | None \<Rightarrow> row), s')))))"

definition upload_artifact ::
  "ctx \<Rightarrow> art_ext \<Rightarrow> upload_params \<Rightarrow> db \<Rightarrow> (artifact_error + fw_row) \<times> db" where
  "upload_artifact c e p s = upload_artifact_impl c e p False s"

definition list_artifacts :: "string option \<Rightarrow> string option \<Rightarrow> db \<Rightarrow> fw_row list" where
  "list_artifacts device_type version_prefix s =
     filter (\<lambda>r. truthy (f_storage r)
         \<and> (truthy device_type \<longrightarrow> the device_type \<in> set (f_types r))
         \<and> (truthy version_prefix \<longrightarrow> starts_with (the version_prefix) (f_version r)))
       (rev (sort_key f_version (db_fws s)))"

definition delete_artifact ::
  "art_ext \<Rightarrow> string \<Rightarrow> db \<Rightarrow> (artifact_error + fw_row) \<times> db" where
  "delete_artifact e version s =
     (let live = filter (\<lambda>d. p_target d = version \<and> p_status d \<in> {Scheduled, Active, Paused}) (db_deps s) in
      if live \<noteq> [] then (Inl (ReferencedBy (length live)), s)
      else (case fw_of version s of
          None \<Rightarrow> (Inl (VersionNotFound version), s)
        | Some fw \<Rightarrow>
            if \<not> truthy (f_storage fw) then (Inl (NothingToDelete version), s)
            else if \<not> ax_drop e version then (Inl StorageFailed, s)
            else (Inr fw, s\<lparr>db_fws := upd_key f_version version
                    (\<lambda>r. r\<lparr>f_checksum := None, f_storage := None, f_size := Some 0\<rparr>) (db_fws s)\<rparr>)))"

interpretation fwt: keyed_table f_version "upd_key f_version" "look_key f_version"
  by (rule keyed_table_upd_key)


section \<open>Properties\<close>

lemma fw_of_upsert:
  "fw_of v (upsert_fw row s) =
     (if v = f_version row
      then Some (case fw_of v s of None \<Rightarrow> row | Some r \<Rightarrow>
        row\<lparr>f_release := (if f_release row = None then f_release r else f_release row),
            f_build := (if f_build row = None then f_build r else f_build row)\<rparr>)
      else fw_of v s)"
proof (cases "fw_of (f_version row) s")
  case None
  then have no: "find (\<lambda>r. f_version r = f_version row) (db_fws s) = None" by (simp add: look_key_def)
  have app: "find P (rs @ [r]) = (case find P rs of Some d \<Rightarrow> Some d | None \<Rightarrow> if P r then Some r else None)"
    for P rs and r :: fw_row
    by (induction rs) auto
  show ?thesis using None no by (auto simp: upsert_fw_def look_key_def app split: option.split)
next
  case (Some old)
  let ?f = "\<lambda>r. row\<lparr>f_release := (if f_release row = None then f_release r else f_release row),
            f_build := (if f_build row = None then f_build r else f_build row)\<rparr>"
  have upd: "look_key f_version v (upd_key f_version (f_version row) ?f rs) =
      (if v = f_version row then map_option ?f (look_key f_version v rs) else look_key f_version v rs)" for rs
    by (induction rs) (auto simp: look_key_def upd_key_def)
  show ?thesis using Some by (auto simp: upsert_fw_def upd)
qed

lemma signature_policy_Inr:
  assumes "signature_policy st e k data = Inr sg" and "s_trusted_key st \<noteq> []"
  shows "\<exists>pub g. ax_trusted e = Some pub \<and> sg = Some g \<and> ax_verify e pub data g"
proof -
  obtain g where g: "sg = Some g" "truthy sg" "\<exists>pub. ax_trusted e = Some pub \<and> ax_verify e pub data (the sg)"
    using assms
    by (cases sg) (auto simp: signature_policy_def Let_def split: if_splits option.splits sum.splits)
  then show ?thesis by auto
qed

text \<open>
  C14. Nothing unfit for a device is registered. A rejected upload changes nothing. An accepted one
  attaches the checksum and the size of the very bytes that were read to its version only; unless
  the caller vouched for a mock target, with the image gate on those bytes start with the ESP32
  magic and reach the size floor; if a trusted key is configured they carry a signature that
  verifies against it; its build id belongs to no other version; and the build id and release version
  of an earlier build survive an upload that does not bring its own.
\<close>

theorem upload_artifact_safe:
  "(case upload_artifact_impl c e p synthetic s of
      (Inl err, s') \<Rightarrow> s' = s
    | (Inr info, s') \<Rightarrow>
        (\<exists>data. ax_read e (up_file p) = Some data \<and>
           fw_of (up_version p) s' = Some info \<and>
           f_checksum info = Some (ax_sha e data) \<and> f_size info = Some (int (length data)) \<and>
           f_types info = up_types p \<and> truthy (f_storage info) = (ax_path e (up_version p) \<noteq> []) \<and>
           (synthetic \<or> \<not> s_esp_gate (cx_set c) \<or> (s_esp_min (cx_set c) \<le> length data \<and> first_row data = Some 233)) \<and>
           (s_trusted_key (cx_set c) = [] \<or> (\<exists>pub g. ax_trusted e = Some pub \<and> ax_verify e pub data g))) \<and>
        (\<forall>v. v = up_version p \<or> fw_of v s' = fw_of v s) \<and>
        (up_build p = None \<or> filter (\<lambda>r. f_build r = up_build p \<and> f_version r \<noteq> up_version p) (db_fws s') = []) \<and>
        f_build info = (case up_build p of Some b \<Rightarrow> Some b
          | None \<Rightarrow> Option.bind (fw_of (up_version p) s) f_build) \<and>
        f_release info = (case up_release p of Some b \<Rightarrow> Some b
          | None \<Rightarrow> Option.bind (fw_of (up_version p) s) f_release))"
proof (cases "ax_read e (up_file p)")
  case None
  then show ?thesis by (simp add: upload_artifact_impl_def)
next
  case (Some data)
  show ?thesis
  proof (cases "image_gate (cx_set c) synthetic data")
    case (Some err)
    then show ?thesis using \<open>ax_read e (up_file p) = Some data\<close> by (simp add: upload_artifact_impl_def)
  next
    case None
    then have gate: "synthetic \<or> \<not> s_esp_gate (cx_set c) \<or>
        (s_esp_min (cx_set c) \<le> length data \<and> first_row data = Some 233)"
      by (auto simp: image_gate_def esp_magic_def split: if_splits list.splits)
    show ?thesis
    proof (cases "signature_policy (cx_set c) e (up_sign_key p) data")
      case (Inl err)
      then show ?thesis using Some None by (simp add: upload_artifact_impl_def)
    next
      case (Inr sg)
      have sig: "s_trusted_key (cx_set c) = [] \<or> (\<exists>pub g. ax_trusted e = Some pub \<and> ax_verify e pub data g)"
        using signature_policy_Inr [OF Inr] by blast
      show ?thesis
      proof (cases "ax_put e (up_version p) data \<and> \<not> build_taken p s")
        case False
        then have "\<exists>err. upload_artifact_impl c e p synthetic s = (Inl err, s)"
          using Some None Inr by (simp add: upload_artifact_impl_def)
        then show ?thesis by auto
      next
        case True
        let ?row = "\<lparr>f_version = up_version p, f_storage = Some (ax_path e (up_version p)),
                       f_checksum = Some (ax_sha e data), f_types = up_types p,
                       f_release = up_release p, f_build = up_build p,
                       f_size = Some (int (length data))\<rparr>"
        let ?s' = "upsert_fw ?row s"
        obtain info where info: "fw_of (up_version p) ?s' = Some info" by (simp add: fw_of_upsert)
        have run: "upload_artifact_impl c e p synthetic s = (Inr info, ?s')"
          using Some None Inr True info by (simp add: upload_artifact_impl_def Let_def)
        have f: "f_checksum info = Some (ax_sha e data)" "f_size info = Some (int (length data))"
          "f_types info = up_types p" "f_storage info = Some (ax_path e (up_version p))"
          "f_build info = (case up_build p of Some b \<Rightarrow> Some b
            | None \<Rightarrow> Option.bind (fw_of (up_version p) s) f_build)"
          "f_release info = (case up_release p of Some b \<Rightarrow> Some b
            | None \<Rightarrow> Option.bind (fw_of (up_version p) s) f_release)"
          using info by (auto simp: fw_of_upsert split: option.splits)
        have other: "v = up_version p \<or> fw_of v ?s' = fw_of v s" for v
          by (simp add: fw_of_upsert)
        have uniq: "up_build p = None \<or>
            filter (\<lambda>r. f_build r = up_build p \<and> f_version r \<noteq> up_version p) (db_fws ?s') = []"
          using True by (auto simp: upsert_fw_def build_taken_def filter_empty_conv list_ex_iff upd_key_def
              set_update_where split: option.splits if_splits)
        show ?thesis
          unfolding run prod.case sum.case
          by (intro conjI exI [of _ data] allI)
            (simp_all only: Some info f truthy_simps gate sig other uniq simp_thms)
      qed
    qed
  qed
qed

text \<open>An environment for the examples: two bytes are read, storage works, nothing is signed.\<close>

definition sample_art_ext :: art_ext where
  "sample_art_ext = \<lparr>ax_read = (\<lambda>_. Some [1, 2]), ax_sha = (\<lambda>_. ''c0ffee''), ax_sign = (\<lambda>_ _. None),
     ax_trusted = None, ax_verify = (\<lambda>_ _ _. False), ax_path = (\<lambda>v. v), ax_put = (\<lambda>_ _. True),
     ax_drop = (\<lambda>_. True)\<rparr>"

theorem upload_artifact_safe_witness:
  "\<exists>info s'. upload_artifact_impl sample_ctx sample_art_ext
      \<lparr>up_version = ''v3'', up_types = [''esp32''], up_file = ''f'', up_sign_key = None,
       up_build = Some ''b'', up_release = None\<rparr> True (sample_db JPending JPending JPending) = (Inr info, s') \<and>
    f_size info = Some 2 \<and> f_build info = Some ''b''"
proof -
  let ?p = "\<lparr>up_version = ''v3'', up_types = [''esp32''], up_file = ''f'', up_sign_key = None,
       up_build = Some ''b'', up_release = None\<rparr>"
  let ?run = "upload_artifact_impl sample_ctx sample_art_ext ?p True (sample_db JPending JPending JPending)"
  obtain r s' where run: "?run = (r, s')" using surj_pair [of ?run] by blast
  have "\<not> build_taken ?p (sample_db JPending JPending JPending)"
    by (simp add: build_taken_def sample_db_def sample_fw_def)
  then have "\<exists>info. fst ?run = Inr info"
    by (simp add: upload_artifact_impl_def image_gate_def signature_policy_def sample_art_ext_def
        sample_ctx_def sample_settings_def Let_def)
  then obtain info where r: "r = Inr info" unfolding run by auto
  from upload_artifact_safe [where c = sample_ctx and e = sample_art_ext and p = ?p and synthetic = True
      and s = "sample_db JPending JPending JPending"]
  have "f_size info = Some 2 \<and> f_build info = Some ''b''"
    unfolding run r prod.case sum.case by (auto simp: sample_art_ext_def)
  with run r show ?thesis by blast
qed

text \<open>
  A binary that a live deployment ships is never deleted: deletion is refused while a scheduled,
  active or paused deployment targets the version; when it happens, only the deployable columns of
  that version are cleared, and creating a deployment of it is refused from then on.
\<close>

theorem delete_artifact_guarded:
  "(case delete_artifact e v s of
      (Inl err, s') \<Rightarrow> s' = s
    | (Inr fw, s') \<Rightarrow>
        filter (\<lambda>d. p_target d = v \<and> p_status d \<notin> {Finished, Aborted}) (db_deps s) = [] \<and>
        (\<forall>u. u = v \<or> fw_of u s' = fw_of u s) \<and>
        db_deps s' = db_deps s \<and> db_jobs s' = db_jobs s \<and>
        (\<forall>c p. create_deployment c (p\<lparr>cp_target := v\<rparr>) s' = (Err (NoArtifact v), s')))"
proof -
  let ?live = "filter (\<lambda>d. p_target d = v \<and> p_status d \<in> {Scheduled, Active, Paused}) (db_deps s)"
  show ?thesis
  proof (cases "?live = []")
    case False
    then show ?thesis by (simp add: delete_artifact_def Let_def)
  next
    case True
    show ?thesis
    proof (cases "fw_of v s")
      case None
      with True show ?thesis by (simp add: delete_artifact_def)
    next
      case (Some fw)
      show ?thesis
      proof (cases "truthy (f_storage fw) \<and> ax_drop e v")
        case False
        with True Some show ?thesis by (auto simp: delete_artifact_def)
      next
        case ok: True
        let ?f = "\<lambda>r. r\<lparr>f_checksum := None, f_storage := None, f_size := Some 0\<rparr>"
        let ?s' = "s\<lparr>db_fws := upd_key f_version v ?f (db_fws s)\<rparr>"
        have run: "delete_artifact e v s = (Inr fw, ?s')"
          using True Some ok by (simp add: delete_artifact_def)
        have fws: "fw_of u ?s' = (if u = v then map_option ?f (fw_of u s) else fw_of u s)" for u
          using fwt.look_upd [of ?f u v "db_fws s"] by simp
        have st: "st \<in> {Scheduled, Active, Paused} \<longleftrightarrow> st \<notin> {Finished, Aborted}" for st
          by (cases st) auto
        have others: "u = v \<or> fw_of u ?s' = fw_of u s" for u
          using fws [of u] by (cases "u = v") simp_all
        have none: "filter (\<lambda>d. p_target d = v \<and> p_status d \<notin> {Finished, Aborted}) (db_deps s) = []"
          using True by (simp only: st)
        have "create_deployment c (p\<lparr>cp_target := v\<rparr>) ?s' = (Err (NoArtifact v), ?s')" for c p
          using fws [of v] Some by (simp add: create_deployment_def)
        then show ?thesis
          unfolding run prod.case sum.case by (intro conjI none allI others) auto
      qed
    qed
  qed
qed

end
