(* ===== verification/Fix_Jobs.thy ===== *)
theory Fix_Jobs
  imports Artifacts OTA_System
begin

text \<open>
  The firmware-fix queue: \<open>source/jobs.py\<close> (enqueue, claim, reclaim, finish), \<open>source/fix_worker.py\<close>,
  the submit, register, read and build operations of \<open>source/ops.py\<close>, the real build of
  \<open>source/realcompile.py\<close> and \<open>source/baseline.py\<close>.

  Parameters of the model: \<open>fx_detect\<close> (the regular-expression analyser of \<open>source/compile.py\<close>,
  not modelled), \<open>fx_hash\<close> (the SHA-256 prefix), \<open>fx_sketch\<close> (the bytes of the JSON sketch),
  \<open>fx_read_repo\<close> (nff-github's file, \<open>None\<close> when the call raises) and \<open>fx_compile\<close>, nff-github's
  compiler: from source, build id, version and device type to the application image, \<open>None\<close> when
  it raises. Staging the ELF and the merged image on nff-fleet is best effort, changes no table and
  is left out. The changelog, log lines and error texts are left out; errors are constructors.
\<close>

section \<open>State\<close>

datatype fix_status = FPending | FRunning | FDone | FError

datatype fix_error =
    BadSemver string
  | FixDeviceNotFound string
  | FixNoProject string
  | FixNoGroup string
  | RealHardware string
  | NotGreater string string
  | RevisionExists
  | UploadFailed artifact_error
  | CompileFailed
  | CreateFailed dep_error
  | NoSource string
  | JobNotFound uuid
  | Exhausted nat
  | BuildCrashed

record fix_job =
  x_id :: uuid
  x_project :: "uuid option"
  x_device :: string
  x_version :: string
  x_source :: string
  x_parent :: "string option"
  x_author :: string
  x_status :: fix_status
  x_attempts :: nat
  x_created :: time
  x_started :: time
  x_dep :: "uuid option"
  x_fault :: bool
  x_error :: "fix_error option"

record revision =
  v_id :: uuid
  v_project :: uuid
  v_device :: string
  v_version :: string
  v_source :: string
  v_fault :: "string option"
  v_build :: string
  v_parent :: "string option"
  v_author :: string
  v_created :: time

record fix_state =
  fs_db :: db
  fs_jobs :: "fix_job list"
  fs_revs :: "revision list"

text \<open>\<open>SubmitFirmwareFixResult\<close>: the deployment, the version and whether a fault remains, or an error.\<close>

type_synonym build_result = "fix_error + (uuid \<times> string \<times> bool)"

record fix_ext =
  fx_detect :: "string \<Rightarrow> string option"
  fx_hash :: "string \<Rightarrow> string"
  fx_sketch :: "string \<Rightarrow> string option \<Rightarrow> nat list"
  fx_read_repo :: "string option"
  fx_compile :: "string \<Rightarrow> string \<Rightarrow> string \<Rightarrow> string \<Rightarrow> nat list option"
  fx_art :: art_ext


section \<open>The queue\<close>

definition enqueue ::
  "ctx \<Rightarrow> string \<Rightarrow> string \<Rightarrow> string \<Rightarrow> uuid option \<Rightarrow> string \<Rightarrow> string option \<Rightarrow> fix_state \<Rightarrow> uuid \<times> fix_state" where
  "enqueue c device version source project author parent s =
     (let (i, d) = fresh_uuid (fs_db s);
          row = \<lparr>x_id = i, x_project = project, x_device = device, x_version = version,
            x_source = source, x_parent = parent, x_author = author, x_status = FPending,
            x_attempts = 0, x_created = cx_now c, x_started = 0, x_dep = None, x_fault = False,
            x_error = None\<rparr> in
      (i, s\<lparr>fs_db := d, fs_jobs := fs_jobs s @ [row]\<rparr>))"

definition get_job :: "uuid \<Rightarrow> fix_state \<Rightarrow> fix_job option" where
  "get_job i s = look_key x_id i (fs_jobs s)"

definition reclaim_row :: "ctx \<Rightarrow> fix_job \<Rightarrow> fix_job" where
  "reclaim_row c j =
     (if x_attempts j \<ge> s_fix_max (cx_set c)
      then j\<lparr>x_status := FError, x_error := Some (Exhausted (s_fix_max (cx_set c)))\<rparr>
      else j\<lparr>x_status := FPending\<rparr>)"

definition reclaim_stale :: "ctx \<Rightarrow> fix_state \<Rightarrow> nat \<times> fix_state" where
  "reclaim_stale c s =
     (let cutoff = cx_now c - seconds (s_fix_stale (cx_set c));
          stale = filter (\<lambda>j. x_status j = FRunning \<and> x_started j < cutoff) (fs_jobs s) in
      (length stale,
       fold (\<lambda>job t. t\<lparr>fs_jobs := update_where (\<lambda>j. x_id j = x_id job \<and> x_status j = FRunning)
           (if x_attempts job \<ge> s_fix_max (cx_set c)
            then (\<lambda>j. j\<lparr>x_status := FError, x_error := Some (Exhausted (s_fix_max (cx_set c)))\<rparr>)
            else (\<lambda>j. j\<lparr>x_status := FPending\<rparr>)) (fs_jobs t)\<rparr>) stale s))"

definition oldest_pending :: "fix_state \<Rightarrow> fix_job option" where
  "oldest_pending s = first_row (filter (\<lambda>j. x_status j = FPending) (sort_key x_created (fs_jobs s)))"

definition claim_next :: "ctx \<Rightarrow> fix_state \<Rightarrow> fix_job option \<times> fix_state" where
  "claim_next c s = (case oldest_pending s of
      None \<Rightarrow> (None, s)
    | Some job \<Rightarrow>
        (let P = (\<lambda>j. x_id j = x_id job \<and> x_status j = FPending);
             s' = s\<lparr>fs_jobs := update_where P
               (\<lambda>j. j\<lparr>x_status := FRunning, x_started := cx_now c, x_attempts := x_attempts job + 1\<rparr>) (fs_jobs s)\<rparr> in
         if \<not> list_ex P (fs_jobs s) then (None, s') else (get_job (x_id job) s', s')))"

definition finish_job ::
  "uuid \<Rightarrow> fix_status \<Rightarrow> uuid option \<Rightarrow> string option \<Rightarrow> bool \<Rightarrow> fix_error option \<Rightarrow> fix_state \<Rightarrow> fix_state" where
  "finish_job i st dep version fault err s =
     s\<lparr>fs_jobs := upd_key x_id i
        (\<lambda>j. j\<lparr>x_status := st, x_fault := fault, x_error := err,
               x_dep := (case dep of None \<Rightarrow> x_dep j | Some d \<Rightarrow> Some d),
               x_version := (case version of None \<Rightarrow> x_version j | Some v \<Rightarrow> v)\<rparr>) (fs_jobs s)\<rparr>"


section \<open>Versions and revisions\<close>

definition semver_part :: "string \<Rightarrow> nat option" where
  "semver_part s = (if s \<noteq> [] \<and> list_all is_digit s then digits_val 0 False s else None)"

definition semver :: "string option \<Rightarrow> (nat \<times> nat \<times> nat) option" where
  "semver s = (case split_on (CHR ''.'') (strip (or_else s [])) of
      [a, b, c] \<Rightarrow> (case (semver_part a, semver_part b, semver_part c) of
          (Some x, Some y, Some z) \<Rightarrow> Some (x, y, z)
        | _ \<Rightarrow> None)
    | _ \<Rightarrow> None)"

fun semver_le :: "nat \<times> nat \<times> nat \<Rightarrow> nat \<times> nat \<times> nat \<Rightarrow> bool" where
  "semver_le (a, b, c) (x, y, z) \<longleftrightarrow> a < x \<or> a = x \<and> (b < y \<or> b = y \<and> c \<le> z)"

definition catalog_version :: "string \<Rightarrow> string \<Rightarrow> string" where
  "catalog_version device version = device @ ''-'' @ version"

definition latest_revision :: "string \<Rightarrow> fix_state \<Rightarrow> revision option" where
  "latest_revision device s =
     first_row (filter (\<lambda>r. v_device r = device) (sort_key (\<lambda>r. - v_created r) (fs_revs s)))"

definition device_group_id :: "string \<Rightarrow> fix_state \<Rightarrow> uuid option" where
  "device_group_id device s = map_option fst (find (\<lambda>(g, d). d = device) (db_members (fs_db s)))"

definition qemu_type :: string where
  "qemu_type = ''nff-qemu-esp32''"

text \<open>The insert, refused by \<open>unique(device_id, version)\<close>.\<close>

definition insert_revision :: "revision \<Rightarrow> fix_state \<Rightarrow> fix_state option" where
  "insert_revision r s =
     (if list_ex (\<lambda>q. v_device q = v_device r \<and> v_version q = v_version r) (fs_revs s) then None
      else Some (s\<lparr>fs_revs := fs_revs s @ [r]\<rparr>))"

definition fresh_fix :: "fix_state \<Rightarrow> uuid \<times> fix_state" where
  "fresh_fix s = (let (i, d) = fresh_uuid (fs_db s) in (i, s\<lparr>fs_db := d\<rparr>))"

definition baseline_version :: string where
  "baseline_version = ''0.0.0''"

definition stub_marker :: string where
  "stub_marker = ''this stub is served only when''"

definition has_infix :: "string \<Rightarrow> string \<Rightarrow> bool" where
  "has_infix p s \<longleftrightarrow> list_ex (\<lambda>t. starts_with p t) (map (\<lambda>n. drop n s) [0..<Suc (length s)])"

definition ensure_baseline :: "ctx \<Rightarrow> fix_ext \<Rightarrow> string \<Rightarrow> fix_state \<Rightarrow> bool \<times> fix_state" where
  "ensure_baseline c x device s =
     (if list_ex (\<lambda>r. v_device r = device) (fs_revs s) then (True, s)
      else (case device_of device (fs_db s) of
        None \<Rightarrow> (False, s)
      | Some dev \<Rightarrow> (case d_project dev of
          None \<Rightarrow> (False, s)
        | Some project \<Rightarrow>
            if strip (or_else (d_type dev) []) \<noteq> qemu_type then (False, s)
            else (case fx_read_repo x of
                None \<Rightarrow> (False, s)
              | Some source \<Rightarrow>
                  if has_infix stub_marker source then (False, s)
                  else
                    (let (i, s1) = fresh_fix s;
                         r = \<lparr>v_id = i, v_project = project, v_device = device,
                           v_version = baseline_version, v_source = source, v_fault = None,
                           v_build = fx_hash x source, v_parent = None, v_author = ''baseline'',
                           v_created = cx_now c\<rparr> in
                     (case insert_revision r s1 of None \<Rightarrow> (False, s1) | Some s2 \<Rightarrow> (True, s2)))))))"


section \<open>Building\<close>

definition register_source ::
  "ctx \<Rightarrow> fix_ext \<Rightarrow> string \<Rightarrow> string \<Rightarrow> string \<Rightarrow> string \<Rightarrow> string option \<Rightarrow> fix_state \<Rightarrow>
     (fix_error + (string \<times> string \<times> bool)) \<times> fix_state" where
  "register_source c x device version source author parent s =
     (case device_of device (fs_db s) of
        None \<Rightarrow> (Inl (FixDeviceNotFound device), s)
      | Some dev \<Rightarrow> (case d_project dev of
          None \<Rightarrow> (Inl (FixNoProject device), s)
        | Some project \<Rightarrow>
            (let (i, s1) = fresh_fix s;
                 r = \<lparr>v_id = i, v_project = project, v_device = device, v_version = version,
                   v_source = source, v_fault = fx_detect x source, v_build = fx_hash x source,
                   v_parent = parent, v_author = author, v_created = cx_now c\<rparr> in
             (case insert_revision r s1 of
                None \<Rightarrow> (Inl RevisionExists, s1)
              | Some s2 \<Rightarrow> (Inr (version, fx_hash x source, fx_detect x source \<noteq> None), s2)))))"

text \<open>The third part of a build: create the deployment of the catalogued version and start it.\<close>

definition deploy_fix ::
  "ctx \<Rightarrow> string \<Rightarrow> string \<Rightarrow> string \<Rightarrow> uuid \<Rightarrow> bool \<Rightarrow> fix_state \<Rightarrow> build_result option \<times> fix_state" where
  "deploy_fix c device version target gid fault s =
     (case create_deployment c \<lparr>cp_name = device @ '' fw '' @ version,
          cp_target = target, cp_group = gid, cp_start = None, cp_max = 10,
          cp_retries = 3, cp_phases = None, cp_threshold = fl (5 / 100), cp_soak = 0, cp_confirm = False\<rparr>
          (fs_db s) of
        (Ok info, d1) \<Rightarrow>
          (let (r, d2) = start_deployment c (i_id info) False d1 in
           case r of
             Exc e \<Rightarrow> (None, s\<lparr>fs_db := d2\<rparr>)
           | _ \<Rightarrow> (Some (Inr (i_id info, version, fault)), s\<lparr>fs_db := d2\<rparr>))
      | (Err e, d1) \<Rightarrow> (Some (Inl (CreateFailed e)), s\<lparr>fs_db := d1\<rparr>)
      | (Exc e, d1) \<Rightarrow> (None, s\<lparr>fs_db := d1\<rparr>))"

text \<open>
  The real build of a QEMU device (\<open>realcompile.py\<close>): an artifact already built from the same
  source for the same release is reused; if the source was built for another release, the build id
  is salted with the version.
\<close>

definition artifact_for :: "string \<Rightarrow> fix_state \<Rightarrow> fw_row option" where
  "artifact_for bid s = find (\<lambda>r. f_build r = Some bid) (db_fws (fs_db s))"

definition salted :: "string \<Rightarrow> string \<Rightarrow> string" where
  "salted source version =
     source @ [char_of (10::nat)] @ ''// nff-build version='' @ version @ [char_of (10::nat)]"

definition pick_build :: "fix_ext \<Rightarrow> string \<Rightarrow> string \<Rightarrow> fix_state \<Rightarrow> string \<times> fw_row option" where
  "pick_build x version source s =
     (let bid = fx_hash x source; row = artifact_for bid s in
      if row \<noteq> None \<and> f_release (the row) \<noteq> Some version
      then (let bid' = fx_hash x (salted source version) in (bid', artifact_for bid' s))
      else (bid, row))"

text \<open>The target version and build id to ship: the reused artifact, or a fresh compile and upload.\<close>

definition real_artifact ::
  "ctx \<Rightarrow> fix_ext \<Rightarrow> string \<Rightarrow> string \<Rightarrow> string \<Rightarrow> string \<Rightarrow> fix_state \<Rightarrow>
     (fix_error + (string \<times> string)) \<times> fix_state" where
  "real_artifact c x device version source device_type s =
     (let (bid, row) = pick_build x version source s in
      if row \<noteq> None \<and> f_release (the row) = Some version
      then (Inr (f_version (the row), bid), s)
      else (case fx_compile x source bid version device_type of
          None \<Rightarrow> (Inl CompileFailed, s)
        | Some img \<Rightarrow>
            (let (up, d) = upload_artifact c ((fx_art x)\<lparr>ax_read := (\<lambda>_. Some img)\<rparr>)
               \<lparr>up_version = catalog_version device version, up_types = [device_type],
                up_file = ''image'', up_sign_key = None, up_build = Some bid,
                up_release = Some version\<rparr> (fs_db s);
                 s' = s\<lparr>fs_db := d\<rparr> in
             case up of
               Inl e \<Rightarrow> (Inl (UploadFailed e), s')
             | Inr _ \<Rightarrow> (Inr (catalog_version device version, bid), s'))))"

definition real_build_and_deploy ::
  "ctx \<Rightarrow> fix_ext \<Rightarrow> string \<Rightarrow> string \<Rightarrow> string \<Rightarrow> string \<Rightarrow> uuid \<Rightarrow> uuid \<Rightarrow> string \<Rightarrow> string option \<Rightarrow>
     fix_state \<Rightarrow> build_result option \<times> fix_state" where
  "real_build_and_deploy c x device version source author project gid device_type parent s =
     (let (art, s1) = real_artifact c x device version source device_type s in
      case art of
        Inl e \<Rightarrow> (Some (Inl e), s1)
      | Inr (target, bid) \<Rightarrow>
          (let (i, s2) = fresh_fix s1;
               r = \<lparr>v_id = i, v_project = project, v_device = device, v_version = version,
                 v_source = source, v_fault = None, v_build = bid, v_parent = parent,
                 v_author = author, v_created = cx_now c\<rparr> in
           case insert_revision r s2 of
             None \<Rightarrow> (Some (Inl RevisionExists), s2)
           | Some s3 \<Rightarrow> deploy_fix c device version target gid False s3))"

text \<open>\<open>None\<close> as the result means that an exception escaped.\<close>

definition build_and_deploy_source ::
  "ctx \<Rightarrow> fix_ext \<Rightarrow> string \<Rightarrow> string \<Rightarrow> string \<Rightarrow> string \<Rightarrow> string option \<Rightarrow> fix_state \<Rightarrow>
     build_result option \<times> fix_state" where
  "build_and_deploy_source c x device version source author parent s =
     (case device_of device (fs_db s) of
        None \<Rightarrow> (Some (Inl (FixDeviceNotFound device)), s)
      | Some dev \<Rightarrow> (case d_project dev of
          None \<Rightarrow> (Some (Inl (FixNoProject device)), s)
        | Some project \<Rightarrow>
            (let device_type = or_else (Some (strip (or_else (d_type dev) ''esp32''))) ''esp32'' in
             case device_group_id device s of
               None \<Rightarrow> (Some (Inl (FixNoGroup device)), s)
             | Some gid \<Rightarrow>
                 if device_type = qemu_type then 
                   real_build_and_deploy c x device version source author project gid device_type parent s
                 else if \<not> starts_with ''mock-'' device then (Some (Inl (RealHardware device)), s)
                 else
                   (let fault = fx_detect x source;
                        (i, s1) = fresh_fix s;
                        r = \<lparr>v_id = i, v_project = project, v_device = device, v_version = version,
                          v_source = source, v_fault = fault, v_build = fx_hash x source,
                          v_parent = parent, v_author = author, v_created = cx_now c\<rparr> in
                    case insert_revision r s1 of
                      None \<Rightarrow> (Some (Inl RevisionExists), s1)
                    | Some s2 \<Rightarrow>
                        (let art = (fx_art x)\<lparr>ax_read := (\<lambda>_. Some (fx_sketch x version fault))\<rparr>;
                             (up, d3) = upload_artifact_impl c art
                               \<lparr>up_version = catalog_version device version, up_types = [device_type],
                                up_file = ''sketch'', up_sign_key = None,
                                up_build = Some (fx_hash x source), up_release = Some version\<rparr>
                               (starts_with ''mock-'' device) (fs_db s2);
                             s3 = s2\<lparr>fs_db := d3\<rparr> in
                         case up of
                           Inl e \<Rightarrow> (Some (Inl (UploadFailed e)), s3)
                         | Inr _ \<Rightarrow> deploy_fix c device version (catalog_version device version) gid (fault \<noteq> None) s3)))))"

definition run_job :: "ctx \<Rightarrow> fix_ext \<Rightarrow> fix_job \<Rightarrow> fix_state \<Rightarrow> fix_state" where
  "run_job c x job s =
     (let (r, s1) = build_and_deploy_source c x (x_device job) (x_version job) (x_source job)
            (or_else (Some (x_author job)) ''agent'') (x_parent job) s in
      case r of
        None \<Rightarrow> finish_job (x_id job) FError None None False (Some BuildCrashed) s1
      | Some (Inl e) \<Rightarrow> finish_job (x_id job) FError None None False (Some e) s1
      | Some (Inr (dep, version, fault)) \<Rightarrow>
          finish_job (x_id job) FDone (Some dep) (Some version) fault None s1)"

definition fix_sweep :: "ctx \<Rightarrow> fix_ext \<Rightarrow> fix_state \<Rightarrow> bool \<times> fix_state" where
  "fix_sweep c x s =
     (let s1 = snd (reclaim_stale c s); (job, s2) = claim_next c s1 in
      case job of None \<Rightarrow> (False, s2) | Some j \<Rightarrow> (True, run_job c x j s2))"


section \<open>Submitting\<close>

definition device_project_id :: "string \<Rightarrow> fix_state \<Rightarrow> fix_error + uuid" where
  "device_project_id device s = (case device_of device (fs_db s) of
      None \<Rightarrow> Inl (FixDeviceNotFound device)
    | Some dev \<Rightarrow> (case d_project dev of
        None \<Rightarrow> Inl (FixNoProject device)
      | Some project \<Rightarrow>
          if strip (or_else (d_type dev) []) \<noteq> qemu_type \<and> \<not> starts_with ''mock-'' device
          then Inl (RealHardware device) else Inr project))"

definition current_floor :: "ctx \<Rightarrow> fix_ext \<Rightarrow> string \<Rightarrow> fix_state \<Rightarrow> revision option \<times> fix_state" where
  "current_floor c x device s = (case latest_revision device s of
      Some r \<Rightarrow> (Some r, s)
    | None \<Rightarrow>
        (let (ok, s1) = ensure_baseline c x device s in
         if ok then (latest_revision device s1, s1) else (None, s1)))"

definition submit_firmware_fix ::
  "ctx \<Rightarrow> fix_ext \<Rightarrow> string \<Rightarrow> string \<Rightarrow> string \<Rightarrow> fix_state \<Rightarrow> (fix_error + uuid) \<times> fix_state" where
  "submit_firmware_fix c x device version source s =
     (case semver (Some version) of
        None \<Rightarrow> (Inl (BadSemver version), s)
      | Some new \<Rightarrow> (case device_project_id device s of
          Inl e \<Rightarrow> (Inl e, s)
        | Inr project \<Rightarrow>
            (let (current, s1) = current_floor c x device s in
             if (case current of
                   None \<Rightarrow> False
                 | Some r \<Rightarrow> (case semver (Some (v_version r)) of
                     None \<Rightarrow> False | Some cur \<Rightarrow> semver_le new cur))
             then (Inl (NotGreater version (v_version (the current))), s1)
             else
               (let (i, s2) = enqueue c device version source (Some project) ''agent''
                      (map_option v_version current) s1 in
                (Inr i, s2)))))"

record source_info =
  si_device :: string
  si_version :: string
  si_build :: string
  si_lines :: nat
  si_source :: "string option"
  si_fault :: "string option"
  si_author :: string

definition get_firmware_source ::
  "ctx \<Rightarrow> fix_ext \<Rightarrow> string \<Rightarrow> bool \<Rightarrow> fix_state \<Rightarrow> (fix_error + source_info) \<times> fix_state" where
  "get_firmware_source c x device include_source s =
     (let (rev, s1) = current_floor c x device s in
      case rev of
        None \<Rightarrow> (Inl (NoSource device), s1)
      | Some r \<Rightarrow>
          (Inr \<lparr>si_device = device, si_version = v_version r, si_build = v_build r,
             si_lines = length (filter (\<lambda>ch. ch = char_of (10::nat)) (v_source r)) + 1,
             si_source = (if include_source then Some (v_source r) else None),
             si_fault = v_fault r, si_author = or_else (Some (v_author r)) ''seed''\<rparr>, s1))"

text \<open>
  \<open>get_firmware_fix_status\<close>: the deadline in seconds from now, and the polling loop over the
  successive clock readings and database states it sees, one every five seconds. \<open>None\<close>: the loop
  has not returned by the last observation given.
\<close>

definition fix_wait :: "int \<Rightarrow> int" where
  "fix_wait wait_seconds = min (max wait_seconds 0) 90"

fun fix_status_loop ::
  "uuid \<Rightarrow> int \<Rightarrow> (int \<times> fix_state) list \<Rightarrow> (fix_error + fix_job) option" where
  "fix_status_loop i deadline [] = None"
| "fix_status_loop i deadline ((clock, s) # seen) = (case get_job i s of
      None \<Rightarrow> Some (Inl (JobNotFound i))
    | Some j \<Rightarrow>
        if x_status j \<in> {FDone, FError} \<or> deadline \<le> clock then Some (Inr j)
        else fix_status_loop i deadline seen)"


section \<open>The queue: invariant and exact behaviour\<close>

interpretation fixt: keyed_table x_id "upd_key x_id" "look_key x_id"
  by (rule keyed_table_upd_key)

definition fix_ended :: "fix_job \<Rightarrow> bool" where
  "fix_ended j \<longleftrightarrow> x_status j = FDone \<or> x_status j = FError"

definition row_ok :: "nat \<Rightarrow> fix_job \<Rightarrow> bool" where
  "row_ok m j \<longleftrightarrow> x_attempts j \<le> m \<and> (x_status j = FPending \<longrightarrow> x_attempts j < m)"

definition queue_ok :: "nat \<Rightarrow> fix_state \<Rightarrow> bool" where
  "queue_ok m s \<longleftrightarrow> distinct (map x_id (fs_jobs s)) \<and>
     (\<forall>j \<in> set (fs_jobs s). x_id j < db_next (fs_db s) \<and> row_ok m j)"

text \<open>What any step may do to a job: it keeps what was asked, and an ended job never reopens.\<close>

definition job_moves :: "nat \<Rightarrow> fix_job \<Rightarrow> fix_job \<Rightarrow> bool" where
  "job_moves m j j' \<longleftrightarrow> x_id j' = x_id j \<and> x_device j' = x_device j \<and> x_source j' = x_source j \<and>
     x_project j' = x_project j \<and> x_parent j' = x_parent j \<and> x_attempts j \<le> x_attempts j' \<and>
     (fix_ended j \<longrightarrow> fix_ended j') \<and> (row_ok m j \<longrightarrow> row_ok m j')"

definition queue_moves :: "nat \<Rightarrow> fix_state \<Rightarrow> fix_state \<Rightarrow> bool" where
  "queue_moves m s s' \<longleftrightarrow> db_next (fs_db s) \<le> db_next (fs_db s') \<and>
     (\<exists>old new. fs_jobs s' = old @ new \<and> list_all2 (job_moves m) (fs_jobs s) old \<and>
        distinct (map x_id new) \<and>
        (\<forall>j \<in> set new. row_ok m j \<and> db_next (fs_db s) \<le> x_id j \<and> x_id j < db_next (fs_db s')))"

lemma job_moves_refl [simp]: "job_moves m j j"
  by (simp add: job_moves_def)

lemma job_moves_trans: "job_moves m a b \<Longrightarrow> job_moves m b d \<Longrightarrow> job_moves m a d"
  by (auto simp: job_moves_def)

lemma job_moves_ids: "list_all2 (job_moves m) rs old \<Longrightarrow> map x_id old = map x_id rs"
  by (induction rule: list_all2_induct) (auto simp: job_moves_def)

lemma job_moves_from: "list_all2 (job_moves m) rs old \<Longrightarrow> j \<in> set old \<Longrightarrow> \<exists>k \<in> set rs. job_moves m k j"
  by (induction rule: list_all2_induct) auto

lemma queue_moves_ok:
  assumes "queue_moves m s s'" and "queue_ok m s"
  shows "queue_ok m s'"
proof -
  from assms(1) obtain old new where r: "fs_jobs s' = old @ new"
    "list_all2 (job_moves m) (fs_jobs s) old" "distinct (map x_id new)"
    "\<forall>j \<in> set new. row_ok m j \<and> db_next (fs_db s) \<le> x_id j \<and> x_id j < db_next (fs_db s')"
    "db_next (fs_db s) \<le> db_next (fs_db s')"
    unfolding queue_moves_def by blast
  have ids: "map x_id old = map x_id (fs_jobs s)" using r(2) by (rule job_moves_ids)
  then have sids: "x_id ` set old = x_id ` set (fs_jobs s)" by (metis list.set_map)
  have bound: "x_id j < db_next (fs_db s)" if "j \<in> set old" for j
  proof -
    have "x_id j \<in> x_id ` set (fs_jobs s)" using that sids by blast
    then show ?thesis using assms(2) unfolding queue_ok_def by auto
  qed
  have rows: "row_ok m j" if j: "j \<in> set old" for j
  proof -
    obtain q where "q \<in> set (fs_jobs s)" "job_moves m q j"
      using job_moves_from [OF r(2) j] by blast
    then show ?thesis using assms(2) by (auto simp: queue_ok_def job_moves_def)
  qed
  have "x_id j \<noteq> x_id k" if "j \<in> set old" "k \<in> set new" for j k
    using bound [OF that(1)] r(4) that(2) by fastforce
  then have "x_id ` set old \<inter> x_id ` set new = {}" by blast
  moreover have "distinct (map x_id old)" using ids assms(2) by (simp add: queue_ok_def)
  ultimately have d: "distinct (map x_id (fs_jobs s'))" using r(1,3) by simp
  have "x_id j < db_next (fs_db s') \<and> row_ok m j" if "j \<in> set old \<or> j \<in> set new" for j
    using that
  proof
    assume j: "j \<in> set old"
    show ?thesis using bound [OF j] rows [OF j] r(5) by linarith
  next
    assume "j \<in> set new"
    then show ?thesis using r(4) by blast
  qed
  then show ?thesis using d r(1) by (simp add: queue_ok_def)
qed

lemma queue_moves_refl [simp]: "queue_moves m s s"
  unfolding queue_moves_def by (intro conjI exI [of _ "fs_jobs s"] exI [of _ "[]"]) (auto simp: list_all2_refl)

lemma queue_moves_trans:
  assumes "queue_moves m s t" and "queue_moves m t u"
  shows "queue_moves m s u"
proof -
  from assms(1) obtain o1 n1 where a: "fs_jobs t = o1 @ n1" "list_all2 (job_moves m) (fs_jobs s) o1"
    "distinct (map x_id n1)" "db_next (fs_db s) \<le> db_next (fs_db t)"
    "\<forall>j \<in> set n1. row_ok m j \<and> db_next (fs_db s) \<le> x_id j \<and> x_id j < db_next (fs_db t)"
    unfolding queue_moves_def by blast
  from assms(2) obtain o2 n2 where b: "fs_jobs u = o2 @ n2" "list_all2 (job_moves m) (fs_jobs t) o2"
    "distinct (map x_id n2)" "db_next (fs_db t) \<le> db_next (fs_db u)"
    "\<forall>j \<in> set n2. row_ok m j \<and> db_next (fs_db t) \<le> x_id j \<and> x_id j < db_next (fs_db u)"
    unfolding queue_moves_def by blast
  from b(2) a(1) obtain p q where pq: "o2 = p @ q" "list_all2 (job_moves m) o1 p" "list_all2 (job_moves m) n1 q"
    by (auto simp: list_all2_append1)
  have olds: "list_all2 (job_moves m) (fs_jobs s) p"
    using list_all2_trans [OF _ a(2) pq(2)] job_moves_trans by blast
  have qids: "map x_id q = map x_id n1" using pq(3) by (rule job_moves_ids)
  have qrow: "row_ok m j \<and> db_next (fs_db s) \<le> x_id j \<and> x_id j < db_next (fs_db t)" if j: "j \<in> set q" for j
  proof -
    obtain k where k: "k \<in> set n1" "job_moves m k j"
      using job_moves_from [OF pq(3) j] by blast
    have "row_ok m k \<and> db_next (fs_db s) \<le> x_id k \<and> x_id k < db_next (fs_db t)" using a(5) k(1) by blast
    then show ?thesis using k(2) by (simp add: job_moves_def)
  qed
  have "x_id j \<noteq> x_id k" if "j \<in> set q" "k \<in> set n2" for j k
    using qrow [OF that(1)] b(5) that(2) by fastforce
  then have "x_id ` set q \<inter> x_id ` set n2 = {}" by blast
  moreover have "distinct (map x_id q)" using qids a(3) by simp
  ultimately have news: "distinct (map x_id (q @ n2))" using b(3) by simp
  have "row_ok m j \<and> db_next (fs_db s) \<le> x_id j \<and> x_id j < db_next (fs_db u)" if "j \<in> set (q @ n2)" for j
  proof (cases "j \<in> set q")
    case True
    then show ?thesis using qrow [OF True] b(4) by linarith
  next
    case False
    then have "row_ok m j \<and> db_next (fs_db t) \<le> x_id j \<and> x_id j < db_next (fs_db u)" using that b(5) by simp
    then show ?thesis using a(4) by linarith
  qed
  then show ?thesis
    unfolding queue_moves_def using a(4) b(1,4) pq(1) olds news
    by (intro conjI exI [of _ p] exI [of _ "q @ n2"]) auto
qed

text \<open>Steps that rewrite rows in place, and steps that leave the queue alone.\<close>

lemma queue_moves_map:
  assumes "fs_jobs s' = map f (fs_jobs s)" and "\<And>j. j \<in> set (fs_jobs s) \<Longrightarrow> job_moves m j (f j)"
    and "db_next (fs_db s) \<le> db_next (fs_db s')"
  shows "queue_moves m s s'"
  unfolding queue_moves_def using assms
  by (intro conjI exI [of _ "map f (fs_jobs s)"] exI [of _ "[]"]) (auto simp: list_all2_conv_all_nth)

lemma queue_moves_same:
  assumes "fs_jobs s' = fs_jobs s" and "db_next (fs_db s) \<le> db_next (fs_db s')"
  shows "queue_moves m s s'"
  using assms by (intro queue_moves_map [where f = id]) simp_all

lemma queue_moves_enqueue:
  assumes "0 < m"
  shows "queue_moves m s (snd (enqueue c device version source project author parent s))"
proof -
  obtain row where row: "fs_jobs (snd (enqueue c device version source project author parent s)) = fs_jobs s @ [row]"
    "x_id row = db_next (fs_db s)" "x_attempts row = 0"
    by (simp add: enqueue_def fresh_uuid_def Let_def)
  have "db_next (fs_db (snd (enqueue c device version source project author parent s))) = Suc (db_next (fs_db s))"
    by (simp add: enqueue_def fresh_uuid_def Let_def)
  then show ?thesis using assms row unfolding queue_moves_def
    by (intro conjI exI [of _ "fs_jobs s"] exI [of _ "[row]"]) (auto simp: list_all2_refl row_ok_def)
qed

lemma get_in_queue:
  assumes "distinct (map x_id (fs_jobs s))" and "j \<in> set (fs_jobs s)"
  shows "get_job (x_id j) s = Some j"
proof -
  have "find (\<lambda>r. x_id r = x_id j) rs = Some j" if "distinct (map x_id rs)" "j \<in> set rs" for rs
    using that by (induction rs) auto
  then show ?thesis using assms by (simp add: get_job_def look_key_def)
qed

lemma same_id_same_job:
  "distinct (map x_id rs) \<Longrightarrow> j \<in> set rs \<Longrightarrow> k \<in> set rs \<Longrightarrow> x_id j = x_id k \<Longrightarrow> j = k"
  by (metis (no_types, lifting) distinct_map inj_onD)

text \<open>
  One update per selected row, each guarded by the row's state, is the update of all of them at once.
\<close>

lemma fold_update_rows:
  assumes "\<And>x r. key (g x r) = key r" and "distinct (map key xs)"
  shows "fold (\<lambda>x. update_where (\<lambda>r. key r = key x \<and> P r) (g x)) xs rs =
    map (\<lambda>r. case find (\<lambda>x. key x = key r) xs of None \<Rightarrow> r | Some x \<Rightarrow> if P r then g x r else r) rs"
  using assms(2)
proof (induction xs arbitrary: rs)
  case Nil
  then show ?case by simp
next
  case (Cons x xs)
  have none: "find (\<lambda>y. key y = key x) xs = None"
    using Cons.prems unfolding find_None_iff by (metis distinct.simps(2) image_eqI list.set_map list.simps(9))
  have "fold (\<lambda>x. update_where (\<lambda>r. key r = key x \<and> P r) (g x)) (x # xs) rs =
      map (\<lambda>r. case find (\<lambda>x. key x = key r) xs of None \<Rightarrow> r | Some x \<Rightarrow> if P r then g x r else r)
        (update_where (\<lambda>r. key r = key x \<and> P r) (g x) rs)"
    using Cons by simp
  also have "\<dots> = map (\<lambda>r. case find (\<lambda>x. key x = key r) (x # xs) of None \<Rightarrow> r | Some x \<Rightarrow> if P r then g x r else r) rs"
    using none by (induction rs) (auto simp: assms(1) split: option.split)
  finally show ?case .
qed

lemma find_key_filter:
  "distinct (map key rs) \<Longrightarrow> r \<in> set rs \<Longrightarrow>
    find (\<lambda>x. key x = key r) (filter Q rs) = (if Q r then Some r else None)"
proof (induction rs)
  case (Cons a rs)
  have "find (\<lambda>x. key x = key a) (filter Q rs) = None"
    using Cons.prems(1) unfolding find_None_iff by (auto simp: image_iff)
  with Cons show ?case by auto
qed simp

definition stale_job :: "ctx \<Rightarrow> fix_job \<Rightarrow> bool" where
  "stale_job c j \<longleftrightarrow> x_status j = FRunning \<and> x_started j < cx_now c - seconds (s_fix_stale (cx_set c))"

lemma reclaim_rows:
  assumes "distinct (map x_id (fs_jobs s))"
  shows "reclaim_stale c s = (length (filter (stale_job c) (fs_jobs s)),
    s\<lparr>fs_jobs := map (\<lambda>j. if stale_job c j then reclaim_row c j else j) (fs_jobs s)\<rparr>)"
proof -
  let ?g = "\<lambda>job. if x_attempts job \<ge> s_fix_max (cx_set c)
            then (\<lambda>j. j\<lparr>x_status := FError, x_error := Some (Exhausted (s_fix_max (cx_set c)))\<rparr>)
            else (\<lambda>j. j\<lparr>x_status := FPending\<rparr>)"
  let ?st = "filter (stale_job c) (fs_jobs s)"
  have lift: "fold (\<lambda>job t. t\<lparr>fs_jobs := update_where (\<lambda>j. x_id j = x_id job \<and> x_status j = FRunning)
      (?g job) (fs_jobs t)\<rparr>) xs t = t\<lparr>fs_jobs := fold (\<lambda>job. update_where
      (\<lambda>j. x_id j = x_id job \<and> x_status j = FRunning) (?g job)) xs (fs_jobs t)\<rparr>" for xs and t :: fix_state
    by (induction xs arbitrary: t) simp_all
  have "distinct (map x_id ?st)" using assms by (rule distinct_map_filter)
  then have "fold (\<lambda>job. update_where (\<lambda>j. x_id j = x_id job \<and> x_status j = FRunning) (?g job)) ?st (fs_jobs s) =
      map (\<lambda>r. case find (\<lambda>x. x_id x = x_id r) ?st of None \<Rightarrow> r
        | Some x \<Rightarrow> if x_status r = FRunning then ?g x r else r) (fs_jobs s)"
    by (intro fold_update_rows) simp_all
  also have "\<dots> = map (\<lambda>j. if stale_job c j then reclaim_row c j else j) (fs_jobs s)"
    using assms by (intro map_cong refl) (simp add: find_key_filter reclaim_row_def stale_job_def)
  finally show ?thesis
    by (simp add: reclaim_stale_def Let_def lift stale_job_def [abs_def])
qed

lemma reclaim_moves:
  assumes "queue_ok m s" and "s_fix_max (cx_set c) = m"
  shows "queue_moves m s (snd (reclaim_stale c s))"
proof -
  have d: "distinct (map x_id (fs_jobs s))" using assms(1) by (simp add: queue_ok_def)
  show ?thesis unfolding reclaim_rows [OF d]
  proof (rule queue_moves_map)
    fix j assume "j \<in> set (fs_jobs s)"
    then show "job_moves m j (if stale_job c j then reclaim_row c j else j)"
      using assms by (auto simp: job_moves_def reclaim_row_def stale_job_def fix_ended_def row_ok_def)
  qed simp_all
qed

lemma oldest_pending_SomeD:
  assumes "oldest_pending s = Some job"
  shows "job \<in> set (fs_jobs s) \<and> x_status job = FPending \<and>
    (\<forall>j \<in> set (fs_jobs s). x_status j = FPending \<longrightarrow> x_created job \<le> x_created j)"
proof -
  let ?q = "filter (\<lambda>j. x_status j = FPending) (sort_key x_created (fs_jobs s))"
  from assms obtain rest where r: "?q = job # rest"
    unfolding oldest_pending_def by (cases ?q) auto
  have "sorted (map x_created ?q)" by (rule sorted_filter) simp
  then have first: "\<forall>j \<in> set ?q. x_created job \<le> x_created j" using r by simp
  have "job \<in> set ?q" using r by simp
  then show ?thesis using first by auto
qed

lemma oldest_pending_None: "oldest_pending s = None \<longleftrightarrow> (\<forall>j \<in> set (fs_jobs s). x_status j \<noteq> FPending)"
  by (auto simp: oldest_pending_def filter_empty_conv)

text \<open>What a claim writes, on the row of the claimed job.\<close>

definition claimed :: "ctx \<Rightarrow> fix_job \<Rightarrow> fix_job" where
  "claimed c j = j\<lparr>x_status := FRunning, x_started := cx_now c, x_attempts := x_attempts j + 1\<rparr>"

lemma claim_rows:
  assumes "distinct (map x_id (fs_jobs s))" and "oldest_pending s = Some job"
  shows "claim_next c s = (Some (claimed c job),
    s\<lparr>fs_jobs := map (\<lambda>j. if j = job then claimed c j else j) (fs_jobs s)\<rparr>)"
proof -
  have job: "job \<in> set (fs_jobs s)" "x_status job = FPending"
    using oldest_pending_SomeD [OF assms(2)] by auto
  let ?s' = "s\<lparr>fs_jobs := map (\<lambda>j. if j = job then claimed c j else j) (fs_jobs s)\<rparr>"
  have hit: "list_ex (\<lambda>j. x_id j = x_id job \<and> x_status j = FPending) (fs_jobs s)"
    using job by (auto simp: list_ex_iff)
  have rows: "update_where (\<lambda>j. x_id j = x_id job \<and> x_status j = FPending)
      (\<lambda>j. j\<lparr>x_status := FRunning, x_started := cx_now c, x_attempts := x_attempts job + 1\<rparr>) (fs_jobs s) =
      map (\<lambda>j. if j = job then claimed c j else j) (fs_jobs s)"
    unfolding update_where_def
    using job same_id_same_job [OF assms(1) _ job(1)]
    by (intro map_cong refl) (auto simp: claimed_def)
  have "map x_id (fs_jobs ?s') = map x_id (fs_jobs s)" by (simp add: claimed_def)
  then have "distinct (map x_id (fs_jobs ?s'))" using assms(1) by (simp only:)
  moreover have "claimed c job \<in> set (fs_jobs ?s')" using job(1) by auto
  ultimately have "get_job (x_id (claimed c job)) ?s' = Some (claimed c job)" by (rule get_in_queue)
  then have "get_job (x_id job) ?s' = Some (claimed c job)" by (simp add: claimed_def)
  then show ?thesis using hit rows assms(2) by (simp add: claim_next_def Let_def)
qed

lemma claim_none: "oldest_pending s = None \<Longrightarrow> claim_next c s = (None, s)"
  by (simp add: claim_next_def)

lemma claim_moves:
  assumes "queue_ok m s"
  shows "queue_moves m s (snd (claim_next c s))"
proof (cases "oldest_pending s")
  case None
  then show ?thesis by (simp add: claim_none)
next
  case (Some job)
  have d: "distinct (map x_id (fs_jobs s))" using assms by (simp add: queue_ok_def)
  have job: "x_status job = FPending" "row_ok m job"
    using oldest_pending_SomeD [OF Some] assms by (auto simp: queue_ok_def)
  show ?thesis unfolding claim_rows [OF d Some] snd_conv
    by (rule queue_moves_map [where f = "\<lambda>j. if j = job then claimed c j else j"])
      (use job in \<open>auto simp: job_moves_def claimed_def fix_ended_def row_ok_def\<close>)
qed

lemma finish_rows: "fs_jobs (finish_job i st dep v fault err s) =
    map (\<lambda>j. if x_id j = i then j\<lparr>x_status := st, x_fault := fault, x_error := err,
               x_dep := (case dep of None \<Rightarrow> x_dep j | Some d \<Rightarrow> Some d),
               x_version := (case v of None \<Rightarrow> x_version j | Some v \<Rightarrow> v)\<rparr> else j) (fs_jobs s)"
  by (simp add: finish_job_def upd_key_def update_where_def)

lemma claimed_simps [simp]:
  "x_id (claimed c j) = x_id j" "x_dep (claimed c j) = x_dep j" "x_version (claimed c j) = x_version j"
  by (simp_all add: claimed_def)

lemma finish_claimed:
  assumes "distinct (map x_id rows)" and "job \<in> set rows"
    and "fs_jobs t = map (\<lambda>j. if j = job then claimed c j else j) rows"
  shows "fs_jobs (finish_job (x_id job) st dep v fault e t) = map (\<lambda>j. if j = job then
        (claimed c job)\<lparr>x_status := st, x_fault := fault, x_error := e,
          x_dep := (case dep of None \<Rightarrow> x_dep job | Some d \<Rightarrow> Some d),
          x_version := (case v of None \<Rightarrow> x_version job | Some v \<Rightarrow> v)\<rparr> else j) rows"
  unfolding finish_rows assms(3) map_map o_def
proof (rule map_cong [OF refl])
  fix j assume "j \<in> set rows"
  then have "x_id j = x_id job \<longleftrightarrow> j = job" using same_id_same_job [OF assms(1) _ assms(2)] by blast
  then show "(if x_id (if j = job then claimed c j else j) = x_id job
      then (if j = job then claimed c j else j)\<lparr>x_status := st, x_fault := fault, x_error := e,
        x_dep := (case dep of None \<Rightarrow> x_dep (if j = job then claimed c j else j) | Some d \<Rightarrow> Some d),
        x_version := (case v of None \<Rightarrow> x_version (if j = job then claimed c j else j) | Some v \<Rightarrow> v)\<rparr>
      else (if j = job then claimed c j else j)) =
    (if j = job then (claimed c job)\<lparr>x_status := st, x_fault := fault, x_error := e,
        x_dep := (case dep of None \<Rightarrow> x_dep job | Some d \<Rightarrow> Some d),
        x_version := (case v of None \<Rightarrow> x_version job | Some v \<Rightarrow> v)\<rparr> else j)"
    by (cases "j = job") (simp_all split: option.split)
qed

lemma finish_moves:
  assumes "st = FDone \<or> st = FError"
  shows "queue_moves m s (finish_job i st dep v fault err s)"
  by (rule queue_moves_map [OF finish_rows])
    (use assms in \<open>auto simp: job_moves_def fix_ended_def row_ok_def finish_job_def\<close>)


section \<open>Builds and revisions\<close>

text \<open>Revisions are only appended, one per device and version.\<close>

definition revs_ok :: "fix_state \<Rightarrow> bool" where
  "revs_ok s \<longleftrightarrow> distinct (map (\<lambda>r. (v_device r, v_version r)) (fs_revs s))"

definition builds :: "fix_state \<Rightarrow> fix_state \<Rightarrow> bool" where
  "builds s s' \<longleftrightarrow> fs_jobs s' = fs_jobs s \<and> grows (fs_db s) (fs_db s') \<and>
     (\<exists>new. fs_revs s' = fs_revs s @ new) \<and> (revs_ok s \<longrightarrow> revs_ok s')"

lemma builds_refl [simp]: "builds s s"
  by (simp add: builds_def)

lemma builds_trans: "builds s t \<Longrightarrow> builds t u \<Longrightarrow> builds s u"
  unfolding builds_def by (metis append_assoc grows_trans)

lemma builds_db: "grows (fs_db s) d \<Longrightarrow> builds s (s\<lparr>fs_db := d\<rparr>)"
  by (simp add: builds_def revs_ok_def)

lemma builds_fresh: "fresh_fix s = (i, s') \<Longrightarrow> builds s s'"
  by (auto simp: fresh_fix_def fresh_uuid_def intro!: builds_db grows_same)

lemma insert_revision_Some:
  assumes "insert_revision r s = Some s'"
  shows "s' = s\<lparr>fs_revs := fs_revs s @ [r]\<rparr>"
    and "\<forall>q \<in> set (fs_revs s). \<not> (v_device q = v_device r \<and> v_version q = v_version r)"
  using assms by (auto simp: insert_revision_def list_ex_iff split: if_splits)

lemma builds_insert:
  assumes "insert_revision r s = Some s'"
  shows "builds s s'"
  using insert_revision_Some [OF assms] by (auto simp: builds_def revs_ok_def)

lemma builds_upload: "builds s (s\<lparr>fs_db := snd (upload_artifact_impl c e p sy (fs_db s))\<rparr>)"
proof -
  have "db_deps (snd (upload_artifact_impl c e p sy d)) = db_deps d"
    "db_jobs (snd (upload_artifact_impl c e p sy d)) = db_jobs d"
    "db_next (snd (upload_artifact_impl c e p sy d)) = db_next d" for d
    by (auto simp: upload_artifact_impl_def upsert_fw_def Let_def split: option.splits sum.splits)
  then show ?thesis by (intro builds_db grows_same) simp_all
qed

lemma builds_deploy: "builds s (snd (deploy_fix c device v t g f s))"
proof -
  have "grows (fs_db s) (fs_db (snd (deploy_fix c device v t g f s)))"
  proof -
    let ?p = "\<lparr>cp_name = device @ '' fw '' @ v, cp_target = t, cp_group = g, cp_start = None, cp_max = 10,
          cp_retries = 3, cp_phases = None, cp_threshold = fl (5 / 100), cp_soak = 0, cp_confirm = False\<rparr>"
    obtain r d1 where cr: "create_deployment c ?p (fs_db s) = (r, d1)" by (metis prod.collapse)
    have g1: "grows (fs_db s) d1" using grows_create [of "fs_db s" c ?p] unfolding cr snd_conv .
    show ?thesis
    proof (cases r)
      case (Ok info)
      obtain q d2 where st: "start_deployment c (i_id info) False d1 = (q, d2)" by (metis prod.collapse)
      have "grows d1 d2" using grows_start [of d1 c "i_id info" False] st by simp
      then have "grows (fs_db s) d2" using g1 grows_trans by blast
      then show ?thesis unfolding deploy_fix_def cr Ok prod.case reply.case Let_def st
        by (cases q) (simp_all add: st)
    qed (unfold deploy_fix_def cr prod.case, simp_all add: g1)
  qed
  moreover have "fs_jobs (snd (deploy_fix c device v t g f s)) = fs_jobs s"
    "fs_revs (snd (deploy_fix c device v t g f s)) = fs_revs s"
    by (auto simp: deploy_fix_def Let_def split: reply.split prod.split)
  ultimately show ?thesis by (simp add: builds_def revs_ok_def)
qed

lemma builds_real_artifact: "builds s (snd (real_artifact c x device v src ty s))"
proof -
  obtain bid row where p: "pick_build x v src s = (bid, row)" by (metis prod.collapse)
  have up: "builds s (s\<lparr>fs_db := snd (upload_artifact c e q (fs_db s))\<rparr>)" for e q
    by (simp add: upload_artifact_def builds_upload)
  show ?thesis
    unfolding real_artifact_def p
    by (auto simp: Let_def up split: option.split prod.split sum.split) (metis up snd_conv)+
qed

lemma builds_real: "builds s (snd (real_build_and_deploy c x device v src au pr gid ty par s))"
proof -
  obtain art s1 where a: "real_artifact c x device v src ty s = (art, s1)" by (metis prod.collapse)
  have b1: "builds s s1" using builds_real_artifact [of s c x device v src ty] unfolding a snd_conv .
  obtain i s2 where f: "fresh_fix s1 = (i, s2)" by (metis prod.collapse)
  have b2: "builds s s2" using builds_trans [OF b1 builds_fresh [OF f]] .
  show ?thesis
  proof (cases art)
    case (Inl e)
    then show ?thesis using b1 by (simp add: real_build_and_deploy_def a)
  next
    case (Inr tb)
    obtain t bid where tb: "tb = (t, bid)" by (cases tb)
    have "builds s s3" if "insert_revision r s2 = Some s3" for r s3
      using builds_trans [OF b2 builds_insert [OF that]] .
    then show ?thesis using b2
      by (auto simp: real_build_and_deploy_def a f Inr tb split: option.split
          intro: builds_trans [OF _ builds_deploy])
  qed
qed

lemma builds_build: "builds s (snd (build_and_deploy_source c x device v src au par s))"
proof (cases "device_of device (fs_db s)")
  case None
  then show ?thesis by (simp add: build_and_deploy_source_def)
next
  case (Some dev)
  obtain i s1 where f: "fresh_fix s = (i, s1)" by (metis prod.collapse)
  have b1: "builds s s1" using builds_fresh [OF f] .
  have ins: "builds s s3" if "insert_revision r s1 = Some s3" for r s3
    using builds_trans [OF b1 builds_insert [OF that]] .
  have up: "builds s (t\<lparr>fs_db := d\<rparr>)"
    if "insert_revision r s1 = Some t" "upload_artifact_impl c e p sy (fs_db t) = (u, d)" for r t e p sy u d
    using builds_trans [OF ins [OF that(1)] builds_upload [of t c e p sy]] that(2) by simp
  have dep: "builds s (snd (deploy_fix c device v t g fl (u\<lparr>fs_db := d\<rparr>)))"
    if "insert_revision r s1 = Some u" "upload_artifact_impl c e p sy (fs_db u) = (w, d)" for r u e p sy w d t g fl
    using builds_trans [OF up [OF that] builds_deploy] .
  show ?thesis
    unfolding build_and_deploy_source_def Some f prod.case Let_def
    by (auto simp: builds_real b1 split: option.split prod.split sum.split dest: up dep)
qed

lemma builds_baseline: "builds s (snd (ensure_baseline c x device s))"
proof -
  obtain i s1 where f: "fresh_fix s = (i, s1)" by (metis prod.collapse)
  have b1: "builds s s1" using builds_fresh [OF f] .
  show ?thesis
    unfolding ensure_baseline_def f prod.case Let_def
    by (auto simp: b1 split: option.split intro: builds_trans [OF b1 builds_insert])
qed

lemma builds_floor: "builds s (snd (current_floor c x device s))"
  using builds_baseline [of s c x device]
  by (auto simp: current_floor_def Let_def split: option.split prod.split)

lemma builds_register: "builds s (snd (register_source c x device v src au par s))"
proof -
  obtain i s1 where f: "fresh_fix s = (i, s1)" by (metis prod.collapse)
  have b1: "builds s s1" using builds_fresh [OF f] .
  show ?thesis
    unfolding register_source_def f prod.case Let_def
    by (auto simp: b1 split: option.split intro: builds_trans [OF b1 builds_insert])
qed

lemma builds_moves: "builds s s' \<Longrightarrow> queue_moves m s s'"
  by (rule queue_moves_same) (simp_all add: builds_def grows_def)


section \<open>Runs of the queue\<close>

text \<open>
  Submitters, the sweeps of any number of workers and everything else interleave: a worker's claim,
  build and finish are separate steps, and a finish may arrive at any time, long after the job was
  reclaimed. \<open>other\<close> is the rest of nff-ota, which does not touch the queue.
\<close>

inductive queue_step :: "nat \<Rightarrow> fix_state \<Rightarrow> fix_state \<Rightarrow> bool" for m where
  submit: "queue_step m s (snd (submit_firmware_fix c x device version source s))"
| reclaim: "s_fix_max (cx_set c) = m \<Longrightarrow> queue_step m s (snd (reclaim_stale c s))"
| claim: "queue_step m s (snd (claim_next c s))"
| build: "queue_step m s (snd (build_and_deploy_source c x device version source author parent s))"
| finish: "st = FDone \<or> st = FError \<Longrightarrow> queue_step m s (finish_job i st dep v fault err s)"
| seed: "queue_step m s (snd (register_source c x device version source author parent s))"
| read: "queue_step m s (snd (get_firmware_source c x device inc s))"
| other: "grows (fs_db s) d \<Longrightarrow> queue_step m s (s\<lparr>fs_db := d\<rparr>)"

inductive_cases queue_stepE: "queue_step m s s'"

lemma submit_shape:
  "(\<exists>s1 e. builds s s1 \<and> submit_firmware_fix c x device version source s = (Inl e, s1)) \<or>
   (\<exists>s1 i s2 project par. builds s s1 \<and> submit_firmware_fix c x device version source s = (Inr i, s2) \<and>
      (i, s2) = enqueue c device version source (Some project) ''agent'' par s1)"
proof (cases "semver (Some version)")
  case None
  then have "submit_firmware_fix c x device version source s = (Inl (BadSemver version), s)"
    by (simp add: submit_firmware_fix_def)
  then show ?thesis using builds_refl by blast
next
  case (Some new)
  show ?thesis
  proof (cases "device_project_id device s")
    case (Inl e)
    then have "submit_firmware_fix c x device version source s = (Inl e, s)"
      using Some by (simp add: submit_firmware_fix_def)
    then show ?thesis using builds_refl by blast
  next
    case (Inr project)
    obtain cur s1 where f: "current_floor c x device s = (cur, s1)" by (metis prod.collapse)
    have b: "builds s s1" using builds_floor [of s c x device] unfolding f snd_conv .
    obtain i s2 where e: "enqueue c device version source (Some project) ''agent'' (map_option v_version cur) s1 = (i, s2)"
      by (metis prod.collapse)
    have "submit_firmware_fix c x device version source s = (Inr i, s2) \<or>
        (\<exists>e. submit_firmware_fix c x device version source s = (Inl e, s1))"
      unfolding submit_firmware_fix_def Some Inr f option.case sum.case prod.case e Let_def
      by (simp split: if_split)
    then show ?thesis using b e by metis
  qed
qed

lemma submit_moves:
  assumes "0 < m"
  shows "queue_moves m s (snd (submit_firmware_fix c x device version source s))"
  using submit_shape [of s c x device version source]
proof
  assume "\<exists>s1 e. builds s s1 \<and> submit_firmware_fix c x device version source s = (Inl e, s1)"
  then show ?thesis by (auto intro: builds_moves)
next
  assume "\<exists>s1 i s2 project par. builds s s1 \<and> submit_firmware_fix c x device version source s = (Inr i, s2) \<and>
      (i, s2) = enqueue c device version source (Some project) ''agent'' par s1"
  then obtain s1 i s2 project par where b: "builds s s1"
    "submit_firmware_fix c x device version source s = (Inr i, s2)"
    "(i, s2) = enqueue c device version source (Some project) ''agent'' par s1" by blast
  have "queue_moves m s1 s2"
    using queue_moves_enqueue [OF assms, of s1 c device version source "Some project" "''agent''" par]
    unfolding b(3) [symmetric] snd_conv .
  then show ?thesis unfolding b(2) snd_conv by (rule queue_moves_trans [OF builds_moves [OF b(1)]])
qed

lemma read_builds: "builds s (snd (get_firmware_source c x device inc s))"
  using builds_floor [of s c x device]
  by (auto simp: get_firmware_source_def Let_def split: option.split prod.split)

lemma step_moves:
  assumes "queue_step m s s'" and "queue_ok m s" and "0 < m"
  shows "queue_moves m s s'"
  using assms(1)
proof cases
  case (other d)
  then show ?thesis by (auto intro: builds_moves builds_db)
qed (use assms in \<open>auto intro: submit_moves reclaim_moves claim_moves builds_moves builds_build
    finish_moves builds_register read_builds\<close>)

lemma steps_moves:
  assumes "(queue_step m)\<^sup>*\<^sup>* s s'" and "queue_ok m s" and "0 < m"
  shows "queue_moves m s s'"
  using assms(1)
proof (induction rule: rtranclp_induct)
  case base
  then show ?case by simp
next
  case (step t u)
  have "queue_ok m t" using queue_moves_ok [OF step.IH assms(2)] .
  then show ?case using queue_moves_trans [OF step.IH step_moves [OF step.hyps(2) _ assms(3)]] by simp
qed

lemma reclaim_revs: "fs_revs (snd (reclaim_stale c s)) = fs_revs s"
proof -
  have "fs_revs (fold (\<lambda>job t. t\<lparr>fs_jobs := h job (fs_jobs t)\<rparr>) xs u) = fs_revs u"
    for h and xs :: "fix_job list" and u :: fix_state
    by (induction xs arbitrary: u) simp_all
  then show ?thesis unfolding reclaim_stale_def Let_def snd_conv .
qed

lemma step_revs:
  assumes "queue_step m s s'"
  shows "(\<exists>new. fs_revs s' = fs_revs s @ new) \<and> (revs_ok s \<longrightarrow> revs_ok s')"
  using assms
proof cases
  case (submit c x device version source)
  then show ?thesis
    using submit_shape [of s c x device version source]
    by (auto simp: builds_def enqueue_def revs_ok_def Let_def fresh_uuid_def)
next
  case (reclaim c)
  then show ?thesis by (simp add: reclaim_revs revs_ok_def)
next
  case (claim c)
  then show ?thesis by (simp add: claim_next_def Let_def revs_ok_def split: option.split)
next
  case (finish st i dep v fault err)
  then show ?thesis by (simp add: finish_job_def revs_ok_def)
next
  case (other d)
  then show ?thesis by (simp add: revs_ok_def)
qed (use builds_build builds_register read_builds in \<open>fastforce simp: builds_def\<close>)+

lemma steps_revs:
  assumes "(queue_step m)\<^sup>*\<^sup>* s s'"
  shows "(\<exists>new. fs_revs s' = fs_revs s @ new) \<and> (revs_ok s \<longrightarrow> revs_ok s')"
  using assms
proof (induction rule: rtranclp_induct)
  case (step t u)
  then show ?case using step_revs [OF step.hyps(2)] by (metis append_assoc)
qed simp

lemma get_job_moves:
  assumes "queue_moves m s s'" and "get_job i s = Some j"
  shows "\<exists>j'. get_job i s' = Some j' \<and> job_moves m j j'"
proof -
  from assms(1) obtain old new where r: "fs_jobs s' = old @ new" "list_all2 (job_moves m) (fs_jobs s) old"
    unfolding queue_moves_def by blast
  have "find (\<lambda>r. x_id r = i) rs = Some j \<Longrightarrow> \<exists>j'. find (\<lambda>r. x_id r = i) (old @ new) = Some j' \<and> job_moves m j j'"
    if "list_all2 (job_moves m) rs old" for rs
    using that by (induction rule: list_all2_induct) (auto simp: job_moves_def split: if_splits)
  then show ?thesis using r assms(2) by (simp add: get_job_def look_key_def)
qed



section \<open>A sample queue\<close>

text \<open>One L1 mock, \<open>mock-1\<close>, in the group of the sample installation, at source revision 1.0.0.\<close>

definition sample_fix_ext :: fix_ext where
  "sample_fix_ext = \<lparr>fx_detect = (\<lambda>src. if has_infix ''BUG'' src then Some ''null_deref'' else None),
     fx_hash = (\<lambda>src. ''h'' @ src), fx_sketch = (\<lambda>_ _. [1, 2]), fx_read_repo = Some ''int main'',
     fx_compile = (\<lambda>_ _ _ _. None), fx_art = sample_art_ext\<rparr>"

definition sample_revision :: "string \<Rightarrow> revision" where
  "sample_revision v = \<lparr>v_id = 90, v_project = 1, v_device = ''mock-1'', v_version = v,
     v_source = ''BUG'', v_fault = Some ''null_deref'', v_build = ''hBUG'', v_parent = None,
     v_author = ''seed'', v_created = 5\<rparr>"

definition sample_fix_state :: fix_state where
  "sample_fix_state = \<lparr>fs_db = (sample_db JSuccess JSuccess JSuccess)
       \<lparr>db_devices := [sample_device ''mock-1''], db_members := [(10, ''mock-1'')]\<rparr>,
     fs_jobs = [], fs_revs = [sample_revision ''1.0.0'']\<rparr>"

definition ctx_at :: "int \<Rightarrow> ctx" where
  "ctx_at t = sample_ctx\<lparr>cx_now := cx_now sample_ctx + t * 1000000\<rparr>"

definition submit_sample :: "int \<Rightarrow> string \<Rightarrow> fix_state \<Rightarrow> (fix_error + uuid) \<times> fix_state" where
  "submit_sample t v s = submit_firmware_fix (ctx_at t) sample_fix_ext ''mock-1'' v (''fixed '' @ v) s"

lemmas sample_fix_defs = sample_art_ext_def sample_fix_ext_def sample_revision_def sample_fix_state_def
  ctx_at_def submit_sample_def sample_defs



section \<open>Submitting, sweeping and building\<close>

lemma semver_le_total: "\<not> semver_le a b \<longleftrightarrow> semver_le b a \<and> a \<noteq> b"
  by (cases a; cases b) auto

lemma latest_none: "latest_revision device s = None \<longleftrightarrow> \<not> list_ex (\<lambda>r. v_device r = device) (fs_revs s)"
  by (auto simp: latest_revision_def filter_empty_conv list_ex_iff)

lemma baseline_false: "ensure_baseline c x device s = (False, s1) \<Longrightarrow> fs_revs s1 = fs_revs s"
  by (auto simp: ensure_baseline_def fresh_fix_def fresh_uuid_def insert_revision_def Let_def
      split: if_splits option.splits)

lemma floor_is_latest: "current_floor c x device s = (cur, s1) \<Longrightarrow> cur = latest_revision device s1"
proof (cases "latest_revision device s")
  case (Some r)
  moreover assume "current_floor c x device s = (cur, s1)"
  ultimately show ?thesis by (auto simp: current_floor_def)
next
  case None
  assume f: "current_floor c x device s = (cur, s1)"
  obtain ok s2 where b: "ensure_baseline c x device s = (ok, s2)" by (metis prod.collapse)
  show ?thesis
  proof (cases ok)
    case True
    then show ?thesis using f None b by (auto simp: current_floor_def)
  next
    case False
    then have "latest_revision device s2 = latest_revision device s"
      using baseline_false [of c x device s s2] b by (simp add: latest_revision_def)
    then show ?thesis using f None b False by (simp add: current_floor_def)
  qed
qed

text \<open>A QEMU device always has a floor, unless nff-github cannot serve the real source.\<close>

lemma floor_exists:
  assumes "device_of device (fs_db s) = Some dev" and "d_project dev = Some project"
    and "strip (or_else (d_type dev) []) = qemu_type"
    and "fx_read_repo x = Some src" and "\<not> has_infix stub_marker src"
    and "current_floor c x device s = (cur, s1)"
  shows "cur \<noteq> None"
proof (cases "latest_revision device s")
  case (Some r)
  then have "current_floor c x device s = (Some r, s)" by (simp add: current_floor_def)
  then show ?thesis using assms(6) by simp
next
  case None
  then have none: "\<not> list_ex (\<lambda>r. v_device r = device) (fs_revs s)" by (simp add: latest_none)
  then have "\<not> list_ex (\<lambda>q. v_device q = device \<and> v_version q = baseline_version) (fs_revs s)"
    by (auto simp: list_ex_iff)
  then obtain r where r: "ensure_baseline c x device s =
      (True, (snd (fresh_fix s))\<lparr>fs_revs := fs_revs s @ [r]\<rparr>)" "v_device r = device"
    using none assms(1-5)
    by (simp add: ensure_baseline_def fresh_fix_def fresh_uuid_def insert_revision_def Let_def)
  have "current_floor c x device s =
      (latest_revision device ((snd (fresh_fix s))\<lparr>fs_revs := fs_revs s @ [r]\<rparr>),
       (snd (fresh_fix s))\<lparr>fs_revs := fs_revs s @ [r]\<rparr>)"
    unfolding current_floor_def None r(1) Let_def by simp
  moreover have "latest_revision device ((snd (fresh_fix s))\<lparr>fs_revs := fs_revs s @ [r]\<rparr>) \<noteq> None"
    unfolding latest_none using r(2) by simp
  ultimately show ?thesis using assms(6) by simp
qed

text \<open>
  C16. A fix is queued only when it may be built: the version is a bare semver strictly greater than
  the device's latest revision, and the device is known, owned by a project and a mock or a QEMU
  device; exactly one pending job with the latest version as its parent is appended. A refused
  submission queues nothing. A QEMU device without history gets the baseline as its floor, so the
  comparison is not skipped for it.
\<close>

theorem submit_fix_correct:
  "(case submit_firmware_fix c x device version source s of
      (Inl e, s') \<Rightarrow> fs_jobs s' = fs_jobs s
    | (Inr i, s') \<Rightarrow> (\<exists>new dev project job.
        semver (Some version) = Some new \<and> device_of device (fs_db s) = Some dev \<and>
        d_project dev = Some project \<and>
        (strip (or_else (d_type dev) []) = qemu_type \<or> starts_with ''mock-'' device) \<and>
        fs_jobs s' = fs_jobs s @ [job] \<and> x_id job = i \<and> x_status job = FPending \<and>
        x_attempts job = 0 \<and> x_device job = device \<and> x_version job = version \<and>
        x_source job = source \<and> x_project job = Some project \<and>
        x_parent job = map_option v_version (latest_revision device s') \<and>
        (case latest_revision device s' of
           None \<Rightarrow> (if strip (or_else (d_type dev) []) = qemu_type
             then (case fx_read_repo x of None \<Rightarrow> True | Some src \<Rightarrow> has_infix stub_marker src) else True)
         | Some r \<Rightarrow> (case semver (Some (v_version r)) of
             None \<Rightarrow> True | Some cur \<Rightarrow> semver_le cur new \<and> cur \<noteq> new))))"
proof (cases "semver (Some version)")
  case None
  then show ?thesis by (simp add: submit_firmware_fix_def)
next
  case sv: (Some new)
  show ?thesis
  proof (cases "device_project_id device s")
    case (Inl e)
    then show ?thesis using sv by (simp add: submit_firmware_fix_def)
  next
    case (Inr project)
    then obtain dev where dev: "device_of device (fs_db s) = Some dev" "d_project dev = Some project"
      "strip (or_else (d_type dev) []) = qemu_type \<or> starts_with ''mock-'' device"
      by (auto simp: device_project_id_def split: option.splits if_splits)
    obtain cur s1 where f: "current_floor c x device s = (cur, s1)" by (metis prod.collapse)
    have jobs: "fs_jobs s1 = fs_jobs s"
      using builds_floor [of s c x device] unfolding f snd_conv by (simp add: builds_def)
    have latest: "latest_revision device s1 = cur" using floor_is_latest [OF f] by simp
    have floor: "strip (or_else (d_type dev) []) \<noteq> qemu_type \<or>
        (case fx_read_repo x of None \<Rightarrow> True | Some src \<Rightarrow> has_infix stub_marker src)" if "cur = None"
      using floor_exists [OF dev(1,2) _ _ _ f] that by (auto split: option.split)
    let ?low = "case cur of None \<Rightarrow> False
       | Some r \<Rightarrow> (case semver (Some (v_version r)) of None \<Rightarrow> False | Some cur \<Rightarrow> semver_le new cur)"
    show ?thesis
    proof (cases ?low)
      case True
      then have "submit_firmware_fix c x device version source s =
          (Inl (NotGreater version (v_version (the cur))), s1)"
        using sv Inr by (simp add: submit_firmware_fix_def f)
      then show ?thesis using jobs by simp
    next
      case False
      obtain i s2 where e: "enqueue c device version source (Some project) ''agent'' (map_option v_version cur) s1 = (i, s2)"
        by (metis prod.collapse)
      have run: "submit_firmware_fix c x device version source s = (Inr i, s2)"
        using sv Inr False by (simp add: submit_firmware_fix_def f e)
      obtain job where job: "fs_jobs s2 = fs_jobs s1 @ [job]" "x_id job = i" "x_status job = FPending"
        "x_attempts job = 0" "x_device job = device" "x_version job = version" "x_source job = source"
        "x_project job = Some project" "x_parent job = map_option v_version cur" "fs_revs s2 = fs_revs s1"
        using e by (auto simp: enqueue_def Let_def fresh_uuid_def)
      have l2: "latest_revision device s2 = cur" using latest job(10) by (simp add: latest_revision_def)
      have ok: "case cur of
           None \<Rightarrow> (if strip (or_else (d_type dev) []) = qemu_type
             then (case fx_read_repo x of None \<Rightarrow> True | Some src \<Rightarrow> has_infix stub_marker src) else True)
         | Some r \<Rightarrow> (case semver (Some (v_version r)) of
             None \<Rightarrow> True | Some cur \<Rightarrow> semver_le cur new \<and> cur \<noteq> new)"
        using False floor semver_le_total [of new] by (cases cur) (auto split: option.splits)
      show ?thesis
        unfolding run prod.case sum.case l2
        by (intro exI [of _ new] exI [of _ dev] exI [of _ project] exI [of _ job] conjI)
          (use sv dev job jobs ok in \<open>simp_all only: append_same_eq simp_thms\<close>)
    qed
  qed
qed


text \<open>
  One sweep of the fix worker: stale running jobs return to the queue, or fail for good once
  their attempts are used up; if nothing is pending then, nothing else happens; otherwise the oldest
  pending job alone is claimed, its attempt counted, and built with the source it carries, and it
  ends as done exactly when the build made a deployment, as error in every other case, an escaping
  exception included.
\<close>

theorem fix_sweep_correct:
  assumes "queue_ok m s"
  shows "\<exists>rows. rows = map (\<lambda>j. if x_status j = FRunning \<and>
            x_started j < cx_now c - seconds (s_fix_stale (cx_set c))
          then (if x_attempts j \<ge> s_fix_max (cx_set c)
                then j\<lparr>x_status := FError, x_error := Some (Exhausted (s_fix_max (cx_set c)))\<rparr>
                else j\<lparr>x_status := FPending\<rparr>) else j) (fs_jobs s) \<and>
    ((\<forall>j \<in> set rows. x_status j \<noteq> FPending) \<and> fix_sweep c x s = (False, s\<lparr>fs_jobs := rows\<rparr>) \<or>
     (\<exists>job r s'. job \<in> set rows \<and> x_status job = FPending \<and>
        (\<forall>j \<in> set rows. x_status j = FPending \<longrightarrow> x_created job \<le> x_created j) \<and>
        build_and_deploy_source c x (x_device job) (x_version job) (x_source job)
          (or_else (Some (x_author job)) ''agent'') (x_parent job)
          (s\<lparr>fs_jobs := map (\<lambda>j. if j = job then claimed c j else j) rows\<rparr>) = (r, s') \<and>
        fix_sweep c x s = (True, s'\<lparr>fs_jobs := map (\<lambda>j. if j = job then
            (case r of
               Some (Inr (dep, v, fault)) \<Rightarrow>
                 (claimed c job)\<lparr>x_status := FDone, x_dep := Some dep, x_version := v,
                   x_fault := fault, x_error := None\<rparr>
             | Some (Inl e) \<Rightarrow> (claimed c job)\<lparr>x_status := FError, x_fault := False, x_error := Some e\<rparr>
             | None \<Rightarrow> (claimed c job)\<lparr>x_status := FError, x_fault := False,
                 x_error := Some BuildCrashed\<rparr>) else j) rows\<rparr>)))"
proof -
  have d: "distinct (map x_id (fs_jobs s))" using assms by (simp add: queue_ok_def)
  let ?rows = "map (\<lambda>j. if stale_job c j then reclaim_row c j else j) (fs_jobs s)"
  let ?t = "s\<lparr>fs_jobs := ?rows\<rparr>"
  have rows: "?rows = map (\<lambda>j. if x_status j = FRunning \<and>
            x_started j < cx_now c - seconds (s_fix_stale (cx_set c))
          then (if x_attempts j \<ge> s_fix_max (cx_set c)
                then j\<lparr>x_status := FError, x_error := Some (Exhausted (s_fix_max (cx_set c)))\<rparr>
                else j\<lparr>x_status := FPending\<rparr>) else j) (fs_jobs s)"
    by (simp only: stale_job_def reclaim_row_def)
  have "map x_id ?rows = map x_id (fs_jobs s)" by (simp add: reclaim_row_def)
  then have dt: "distinct (map x_id ?rows)" using d by (simp only:)
  show ?thesis
  proof (cases "oldest_pending ?t")
    case None
    then have "fix_sweep c x s = (False, ?t)"
      unfolding fix_sweep_def reclaim_rows [OF d] snd_conv Let_def by (simp add: claim_none)
    then show ?thesis
      using None unfolding oldest_pending_None by (intro exI [of _ ?rows] conjI rows disjI1) simp_all
  next
    case (Some job)
    let ?u = "s\<lparr>fs_jobs := map (\<lambda>j. if j = job then claimed c j else j) ?rows\<rparr>"
    have cl: "claim_next c ?t = (Some (claimed c job), ?u)"
      using claim_rows [of ?t job c] dt Some by simp
    have job: "job \<in> set ?rows" "x_status job = FPending"
      "\<forall>j \<in> set ?rows. x_status j = FPending \<longrightarrow> x_created job \<le> x_created j"
      using oldest_pending_SomeD [OF Some] by auto
    let ?b = "build_and_deploy_source c x (x_device job) (x_version job) (x_source job)
          (or_else (Some (x_author job)) ''agent'') (x_parent job) ?u"
    obtain r s' where b: "?b = (r, s')" using surj_pair [of ?b] by blast
    have jobs: "fs_jobs s' = map (\<lambda>j. if j = job then claimed c j else j) ?rows"
      using builds_build [of ?u c x "x_device job" "x_version job" "x_source job"
          "or_else (Some (x_author job)) ''agent''" "x_parent job"] unfolding b snd_conv builds_def by simp
    have at: "fs_jobs (finish_job (x_id (claimed c job)) st dep v fault e s') = map (\<lambda>j. if j = job then
        (claimed c job)\<lparr>x_status := st, x_fault := fault, x_error := e,
          x_dep := (case dep of None \<Rightarrow> x_dep job | Some d \<Rightarrow> Some d),
          x_version := (case v of None \<Rightarrow> x_version job | Some v \<Rightarrow> v)\<rparr> else j) ?rows" for st dep v fault e
      using finish_claimed [OF dt job(1) jobs] by simp
    have only: "finish_job i st dep v fault e s' = s'\<lparr>fs_jobs := fs_jobs (finish_job i st dep v fault e s')\<rparr>"
      for i st dep v fault e by (simp add: finish_job_def)
    have sw: "fix_sweep c x s = (True, run_job c x (claimed c job) ?u)"
      unfolding fix_sweep_def reclaim_rows [OF d] snd_conv Let_def cl prod.case by simp
    have run: "run_job c x (claimed c job) ?u = s'\<lparr>fs_jobs := map (\<lambda>j. if j = job then
            (case r of
               Some (Inr (dep, v, fault)) \<Rightarrow>
                 (claimed c job)\<lparr>x_status := FDone, x_dep := Some dep, x_version := v,
                   x_fault := fault, x_error := None\<rparr>
             | Some (Inl e) \<Rightarrow> (claimed c job)\<lparr>x_status := FError, x_fault := False, x_error := Some e\<rparr>
             | None \<Rightarrow> (claimed c job)\<lparr>x_status := FError, x_fault := False,
                 x_error := Some BuildCrashed\<rparr>) else j) ?rows\<rparr>"
      (is "_ = s'\<lparr>fs_jobs := ?final r\<rparr>")
    proof -
      have b': "build_and_deploy_source c x (x_device (claimed c job)) (x_version (claimed c job))
          (x_source (claimed c job)) (or_else (Some (x_author (claimed c job))) ''agent'')
          (x_parent (claimed c job)) ?u = (r, s')"
        using b by (simp add: claimed_def)
      have e: "run_job c x (claimed c job) ?u = (case r of
          None \<Rightarrow> finish_job (x_id (claimed c job)) FError None None False (Some BuildCrashed) s'
        | Some (Inl e) \<Rightarrow> finish_job (x_id (claimed c job)) FError None None False (Some e) s'
        | Some (Inr (dep, v, fault)) \<Rightarrow> finish_job (x_id (claimed c job)) FDone (Some dep) (Some v) fault None s')"
        unfolding run_job_def b' Let_def prod.case ..
      have "fs_jobs (run_job c x (claimed c job) ?u) = ?final r"
      proof (cases r)
        case None
        show ?thesis unfolding e None option.case at by (simp add: claimed_def cong: map_cong)
      next
        case (Some q)
        show ?thesis
        proof (cases q)
          case (Inl er)
          show ?thesis unfolding e Some Inl option.case sum.case at by (simp add: claimed_def cong: map_cong)
        next
          case (Inr dvf)
          obtain dep v fault where dvf: "dvf = (dep, v, fault)" by (cases dvf)
          show ?thesis unfolding e Some Inr dvf option.case sum.case prod.case at by (simp cong: map_cong)
        qed
      qed
      moreover have "run_job c x (claimed c job) ?u = s'\<lparr>fs_jobs := fs_jobs (run_job c x (claimed c job) ?u)\<rparr>"
        unfolding e using only by (simp split: option.split sum.split prod.split)
      ultimately show ?thesis by (simp only:)
    qed
    show ?thesis
      by (intro exI [of _ ?rows] conjI rows disjI2 exI [of _ job] exI [of _ r] exI [of _ s'] job b)
        (simp only: sw run)
  qed
qed


theorem fix_sweep_correct_witness:
  "fix_sweep sample_ctx sample_fix_ext sample_fix_state = (False, sample_fix_state)"
proof -
  have ok: "queue_ok 2 sample_fix_state" by (simp add: queue_ok_def sample_fix_state_def)
  have none: "fs_jobs sample_fix_state = []" by (simp add: sample_fix_state_def)
  have same: "sample_fix_state\<lparr>fs_jobs := []\<rparr> = sample_fix_state" by (simp add: sample_fix_state_def)
  show ?thesis using fix_sweep_correct [OF ok, of sample_ctx sample_fix_ext] by (simp add: none same)
qed

text \<open>
  The artifact a QEMU build ships: whatever was reused or compiled, the version that is rolled out
  is in the catalogue, with the release the submitter asked for and a build id made from the source.
\<close>

lemma find_build:
  assumes "distinct (map f_version rs)" and "find (\<lambda>r. f_build r = Some bid) rs = Some r"
  shows "look_key f_version (f_version r) rs = Some r \<and> f_build r = Some bid"
proof -
  have "r \<in> set rs" "f_build r = Some bid" using assms(2) by (auto simp: find_Some_iff)
  moreover have "find (\<lambda>q. f_version q = f_version r) rs = Some r" if "r \<in> set rs" "distinct (map f_version rs)"
    using that by (induction rs) auto
  ultimately show ?thesis using assms(1) by (simp add: look_key_def)
qed

lemma uploaded_row:
  assumes "upload_artifact c e p d = (Inr info, d')"
  shows "\<exists>fw. fw_of (up_version p) d' = Some fw \<and>
    (up_release p \<noteq> None \<longrightarrow> f_release fw = up_release p) \<and> (up_build p \<noteq> None \<longrightarrow> f_build fw = up_build p)"
  using assms
  by (auto simp: upload_artifact_def upload_artifact_impl_def Let_def fw_of_upsert
      split: option.splits sum.splits if_splits)

text \<open>
  A QEMU device never boots an image baked for another release: whenever the real build has an
  artifact to roll out, that artifact is in the catalogue under the returned target with exactly the
  requested release version, and its build id is the hash of the source, salted with the version
  when the plain hash belongs to another release; the compiler runs only when no such artifact exists.
\<close>

theorem real_build_ships_release:
  assumes "distinct (map f_version (db_fws (fs_db s)))"
    and "real_artifact c x device version source device_type s = (Inr (target, bid), s')"
  shows "(\<exists>fw. fw_of target (fs_db s') = Some fw \<and> f_release fw = Some version \<and> f_build fw = Some bid) \<and>
    (bid = fx_hash x source \<or> bid = fx_hash x (salted source version)) \<and>
    (s' = s \<or> (\<forall>fw \<in> set (db_fws (fs_db s)). f_build fw = Some bid \<longrightarrow> f_release fw = Some version \<longrightarrow>
       artifact_for bid s \<noteq> Some fw))"
proof -
  obtain b row where p: "pick_build x version source s = (b, row)" by (metis prod.collapse)
  have row: "row = artifact_for b s" "b = fx_hash x source \<or> b = fx_hash x (salted source version)"
    using p by (auto simp: pick_build_def Let_def split: if_splits)
  show ?thesis
  proof (cases "row \<noteq> None \<and> f_release (the row) = Some version")
    case True
    then obtain fw where fw: "row = Some fw" "f_release fw = Some version" by auto
    then have "target = f_version fw" "bid = b" "s' = s"
      using assms(2) by (auto simp: real_artifact_def p)
    moreover have "fw_of (f_version fw) (fs_db s) = Some fw \<and> f_build fw = Some b"
      using find_build [OF assms(1), of b fw] fw(1) row(1) by (simp add: artifact_for_def)
    ultimately show ?thesis using fw row(2) by auto
  next
    case False
    let ?up = "\<lparr>up_version = catalog_version device version, up_types = [device_type],
                up_file = ''image'', up_sign_key = None, up_build = Some b,
                up_release = Some version\<rparr>"
    obtain img where img: "fx_compile x source b version device_type = Some img"
      using assms(2) False by (cases "fx_compile x source b version device_type") (auto simp: real_artifact_def p)
    let ?run = "upload_artifact c ((fx_art x)\<lparr>ax_read := (\<lambda>_. Some img)\<rparr>) ?up (fs_db s)"
    obtain up d where u: "?run = (up, d)" using surj_pair [of ?run] by blast
    have out: "(case up of Inl e \<Rightarrow> (Inl (UploadFailed e), s\<lparr>fs_db := d\<rparr>)
        | Inr _ \<Rightarrow> (Inr (catalog_version device version, b), s\<lparr>fs_db := d\<rparr>)) = (Inr (target, bid), s')"
      using assms(2) unfolding real_artifact_def p prod.case if_not_P [OF False] img option.case u Let_def .
    then obtain info where "up = Inr info" by (cases up) auto
    with out u have r: "?run = (Inr info, d)"
      "target = catalog_version device version" "bid = b" "s' = s\<lparr>fs_db := d\<rparr>" by simp_all
    have "\<exists>fw. fw_of target (fs_db s') = Some fw \<and> f_release fw = Some version \<and> f_build fw = Some bid"
      using uploaded_row [OF r(1)] r(2-4) by auto
    moreover have "artifact_for bid s \<noteq> Some fw" if "f_release fw = Some version" for fw
      using False row(1) r(3) that by auto
    ultimately show ?thesis using row(2) r(3) by auto
  qed
qed

text \<open>The QEMU device of the witness: its source was built before, for release 1.0.0.\<close>

definition sample_built :: fix_state where
  "sample_built = sample_fix_state\<lparr>fs_db := (fs_db sample_fix_state)
     \<lparr>db_fws := [sample_fw\<lparr>f_build := Some ''hs'', f_release := Some ''1.0.0''\<rparr>]\<rparr>\<rparr>"

theorem real_build_ships_release_witness:
  "real_artifact sample_ctx sample_fix_ext ''q'' ''1.0.0'' ''s'' qemu_type sample_built =
     (Inr (''v2'', ''hs''), sample_built) \<and>
   (\<exists>fw. fw_of ''v2'' (fs_db sample_built) = Some fw \<and> f_release fw = Some ''1.0.0'')"
proof
  show run: "real_artifact sample_ctx sample_fix_ext ''q'' ''1.0.0'' ''s'' qemu_type sample_built =
     (Inr (''v2'', ''hs''), sample_built)"
    by (simp add: real_artifact_def pick_build_def artifact_for_def Let_def sample_built_def sample_fix_ext_def
        sample_fix_state_def sample_db_def sample_fw_def)
  have d: "distinct (map f_version (db_fws (fs_db sample_built)))"
    by (simp add: sample_built_def sample_fix_state_def)
  show "\<exists>fw. fw_of ''v2'' (fs_db sample_built) = Some fw \<and> f_release fw = Some ''1.0.0''"
    using real_build_ships_release [OF d run] by blast
qed

text \<open>
  A mock build that was interrupted after its revision was recorded is never repaired by a retry:
  once a revision of that device and version is on record, building it again is refused and neither
  uploads nor deploys anything, so the job that the queue reclaims for a second attempt can only fail.
\<close>

theorem retry_after_revision_fails:
  assumes "device_of device (fs_db s) = Some dev" and "d_project dev = Some project"
    and "device_group_id device s = Some gid"
    and "or_else (Some (strip (or_else (d_type dev) ''esp32''))) ''esp32'' \<noteq> qemu_type"
    and "starts_with ''mock-'' device"
    and "r \<in> set (fs_revs s)" and "v_device r = device" and "v_version r = version"
  shows "build_and_deploy_source c x device version source author parent s =
    (Some (Inl RevisionExists), s\<lparr>fs_db := (fs_db s)\<lparr>db_next := Suc (db_next (fs_db s))\<rparr>\<rparr>)"
proof -
  have "list_ex (\<lambda>q. v_device q = device \<and> v_version q = version) (fs_revs s)"
    using assms(6-8) by (auto simp: list_ex_iff)
  then show ?thesis
    using assms(1-5) unfolding build_and_deploy_source_def
    by (simp add: Let_def fresh_fix_def fresh_uuid_def insert_revision_def)
qed

theorem retry_after_revision_fails_witness:
  "fst (build_and_deploy_source sample_ctx sample_fix_ext ''mock-1'' ''1.0.0'' ''x'' ''agent'' None
     sample_fix_state) = Some (Inl RevisionExists)"
proof -
  have "build_and_deploy_source sample_ctx sample_fix_ext ''mock-1'' ''1.0.0'' ''x'' ''agent'' None
     sample_fix_state = (Some (Inl RevisionExists), sample_fix_state\<lparr>fs_db := (fs_db sample_fix_state)
       \<lparr>db_next := Suc (db_next (fs_db sample_fix_state))\<rparr>\<rparr>)"
    by (rule retry_after_revision_fails [where dev = "sample_device ''mock-1''" and project = 1 and gid = 10
        and r = "sample_revision ''1.0.0''"]) (code_simp | simp add: sample_fix_state_def sample_revision_def)+
  then show ?thesis by simp
qed

text \<open>
  Two submissions in a row are both compared with the recorded revision: the second one may be lower
  than the first, which is only queued.
\<close>

lemma second_submission_accepted:
  assumes "submit_firmware_fix c x device hi src s = (Inr i, s1)"
    and "latest_revision device s1 = Some r" and "semver (Some (v_version r)) = Some k"
    and "semver (Some lo) = Some l" and "\<not> semver_le l k"
  shows "\<exists>j s2. submit_firmware_fix c' x device lo src' s1 = (Inr j, s2) \<and> fs_revs s2 = fs_revs s1"
proof -
  from submit_shape [of s c x device hi src] assms(1) obtain s0 project par where
    b: "builds s s0" "(i, s1) = enqueue c device hi src (Some project) ''agent'' par s0"
    by auto
  have "fst (submit_firmware_fix c x device hi src s) = Inr i" using assms(1) by simp
  then obtain pr where pr: "device_project_id device s = Inr pr"
    by (auto simp: submit_firmware_fix_def split: option.splits sum.splits)
  obtain cur t where f: "current_floor c x device s = (cur, t)" by (metis prod.collapse)
  have devs: "db_devices (fs_db s1) = db_devices (fs_db t)"
    using assms(1) pr unfolding submit_firmware_fix_def f
    by (auto simp: Let_def enqueue_def fresh_uuid_def split: option.splits if_splits prod.splits)
  have "db_devices (fs_db (snd (ensure_baseline c x device s))) = db_devices (fs_db s)"
    by (auto simp: ensure_baseline_def fresh_fix_def fresh_uuid_def insert_revision_def Let_def
        split: if_splits option.splits)
  then have "db_devices (fs_db t) = db_devices (fs_db s)"
    using f by (auto simp: current_floor_def split: option.splits prod.splits if_splits)
  then have pr1: "device_project_id device s1 = Inr pr" using pr devs by (simp add: device_project_id_def)
  have "current_floor c' x device s1 = (Some r, s1)" using assms(2) by (simp add: current_floor_def)
  then have "\<exists>e. submit_firmware_fix c' x device lo src' s1 =
      (Inr (fst e), snd e) \<and> e = enqueue c' device lo src' (Some pr) ''agent'' (Some (v_version r)) s1"
    using assms(3-5) pr1 by (simp add: submit_firmware_fix_def Let_def split: prod.split)
  then show ?thesis by (auto simp: enqueue_def Let_def fresh_uuid_def)
qed

lemma latest_after_insert:
  assumes "fs_revs s = rs @ [r]" and "\<forall>q \<in> set rs. v_device q = v_device r \<longrightarrow> v_created q < v_created r"
  shows "latest_revision (v_device r) s = Some r"
proof -
  let ?q = "filter (\<lambda>q. v_device q = v_device r) (sort_key (\<lambda>r. - v_created r) (fs_revs s))"
  have r: "r \<in> set ?q" using assms(1) by simp
  then obtain y rest where y: "?q = y # rest" by (cases ?q) auto
  have "sorted (map (\<lambda>r. - v_created r) ?q)" by (rule sorted_filter) simp
  then have "- v_created y \<le> - v_created r" using r y by auto
  moreover have "y \<in> set ?q" using y by simp
  ultimately have "y = r" using assms by auto
  then show ?thesis using y by (simp add: latest_revision_def)
qed

lemma deploy_revs: "fs_revs (snd (deploy_fix c device v t g f s)) = fs_revs s"
  by (auto simp: deploy_fix_def Let_def split: reply.split prod.split)

text \<open>
  The anti-downgrade rule is checked when a fix is submitted, against recorded revisions only,
  and never again when it is built: whatever revision was recorded while a mock's job waited, a
  higher one included, building the job makes its own version the device's latest, whether the
  upload and the rollout that follow succeed or not.
\<close>

theorem fix_queue_can_downgrade:
  assumes "device_of device (fs_db s) = Some dev" and "d_project dev = Some project"
    and "device_group_id device s = Some gid"
    and "or_else (Some (strip (or_else (d_type dev) ''esp32''))) ''esp32'' \<noteq> qemu_type"
    and "starts_with ''mock-'' device"
    and "\<forall>q \<in> set (fs_revs s). v_device q = device \<longrightarrow> v_version q \<noteq> version \<and> v_created q < cx_now c"
  shows "map_option v_version (latest_revision device
    (snd (build_and_deploy_source c x device version source author parent s))) = Some version"
proof -
  obtain i s1 where f: "fresh_fix s = (i, s1)" by (metis prod.collapse)
  have s1: "fs_revs s1 = fs_revs s" using f by (auto simp: fresh_fix_def fresh_uuid_def)
  let ?r = "\<lparr>v_id = i, v_project = project, v_device = device, v_version = version,
     v_source = source, v_fault = fx_detect x source, v_build = fx_hash x source,
     v_parent = parent, v_author = author, v_created = cx_now c\<rparr>"
  let ?s2 = "s1\<lparr>fs_revs := fs_revs s @ [?r]\<rparr>"
  have ins: "insert_revision ?r s1 = Some ?s2"
    using assms(6) s1 by (auto simp: insert_revision_def list_ex_iff)
  let ?device_type = "or_else (Some (strip (or_else (d_type dev) ''esp32''))) ''esp32''"
  let ?up = "upload_artifact_impl c ((fx_art x)\<lparr>ax_read := (\<lambda>_. Some (fx_sketch x version (fx_detect x source)))\<rparr>)
      \<lparr>up_version = catalog_version device version, up_types = [?device_type], up_file = ''sketch'',
       up_sign_key = None, up_build = Some (fx_hash x source), up_release = Some version\<rparr>
      (starts_with ''mock-'' device) (fs_db ?s2)"
  obtain up d3 where u: "?up = (up, d3)" using surj_pair [of ?up] by blast
  have "fs_revs (snd (build_and_deploy_source c x device version source author parent s)) = fs_revs s @ [?r]"
    using assms(3-5) unfolding build_and_deploy_source_def assms(1,2) option.case Let_def f prod.case ins u
    by (simp add: deploy_revs split: sum.split)
  from latest_after_insert [OF this] show ?thesis using assms(6) by simp
qed

theorem fix_queue_can_downgrade_witness:
  "map_option v_version (latest_revision ''mock-1'' (snd (build_and_deploy_source sample_ctx sample_fix_ext
     ''mock-1'' ''1.1.0'' ''x'' ''agent'' None
     (sample_fix_state\<lparr>fs_revs := [sample_revision ''1.0.0'', sample_revision ''1.2.0'']\<rparr>)))) = Some ''1.1.0''"
proof (rule fix_queue_can_downgrade [where dev = "sample_device ''mock-1''" and project = 1 and gid = 10])
  show "device_of ''mock-1'' (fs_db (sample_fix_state\<lparr>fs_revs := [sample_revision ''1.0.0'',
      sample_revision ''1.2.0'']\<rparr>)) = Some (sample_device ''mock-1'')"
    by (simp add: sample_fix_state_def look_key_def sample_device_def)
  show "device_group_id ''mock-1'' (sample_fix_state\<lparr>fs_revs := [sample_revision ''1.0.0'',
      sample_revision ''1.2.0'']\<rparr>) = Some 10"
    by (simp add: sample_fix_state_def device_group_id_def)
  show "or_else (Some (strip (or_else (d_type (sample_device ''mock-1'')) ''esp32''))) ''esp32'' \<noteq> qemu_type"
    "starts_with ''mock-'' ''mock-1''" by code_simp+
qed (simp_all add: sample_device_def sample_revision_def sample_ctx_def)

text \<open>
  A mock's source that is already in the catalogue under another version cannot be shipped again
  under a new one: the L1 path, unlike the L2 path, does not salt the build id, so the upload is
  refused by the unique index after the new revision was recorded, and that revision, which no device
  was ever sent, becomes the device's latest.
\<close>

theorem mock_same_source_strands_revision:
  assumes "device_of device (fs_db s) = Some dev" and "d_project dev = Some project"
    and "device_group_id device s = Some gid"
    and "or_else (Some (strip (or_else (d_type dev) ''esp32''))) ''esp32'' \<noteq> qemu_type"
    and "starts_with ''mock-'' device"
    and "\<forall>q \<in> set (fs_revs s). v_device q = device \<longrightarrow> v_version q \<noteq> version \<and> v_created q < cx_now c"
    and "fw \<in> set (db_fws (fs_db s))" and "f_build fw = Some (fx_hash x source)"
    and "f_version fw \<noteq> catalog_version device version"
    and "s_trusted_key (cx_set c) = []" and "ax_put (fx_art x) (catalog_version device version)
           (fx_sketch x version (fx_detect x source))"
  shows "fst (build_and_deploy_source c x device version source author parent s) =
      Some (Inl (UploadFailed UpsertFailed)) \<and>
    db_deps (fs_db (snd (build_and_deploy_source c x device version source author parent s))) =
      db_deps (fs_db s) \<and>
    map_option v_version (latest_revision device
      (snd (build_and_deploy_source c x device version source author parent s))) = Some version"
proof -
  obtain i s1 where f: "fresh_fix s = (i, s1)" by (metis prod.collapse)
  have s1: "fs_revs s1 = fs_revs s" "db_fws (fs_db s1) = db_fws (fs_db s)" "db_deps (fs_db s1) = db_deps (fs_db s)"
    using f by (auto simp: fresh_fix_def fresh_uuid_def)
  let ?r = "\<lparr>v_id = i, v_project = project, v_device = device, v_version = version,
     v_source = source, v_fault = fx_detect x source, v_build = fx_hash x source,
     v_parent = parent, v_author = author, v_created = cx_now c\<rparr>"
  let ?s2 = "s1\<lparr>fs_revs := fs_revs s @ [?r]\<rparr>"
  have ins: "insert_revision ?r s1 = Some ?s2"
    using assms(6) s1 by (auto simp: insert_revision_def list_ex_iff)
  let ?p = "\<lparr>up_version = catalog_version device version,
       up_types = [or_else (Some (strip (or_else (d_type dev) ''esp32''))) ''esp32''], up_file = ''sketch'',
       up_sign_key = None, up_build = Some (fx_hash x source), up_release = Some version\<rparr>"
  have "build_taken ?p (fs_db ?s2)"
    using assms(7-9) s1 by (auto simp: build_taken_def list_ex_iff)
  then have u: "upload_artifact_impl c
      ((fx_art x)\<lparr>ax_read := (\<lambda>_. Some (fx_sketch x version (fx_detect x source)))\<rparr>) ?p True (fs_db ?s2) =
      (Inl UpsertFailed, fs_db ?s2)"
    using assms(10,11) by (simp add: upload_artifact_impl_def image_gate_def signature_policy_def)
  have run: "build_and_deploy_source c x device version source author parent s =
      (Some (Inl (UploadFailed UpsertFailed)), ?s2)"
    using assms(3-5) u unfolding build_and_deploy_source_def assms(1,2) option.case Let_def f prod.case ins
    by simp
  have "latest_revision (v_device ?r) ?s2 = Some ?r"
    by (rule latest_after_insert [where rs = "fs_revs s"]) (use assms(6) in simp_all)
  then show ?thesis unfolding run using s1(3) by simp
qed

text \<open>The witness: the catalogue holds the build of source \<open>x\<close> under version 1.0.1.\<close>

theorem mock_same_source_strands_revision_witness:
  "let s = sample_fix_state\<lparr>fs_db := (fs_db sample_fix_state)\<lparr>db_fws := [sample_fw\<lparr>f_build := Some ''hx''\<rparr>]\<rparr>\<rparr> in
   fst (build_and_deploy_source sample_ctx sample_fix_ext ''mock-1'' ''1.1.0'' ''x'' ''agent'' None s) =
     Some (Inl (UploadFailed UpsertFailed))"
proof -
  let ?s = "sample_fix_state\<lparr>fs_db := (fs_db sample_fix_state)\<lparr>db_fws := [sample_fw\<lparr>f_build := Some ''hx''\<rparr>]\<rparr>\<rparr>"
  have a: "device_of ''mock-1'' (fs_db ?s) = Some (sample_device ''mock-1'')"
    by (simp add: sample_fix_state_def look_key_def sample_device_def)
  have b: "device_group_id ''mock-1'' ?s = Some 10"
    by (simp add: sample_fix_state_def device_group_id_def)
  have t: "or_else (Some (strip (or_else (d_type (sample_device ''mock-1'')) ''esp32''))) ''esp32'' \<noteq> qemu_type"
    "starts_with ''mock-'' ''mock-1''" by code_simp+
  have p: "d_project (sample_device ''mock-1'') = Some 1" by (simp add: sample_device_def)
  have r: "\<forall>q \<in> set (fs_revs ?s). v_device q = ''mock-1'' \<longrightarrow> v_version q \<noteq> ''1.1.0'' \<and>
      v_created q < cx_now sample_ctx"
    by (simp add: sample_fix_state_def sample_revision_def sample_ctx_def)
  show ?thesis unfolding Let_def
    by (rule mock_same_source_strands_revision [where fw = "sample_fw\<lparr>f_build := Some ''hx''\<rparr>",
          OF a p b t(1) t(2) r, THEN conjunct1])
      (simp_all add: sample_fix_state_def sample_fix_ext_def sample_art_ext_def sample_fw_def
        catalog_version_def sample_ctx_def sample_settings_def)
qed

end
