(* ===== verification/Fix_Status.thy ===== *)
theory Fix_Status
  imports Fix_Jobs
begin

text \<open>
  The loop of the status call of the fix queue (\<open>get_firmware_fix_status\<close> in
  src/observability/nff-ota/nff_ota/source/ops.py): it looks at the job every five seconds until the job has ended
  or the deadline, at most 90 seconds away, has passed. The queue changes between the looks, so the loop runs over a
  list of observations; the theorem shows that twenty of them are always enough.
\<close>

section \<open>The status call returns\<close>

text \<open>Observations at least five seconds apart, the first not before \<open>start\<close>.\<close>

fun spaced :: "int \<Rightarrow> (int \<times> fix_state) list \<Rightarrow> bool" where
  "spaced start [] = True"
| "spaced start ((clock, s) # seen) = (start \<le> clock \<and> spaced (clock + 5) seen)"

lemma spaced_mono: "spaced a seen \<Longrightarrow> b \<le> a \<Longrightarrow> spaced b seen"
  by (cases seen) auto

text \<open>Whether an observation ends the loop.\<close>

definition ends_loop :: "uuid \<Rightarrow> int \<Rightarrow> int \<times> fix_state \<Rightarrow> bool" where
  "ends_loop i deadline ob = (case get_job i (snd ob) of
      None \<Rightarrow> True
    | Some j \<Rightarrow> x_status j = FDone \<or> x_status j = FError \<or> deadline \<le> fst ob)"

lemma fix_status_loop_ends:
  assumes "spaced start seen" and "n < length seen" and "deadline \<le> start + 5 * int n"
  shows "\<exists>k \<le> n. ends_loop i deadline (seen ! k) \<and> (\<forall>m < k. \<not> ends_loop i deadline (seen ! m)) \<and>
    fix_status_loop i deadline seen = Some (case get_job i (snd (seen ! k)) of None \<Rightarrow> Inl (JobNotFound i) | Some j \<Rightarrow> Inr j)"
  using assms
proof (induction seen arbitrary: start n)
  case (Cons ob seen)
  obtain clock s where ob: "ob = (clock, s)" by (cases ob)
  show ?case
  proof (cases "ends_loop i deadline ob")
    case True
    then have "fix_status_loop i deadline (ob # seen) =
        Some (case get_job i s of None \<Rightarrow> Inl (JobNotFound i) | Some j \<Rightarrow> Inr j)"
      by (auto simp: ob ends_loop_def split: option.splits)
    then show ?thesis using True ob by (intro exI [of _ 0]) simp
  next
    case False
    then obtain j where j: "get_job i s = Some j" "x_status j \<notin> {FDone, FError}" "\<not> deadline \<le> clock"
      by (auto simp: ob ends_loop_def split: option.splits)
    have start: "start \<le> clock" "spaced (start + 5) seen" using Cons.prems(1) spaced_mono by (auto simp: ob)
    have "n \<noteq> 0" using j(3) start(1) Cons.prems(3) by (cases n) auto
    then obtain m where m: "n = Suc m" by (cases n) auto
    from Cons.IH [OF start(2), of m] Cons.prems(2,3) m obtain k where
      k: "k \<le> m" "ends_loop i deadline (seen ! k)" "\<forall>q < k. \<not> ends_loop i deadline (seen ! q)"
      "fix_status_loop i deadline seen = Some (case get_job i (snd (seen ! k)) of None \<Rightarrow> Inl (JobNotFound i) | Some j \<Rightarrow> Inr j)"
      by auto
    have "\<forall>q < Suc k. \<not> ends_loop i deadline ((ob # seen) ! q)"
      using k(3) False by (auto simp: less_Suc_eq_0_disj)
    then show ?thesis using k m j by (intro exI [of _ "Suc k"]) (simp add: ob)
  qed
qed simp

text \<open>
  C25. The status call returns. Whatever wait it is asked for, it answers from one of its first twenty looks at
  the queue (at most 90 seconds, one look every five), namely from the first one that finds the job gone, done or
  failed, or that is past the deadline; and a call without a wait answers from its first look.
\<close>

theorem fix_status_returns:
  assumes "spaced start seen" and "20 \<le> length seen"
  shows "\<exists>k. k \<le> 18 \<and> (wait \<le> 0 \<longrightarrow> k = 0) \<and> ends_loop i (start + fix_wait wait) (seen ! k) \<and>
    filter (ends_loop i (start + fix_wait wait)) (take k seen) = [] \<and>
    fix_status_loop i (start + fix_wait wait) seen =
      Some (case get_job i (snd (seen ! k)) of None \<Rightarrow> Inl (JobNotFound i) | Some j \<Rightarrow> Inr j)"
proof -
  define n where "n = (if wait \<le> 0 then 0 else 18 :: nat)"
  have n: "n < length seen" "start + fix_wait wait \<le> start + 5 * int n" "n \<le> 18" "wait \<le> 0 \<longrightarrow> n = 0"
    using assms(2) by (auto simp: n_def fix_wait_def)
  from fix_status_loop_ends [OF assms(1) n(1,2), of i] obtain k where
    k: "k \<le> n" "ends_loop i (start + fix_wait wait) (seen ! k)" "\<forall>m < k. \<not> ends_loop i (start + fix_wait wait) (seen ! m)"
    "fix_status_loop i (start + fix_wait wait) seen =
      Some (case get_job i (snd (seen ! k)) of None \<Rightarrow> Inl (JobNotFound i) | Some j \<Rightarrow> Inr j)" by blast
  have "\<not> ends_loop i (start + fix_wait wait) ob" if "ob \<in> set (take k seen)" for ob
  proof -
    from that obtain m where "m < length (take k seen)" "take k seen ! m = ob" unfolding in_set_conv_nth by blast
    then show ?thesis using k(3) by (metis length_take min_less_iff_conj nth_take)
  qed
  then have "filter (ends_loop i (start + fix_wait wait)) (take k seen) = []"
    unfolding filter_empty_conv by blast
  moreover have "k \<le> 18" "wait \<le> 0 \<longrightarrow> k = 0" using k(1) n(3,4) by auto
  ultimately show ?thesis using k(2,4) by blast
qed

definition looks :: "fix_state \<Rightarrow> nat \<Rightarrow> (int \<times> fix_state) list" where
  "looks s n = map (\<lambda>k. (5 * int k, s)) [0..<n]"

lemma spaced_snoc: "spaced a (xs @ [(c, s)]) \<longleftrightarrow> spaced a xs \<and> (if xs = [] then a else fst (List.last xs) + 5) \<le> c"
  by (induction xs arbitrary: a) auto

lemma spaced_looks: "spaced 0 (looks s n)"
proof (induction n)
  case (Suc n)
  have "looks s (Suc n) = looks s n @ [(5 * int n, s)]" by (simp add: looks_def)
  moreover have "(if looks s n = [] then 0 else fst (List.last (looks s n)) + 5) \<le> 5 * int n"
    by (cases n) (simp_all add: looks_def)
  ultimately show ?case using Suc.IH by (simp only: spaced_snoc simp_thms)
qed (simp add: looks_def)

lemma nth_looks: "k < n \<Longrightarrow> looks s n ! k = (5 * int k, s)"
  by (simp add: looks_def)

theorem fix_status_returns_witness:
  "fix_status_loop 7 (0 + fix_wait 30) (looks sample_fix_state 20) = Some (Inl (JobNotFound 7))"
proof -
  have none: "get_job 7 sample_fix_state = None" by (simp add: get_job_def sample_fix_state_def look_key_def)
  have len: "20 \<le> length (looks sample_fix_state 20)" by (simp add: looks_def)
  from fix_status_returns [OF spaced_looks len, where wait = 30 and i = 7] obtain k where
    k: "k \<le> 18" "fix_status_loop 7 (0 + fix_wait 30) (looks sample_fix_state 20) =
      Some (case get_job 7 (snd (looks sample_fix_state 20 ! k)) of None \<Rightarrow> Inl (JobNotFound 7) | Some j \<Rightarrow> Inr j)"
    by blast
  have "snd (looks sample_fix_state 20 ! k) = sample_fix_state" using k(1) by (simp add: nth_looks)
  then show ?thesis using k(2) none by simp
qed

end
