(* ===== verification/Webhooks.thy ===== *)
theory Webhooks
  imports Fix_Jobs Devices
begin

text \<open>
  The inbound HTTP routes of nff-ota (\<open>webhooks.py\<close>): the outcome and progress reports nff-fleet
  forwards, the one-call build-and-deploy of nff-github, enrolling a mock as a deployment target, and
  seeding or registering its firmware source.

  A handler gets the value of the header \<open>x-fleet-secret\<close>, the body (\<open>None\<close>: not JSON) and the state; it
  answers \<open>HOk\<close>, an error with its status code, or \<open>HRaise\<close>, an exception the framework turns into a 500.
  Parameters: reading a text as a UUID (\<open>wx_uuid\<close>, \<open>None\<close>: the database raises), the text a JSON value is
  stored as in a text column, whether the database accepts a project reference, and the path of the
  temporary file. The debug ELF, the lineage columns and the changelog change nothing modelled here.
\<close>

record hook_ext =
  wx_uuid :: "string \<Rightarrow> uuid option"
  wx_text :: "json \<Rightarrow> string"
  wx_project_ok :: "uuid \<Rightarrow> bool"
  wx_tmp :: string

datatype hook_error =
    Unauthorized
  | InvalidJson
  | Required string
  | BadStatus
  | NoSuchGroup string
  | GroupHasNoProject uuid
  | NoDeviceTypes
  | BadBase64 string
  | HookUpload artifact_error
  | HookCreate dep_error
  | HookFix fix_error
  | DeviceUpsertFailed
  | GroupCreateFailed

datatype 'a hook = HOk 'a | HErr nat hook_error | HRaise

definition hook_secret_ok :: "settings \<Rightarrow> string option \<Rightarrow> bool" where
  "hook_secret_ok st header =
     (let provided = or_else header [] in
      s_fleet_secret st \<noteq> [] \<and> provided \<noteq> [] \<and> provided = s_fleet_secret st)"

text \<open>What every handler does first. A body that is no object raises at its first \<open>get\<close>.\<close>

definition hook_body :: "settings \<Rightarrow> string option \<Rightarrow> json option \<Rightarrow> ((string \<times> json) list) hook" where
  "hook_body st header body =
     (if \<not> hook_secret_ok st header then HErr 401 Unauthorized
      else (case body of
          None \<Rightarrow> HErr 400 InvalidJson
        | Some (JObj p) \<Rightarrow> HOk p
        | Some _ \<Rightarrow> HRaise))"

text \<open>A field that must be, or may be, a non-empty text; an integer field, of which \<open>bool\<close> is one.\<close>

definition str_field :: "string \<Rightarrow> (string \<times> json) list \<Rightarrow> string option" where
  "str_field key p = (case jget key p of JStr s \<Rightarrow> if s = [] then None else Some s | _ \<Rightarrow> None)"

definition int_field :: "string \<Rightarrow> (string \<times> json) list \<Rightarrow> int option" where
  "int_field key p = (case jget key p of JInt i \<Rightarrow> Some i | JBool b \<Rightarrow> Some (if b then 1 else 0) | _ \<Rightarrow> None)"


section \<open>Reports\<close>

definition ota_result_hook ::
  "ctx \<Rightarrow> string option \<Rightarrow> json option \<Rightarrow> db \<Rightarrow> finalize_reply hook \<times> db" where
  "ota_result_hook c header body s = (case hook_body (cx_set c) header body of
      HErr n e \<Rightarrow> (HErr n e, s)
    | HRaise \<Rightarrow> (HRaise, s)
    | HOk p \<Rightarrow> (case str_field ''device_id'' p of
        None \<Rightarrow> (HErr 400 (Required ''device_id''), s)
      | Some device \<Rightarrow>
          if jget ''status'' p \<noteq> JStr ''committed'' \<and> jget ''status'' p \<noteq> JStr ''rolled_back''
          then (HErr 400 BadStatus, s)
          else (case str_field ''version'' p of
              None \<Rightarrow> (HErr 400 (Required ''version''), s)
            | Some version \<Rightarrow>
                (let status = (if jget ''status'' p = JStr ''committed'' then ''committed'' else ''rolled_back'');
                     reason = (case jget ''reason'' p of JStr r \<Rightarrow> Some r | _ \<Rightarrow> None);
                     (r, s') = finalize_ota_result c device status version reason s in
                 (HOk r, s')))))"

definition ota_progress_hook ::
  "ctx \<Rightarrow> string option \<Rightarrow> json option \<Rightarrow> db \<Rightarrow> progress_reply hook \<times> db" where
  "ota_progress_hook c header body s = (case hook_body (cx_set c) header body of
      HErr n e \<Rightarrow> (HErr n e, s)
    | HRaise \<Rightarrow> (HRaise, s)
    | HOk p \<Rightarrow> (case str_field ''device_id'' p of
        None \<Rightarrow> (HErr 400 (Required ''device_id''), s)
      | Some device \<Rightarrow> (case str_field ''version'' p of
          None \<Rightarrow> (HErr 400 (Required ''version''), s)
        | Some version \<Rightarrow> (case str_field ''stage'' p of
            None \<Rightarrow> (HErr 400 (Required ''stage''), s)
          | Some stage \<Rightarrow>
              (let (r, s') = record_ota_progress c device version stage (int_field ''progress'' p) (int_field ''attempt'' p) s in
               (HOk r, s'))))))"


section \<open>Build and deploy\<close>

text \<open>\<open>base64.b64decode(..., validate=True)\<close>.\<close>

definition b64_val :: "char \<Rightarrow> nat option" where
  "b64_val ch = (let n = of_char ch :: nat in
     if 65 \<le> n \<and> n \<le> 90 then Some (n - 65)
     else if 97 \<le> n \<and> n \<le> 122 then Some (n - 71)
     else if 48 \<le> n \<and> n \<le> 57 then Some (n + 4)
     else if n = 43 then Some 62
     else if n = 47 then Some 63
     else None)"

fun b64decode :: "string \<Rightarrow> nat list option" where
  "b64decode [] = Some []"
| "b64decode (a # b # c # d # rest) = (case (b64_val a, b64_val b) of
      (Some v, Some w) \<Rightarrow>
        if c = CHR ''='' \<and> d = CHR ''='' \<and> rest = [] then Some [v * 4 + w div 16]
        else (case b64_val c of
            None \<Rightarrow> None
          | Some x \<Rightarrow>
              if d = CHR ''='' \<and> rest = [] then Some [v * 4 + w div 16, (w mod 16) * 16 + x div 4]
              else (case (b64_val d, b64decode rest) of
                  (Some y, Some bs) \<Rightarrow>
                    Some ((v * 4 + w div 16) # ((w mod 16) * 16 + x div 4) # ((x mod 4) * 64 + y) # bs)
                | _ \<Rightarrow> None))
    | _ \<Rightarrow> None)"
| "b64decode _ = None"

text \<open>The group a request names, by id or by its (unique) name.\<close>

definition resolve_group_id :: "hook_ext \<Rightarrow> (string \<times> json) list \<Rightarrow> db \<Rightarrow> uuid hook" where
  "resolve_group_id w p s = (case str_field ''device_group_id'' p of
      Some i \<Rightarrow> (case wx_uuid w i of None \<Rightarrow> HRaise | Some gid \<Rightarrow> HOk gid)
    | None \<Rightarrow> (case str_field ''device_group_name'' p of
        Some name \<Rightarrow> (case find (\<lambda>g. g_name g = name) (db_groups s) of
            None \<Rightarrow> HErr 400 (NoSuchGroup name)
          | Some g \<Rightarrow> HOk (g_id g))
      | None \<Rightarrow> HErr 400 (Required ''device_group'')))"

definition json_strings :: "json list \<Rightarrow> string list option" where
  "json_strings xs = (if list_all (\<lambda>x. case x of JStr _ \<Rightarrow> True | _ \<Rightarrow> False) xs
     then Some (map (\<lambda>x. case x of JStr s \<Rightarrow> s | _ \<Rightarrow> []) xs) else None)"

text \<open>The device types of the upload: the caller's non-empty list (\<open>None\<close> when a member is no text, which
  the model validation raises on), else what the group's devices report.\<close>

definition target_types :: "(string \<times> json) list \<Rightarrow> uuid \<Rightarrow> db \<Rightarrow> string list option" where
  "target_types p gid s = (case jget ''device_types'' p of
      JList xs \<Rightarrow> if xs = [] then Some (group_member_device_types gid s) else json_strings xs
    | _ \<Rightarrow> Some (group_member_device_types gid s))"

text \<open>Where the binary is: the path, and the reader that finds the decoded bytes there.\<close>

definition binary_source :: "hook_ext \<Rightarrow> art_ext \<Rightarrow> (string \<times> json) list \<Rightarrow> (art_ext \<times> string) hook" where
  "binary_source w e p = (case str_field ''artifact_b64'' p of
      Some text \<Rightarrow> (case b64decode text of
          None \<Rightarrow> HErr 400 (BadBase64 ''artifact_b64'')
        | Some data \<Rightarrow> HOk (e\<lparr>ax_read := (ax_read e)(wx_tmp w \<mapsto> data)\<rparr>, wx_tmp w))
    | None \<Rightarrow> (case str_field ''file_path'' p of
        Some path \<Rightarrow> HOk (e, path)
      | None \<Rightarrow> HErr 400 (Required ''artifact_b64'')))"

record build_reply =
  bd_deployment :: uuid
  bd_version :: string
  bd_started :: "start_result reply"

text \<open>What follows a successful upload.\<close>

definition deploy_upload ::
  "ctx \<Rightarrow> (string \<times> json) list \<Rightarrow> string \<Rightarrow> string \<Rightarrow> uuid \<Rightarrow> db \<Rightarrow> build_reply hook \<times> db" where
  "deploy_upload c p version name gid s =
     (let params = \<lparr>cp_name = name, cp_target = version, cp_group = gid, cp_start = None,
            cp_max = (case int_field ''max_devices_in_flight'' p of None \<Rightarrow> 10 | Some n \<Rightarrow> n),
            cp_retries = (case int_field ''retries'' p of None \<Rightarrow> 3 | Some n \<Rightarrow> n),
            cp_phases = None, cp_threshold = fl (5 / 100), cp_soak = 0, cp_confirm = False\<rparr> in
      if \<not> valid_create_params params then (HRaise, s)
      else (case create_deployment c params s of
          (Err e, s1) \<Rightarrow> (HErr 400 (HookCreate e), s1)
        | (Exc x, s1) \<Rightarrow> (HRaise, s1)
        | (Ok info, s1) \<Rightarrow> (case start_deployment c (i_id info) False s1 of
            (Exc x, s2) \<Rightarrow> (HRaise, s2)
          | (started, s2) \<Rightarrow>
              (HOk \<lparr>bd_deployment = i_id info, bd_version = version, bd_started = started\<rparr>, s2))))"

definition build_deploy_hook ::
  "ctx \<Rightarrow> hook_ext \<Rightarrow> art_ext \<Rightarrow> string option \<Rightarrow> json option \<Rightarrow> db \<Rightarrow> build_reply hook \<times> db" where
  "build_deploy_hook c w e header body s = (case hook_body (cx_set c) header body of
      HErr n err \<Rightarrow> (HErr n err, s)
    | HRaise \<Rightarrow> (HRaise, s)
    | HOk p \<Rightarrow> (case str_field ''version'' p of
        None \<Rightarrow> (HErr 400 (Required ''version''), s)
      | Some version \<Rightarrow> (case str_field ''name'' p of
          None \<Rightarrow> (HErr 400 (Required ''name''), s)
        | Some name \<Rightarrow> (case resolve_group_id w p s of
            HErr n err \<Rightarrow> (HErr n err, s)
          | HRaise \<Rightarrow> (HRaise, s)
          | HOk gid \<Rightarrow> (case Option.bind (group_of gid s) g_project of
              None \<Rightarrow> (HErr 400 (GroupHasNoProject gid), s)
            | Some project \<Rightarrow>
                if target_types p gid s = Some [] then (HErr 400 NoDeviceTypes, s)
                else (case binary_source w e p of
                    HErr n err \<Rightarrow> (HErr n err, s)
                  | HRaise \<Rightarrow> (HRaise, s)
                  | HOk (e', path) \<Rightarrow>
                      if str_field ''elf_b64'' p \<noteq> None \<and> b64decode (the (str_field ''elf_b64'' p)) = None
                      then (HErr 400 (BadBase64 ''elf_b64''), s)
                      else (case target_types p gid s of
                          None \<Rightarrow> (HRaise, s)
                        | Some types \<Rightarrow>
                            (let (up, s1) = upload_artifact_impl c e'
                               \<lparr>up_version = version, up_types = types, up_file = path, up_sign_key = None,
                                up_build = str_field ''build_id'' p, up_release = str_field ''release_version'' p\<rparr>
                               (group_is_mock_only gid s) s in
                             case up of
                               Inl err \<Rightarrow> (HErr 400 (HookUpload err), s1)
                             | Inr row \<Rightarrow> deploy_upload c p version name gid s1))))))))"


section \<open>Mock targets\<close>

definition enrol_device ::
  "ctx \<Rightarrow> hook_ext \<Rightarrow> string \<Rightarrow> string \<Rightarrow> string \<Rightarrow> db \<Rightarrow> string hook \<times> db" where
  "enrol_device c w device project device_type s = (case device_of device s of
      Some row \<Rightarrow>
        if d_project row = None \<and> (case wx_uuid w project of None \<Rightarrow> True | Some pr \<Rightarrow> \<not> wx_project_ok w pr)
        then (HRaise, s)
        else
          (HOk (or_else (d_type row) device_type),
           upd_device device (\<lambda>d. d\<lparr>d_status := DAccepted,
               d_project := (if d_project row = None then wx_uuid w project else d_project d),
               d_type := (if strip (or_else (d_type row) []) = [] then Some device_type else d_type d)\<rparr>) s)
    | None \<Rightarrow> (case wx_uuid w project of
        None \<Rightarrow> (HErr 502 DeviceUpsertFailed, s)
      | Some pr \<Rightarrow>
          if \<not> wx_project_ok w pr then (HErr 502 DeviceUpsertFailed, s)
          else (HOk device_type, s\<lparr>db_devices := db_devices s @
             [\<lparr>d_id = device, d_name = device, d_conn = ''offline'', d_agent = False, d_identity = [], d_key = None,
               d_status = DAccepted, d_tags = [], d_current = None, d_firmware = Some ''0.0.0'',
               d_type = Some device_type, d_project = Some pr, d_created = cx_now c\<rparr>]\<rparr>)))"

text \<open>The name of a group is unique over all projects.\<close>

definition find_or_create_group ::
  "ctx \<Rightarrow> hook_ext \<Rightarrow> string \<Rightarrow> string \<Rightarrow> db \<Rightarrow> uuid hook \<times> db" where
  "find_or_create_group c w name project s = (case wx_uuid w project of
      None \<Rightarrow> (HRaise, s)
    | Some pr \<Rightarrow> (case find (\<lambda>g. g_name g = name \<and> g_project g = Some pr) (db_groups s) of
        Some g \<Rightarrow> (HOk (g_id g), s)
      | None \<Rightarrow>
          (let (gid, s1) = fresh_uuid s in
           if name \<in> set (map g_name (db_groups s)) \<or> \<not> wx_project_ok w pr then (HErr 502 GroupCreateFailed, s1)
           else (HOk gid, s1\<lparr>db_groups := db_groups s1 @
              [\<lparr>g_id = gid, g_name = name, g_filter = [], g_project = Some pr, g_created = cx_now c\<rparr>]\<rparr>))))"

record target_reply =
  tg_group :: uuid
  tg_device :: string
  tg_type :: string

definition asked_type :: "hook_ext \<Rightarrow> (string \<times> json) list \<Rightarrow> string" where
  "asked_type w p = (if jtruthy (jget ''device_type'' p) then wx_text w (jget ''device_type'' p) else ''nff-mock-esp32'')"

definition ensure_mock_target_hook ::
  "ctx \<Rightarrow> hook_ext \<Rightarrow> string option \<Rightarrow> json option \<Rightarrow> db \<Rightarrow> target_reply hook \<times> db" where
  "ensure_mock_target_hook c w header body s = (case hook_body (cx_set c) header body of
      HErr n err \<Rightarrow> (HErr n err, s)
    | HRaise \<Rightarrow> (HRaise, s)
    | HOk p \<Rightarrow>
        (let device_type = asked_type w p in
         case str_field ''device_id'' p of
           None \<Rightarrow> (HErr 400 (Required ''device_id''), s)
         | Some device \<Rightarrow> (case str_field ''project_id'' p of
             None \<Rightarrow> (HErr 400 (Required ''project_id''), s)
           | Some project \<Rightarrow> (case str_field ''group_name'' p of
               None \<Rightarrow> (HErr 400 (Required ''group_name''), s)
             | Some name \<Rightarrow> (case enrol_device c w device project device_type s of
                 (HErr n err, s1) \<Rightarrow> (HErr n err, s1)
               | (HRaise, s1) \<Rightarrow> (HRaise, s1)
               | (HOk ty, s1) \<Rightarrow> (case find_or_create_group c w name project s1 of
                   (HErr n err, s2) \<Rightarrow> (HErr n err, s2)
                 | (HRaise, s2) \<Rightarrow> (HRaise, s2)
                 | (HOk gid, s2) \<Rightarrow>
                     (HOk \<lparr>tg_group = gid, tg_device = device, tg_type = ty\<rparr>,
                      case insert_members [(gid, device)] s2 of None \<Rightarrow> s2 | Some s3 \<Rightarrow> s3)))))))"


section \<open>Firmware source\<close>

definition source_fields :: "(string \<times> json) list \<Rightarrow> (string \<times> string \<times> string) hook" where
  "source_fields p = (case str_field ''device_id'' p of
      None \<Rightarrow> HErr 400 (Required ''device_id'')
    | Some device \<Rightarrow> (case str_field ''version'' p of
        None \<Rightarrow> HErr 400 (Required ''version'')
      | Some version \<Rightarrow> (case str_field ''source'' p of
          None \<Rightarrow> HErr 400 (Required ''source'')
        | Some source \<Rightarrow> HOk (device, version, source))))"

definition firmware_seed_hook ::
  "ctx \<Rightarrow> fix_ext \<Rightarrow> string option \<Rightarrow> json option \<Rightarrow> fix_state \<Rightarrow> (uuid \<times> string \<times> bool) hook \<times> fix_state" where
  "firmware_seed_hook c x header body s = (case hook_body (cx_set c) header body of
      HErr n err \<Rightarrow> (HErr n err, s)
    | HRaise \<Rightarrow> (HRaise, s)
    | HOk p \<Rightarrow> (case source_fields p of
        HErr n err \<Rightarrow> (HErr n err, s)
      | HRaise \<Rightarrow> (HRaise, s)
      | HOk (device, version, source) \<Rightarrow>
          (case build_and_deploy_source c x device version source ''seed'' None s of
             (None, s') \<Rightarrow> (HRaise, s')
           | (Some (Inl e), s') \<Rightarrow> (HErr 400 (HookFix e), s')
           | (Some (Inr r), s') \<Rightarrow> (HOk r, s'))))"

definition register_source_hook ::
  "ctx \<Rightarrow> fix_ext \<Rightarrow> string option \<Rightarrow> json option \<Rightarrow> fix_state \<Rightarrow> (string \<times> string \<times> bool) hook \<times> fix_state" where
  "register_source_hook c x header body s = (case hook_body (cx_set c) header body of
      HErr n err \<Rightarrow> (HErr n err, s)
    | HRaise \<Rightarrow> (HRaise, s)
    | HOk p \<Rightarrow> (case source_fields p of
        HErr n err \<Rightarrow> (HErr n err, s)
      | HRaise \<Rightarrow> (HRaise, s)
      | HOk (device, version, source) \<Rightarrow>
          (case register_source c x device version source ''seed'' None s of
             (Inl e, s') \<Rightarrow> (HErr 400 (HookFix e), s')
           | (Inr r, s') \<Rightarrow> (HOk r, s'))))"


section \<open>The routes\<close>

datatype hook_value =
    Finalize finalize_reply
  | Progress progress_reply
  | Deploy build_reply
  | Target target_reply
  | Seeded uuid string bool
  | Registered string string bool

definition on_db :: "('a \<Rightarrow> 'b) \<Rightarrow> (db \<Rightarrow> 'a hook \<times> db) \<Rightarrow> fix_state \<Rightarrow> 'b hook \<times> fix_state" where
  "on_db f g s = (let (r, d) = g (fs_db s) in (map_hook f r, s\<lparr>fs_db := d\<rparr>))"

text \<open>\<open>register\<close>: a path that is not registered is a 404 of the framework, here \<open>None\<close>.\<close>

definition hook_route ::
  "ctx \<Rightarrow> hook_ext \<Rightarrow> art_ext \<Rightarrow> fix_ext \<Rightarrow> string \<Rightarrow> string option \<Rightarrow> json option \<Rightarrow> fix_state \<Rightarrow>
     (hook_value hook \<times> fix_state) option" where
  "hook_route c w e x path header body s =
     (if path = ''/internal/ota-result'' then Some (on_db Finalize (ota_result_hook c header body) s)
      else if path = ''/internal/ota-progress'' then Some (on_db Progress (ota_progress_hook c header body) s)
      else if path = ''/internal/build-deploy'' then Some (on_db Deploy (build_deploy_hook c w e header body) s)
      else if path = ''/internal/ensure-mock-target'' then Some (on_db Target (ensure_mock_target_hook c w header body) s)
      else if path = ''/internal/firmware/seed'' then
        (let (r, s') = firmware_seed_hook c x header body s in Some (map_hook (\<lambda>(d, v, f). Seeded d v f) r, s'))
      else if path = ''/internal/firmware/register-source'' then
        (let (r, s') = register_source_hook c x header body s in Some (map_hook (\<lambda>(v, b, f). Registered v b f) r, s'))
      else None)"



section \<open>Who may call\<close>

lemma hook_body_cases:
  "hook_body st header body = (if \<not> hook_secret_ok st header then HErr 401 Unauthorized
     else if body = None then HErr 400 InvalidJson
     else case the body of JObj p \<Rightarrow> HOk p | _ \<Rightarrow> HRaise)"
  by (auto simp: hook_body_def split: option.split json.split)

text \<open>The answer to a request that is turned away before its body is looked into.\<close>

fun turned_away :: "(string \<times> json) list hook \<Rightarrow> 'a hook \<Rightarrow> bool" where
  "turned_away (HOk p) r = True"
| "turned_away (HErr n e) r = (r = HErr n e)"
| "turned_away HRaise r = (r = HRaise)"

lemmas handler_defs = ota_result_hook_def ota_progress_hook_def build_deploy_hook_def ensure_mock_target_hook_def
  firmware_seed_hook_def register_source_hook_def

lemma hook_route_turned_away:
  assumes "hook_route c w e x path header body s = Some (r, s')" and "\<And>p. hook_body (cx_set c) header body \<noteq> HOk p"
  shows "turned_away (hook_body (cx_set c) header body) r \<and> s' = s"
proof (cases "hook_body (cx_set c) header body")
  case (HErr n err)
  then show ?thesis using assms(1)
    by (auto simp: hook_route_def on_db_def handler_defs Let_def split: if_splits)
next
  case HRaise
  then show ?thesis using assms(1)
    by (auto simp: hook_route_def on_db_def handler_defs Let_def split: if_splits)
qed (use assms(2) in simp)

text \<open>
  C24. No route acts without the shared secret. On every registered path, a request is answered 401 and
  changes nothing unless a secret is configured and the header carries exactly it; a request that has it
  but no JSON body is answered 400, one whose body is no object raises, and neither changes anything.
\<close>

theorem hooks_guarded:
  assumes "hook_route c w e x path header body s = Some (r, s')"
  shows "(if s_fleet_secret (cx_set c) = [] \<or> header \<noteq> Some (s_fleet_secret (cx_set c)) then r = HErr 401 Unauthorized \<and> s' = s
     else (case body of None \<Rightarrow> r = HErr 400 InvalidJson \<and> s' = s | Some (JObj p) \<Rightarrow> True | Some _ \<Rightarrow> r = HRaise \<and> s' = s))"
proof -
  have sec: "hook_secret_ok (cx_set c) header \<longleftrightarrow>
      \<not> (s_fleet_secret (cx_set c) = [] \<or> header \<noteq> Some (s_fleet_secret (cx_set c)))"
    by (cases header) (auto simp: hook_secret_ok_def Let_def or_else_def)
  show ?thesis
  proof (cases "\<exists>p. hook_body (cx_set c) header body = HOk p")
    case True
    then show ?thesis using sec by (auto simp: hook_body_def split: if_splits option.splits json.splits)
  next
    case False
    with hook_route_turned_away [OF assms] have t: "turned_away (hook_body (cx_set c) header body) r" "s' = s" by auto
    show ?thesis using t False sec by (auto simp: hook_body_def split: if_splits option.splits json.splits)
  qed
qed


section \<open>Enrolling a mock\<close>

lemma look_append:
  "look_key key k (rs @ [r]) = (case look_key key k rs of Some x \<Rightarrow> Some x | None \<Rightarrow> if key r = k then Some r else None)"
  by (induction rs) (auto simp: look_key_def)

lemma find_append:
  "find P (rs @ [r]) = (case find P rs of Some x \<Rightarrow> Some x | None \<Rightarrow> if P r then Some r else None)"
  by (induction rs) auto

lemma upd_key_same:
  assumes "\<And>r. r \<in> set rs \<Longrightarrow> key r = k \<Longrightarrow> f r = r"
  shows "upd_key key k f rs = rs"
  using assms by (induction rs) (auto simp: upd_key_def update_where_def)

lemma upd_device_ids: "(\<And>r. d_id (f r) = d_id r) \<Longrightarrow> map d_id (db_devices (upd_device i f s)) = map d_id (db_devices s)"
  by (simp add: upd_device_def keys_upd_key)

lemma strip_ne: "strip ty \<noteq> [] \<Longrightarrow> ty \<noteq> []"
  by (auto simp: strip_def lstrip_def)

lemma device_of_distinct:
  assumes "distinct (map d_id (db_devices s))" and "device_of i s = Some d" and "r \<in> set (db_devices s)" and "d_id r = i"
  shows "r = d"
  using assms look_key_Some [of d_id i "db_devices s" d] by (auto dest: inj_onD simp: distinct_map)

text \<open>A device that a later enrolment of the same kind leaves as it is.\<close>

definition ready :: "device_row \<Rightarrow> bool" where
  "ready d \<longleftrightarrow> d_status d = DAccepted \<and> d_project d \<noteq> None \<and> strip (or_else (d_type d) []) \<noteq> []"

lemma enrol_device_Ok:
  assumes "enrol_device c w device project ty s = (HOk ty', s1)" and "strip ty \<noteq> []"
    and "distinct (map d_id (db_devices s))"
  shows "\<exists>d. device_of device s1 = Some d \<and> ready d"
    and "db_groups s1 = db_groups s" and "db_members s1 = db_members s" and "db_next s1 = db_next s"
    and "distinct (map d_id (db_devices s1))"
proof -
  note ne = strip_ne [OF assms(2)]
  have "(\<exists>d. device_of device s1 = Some d \<and> ready d) \<and> distinct (map d_id (db_devices s1))"
  proof (cases "device_of device s")
    case None
    then have "device \<notin> set (map d_id (db_devices s))" by (auto simp: look_key_def find_None_iff)
    then show ?thesis using None assms ne
      by (auto simp: enrol_device_def look_append ready_def split: option.splits if_splits)
  next
    case (Some row)
    then show ?thesis using assms ne
      by (auto simp: enrol_device_def device_of_upd_device ready_def upd_device_ids split: option.splits if_splits)
  qed
  then show "\<exists>d. device_of device s1 = Some d \<and> ready d" "distinct (map d_id (db_devices s1))" by auto
  show "db_groups s1 = db_groups s" "db_members s1 = db_members s" "db_next s1 = db_next s"
    using assms(1) by (auto simp: enrol_device_def split: option.splits if_splits)
qed

lemma enrol_device_again:
  assumes "device_of device s = Some d" and "ready d" and "distinct (map d_id (db_devices s))"
  shows "enrol_device c w device project ty s = (HOk (or_else (d_type d) ty), s)"
proof -
  have "upd_device device (\<lambda>r. r\<lparr>d_status := DAccepted, d_project := d_project r, d_type := d_type r\<rparr>) s = s"
    unfolding upd_device_def
    by (subst upd_key_same) (use assms device_of_distinct [OF assms(3,1)] in \<open>auto simp: ready_def\<close>)
  then show ?thesis using assms(1,2) by (auto simp: enrol_device_def ready_def)
qed

lemma find_or_create_Ok:
  assumes "find_or_create_group c w name project s = (HOk gid, s2)"
  shows "\<exists>pr g. wx_uuid w project = Some pr \<and> find (\<lambda>g. g_name g = name \<and> g_project g = Some pr) (db_groups s2) = Some g \<and> g_id g = gid"
    and "db_devices s2 = db_devices s" and "db_members s2 = db_members s"
  using assms by (auto simp: find_or_create_group_def Let_def fresh_uuid_def find_append split: option.splits if_splits)

lemma find_or_create_again:
  assumes "wx_uuid w project = Some pr" and "find (\<lambda>g. g_name g = name \<and> g_project g = Some pr) (db_groups s) = Some g"
  shows "find_or_create_group c w name project s = (HOk (g_id g), s)"
  using assms by (simp add: find_or_create_group_def)

text \<open>
  Enrolling a mock makes it a target, and doing it again changes nothing. After a successful call
  the device is accepted and has a project and a type, the named group exists in the given project, the
  device is a member of it, so it is among the devices a deployment to the group resolves; and the same
  request repeated succeeds with the same group and leaves the database as it is.
\<close>

theorem mock_target_ready:
  assumes "ensure_mock_target_hook c w header (Some (JObj p)) s = (HOk r, s')"
    and "strip (asked_type w p) \<noteq> []" and "distinct (map d_id (db_devices s))"
  shows "(\<exists>d g. device_of (tg_device r) s' = Some d \<and> ready d \<and>
      g \<in> set (db_groups s') \<and> g_id g = tg_group r \<and> Some (g_name g) = str_field ''group_name'' p \<and>
      g_project g = wx_uuid w (the (str_field ''project_id'' p)) \<and>
      (\<exists>ds. resolve_accepted_devices (tg_group r) s' = Inr ds \<and> d \<in> set ds)) \<and>
    (\<exists>ty. ensure_mock_target_hook c w header (Some (JObj p)) s' = (HOk (r\<lparr>tg_type := ty\<rparr>), s'))"
proof -
  have hb: "hook_body (cx_set c) header (Some (JObj p)) = HOk p"
    using assms(1) by (auto simp: ensure_mock_target_hook_def hook_body_def split: if_splits)
  obtain device project name ty s1 gid s2 where f: "str_field ''device_id'' p = Some device"
    "str_field ''project_id'' p = Some project" "str_field ''group_name'' p = Some name"
    and e: "enrol_device c w device project (asked_type w p) s = (HOk ty, s1)"
    and g: "find_or_create_group c w name project s1 = (HOk gid, s2)"
    and r: "r = \<lparr>tg_group = gid, tg_device = device, tg_type = ty\<rparr>"
    and s': "s' = (case insert_members [(gid, device)] s2 of None \<Rightarrow> s2 | Some s3 \<Rightarrow> s3)"
    using assms(1) hb
    by (auto simp: ensure_mock_target_hook_def Let_def split: option.splits prod.splits hook.splits)
  note e' = enrol_device_Ok [OF e assms(2,3)] and g' = find_or_create_Ok [OF g]
  obtain d where d: "device_of device s1 = Some d" "ready d" using e'(1) by blast
  obtain pr gr where gr: "wx_uuid w project = Some pr"
    "find (\<lambda>g. g_name g = name \<and> g_project g = Some pr) (db_groups s2) = Some gr" "g_id gr = gid" using g'(1) by blast
  have ins: "db_devices s' = db_devices s1" "db_groups s' = db_groups s2"
    unfolding s' by (simp_all add: insert_members_def g'(2))
  have dev: "device_of device s' = Some d" "distinct (map d_id (db_devices s'))" using d(1) e'(5) ins by simp_all
  note din = look_key_Some [OF dev(1)]
  have mem: "(gid, device) \<in> set (db_members s')"
    using din ins(1) g'(2) unfolding s' by (auto simp: insert_members_def)
  have again: "insert_members [(gid, device)] s' = None" using mem by (simp add: insert_members_def)
  have grs: "find (\<lambda>g. g_name g = name \<and> g_project g = Some pr) (db_groups s') = Some gr" using gr(2) ins(2) by simp
  have gin: "gr \<in> set (db_groups s')" "g_name gr = name" "g_project gr = Some pr"
    using grs by (auto simp: find_Some_iff)
  have ids: "device \<in> set (member_ids gid s')" using mem by (simp add: member_ids_iff)
  have acc: "\<exists>ds. resolve_accepted_devices gid s' = Inr ds \<and> d \<in> set ds"
  proof -
    let ?ds = "filter (\<lambda>d. d_id d \<in> set (member_ids gid s') \<and> d_status d = DAccepted) (db_devices s')"
    have "d \<in> set ?ds" using din ids d(2) by (simp add: ready_def)
    then have "resolve_accepted_devices gid s' = Inr ?ds"
      using ids by (auto simp: resolve_accepted_devices_def Let_def filter_empty_conv)
    then show ?thesis using \<open>d \<in> set ?ds\<close> by blast
  qed
  have "ensure_mock_target_hook c w header (Some (JObj p)) s' =
      (HOk \<lparr>tg_group = gid, tg_device = device, tg_type = or_else (d_type d) (asked_type w p)\<rparr>, s')"
    unfolding ensure_mock_target_hook_def hb hook.case Let_def f option.case
      enrol_device_again [OF dev(1) d(2) dev(2)] prod.case find_or_create_again [OF gr(1) grs] again gr(3) ..
  then have rep: "\<exists>ty. ensure_mock_target_hook c w header (Some (JObj p)) s' = (HOk (r\<lparr>tg_type := ty\<rparr>), s')"
    using r by simp
  show ?thesis using dev(1) d(2) gin gr(1,3) acc rep f r by auto
qed

text \<open>
  A group name can belong to one project only, so a second project cannot enrol its mocks under
  it. When another project has a group of that name and this one has none, every call fails, with 502;
  it has then already accepted the device, whatever the device's status was.
\<close>

theorem group_name_taken:
  assumes "hook_body (cx_set c) header (Some (JObj p)) = HOk p"
    and "str_field ''device_id'' p = Some device" and "str_field ''project_id'' p = Some project"
    and "str_field ''group_name'' p = Some name" and "wx_uuid w project = Some pr"
    and "g \<in> set (db_groups s)" and "g_name g = name" and "filter (\<lambda>g. g_name g = name \<and> g_project g = Some pr) (db_groups s) = []"
    and "device_of device s = Some d" and "d_project d \<noteq> None"
  shows "fst (ensure_mock_target_hook c w header (Some (JObj p)) s) = HErr 502 GroupCreateFailed \<and>
    (\<exists>d'. device_of device (snd (ensure_mock_target_hook c w header (Some (JObj p)) s)) = Some d' \<and> d_status d' = DAccepted)"
proof -
  obtain s1 where e: "enrol_device c w device project (asked_type w p) s = (HOk (or_else (d_type d) (asked_type w p)), s1)"
    and s1: "db_groups s1 = db_groups s" "\<exists>d'. device_of device s1 = Some d' \<and> d_status d' = DAccepted"
    using assms(9,10) by (auto simp: enrol_device_def device_of_upd_device)
  have "find (\<lambda>g. g_name g = name \<and> g_project g = Some pr) (db_groups s1) = None"
    using assms(8) s1(1) by (simp add: find_None_iff filter_empty_conv)
  then have g: "find_or_create_group c w name project s1 = (HErr 502 GroupCreateFailed, s1\<lparr>db_next := Suc (db_next s1)\<rparr>)"
    using assms(5,6,7) s1(1) by (auto simp: find_or_create_group_def fresh_uuid_def)
  have "ensure_mock_target_hook c w header (Some (JObj p)) s = (HErr 502 GroupCreateFailed, s1\<lparr>db_next := Suc (db_next s1)\<rparr>)"
    unfolding ensure_mock_target_hook_def assms(1) hook.case Let_def assms(2-4) option.case e prod.case g ..
  then show ?thesis using s1(2) by simp
qed


section \<open>A concrete request\<close>

definition sample_hook_ext :: hook_ext where
  "sample_hook_ext = \<lparr>wx_uuid = (\<lambda>t. if t = ''1'' then Some 1 else if t = ''2'' then Some 2 else None), wx_text = (\<lambda>v. ''t''),
     wx_project_ok = (\<lambda>i. True), wx_tmp = ''/tmp/x''\<rparr>"

definition enrol_request :: "string \<Rightarrow> (string \<times> json) list" where
  "enrol_request project = [(''device_id'', JStr ''d1''), (''project_id'', JStr project), (''group_name'', JStr ''g'')]"

lemma enrol_request_fields: "str_field ''device_id'' (enrol_request q) = Some ''d1''"
  "q \<noteq> [] \<Longrightarrow> str_field ''project_id'' (enrol_request q) = Some q" "str_field ''group_name'' (enrol_request q) = Some ''g''"
  "asked_type sample_hook_ext (enrol_request q) = ''nff-mock-esp32''"
  by (simp_all add: enrol_request_def str_field_def asked_type_def)

lemma sample_authorized: "hook_body (cx_set sample_ctx) (Some ''k'') (Some (JObj p)) = HOk p"
  by (simp add: hook_body_def hook_secret_ok_def sample_ctx_def sample_settings_def)

theorem hooks_guarded_witness:
  "\<forall>w e x s. hook_route sample_ctx w e x ''/internal/ota-result'' (Some ''bad'') None s = Some (HErr 401 Unauthorized, s)"
proof (intro allI)
  fix w e x s
  obtain r s' where r: "hook_route sample_ctx w e x ''/internal/ota-result'' (Some ''bad'') None s = Some (r, s')"
    by (simp add: hook_route_def) (metis surj_pair)
  from hooks_guarded [OF r] r show "hook_route sample_ctx w e x ''/internal/ota-result'' (Some ''bad'') None s =
      Some (HErr 401 Unauthorized, s)" by (simp add: sample_ctx_def sample_settings_def)
qed

theorem mock_target_ready_witness:
  "\<exists>r s'. ensure_mock_target_hook sample_ctx sample_hook_ext (Some ''k'') (Some (JObj (enrol_request ''1'')))
     (sample_db JPending JPending JPending) = (HOk r, s') \<and> (\<exists>d. device_of (tg_device r) s' = Some d \<and> ready d)"
proof -
  let ?s = "sample_db JPending JPending JPending"
  have dev: "device_of ''d1'' ?s = Some (sample_device ''d1'')" by (simp add: sample_db_def sample_device_def look_key_def)
  have uu: "wx_uuid sample_hook_ext ''1'' = Some 1" by (simp add: sample_hook_ext_def)
  have pr: "d_project (sample_device ''d1'') = Some 1" by (simp add: sample_device_def)
  obtain ty s1 where e: "enrol_device sample_ctx sample_hook_ext ''d1'' ''1'' ''nff-mock-esp32'' ?s = (HOk ty, s1)"
    "db_groups s1 = db_groups ?s"
    using dev pr by (simp add: enrol_device_def)
  obtain gid s2 where g: "find_or_create_group sample_ctx sample_hook_ext ''g'' ''1'' s1 = (HOk gid, s2)"
    using e(2) uu by (simp add: find_or_create_group_def sample_db_def)
  have run: "\<exists>r s'. ensure_mock_target_hook sample_ctx sample_hook_ext (Some ''k'') (Some (JObj (enrol_request ''1''))) ?s = (HOk r, s')"
    by (simp add: ensure_mock_target_hook_def sample_authorized enrol_request_fields e(1) g)
  have st: "strip (asked_type sample_hook_ext (enrol_request ''1'')) \<noteq> []"
    by (simp add: enrol_request_fields strip_def lstrip_def is_space_def)
  have di: "distinct (map d_id (db_devices ?s))" by (simp add: sample_db_def sample_device_def)
  from run mock_target_ready [OF _ st di] show ?thesis by blast
qed

theorem group_name_taken_witness:
  "fst (ensure_mock_target_hook sample_ctx sample_hook_ext (Some ''k'') (Some (JObj (enrol_request ''2'')))
     (sample_db JPending JPending JPending)) = HErr 502 GroupCreateFailed"
proof -
  let ?s = "sample_db JPending JPending JPending"
  let ?g = "\<lparr>g_id = 10, g_name = ''g'', g_filter = [], g_project = Some 1, g_created = 0\<rparr>"
  have dev: "device_of ''d1'' ?s = Some (sample_device ''d1'')" by (simp add: sample_db_def sample_device_def look_key_def)
  have pr: "d_project (sample_device ''d1'') \<noteq> None" by (simp add: sample_device_def)
  have uu: "wx_uuid sample_hook_ext ''2'' = Some 2" by (simp add: sample_hook_ext_def)
  have g: "?g \<in> set (db_groups ?s)" "g_name ?g = ''g''"
    "filter (\<lambda>g. g_name g = ''g'' \<and> g_project g = Some 2) (db_groups ?s) = []" by (simp_all add: sample_db_def)
  have q: "str_field ''project_id'' (enrol_request ''2'') = Some ''2''" by (simp add: enrol_request_fields)
  from group_name_taken [OF sample_authorized enrol_request_fields(1) q enrol_request_fields(3) uu g dev pr]
  show ?thesis by blast
qed

end
