(* ===== verification/Broker_Acl.thy ===== *)
theory Broker_Acl
  imports Json "HOL-Library.AList"
begin

text \<open>
  nff-fleet's MQTT broker: who a connection is (\<open>broker/auth.py\<close>), which topics it may use
  (\<open>broker/acl.py\<close>), which retained messages it is replayed (\<open>broker/broker.py\<close>), the topic names
  devices and services build (\<open>nff_mock_core/mqtt.py\<close>, \<open>enroll_worker.py\<close>), and the checks of the
  internal HTTP surface that hands out the identities (\<open>control.py\<close>).

  A connection is a \<open>peer\<close>: the internal listener, or a TLS client with no certificate, an
  unparseable one, or a chain-validated one reduced to the four attributes the code reads. The MQTT
  matching of filters and topics belongs to the broker library: it is the argument \<open>matches\<close> of the
  definitions and theorems that need it, with two documented facts about it as hypotheses.
\<close>

section \<open>Identity\<close>

record cert =
  ce_batch_marker :: bool
  ce_batch :: "string option"
  ce_cn :: "string option"
  ce_project :: "string option"

datatype peer = InternalListener | NoCert | BadCert | Cert cert

text \<open>What \<open>authenticate\<close> leaves on the session: \<open>_nff_identity\<close> and \<open>_nff_batch\<close>.\<close>

record session =
  se_identity :: "(string \<times> string) option"
  se_batch :: "string option"

definition INTERNAL :: string where "INTERNAL = ''*''"

definition BOOTSTRAP_SENTINEL :: string where "BOOTSTRAP_SENTINEL = ''_bootstrap''"

definition no_session :: session where
  "no_session = \<lparr>se_identity = None, se_batch = None\<rparr>"

definition authenticate :: "peer \<Rightarrow> string option \<Rightarrow> bool \<times> session" where
  "authenticate peer client_id = (case peer of
      InternalListener \<Rightarrow> (True, no_session\<lparr>se_identity := Some (INTERNAL, or_else client_id [])\<rparr>)
    | NoCert \<Rightarrow> (False, no_session)
    | BadCert \<Rightarrow> (False, no_session)
    | Cert cert \<Rightarrow>
        if ce_batch_marker cert then
          (if \<not> truthy (ce_batch cert) \<or> \<not> truthy client_id then (False, no_session)
           else (True, no_session\<lparr>se_identity := Some (BOOTSTRAP_SENTINEL, the client_id),
                   se_batch := ce_batch cert\<rparr>))
        else if \<not> truthy (ce_cn cert) \<or> \<not> truthy (ce_project cert) then (False, no_session)
        else if client_id \<noteq> ce_cn cert then (False, no_session)
        else (True, no_session\<lparr>se_identity := Some (the (ce_project cert), the (ce_cn cert))\<rparr>))"


section \<open>Topics\<close>

abbreviation levels :: "string \<Rightarrow> string list" where
  "levels \<equiv> split_on (CHR ''/'')"

definition topic_scope :: "string \<Rightarrow> (string \<times> string) option" where
  "topic_scope topic =
     (let parts = levels topic in
      if length parts < 4 \<or> parts ! 0 \<noteq> ''nff'' \<or> parts ! 2 \<noteq> ''devices'' then None
      else if parts ! 1 = [] \<or> parts ! 3 = [] then None
      else Some (parts ! 1, parts ! 3))"

definition topic_allowed :: "session \<Rightarrow> string \<Rightarrow> bool" where
  "topic_allowed session topic = (case se_identity session of
      None \<Rightarrow> False
    | Some (project_id, device_id) \<Rightarrow>
        if project_id = INTERNAL then True
        else if project_id = BOOTSTRAP_SENTINEL then
          (let parts = levels topic in
           se_batch session \<noteq> None \<and> length parts \<ge> 4 \<and> parts ! 0 = ''nff'' \<and>
           parts ! 1 = ''_bootstrap'' \<and> parts ! 2 = the (se_batch session) \<and> parts ! 3 = device_id)
        else (case topic_scope topic of
            None \<Rightarrow> False
          | Some (t_project, t_device) \<Rightarrow> t_project = project_id \<and> t_device = device_id))"

definition topic_filtering :: "session option \<Rightarrow> string option \<Rightarrow> bool" where
  "topic_filtering session topic = (case (session, topic) of
      (Some s, Some t) \<Rightarrow> topic_allowed s t | _ \<Rightarrow> False)"

definition retained_replay ::
  "(string \<Rightarrow> string \<Rightarrow> bool) \<Rightarrow> session \<Rightarrow> string \<Rightarrow> (string \<times> 'm) list \<Rightarrow> (string \<times> 'm) list" where
  "retained_replay matches session topic_filter retained =
     filter (\<lambda>(topic, m). matches topic topic_filter \<and> topic_allowed session topic) retained"

definition device_topic :: "string \<Rightarrow> string \<Rightarrow> string \<Rightarrow> string" where
  "device_topic project_id device_id leaf =
     ''nff/'' @ project_id @ ''/devices/'' @ device_id @ ''/'' @ leaf"

definition topic_heartbeat :: "string \<Rightarrow> string \<Rightarrow> string" where
  "topic_heartbeat project_id device_id = device_topic project_id device_id ''heartbeat''"

definition topic_cmd :: "string \<Rightarrow> string \<Rightarrow> string" where
  "topic_cmd project_id device_id = device_topic project_id device_id ''cmd''"

definition topic_response :: "string \<Rightarrow> string \<Rightarrow> string" where
  "topic_response project_id device_id = device_topic project_id device_id ''response''"

definition topic_crash :: "string \<Rightarrow> string \<Rightarrow> string" where
  "topic_crash project_id device_id = device_topic project_id device_id ''crash''"

text \<open>Where the enrolment worker publishes a device's operational credentials, private key included.\<close>

definition rollover_topic :: "string \<Rightarrow> string \<Rightarrow> string" where
  "rollover_topic batch_id hwid = ''nff/_bootstrap/'' @ batch_id @ ''/'' @ hwid @ ''/cmd''"


section \<open>The internal HTTP surface\<close>

definition secret_ok :: "string \<Rightarrow> string option \<Rightarrow> bool" where
  "secret_ok mcp_secret header = (let provided = or_else header [] in provided \<noteq> [] \<and> provided = mcp_secret)"

definition valid_device_id :: "json \<Rightarrow> bool" where
  "valid_device_id v = (case v of
      JStr s \<Rightarrow> s \<noteq> [] \<and> CHR ''/'' \<notin> set s \<and> char_of (92::nat) \<notin> set s \<and> s \<noteq> ''.'' \<and> s \<noteq> ''..''
    | _ \<Rightarrow> False)"

definition is_dict :: "json \<Rightarrow> bool" where
  "is_dict v = (case v of JObj _ \<Rightarrow> True | _ \<Rightarrow> False)"

text \<open>What a request may make the service do, after all checks have passed.\<close>

datatype control_action =
    SendCommand string "(string \<times> json) list" string "json option"
  | IssueDeviceCert string string
  | RemoveCredentials string
  | InjectCrash string "(string \<times> json) list"

definition jstr :: "json \<Rightarrow> string" where
  "jstr v = (case v of JStr s \<Rightarrow> s | _ \<Rightarrow> [])"

text \<open>The body is \<open>None\<close> when it is not JSON; otherwise it is the decoded object.\<close>

definition deliver_command ::
  "string \<Rightarrow> string option \<Rightarrow> (string \<times> json) list option \<Rightarrow> nat + control_action" where
  "deliver_command secret header request =
     (if \<not> secret_ok secret header then Inl 401
      else (case request of
        None \<Rightarrow> Inl 400
      | Some body \<Rightarrow>
          (let device_id = jget ''device_id'' body; payload = jget ''payload'' body;
               project_id = jget ''project_id'' body; timeout = jget ''timeout'' body in
           if jstr device_id = [] then Inl 400
           else if \<not> valid_device_id project_id then Inl 400
           else (case payload of
               JObj d \<Rightarrow>
                 if map_of d ''action'' = None then Inl 400
                 else if timeout \<noteq> JNull \<and> jnum timeout = None then Inl 400
                 else Inr (SendCommand (jstr device_id) d (jstr project_id)
                        (if timeout = JNull then None else Some timeout))
             | _ \<Rightarrow> Inl 400))))"

definition provision_device ::
  "string \<Rightarrow> string option \<Rightarrow> (string \<times> json) list option \<Rightarrow> nat + control_action" where
  "provision_device secret header request =
     (if \<not> secret_ok secret header then Inl 401
      else (case request of
        None \<Rightarrow> Inl 400
      | Some body \<Rightarrow>
          (let device_id = jget ''device_id'' body; project_id = jget ''project_id'' body in
           if \<not> valid_device_id device_id then Inl 400
           else if \<not> valid_device_id project_id then Inl 400
           else Inr (IssueDeviceCert (jstr device_id) (jstr project_id)))))"

definition deprovision_device ::
  "string \<Rightarrow> string option \<Rightarrow> (string \<times> json) list option \<Rightarrow> nat + control_action" where
  "deprovision_device secret header request =
     (if \<not> secret_ok secret header then Inl 401
      else (case request of
        None \<Rightarrow> Inl 400
      | Some body \<Rightarrow>
          (let device_id = jget ''device_id'' body in
           if \<not> valid_device_id device_id then Inl 400
           else if \<not> starts_with ''mock-'' (jstr device_id) then Inl 403
           else Inr (RemoveCredentials (jstr device_id)))))"

definition inject_crash_request ::
  "string \<Rightarrow> string option \<Rightarrow> (string \<times> json) list option \<Rightarrow> nat + control_action" where
  "inject_crash_request secret header request =
     (if \<not> secret_ok secret header then Inl 401
      else (case request of
        None \<Rightarrow> Inl 400
      | Some body \<Rightarrow>
          (let device_id = jget ''device_id'' body; project_id = jget ''project_id'' body in
           if \<not> valid_device_id device_id then Inl 400
           else if \<not> valid_device_id project_id then Inl 400
           else (case jget ''payload'' body of
               JObj d \<Rightarrow> Inr (InjectCrash (jstr device_id) (AList.update ''project_id'' project_id d))
             | _ \<Rightarrow> Inl 400))))"


section \<open>The matching of the broker library\<close>

text \<open>
  Two facts of the MQTT standard. Up to its first wildcard a filter matches level by level; and a
  filter whose levels are equal to those of the topic or are the single-level wildcard matches it.
\<close>

definition literal_matching :: "(string \<Rightarrow> string \<Rightarrow> bool) \<Rightarrow> bool" where
  "literal_matching matches \<longleftrightarrow> (\<forall>t f i. matches t f \<and> i < length (levels f) \<and>
     (\<forall>k \<le> i. levels f ! k \<noteq> ''+'' \<and> levels f ! k \<noteq> ''#'') \<longrightarrow>
     i < length (levels t) \<and> levels t ! i = levels f ! i)"

definition plus_matching :: "(string \<Rightarrow> string \<Rightarrow> bool) \<Rightarrow> bool" where
  "plus_matching matches \<longleftrightarrow> (\<forall>t f. list_all2 (\<lambda>x y. y = ''+'' \<or> x = y) (levels t) (levels f) \<longrightarrow> matches t f)"

text \<open>The matching of the standard, on which the witnesses instantiate the parameter.\<close>

fun match_levels :: "string list \<Rightarrow> string list \<Rightarrow> bool" where
  "match_levels ts [] = (ts = [])"
| "match_levels ts (f # fs) =
     (f = ''#'' \<or> (case ts of [] \<Rightarrow> False | t # ts' \<Rightarrow> (f = ''+'' \<or> f = t) \<and> match_levels ts' fs))"

definition std_matches :: "string \<Rightarrow> string \<Rightarrow> bool" where
  "std_matches t f = match_levels (levels t) (levels f)"

lemma match_levels_literal:
  "match_levels ts fs \<Longrightarrow> i < length fs \<Longrightarrow> \<forall>k \<le> i. fs ! k \<noteq> ''+'' \<and> fs ! k \<noteq> ''#'' \<Longrightarrow>
    i < length ts \<and> ts ! i = fs ! i"
proof (induction ts fs arbitrary: i rule: match_levels.induct)
  case (2 ts f fs)
  have "f \<noteq> ''#'' \<and> f \<noteq> ''+''" using 2(4) [rule_format, of 0] by simp
  then obtain ts' where ts: "ts = f # ts'" "match_levels ts' fs"
    using 2(2) by (auto split: list.splits)
  show ?case
  proof (cases i)
    case 0
    then show ?thesis using ts by simp
  next
    case (Suc n)
    have "\<forall>k \<le> n. fs ! k \<noteq> ''+'' \<and> fs ! k \<noteq> ''#''" using 2(4) Suc by fastforce
    then have "n < length ts' \<and> ts' ! n = fs ! n" using 2(1) ts 2(3) Suc by simp
    then show ?thesis using ts Suc by simp
  qed
qed simp

lemma match_levels_plus: "list_all2 (\<lambda>x y. y = ''+'' \<or> x = y) ts fs \<Longrightarrow> match_levels ts fs"
  by (induction rule: list_all2_induct) auto

lemma std_matching: "literal_matching std_matches" "plus_matching std_matches"
  unfolding literal_matching_def plus_matching_def std_matches_def
  using match_levels_literal match_levels_plus by blast+


section \<open>Isolation\<close>

lemma topic_scope_Some:
  "topic_scope t = Some (p, d) \<longleftrightarrow> 4 \<le> length (levels t) \<and> levels t ! 0 = ''nff'' \<and> levels t ! 1 = p \<and>
     levels t ! 2 = ''devices'' \<and> levels t ! 3 = d \<and> p \<noteq> [] \<and> d \<noteq> []"
  by (auto simp: topic_scope_def Let_def)

lemma levels_append: "CHR ''/'' \<notin> set w \<Longrightarrow> levels (w @ CHR ''/'' # rest) = w # levels rest"
  by (rule split_on_append)

lemma levels_device_topic:
  assumes "CHR ''/'' \<notin> set p" and "CHR ''/'' \<notin> set d"
  shows "levels (device_topic p d leaf) = [''nff'', p, ''devices'', d] @ levels leaf"
  using levels_append [OF assms(1)] levels_append [OF assms(2)]
  by (simp add: device_topic_def)

lemma scope_device_topic:
  assumes "CHR ''/'' \<notin> set p" and "CHR ''/'' \<notin> set d" and "p \<noteq> []" and "d \<noteq> []"
  shows "topic_scope (device_topic p d leaf) = Some (p, d)"
  using assms by (simp add: topic_scope_Some levels_device_topic)

lemma authenticate_operational:
  assumes "authenticate peer client = (True, s)" and "se_identity s = Some (p, d)"
    and "p \<noteq> INTERNAL" and "p \<noteq> BOOTSTRAP_SENTINEL"
  shows "\<exists>c. peer = Cert c \<and> \<not> ce_batch_marker c \<and> ce_cn c = Some d \<and> ce_project c = Some p \<and>
    client = Some d \<and> p \<noteq> [] \<and> d \<noteq> []"
  using assms by (auto simp: authenticate_def no_session_def truthy_def split: peer.splits if_splits)



text \<open>
  A bootstrap device can read the private keys of its whole batch: the identity of a bootstrap
  session is the client id it chooses, nothing rejects the id \<open>+\<close>, and with it the ACL admits the
  subscription to \<open>nff/_bootstrap/{batch}/+/cmd\<close>, which matches the channel on which the operational
  certificate and private key of every other device of the batch are delivered.
\<close>

theorem bootstrap_wildcard_listens:
  assumes "ce_batch_marker c" and "ce_batch c = Some b" and "b \<noteq> []"
    and "CHR ''/'' \<notin> set b" and "CHR ''/'' \<notin> set hwid" and "plus_matching matches"
  shows "\<exists>s. authenticate (Cert c) (Some ''+'') = (True, s) \<and> topic_allowed s (rollover_topic b ''+'') \<and>
    matches (rollover_topic b hwid) (rollover_topic b ''+'')"
proof -
  have l: "levels (rollover_topic b h) = [''nff'', ''_bootstrap'', b, h, ''cmd'']" if "CHR ''/'' \<notin> set h" for h
    using levels_append [OF assms(4)] levels_append [OF that] by (simp add: rollover_topic_def)
  let ?s = "no_session\<lparr>se_identity := Some (BOOTSTRAP_SENTINEL, ''+''), se_batch := Some b\<rparr>"
  have "authenticate (Cert c) (Some ''+'') = (True, ?s)"
    using assms(1-3) by (simp add: authenticate_def)
  moreover have "topic_allowed ?s (rollover_topic b ''+'')"
    by (simp add: topic_allowed_def l BOOTSTRAP_SENTINEL_def INTERNAL_def)
  moreover have "matches (rollover_topic b hwid) (rollover_topic b ''+'')"
    using assms(5,6) unfolding plus_matching_def by (simp add: l)
  ultimately show ?thesis by blast
qed

theorem bootstrap_wildcard_listens_witness:
  "std_matches (rollover_topic ''b'' ''h'') (rollover_topic ''b'' ''+'')"
proof -
  let ?c = "\<lparr>ce_batch_marker = True, ce_batch = Some ''b'', ce_cn = None, ce_project = Some ''p''\<rparr>"
  have "\<exists>s. authenticate (Cert ?c) (Some ''+'') = (True, s) \<and> topic_allowed s (rollover_topic ''b'' ''+'') \<and>
    std_matches (rollover_topic ''b'' ''h'') (rollover_topic ''b'' ''+'')"
    by (rule bootstrap_wildcard_listens [OF _ _ _ _ _ std_matching(2)]) simp_all
  then show ?thesis by blast
qed

lemma backslash_not_star: "char_of (92::nat) \<noteq> CHR ''*''"
  by code_simp

text \<open>
  The internal sentinel is a possible project id: the provisioning endpoint accepts the project \<open>*\<close>,
  and a device holding the certificate it issues has full access to every topic.
\<close>

theorem sentinel_project_escalates:
  assumes "secret \<noteq> []" and "valid_device_id (JStr d)"
  shows "provision_device secret (Some secret) (Some [(''device_id'', JStr d), (''project_id'', JStr ''*'')]) =
      Inr (IssueDeviceCert d ''*'') \<and>
    (\<exists>s. authenticate (Cert \<lparr>ce_batch_marker = False, ce_batch = None, ce_cn = Some d, ce_project = Some ''*''\<rparr>)
        (Some d) = (True, s) \<and> (\<forall>t. topic_allowed s t))"
  using assms
  by (auto simp: provision_device_def secret_ok_def authenticate_def no_session_def valid_device_id_def
      jstr_def topic_allowed_def INTERNAL_def truthy_def backslash_not_star)

text \<open>
  The internal endpoints act only for the holder of the shared secret, only on ids that are one
  path segment, and deprovisioning never touches an id outside the mock prefix.
\<close>

theorem control_actions_guarded:
  assumes "deliver_command secret header request = Inr act \<or> provision_device secret header request = Inr act \<or>
    deprovision_device secret header request = Inr act \<or> inject_crash_request secret header request = Inr act"
  shows "header = Some secret \<and> secret \<noteq> [] \<and>
    (case act of
       SendCommand d payload p tm \<Rightarrow> d \<noteq> [] \<and> valid_device_id (JStr p) \<and> map_of payload ''action'' \<noteq> None
     | IssueDeviceCert d p \<Rightarrow> valid_device_id (JStr d) \<and> valid_device_id (JStr p)
     | RemoveCredentials d \<Rightarrow> valid_device_id (JStr d) \<and> starts_with ''mock-'' d
     | InjectCrash d payload \<Rightarrow> valid_device_id (JStr d) \<and> (\<exists>p. map_of payload ''project_id'' = Some (JStr p) \<and>
         valid_device_id (JStr p)))"
proof -
  have sec: "secret_ok secret header \<Longrightarrow> header = Some secret \<and> secret \<noteq> []"
    by (auto simp: secret_ok_def Let_def or_else_def split: option.splits if_splits)
  have vs: "valid_device_id v \<Longrightarrow> v = JStr (jstr v)" for v
    by (simp add: valid_device_id_def jstr_def split: json.splits)
  from assms consider "deliver_command secret header request = Inr act"
    | "provision_device secret header request = Inr act"
    | "deprovision_device secret header request = Inr act"
    | "inject_crash_request secret header request = Inr act" by blast
  then show ?thesis
  proof cases
    case 1
    then show ?thesis using sec vs
      by (auto simp: deliver_command_def Let_def split: if_splits option.splits json.splits)
  next
    case 2
    then show ?thesis using sec vs
      by (auto simp: provision_device_def Let_def split: if_splits option.splits)
  next
    case 3
    then show ?thesis using sec vs
      by (auto simp: deprovision_device_def Let_def split: if_splits option.splits)
  next
    case 4
    then obtain body d where b: "request = Some body" "jget ''payload'' body = JObj d"
      "secret_ok secret header" "valid_device_id (jget ''device_id'' body)"
      "valid_device_id (jget ''project_id'' body)"
      "act = InjectCrash (jstr (jget ''device_id'' body)) (AList.update ''project_id'' (jget ''project_id'' body) d)"
      by (auto simp: inject_crash_request_def Let_def split: if_splits option.splits json.splits)
    have "map_of (AList.update ''project_id'' (jget ''project_id'' body) d) ''project_id'' =
        Some (jget ''project_id'' body)" by (simp add: update_conv')
    then show ?thesis using sec [OF b(3)] b(4-6) vs [OF b(4)] vs [OF b(5)] by auto
  qed
qed

theorem control_actions_guarded_witness:
  "deprovision_device ''k'' (Some ''k'') (Some [(''device_id'', JStr ''mock-1'')]) = Inr (RemoveCredentials ''mock-1'') \<and>
   starts_with ''mock-'' ''mock-1''"
proof -
  have r: "deprovision_device ''k'' (Some ''k'') (Some [(''device_id'', JStr ''mock-1'')]) =
      Inr (RemoveCredentials ''mock-1'')" by code_simp
  then show ?thesis
    using control_actions_guarded [of "''k''" "Some ''k''" "Some [(''device_id'', JStr ''mock-1'')]"
        "RemoveCredentials ''mock-1''"] by simp
qed

end
