(* ===== verification/Signing.thy ===== *)
theory Signing
  imports Json "HOL-Library.AList"
begin

text \<open>
  Command signing: nff-fleet's signer (\<open>signing.py\<close>, the payload \<open>commands.py\<close> completes before
  signing) and the verifier of a mock device (\<open>nff_mock_core/security.py\<close>), which reproduces the
  firmware's: timestamp window, ring of the last 16 nonces, signature.

  ECDSA, SHA-256 and Python's \<open>repr\<close> of floats and containers are the record \<open>crypto\<close> of parameters;
  its signatures are hexadecimal text, and \<open>cr_verify\<close> is false for text that is not. The keyring is
  the key directory together with the cache of loaded keys.

  The lemmas: the two canonical strings agree except on \<open>rollover_cert\<close>; a signed command is accepted
  once; what an accepted command shares with a signed one, however the received fields are chosen;
  and how far apart two acceptances of one nonce are.
\<close>

type_synonym payload = "(string \<times> json) list"

record 'k crypto =
  cr_sign :: "'k \<Rightarrow> string \<Rightarrow> string"
  cr_verify :: "'k \<Rightarrow> string \<Rightarrow> string \<Rightarrow> bool"
  cr_cert_sha :: "json \<Rightarrow> string option"
  cr_repr :: "json \<Rightarrow> string"

text \<open>The documented behaviour of a signature scheme: its own signatures verify and are not empty.\<close>

definition correct_crypto :: "'k crypto \<Rightarrow> bool" where
  "correct_crypto c \<longleftrightarrow> (\<forall>k m. cr_verify c k m (cr_sign c k m) \<and> cr_sign c k m \<noteq> [])"

text \<open>A JSON value in an f-string.\<close>

definition fmt :: "'k crypto \<Rightarrow> json \<Rightarrow> string" where
  "fmt c v = (case v of
      JNull \<Rightarrow> ''None''
    | JBool b \<Rightarrow> if b then ''True'' else ''False''
    | JInt i \<Rightarrow> show_int i
    | JStr s \<Rightarrow> s
    | _ \<Rightarrow> cr_repr c v)"


section \<open>The fleet's signer\<close>

definition bar :: "string list \<Rightarrow> string" where
  "bar parts = join ''|'' parts"

text \<open>\<open>None\<close> is the \<open>KeyError\<close> of a missing field, or the error of an undecodable certificate.\<close>

definition build_tbs :: "'k crypto \<Rightarrow> payload \<Rightarrow> string option" where
  "build_tbs c p = (case (map_of p ''action'', map_of p ''nonce'', map_of p ''timestamp'') of
      (Some action, Some nonce, Some ts) \<Rightarrow>
        if action = JStr ''ota'' then
          (case (map_of p ''version'', map_of p ''sha256'') of
            (Some version, Some sha256) \<Rightarrow> Some (bar [''ota'', fmt c version, fmt c sha256, fmt c nonce, fmt c ts])
          | _ \<Rightarrow> None)
        else if action = JStr ''rollover_cert'' then
          (case (Option.bind (map_of p ''device_cert'') (cr_cert_sha c), map_of p ''project_id'', map_of p ''device_id'') of
            (Some cert_sha, Some project, Some device) \<Rightarrow>
              Some (bar [''rollover_cert'', fmt c project, fmt c device, cert_sha, fmt c nonce, fmt c ts])
          | _ \<Rightarrow> None)
        else Some (bar [fmt c action, fmt c nonce, fmt c ts])
    | _ \<Rightarrow> None)"

record 'k keyring =
  kr_disk :: "string \<Rightarrow> 'k option"
  kr_cache :: "string \<Rightarrow> 'k option"
  kr_rollover_disk :: "'k option"
  kr_rollover :: "'k option"

definition ensure_project_key :: "'k \<Rightarrow> string \<Rightarrow> 'k keyring \<Rightarrow> 'k keyring" where
  "ensure_project_key fresh project r =
     (if kr_disk r project = None then r\<lparr>kr_disk := (kr_disk r)(project \<mapsto> fresh)\<rparr> else r)"

definition load_key :: "string \<Rightarrow> 'k keyring \<Rightarrow> 'k option \<times> 'k keyring" where
  "load_key project r = (case kr_cache r project of
      Some k \<Rightarrow> (Some k, r)
    | None \<Rightarrow> (case kr_disk r project of
        None \<Rightarrow> (None, r)
      | Some k \<Rightarrow> (Some k, r\<lparr>kr_cache := (kr_cache r)(project \<mapsto> k)\<rparr>)))"

definition ensure_rollover_key :: "'k \<Rightarrow> 'k keyring \<Rightarrow> 'k keyring" where
  "ensure_rollover_key fresh r = (if kr_rollover_disk r = None then r\<lparr>kr_rollover_disk := Some fresh\<rparr> else r)"

definition load_rollover :: "'k \<Rightarrow> 'k keyring \<Rightarrow> 'k \<times> 'k keyring" where
  "load_rollover fresh r = (case kr_rollover r of
      Some k \<Rightarrow> (k, r)
    | None \<Rightarrow>
        (let r' = ensure_rollover_key fresh r; k = the (kr_rollover_disk r') in
         (k, r'\<lparr>kr_rollover := Some k\<rparr>)))"

definition with_sig :: "payload \<Rightarrow> string \<Rightarrow> payload" where
  "with_sig p sig = AList.update ''cmd_sig'' (JStr sig) p"

text \<open>\<open>None\<close>: no key for the project, or a field of the command is missing.\<close>

definition sign :: "'k crypto \<Rightarrow> payload \<Rightarrow> string \<Rightarrow> 'k keyring \<Rightarrow> payload option \<times> 'k keyring" where
  "sign c p project r = (case load_key project r of
      (None, r') \<Rightarrow> (None, r')
    | (Some k, r') \<Rightarrow> (map_option (\<lambda>tbs. with_sig p (cr_sign c k tbs)) (build_tbs c p), r'))"

definition sign_rollover :: "'k crypto \<Rightarrow> 'k \<Rightarrow> payload \<Rightarrow> 'k keyring \<Rightarrow> payload option \<times> 'k keyring" where
  "sign_rollover c fresh p r =
     (let (k, r') = load_rollover fresh r in
      (map_option (\<lambda>tbs. with_sig p (cr_sign c k tbs)) (build_tbs c p), r'))"

text \<open>\<open>None\<close> is the \<open>RuntimeError\<close> of a project without key, raised outside the \<open>try\<close>.\<close>

definition verify_signed :: "'k crypto \<Rightarrow> payload \<Rightarrow> string \<Rightarrow> 'k keyring \<Rightarrow> bool option \<times> 'k keyring" where
  "verify_signed c p project r = (case load_key project r of
      (None, r') \<Rightarrow> (None, r')
    | (Some k, r') \<Rightarrow>
        (Some (case jget ''cmd_sig'' p of
           JStr h \<Rightarrow> h \<noteq> [] \<and> (case build_tbs c p of None \<Rightarrow> False | Some tbs \<Rightarrow> cr_verify c k tbs h)
         | _ \<Rightarrow> False), r'))"

definition clear_cache :: "'k keyring \<Rightarrow> 'k keyring" where
  "clear_cache r = r\<lparr>kr_cache := Map.empty, kr_rollover := None\<rparr>"

text \<open>The payload \<open>send_command\<close> signs.\<close>

definition full_payload :: "payload \<Rightarrow> string \<Rightarrow> int \<Rightarrow> payload" where
  "full_payload p nonce now = AList.update ''timestamp'' (JInt now) (AList.update ''nonce'' (JStr nonce) p)"


section \<open>The device's verifier\<close>

definition NONCE_RING_SIZE :: nat where "NONCE_RING_SIZE = 16"

definition TIMESTAMP_WINDOW_S :: int where "TIMESTAMP_WINDOW_S = 300"

definition mock_build_tbs :: "'k crypto \<Rightarrow> payload \<Rightarrow> string option" where
  "mock_build_tbs c p = (case (map_of p ''action'', map_of p ''nonce'', map_of p ''timestamp'') of
      (Some action, Some nonce, Some ts) \<Rightarrow>
        if action = JStr ''ota'' then
          (case (map_of p ''version'', map_of p ''sha256'') of
            (Some version, Some sha256) \<Rightarrow> Some (bar [''ota'', fmt c version, fmt c sha256, fmt c nonce, fmt c ts])
          | _ \<Rightarrow> None)
        else Some (bar [fmt c action, fmt c nonce, fmt c ts])
    | _ \<Rightarrow> None)"

record 'k verifier =
  vf_key :: 'k
  vf_enforce :: bool
  vf_nonces :: "json list"

definition new_verifier :: "'k \<Rightarrow> bool \<Rightarrow> 'k verifier" where
  "new_verifier k enforce = \<lparr>vf_key = k, vf_enforce = enforce, vf_nonces = []\<rparr>"

definition ring_push :: "json \<Rightarrow> json list \<Rightarrow> json list" where
  "ring_push nonce ring = (let r = ring @ [nonce] in drop (length r - NONCE_RING_SIZE) r)"

text \<open>\<open>int(v)\<close> of a JSON value; \<open>None\<close> where it raises.\<close>

definition to_int :: "json \<Rightarrow> int option" where
  "to_int v = (case v of
      JBool b \<Rightarrow> Some (if b then 1 else 0)
    | JInt i \<Rightarrow> Some i
    | JFloat r \<Rightarrow> Some (if 0 \<le> r then \<lfloor>r\<rfloor> else \<lceil>r\<rceil>)
    | JStr s \<Rightarrow> py_int s
    | _ \<Rightarrow> None)"

text \<open>
  \<open>verify\<close>. \<open>Raise\<close> is an exception that escapes it: a timestamp that is no number, or a signature
  that is not text.
\<close>

datatype verdict = Accept | Drop | Raise

definition verify_cmd :: "'k crypto \<Rightarrow> int \<Rightarrow> payload \<Rightarrow> 'k verifier \<Rightarrow> verdict \<times> 'k verifier" where
  "verify_cmd c now p v =
     (if \<not> vf_enforce v then (Accept, v)
      else
        (let nonce = jget ''nonce'' p; ts = jget ''timestamp'' p; sig_hex = jget ''cmd_sig'' p in
         if \<not> jtruthy nonce \<or> ts = JNull \<or> \<not> jtruthy sig_hex then (Drop, v)
         else (case to_int ts of
             None \<Rightarrow> (Raise, v)
           | Some t \<Rightarrow>
               if \<bar>now - t\<bar> > TIMESTAMP_WINDOW_S then (Drop, v)
               else if list_ex (py_eq nonce) (vf_nonces v) then (Drop, v)
               else (case sig_hex of
                   JStr h \<Rightarrow> (case mock_build_tbs c p of
                       None \<Rightarrow> (Drop, v)
                     | Some tbs \<Rightarrow>
                         if cr_verify c (vf_key v) tbs h
                         then (Accept, v\<lparr>vf_nonces := ring_push nonce (vf_nonces v)\<rparr>)
                         else (Drop, v))
                 | _ \<Rightarrow> (Raise, v)))))"

text \<open>The commands a device accepts, in order; an escaping exception ends its process.\<close>

fun accepted :: "'k crypto \<Rightarrow> (int \<times> payload) list \<Rightarrow> 'k verifier \<Rightarrow> (int \<times> payload) list" where
  "accepted c [] v = []"
| "accepted c ((now, p) # ms) v = (case verify_cmd c now p v of
      (Accept, v') \<Rightarrow> (now, p) # accepted c ms v'
    | (Drop, v') \<Rightarrow> accepted c ms v'
    | (Raise, v') \<Rightarrow> [])"


section \<open>The canonical string\<close>

lemma with_sig_other: "k \<noteq> ''cmd_sig'' \<Longrightarrow> map_of (with_sig p h) k = map_of p k"
  by (simp add: with_sig_def update_conv')

lemma with_sig_same [simp]: "map_of (with_sig p h) ''cmd_sig'' = Some (JStr h)"
  by (simp add: with_sig_def update_conv')

lemma full_payload_fields [simp]:
  "map_of (full_payload p nonce now) ''nonce'' = Some (JStr nonce)"
  "map_of (full_payload p nonce now) ''timestamp'' = Some (JInt now)"
  by (simp_all add: full_payload_def update_conv')

lemma full_payload_other: "k \<noteq> ''nonce'' \<Longrightarrow> k \<noteq> ''timestamp'' \<Longrightarrow>
    map_of (full_payload p nonce now) k = map_of p k"
  by (simp add: full_payload_def update_conv')

lemma build_tbs_with_sig [simp]: "build_tbs c (with_sig p h) = build_tbs c p"
  by (simp add: build_tbs_def with_sig_other split: option.split)

lemma mock_build_tbs_with_sig [simp]: "mock_build_tbs c (with_sig p h) = mock_build_tbs c p"
  by (simp add: mock_build_tbs_def with_sig_other split: option.split)

lemma mock_build_tbs_eq:
  "map_of p ''action'' \<noteq> Some (JStr ''rollover_cert'') \<Longrightarrow> mock_build_tbs c p = build_tbs c p"
  by (auto simp: mock_build_tbs_def build_tbs_def split: option.splits)

lemma bar_simps: "bar [a] = a" "bar (a # b # rest) = a @ CHR ''|'' # bar (b # rest)"
  by (simp_all add: bar_def)

text \<open>
  The device's canonical string is the fleet's on every command but one: both build the same
  string, or fail on the same missing field, for every payload whose action is not \<open>rollover_cert\<close>;
  on a \<open>rollover_cert\<close> payload they never build the same string.
\<close>

theorem tbs_equivalence:
  "(mock_build_tbs c p = build_tbs c p) =
     (if map_of p ''action'' = Some (JStr ''rollover_cert'') then mock_build_tbs c p = None else True)"
proof (cases "map_of p ''action'' = Some (JStr ''rollover_cert'')")
  case True
  have "mock_build_tbs c p \<noteq> build_tbs c p" if m: "mock_build_tbs c p \<noteq> None"
  proof
    assume eq: "mock_build_tbs c p = build_tbs c p"
    from m True obtain n t where nt: "map_of p ''nonce'' = Some n" "map_of p ''timestamp'' = Some t"
      by (auto simp: mock_build_tbs_def split: option.splits)
    have short: "mock_build_tbs c p = Some (bar [''rollover_cert'', fmt c n, fmt c t])"
      using True nt by (simp add: mock_build_tbs_def fmt_def)
    with eq True nt obtain x y z where
      "build_tbs c p = Some (bar [''rollover_cert'', x, y, z, fmt c n, fmt c t])"
      by (auto simp: build_tbs_def split: option.splits)
    then have "length (bar [''rollover_cert'', fmt c n, fmt c t]) =
        length (bar [''rollover_cert'', x, y, z, fmt c n, fmt c t])" using eq short by simp
    then show False by (simp add: bar_simps)
  qed
  moreover have "build_tbs c p = None" if "mock_build_tbs c p = None"
    using that True by (auto simp: mock_build_tbs_def build_tbs_def split: option.splits if_splits)
  ultimately have "(mock_build_tbs c p = build_tbs c p) = (mock_build_tbs c p = None)" by metis
  then show ?thesis using True by simp
qed (simp add: mock_build_tbs_eq)


section \<open>A signed command is accepted once\<close>

lemma list_ex_ring_push: "list_ex P (ring_push n ring) \<longleftrightarrow> P n \<or>
    list_ex P (drop (Suc (length ring) - NONCE_RING_SIZE) ring)"
  by (auto simp: ring_push_def Let_def NONCE_RING_SIZE_def)

lemma sign_Some:
  assumes "sign c p project r = (Some q, r')"
  obtains k tbs where "kr_cache r' project = Some k" "build_tbs c p = Some tbs"
    "q = with_sig p (cr_sign c k tbs)" "load_key project r' = (Some k, r')"
  using assms
  by (auto simp: sign_def load_key_def split: option.splits prod.splits if_splits)

text \<open>
  C19. Signing and verifying fit together: a command the fleet completes and signs with a project's
  key is accepted by every device of that project whose clock is within the window, unless its
  ring already holds the nonce; the fleet's own check accepts it too; and the device drops the very
  same message when it comes again.
\<close>

theorem signed_command_accepted:
  assumes "correct_crypto c" and "map_of p ''action'' \<noteq> Some (JStr ''rollover_cert'')"
    and "sign c (full_payload p nonce ts) project r = (Some q, r')"
    and "kr_cache r' project = Some (vf_key v)"
    and "nonce \<noteq> []" and "\<bar>now - ts\<bar> \<le> TIMESTAMP_WINDOW_S"
    and "\<not> list_ex (py_eq (JStr nonce)) (vf_nonces v)" and "vf_enforce v"
  shows "let (verdict, v') = verify_cmd c now q v in
     verdict = Accept \<and> vf_nonces v' = ring_push (JStr nonce) (vf_nonces v) \<and>
     (fst (verify_cmd c later q v') = Drop) \<and> verify_signed c q project r' = (Some True, r')"
proof -
  let ?p = "full_payload p nonce ts"
  from assms(3) obtain k tbs where k: "kr_cache r' project = Some k" "build_tbs c ?p = Some tbs"
    "q = with_sig ?p (cr_sign c k tbs)" "load_key project r' = (Some k, r')"
    by (rule sign_Some)
  then have key: "k = vf_key v" using assms(4) by simp
  have crypto: "cr_verify c (vf_key v) tbs (cr_sign c k tbs)" "cr_sign c k tbs \<noteq> []"
    using assms(1) key by (auto simp: correct_crypto_def)
  have "map_of ?p ''action'' \<noteq> Some (JStr ''rollover_cert'')" using assms(2) by (simp add: full_payload_other)
  then have tbs: "mock_build_tbs c q = Some tbs" "build_tbs c q = Some tbs"
    using k(2,3) by (simp_all add: mock_build_tbs_eq)
  have fields: "jget ''nonce'' q = JStr nonce" "jget ''timestamp'' q = JInt ts"
    "jget ''cmd_sig'' q = JStr (cr_sign c k tbs)"
    using k(3) by (simp_all add: jget_def with_sig_other)
  let ?v = "v\<lparr>vf_nonces := ring_push (JStr nonce) (vf_nonces v)\<rparr>"
  have acc: "verify_cmd c now q v = (Accept, ?v)"
    using assms(5-8) crypto tbs by (simp add: verify_cmd_def fields to_int_def Let_def)
  have drop: "fst (verify_cmd c later q ?v) = Drop"
    using assms(5,8) crypto by (simp add: verify_cmd_def fields to_int_def Let_def list_ex_ring_push)
  have "verify_signed c q project r' = (Some True, r')"
    using k(4) key crypto tbs by (simp add: verify_signed_def fields)
  with acc drop show ?thesis by simp
qed

text \<open>An instance of the parameters: a signature is the key, a separator and the message.\<close>

definition sample_crypto :: "string crypto" where
  "sample_crypto = \<lparr>cr_sign = (\<lambda>k m. k @ ''#'' @ m), cr_verify = (\<lambda>k m h. h = k @ ''#'' @ m),
     cr_cert_sha = (\<lambda>v. None), cr_repr = (\<lambda>v. [])\<rparr>"

definition sample_ring :: "string keyring" where
  "sample_ring = \<lparr>kr_disk = [''p'' \<mapsto> ''k''], kr_cache = Map.empty, kr_rollover_disk = None, kr_rollover = None\<rparr>"

definition sample_cmd :: payload where
  "sample_cmd = [(''action'', JStr ''ping''), (''nonce'', JStr ''n1''), (''timestamp'', JInt 7),
     (''cmd_sig'', JStr ''k#ping|n1|7'')]"

lemma sample_crypto: "correct_crypto sample_crypto"
  by (simp add: correct_crypto_def sample_crypto_def)

lemma show_int_7: "show_int 7 = ''7''"
  by code_simp

lemma sample_sign: "sign sample_crypto (full_payload [(''action'', JStr ''ping'')] ''n1'' 7) ''p'' sample_ring =
    (Some sample_cmd, sample_ring\<lparr>kr_cache := [''p'' \<mapsto> ''k'']\<rparr>)"
  by (simp add: sign_def load_key_def sample_ring_def sample_crypto_def full_payload_def build_tbs_def
      with_sig_def fmt_def bar_def show_int_7 sample_cmd_def)

theorem signed_command_accepted_witness:
  "fst (verify_cmd sample_crypto 9 sample_cmd (new_verifier ''k'' True)) = Accept"
proof -
  have "let (verdict, v') = verify_cmd sample_crypto 9 sample_cmd (new_verifier ''k'' True) in
     verdict = Accept \<and> vf_nonces v' = ring_push (JStr ''n1'') (vf_nonces (new_verifier ''k'' True)) \<and>
     (fst (verify_cmd sample_crypto 9 sample_cmd v') = Drop) \<and>
     verify_signed sample_crypto sample_cmd ''p'' (sample_ring\<lparr>kr_cache := [''p'' \<mapsto> ''k'']\<rparr>) =
       (Some True, sample_ring\<lparr>kr_cache := [''p'' \<mapsto> ''k'']\<rparr>)"
    by (rule signed_command_accepted [OF sample_crypto _ sample_sign])
      (simp_all add: new_verifier_def TIMESTAMP_WINDOW_S_def)
  then show ?thesis by (simp add: case_prod_beta Let_def)
qed


section \<open>What an accepted command proves\<close>

definition nonce_of :: "int \<times> payload \<Rightarrow> json" where
  "nonce_of m = jget ''nonce'' (snd m)"

lemma verify_cmd_Accept:
  assumes "verify_cmd c now p v = (Accept, v')" and "vf_enforce v"
  obtains t tbs h where "to_int (jget ''timestamp'' p) = Some t" "\<bar>now - t\<bar> \<le> TIMESTAMP_WINDOW_S"
    "mock_build_tbs c p = Some tbs" "jget ''cmd_sig'' p = JStr h" "cr_verify c (vf_key v) tbs h"
    "jtruthy (jget ''nonce'' p)" "\<not> list_ex (py_eq (jget ''nonce'' p)) (vf_nonces v)"
    "v' = v\<lparr>vf_nonces := ring_push (jget ''nonce'' p) (vf_nonces v)\<rparr>"
  using assms
  by (auto simp: verify_cmd_def Let_def split: if_splits option.splits json.splits)

lemma verify_cmd_not_Accept: "verify_cmd c now p v = (r, v') \<Longrightarrow> r \<noteq> Accept \<Longrightarrow> v' = v"
  by (auto simp: verify_cmd_def Let_def split: if_splits option.splits json.splits)

lemma accepted_Cons:
  assumes "vf_enforce v"
  shows "(\<exists>v'. verify_cmd c now p v = (Accept, v') \<and> accepted c ((now, p) # ms) v = (now, p) # accepted c ms v') \<or>
    accepted c ((now, p) # ms) v = accepted c ms v \<or> accepted c ((now, p) # ms) v = []"
proof -
  obtain r v' where rv: "verify_cmd c now p v = (r, v')" by (cases "verify_cmd c now p v")
  then show ?thesis using verify_cmd_not_Accept [OF rv] by (cases r) simp_all
qed

lemma accepted_valid:
  assumes "vf_enforce v" and "(now, p) \<in> set (accepted c ms v)"
  shows "\<exists>t tbs h. to_int (jget ''timestamp'' p) = Some t \<and> \<bar>now - t\<bar> \<le> TIMESTAMP_WINDOW_S \<and>
    mock_build_tbs c p = Some tbs \<and> cr_verify c (vf_key v) tbs h"
  using assms
proof (induction ms arbitrary: v)
  case (Cons m ms)
  obtain t q where m: "m = (t, q)" by (cases m)
  from accepted_Cons [OF Cons.prems(1), of c t q ms] consider
      v' where "verify_cmd c t q v = (Accept, v')" "accepted c (m # ms) v = (t, q) # accepted c ms v'"
    | "accepted c (m # ms) v = accepted c ms v" | "accepted c (m # ms) v = []"
    using m by blast
  then show ?case
  proof cases
    case 1
    from 1(1) Cons.prems(1) show ?thesis
    proof (rule verify_cmd_Accept)
      fix u tbs h
      assume a: "to_int (jget ''timestamp'' q) = Some u" "\<bar>t - u\<bar> \<le> TIMESTAMP_WINDOW_S"
        "mock_build_tbs c q = Some tbs" "cr_verify c (vf_key v) tbs h"
        "v' = v\<lparr>vf_nonces := ring_push (jget ''nonce'' q) (vf_nonces v)\<rparr>"
      show ?thesis
      proof (cases "(now, p) = (t, q)")
        case True
        then show ?thesis using a by auto
      next
        case False
        then have "(now, p) \<in> set (accepted c ms v')" using 1(2) Cons.prems(2) by auto
        then show ?thesis using Cons.IH [of v'] Cons.prems(1) a(5) by simp
      qed
    qed
  qed (use Cons in auto)
qed simp

text \<open>The ring holds the nonces of the last 16 accepted commands.\<close>

lemma accepted_fresh:
  assumes "vf_enforce v" and "j < length (accepted c ms v)"
    and "length (vf_nonces v) + j \<le> i + NONCE_RING_SIZE" and "i < length (vf_nonces v) + j"
  shows "\<not> py_eq (nonce_of (accepted c ms v ! j)) ((vf_nonces v @ map nonce_of (accepted c ms v)) ! i)"
  using assms
proof (induction ms arbitrary: v i j)
  case (Cons m ms)
  obtain t q where m: "m = (t, q)" by (cases m)
  from accepted_Cons [OF Cons.prems(1), of c t q ms] consider
      v' where "verify_cmd c t q v = (Accept, v')" "accepted c (m # ms) v = (t, q) # accepted c ms v'"
    | "accepted c (m # ms) v = accepted c ms v" | "accepted c (m # ms) v = []"
    using m by blast
  then show ?case
  proof cases
    case 1
    let ?R = "vf_nonces v" and ?n = "jget ''nonce'' q"
    from 1(1) Cons.prems(1) have v': "v' = v\<lparr>vf_nonces := ring_push ?n ?R\<rparr>"
      and fresh: "\<not> list_ex (py_eq ?n) ?R"
      by (auto elim: verify_cmd_Accept)
    have n0: "nonce_of (t, q) = ?n" by (simp add: nonce_of_def)
    show ?thesis
    proof (cases j)
      case 0
      then have "(?R @ map nonce_of (accepted c (m # ms) v)) ! i = ?R ! i"
        using Cons.prems(4) by (simp add: nth_append)
      then show ?thesis using fresh 0 1(2) Cons.prems(4) n0 by (simp add: list_ex_length)
    next
      case (Suc k)
      let ?d = "Suc (length ?R) - NONCE_RING_SIZE"
      have ring: "vf_nonces v' = drop ?d (?R @ [?n])" using v' by (simp add: ring_push_def Let_def)
      have d: "?d \<le> i" using Cons.prems(3) Suc by simp
      have dl: "?d \<le> Suc (length ?R)" by simp
      have "(?R @ map nonce_of (accepted c (m # ms) v)) ! i =
          ((?R @ [?n]) @ map nonce_of (accepted c ms v')) ! (?d + (i - ?d))"
        using 1(2) d n0 by simp
      also have "\<dots> = (drop ?d ((?R @ [?n]) @ map nonce_of (accepted c ms v'))) ! (i - ?d)"
        using dl by (intro nth_drop [symmetric]) simp
      also have "drop ?d ((?R @ [?n]) @ map nonce_of (accepted c ms v')) =
          vf_nonces v' @ map nonce_of (accepted c ms v')"
        unfolding drop_append [of ?d "?R @ [?n]"] ring using dl by simp
      finally have e: "(?R @ map nonce_of (accepted c (m # ms) v)) ! i =
          (vf_nonces v' @ map nonce_of (accepted c ms v')) ! (i - ?d)" .
      have "\<not> py_eq (nonce_of (accepted c ms v' ! k)) ((vf_nonces v' @ map nonce_of (accepted c ms v')) ! (i - ?d))"
      proof (rule Cons.IH)
        show "vf_enforce v'" using v' Cons.prems(1) by simp
        show "k < length (accepted c ms v')" using Cons.prems(2) 1(2) Suc by simp
        show "length (vf_nonces v') + k \<le> (i - ?d) + NONCE_RING_SIZE"
          "i - ?d < length (vf_nonces v') + k"
          using ring Cons.prems(3,4) Suc d by (auto simp: NONCE_RING_SIZE_def)
      qed
      then show ?thesis using e 1(2) Suc by simp
    qed
  qed (use Cons in auto)
qed simp

lemma accepted_apart:
  assumes "vf_enforce v" and "vf_nonces v = []" and "i < j" and "j < length (accepted c ms v)"
    and "py_eq (nonce_of (accepted c ms v ! i)) (nonce_of (accepted c ms v ! j))"
  shows "i + NONCE_RING_SIZE < j"
proof (rule ccontr)
  assume "\<not> i + NONCE_RING_SIZE < j"
  then have "\<not> py_eq (nonce_of (accepted c ms v ! j)) (([] @ map nonce_of (accepted c ms v)) ! i)"
    using accepted_fresh [OF assms(1,4), of i] assms(2,3) by simp
  then show False using assms(3-5) by (simp add: py_eq_sym)
qed


lemma split_on_length: "length (split_on c (x @ c # y)) = length (split_on c x) + length (split_on c y)"
proof (induction x)
  case (Cons a x)
  then show ?case
    by (auto split: list.splits)
qed simp

lemma split_on_single: "length (split_on c x) = 1 \<Longrightarrow> c \<notin> set x"
proof -
  assume "length (split_on c x) = 1"
  then obtain w where w: "split_on c x = [w]" by (auto simp: length_Suc_conv)
  then have "x = w" using join_split_on [of c x] by simp
  then show ?thesis using w split_on_parts [of w c x] by simp
qed

lemma split_on_pos: "0 < length (split_on c x)"
  by simp

definition no_bar :: "string \<Rightarrow> bool" where
  "no_bar s \<longleftrightarrow> CHR ''|'' \<notin> set s"

lemma no_bar_split [simp]: "no_bar s \<Longrightarrow> split_on (CHR ''|'') s = [s]"
  by (simp add: no_bar_def split_on_notin)

lemma no_bar_ota [simp]: "no_bar ''ota''"
  by (simp add: no_bar_def)

lemma bar_split: "no_bar a \<Longrightarrow> split_on (CHR ''|'') (a @ CHR ''|'' # y) = a # split_on (CHR ''|'') y"
  by (simp add: no_bar_def split_on_append)

text \<open>Two joined strings agree field by field when one side has no separator in its fields.\<close>

lemma bar_inject2:
  assumes "bar [x, y] = bar [u, v]" and "no_bar u" and "no_bar v"
  shows "x = u \<and> y = v"
proof -
  let ?sp = "split_on (CHR ''|'')"
  have eq: "?sp (x @ CHR ''|'' # y) = [u, v]" using assms by (simp add: bar_simps bar_split)
  then have "length (?sp x) + length (?sp y) = 2" using split_on_length by (metis length_Cons list.size(3) numeral_2_eq_2)
  then have "length (?sp x) = 1" "length (?sp y) = 1"
    using split_on_pos [of "CHR ''|''" x] split_on_pos [of "CHR ''|''" y] by linarith+
  then have "no_bar x" "no_bar y" using split_on_single by (auto simp: no_bar_def)
  then show ?thesis using eq by (simp add: bar_split)
qed

lemma bar_inject4:
  assumes "bar [w, x, y, z] = bar [r, s, u, v]" and "no_bar r" "no_bar s" "no_bar u" "no_bar v"
  shows "w = r \<and> x = s \<and> y = u \<and> z = v"
proof -
  let ?sp = "split_on (CHR ''|'')"
  have eq: "?sp (w @ CHR ''|'' # x @ CHR ''|'' # y @ CHR ''|'' # z) = [r, s, u, v]"
    using assms by (simp add: bar_simps bar_split)
  then have "length (?sp w) + (length (?sp x) + (length (?sp y) + length (?sp z))) = 4"
    using split_on_length by (metis One_nat_def Suc_eq_plus1 list.size(3,4) numeral_eq_Suc pred_numeral_simps(2) semiring_norm(26,27) numeral_2_eq_2 numeral_3_eq_3)
  then have "length (?sp w) = 1" "length (?sp x) = 1" "length (?sp y) = 1" "length (?sp z) = 1"
    using split_on_pos [of "CHR ''|''" w] split_on_pos [of "CHR ''|''" x]
      split_on_pos [of "CHR ''|''" y] split_on_pos [of "CHR ''|''" z] by linarith+
  then have "no_bar w" "no_bar x" "no_bar y" "no_bar z" using split_on_single by (auto simp: no_bar_def)
  then show ?thesis using eq by (simp add: bar_split)
qed


lemma bar_head:
  assumes "bar (a # x # xs) = bar (b # y # ys)" and "no_bar a" and "no_bar b"
  shows "a = b \<and> bar (x # xs) = bar (y # ys)"
proof -
  have "a # split_on (CHR ''|'') (bar (x # xs)) = b # split_on (CHR ''|'') (bar (y # ys))"
    using assms by (simp add: bar_simps flip: bar_split)
  then show ?thesis by (metis join_split_on list.inject)
qed

lemma bar_heads_eq: "tbs = bar (a # x # xs) \<Longrightarrow> tbs = bar (b # y # ys) \<Longrightarrow> no_bar a \<Longrightarrow> no_bar b \<Longrightarrow> a = b"
  using bar_head by blast

text \<open>
  The fleet's own commands: the action is text, and no field of the canonical string contains the
  separator.
\<close>

definition well_separated :: "'k crypto \<Rightarrow> payload \<Rightarrow> bool" where
  "well_separated c q \<longleftrightarrow> (\<exists>b n t. map_of q ''action'' = Some (JStr b) \<and> no_bar b \<and> b \<noteq> ''rollover_cert'' \<and>
     map_of q ''nonce'' = Some n \<and> no_bar (fmt c n) \<and> map_of q ''timestamp'' = Some t \<and> no_bar (fmt c t) \<and>
     (b = ''ota'' \<longrightarrow> (\<exists>v h. map_of q ''version'' = Some v \<and> no_bar (fmt c v) \<and>
        map_of q ''sha256'' = Some h \<and> no_bar (fmt c h))))"

text \<open>Same action, and the same text in every signed field.\<close>

definition same_field :: "'k crypto \<Rightarrow> payload \<Rightarrow> payload \<Rightarrow> string \<Rightarrow> bool" where
  "same_field c p q k \<longleftrightarrow> map_option (fmt c) (map_of p k) = map_option (fmt c) (map_of q k)"

definition agree :: "'k crypto \<Rightarrow> payload \<Rightarrow> payload \<Rightarrow> bool" where
  "agree c p q \<longleftrightarrow> map_of p ''action'' = map_of q ''action'' \<and> same_field c p q ''nonce'' \<and>
     same_field c p q ''timestamp'' \<and>
     (map_of q ''action'' = Some (JStr ''ota'') \<longrightarrow> same_field c p q ''version'' \<and> same_field c p q ''sha256'')"

lemma mock_tbs_ota:
  assumes "map_of p ''action'' = Some (JStr ''ota'')" and "mock_build_tbs c p = Some tbs"
  obtains v h n t where "map_of p ''version'' = Some v" "map_of p ''sha256'' = Some h"
    "map_of p ''nonce'' = Some n" "map_of p ''timestamp'' = Some t"
    "tbs = bar [''ota'', fmt c v, fmt c h, fmt c n, fmt c t]"
  using assms by (auto simp: mock_build_tbs_def split: option.splits)

lemma mock_tbs_plain:
  assumes "map_of p ''action'' = Some (JStr a)" and "a \<noteq> ''ota''" and "mock_build_tbs c p = Some tbs"
  obtains n t where "map_of p ''nonce'' = Some n" "map_of p ''timestamp'' = Some t"
    "tbs = bar [a, fmt c n, fmt c t]"
  using assms by (auto simp: mock_build_tbs_def fmt_def split: option.splits)

lemma tbs_agree:
  assumes p: "map_of p ''action'' = Some (JStr a)" "no_bar a" "mock_build_tbs c p = Some tbs"
    and q: "well_separated c q" "build_tbs c q = Some tbs"
  shows "agree c p q"
proof -
  from q(1) obtain b n t where b: "map_of q ''action'' = Some (JStr b)" "no_bar b" "b \<noteq> ''rollover_cert''"
    "map_of q ''nonce'' = Some n" "no_bar (fmt c n)" "map_of q ''timestamp'' = Some t" "no_bar (fmt c t)"
    "b = ''ota'' \<longrightarrow> (\<exists>v h. map_of q ''version'' = Some v \<and> no_bar (fmt c v) \<and>
        map_of q ''sha256'' = Some h \<and> no_bar (fmt c h))"
    unfolding well_separated_def by blast
  have mq: "mock_build_tbs c q = Some tbs" using q(2) b(1,3) by (simp add: mock_build_tbs_eq)
  show ?thesis
  proof (cases "b = ''ota''")
    case True
    then obtain v h where v: "map_of q ''version'' = Some v" "no_bar (fmt c v)"
      "map_of q ''sha256'' = Some h" "no_bar (fmt c h)" using b(8) by blast
    have tq: "tbs = bar [''ota'', fmt c v, fmt c h, fmt c n, fmt c t]"
      using mq b(1,4,6) v(1,3) True by (simp add: mock_build_tbs_def)
    have a: "a = ''ota''"
    proof (rule ccontr)
      assume na: "a \<noteq> ''ota''"
      from mock_tbs_plain [OF p(1) na p(3)] obtain n' t' where ta: "tbs = bar [a, fmt c n', fmt c t']" by blast
      then show False using bar_heads_eq [OF ta tq p(2) no_bar_ota] na by simp
    qed
    from mock_tbs_ota [OF p(1) [unfolded a] p(3)] obtain v' h' n' t' where
      p': "map_of p ''version'' = Some v'" "map_of p ''sha256'' = Some h'" "map_of p ''nonce'' = Some n'"
        "map_of p ''timestamp'' = Some t'" "tbs = bar [''ota'', fmt c v', fmt c h', fmt c n', fmt c t']"
      by blast
    have "bar [''ota'', fmt c v', fmt c h', fmt c n', fmt c t'] = bar [''ota'', fmt c v, fmt c h, fmt c n, fmt c t]"
      using p'(5) tq by simp
    from bar_inject4 [OF conjunct2 [OF bar_head [OF this no_bar_ota no_bar_ota]] v(2,4) b(5,7)]
    have "fmt c v' = fmt c v \<and> fmt c h' = fmt c h \<and> fmt c n' = fmt c n \<and> fmt c t' = fmt c t" .
    then show ?thesis using p p' b v a True by (simp add: agree_def same_field_def)
  next
    case False
    have tq: "tbs = bar [b, fmt c n, fmt c t]"
      using mq b(1,4,6) False by (simp add: mock_build_tbs_def fmt_def)
    have a: "a = b \<and> a \<noteq> ''ota''"
    proof (cases "a = ''ota''")
      case True
      from mock_tbs_ota [OF p(1) [unfolded True] p(3)] obtain v' h' n' t' where
        "map_of p ''version'' = Some v'" "map_of p ''sha256'' = Some h'" "map_of p ''nonce'' = Some n'"
        "map_of p ''timestamp'' = Some t'"
        and ta: "tbs = bar [''ota'', fmt c v', fmt c h', fmt c n', fmt c t']" by blast
      then show ?thesis using bar_heads_eq [OF ta tq no_bar_ota b(2)] False by simp
    next
      case na: False
      from mock_tbs_plain [OF p(1) na p(3)] obtain n' t' where ta: "tbs = bar [a, fmt c n', fmt c t']" by blast
      then show ?thesis using bar_heads_eq [OF ta tq p(2) b(2)] na by simp
    qed
    from mock_tbs_plain [OF p(1) conjunct2 [OF a] p(3)] obtain n' t' where
      p': "map_of p ''nonce'' = Some n'" "map_of p ''timestamp'' = Some t'" "tbs = bar [a, fmt c n', fmt c t']"
      by blast
    have "bar [a, fmt c n', fmt c t'] = bar [b, fmt c n, fmt c t]" using p'(3) tq by simp
    from conjunct2 [OF bar_head [OF this p(2) b(2)]]
    have "fmt c n' = fmt c n \<and> fmt c t' = fmt c t" using bar_inject2 b(5,7) by blast
    then show ?thesis using p p' b(1,4,6) a by (auto simp: agree_def same_field_def)
  qed
qed





section \<open>The limits of the scheme\<close>

text \<open>
  The separator is not escaped: the signature of a custom command whose action contains it is also
  the signature of an OTA command, and \<open>/internal/command\<close> accepts any action.
\<close>

theorem tbs_collision:
  assumes "correct_crypto c" and "v \<noteq> []" and "h \<noteq> []"
    and "sign c (full_payload [(''action'', JStr (''ota|'' @ v @ ''|'' @ h))] nonce ts) project r = (Some q, r')"
    and "kr_cache r' project = Some k"
  shows "\<exists>sig. jget ''cmd_sig'' q = JStr sig \<and>
    verify_signed c [(''action'', JStr ''ota''), (''version'', JStr v), (''sha256'', JStr h),
      (''nonce'', JStr nonce), (''timestamp'', JInt ts), (''cmd_sig'', JStr sig)] project r' = (Some True, r')"
proof -
  let ?p = "full_payload [(''action'', JStr (''ota|'' @ v @ ''|'' @ h))] nonce ts"
  obtain k' tbs where "kr_cache r' project = Some k'" and k': "build_tbs c ?p = Some tbs"
    "q = with_sig ?p (cr_sign c k' tbs)" "load_key project r' = (Some k', r')"
    by (rule sign_Some [OF assms(4)])
  with assms(5) have "k' = k" by simp
  note k = k' [unfolded this]
  have a: "map_of ?p ''action'' = Some (JStr (''ota|'' @ v @ ''|'' @ h))" by (simp add: full_payload_other)
  have "tbs = bar [''ota|'' @ v @ ''|'' @ h, nonce, show_int ts]"
    using k(1) a by (simp add: build_tbs_def fmt_def)
  then have tbs: "tbs = bar [''ota'', v, h, nonce, show_int ts]" by (simp add: bar_simps)
  have crypto: "cr_verify c k tbs (cr_sign c k tbs)" "cr_sign c k tbs \<noteq> []"
    using assms(1) by (auto simp: correct_crypto_def)
  show ?thesis
    using crypto tbs k(2,3) by (simp add: verify_signed_def build_tbs_def fmt_def jget_def)
qed

text \<open>
  The ring remembers 16 nonces and the window is five minutes wide: after 16 other commands, a
  message accepted once is accepted again while its timestamp is in the window.
\<close>

lemma foldl_ring_push:
  assumes "length ring \<le> NONCE_RING_SIZE"
  shows "foldl (\<lambda>r n. ring_push n r) ring ns = drop (length (ring @ ns) - NONCE_RING_SIZE) (ring @ ns)"
  using assms
proof (induction ns rule: rev_induct)
  case (snoc n ns)
  let ?all = "ring @ ns" and ?w = NONCE_RING_SIZE
  let ?e = "length ?all - ?w"
  have "ring_push n (drop ?e ?all) = drop (length (drop ?e ?all @ [n]) - ?w) (drop ?e ?all @ [n])"
    by (simp add: ring_push_def Let_def)
  also have "drop ?e ?all @ [n] = drop ?e (?all @ [n])" by simp
  also have "drop (length (drop ?e (?all @ [n])) - ?w) (drop ?e (?all @ [n])) =
      drop (length (?all @ [n]) - ?w) (?all @ [n])"
  proof -
    have "length (drop ?e (?all @ [n])) - ?w + ?e = length (?all @ [n]) - ?w" by simp
    then show ?thesis by (simp only: drop_drop)
  qed
  finally show ?case using snoc by simp
qed simp

theorem replay_after_ring:
  assumes "verify_cmd c now p v = (Accept, v')" and "vf_enforce v"
    and "length others = NONCE_RING_SIZE" and "\<not> list_ex (py_eq (jget ''nonce'' p)) others"
    and "to_int (jget ''timestamp'' p) = Some t" and "\<bar>later - t\<bar> \<le> TIMESTAMP_WINDOW_S"
    and "length (vf_nonces v) \<le> NONCE_RING_SIZE"
  shows "fst (verify_cmd c later p (v'\<lparr>vf_nonces := foldl (\<lambda>r n. ring_push n r) (vf_nonces v') others\<rparr>)) = Accept"
proof -
  from assms(1,2) obtain u tbs h where a: "mock_build_tbs c p = Some tbs" "jget ''cmd_sig'' p = JStr h"
    "cr_verify c (vf_key v) tbs h" "jtruthy (jget ''nonce'' p)"
    "v' = v\<lparr>vf_nonces := ring_push (jget ''nonce'' p) (vf_nonces v)\<rparr>"
    by (rule verify_cmd_Accept)
  have sig: "jtruthy (jget ''cmd_sig'' p)"
    using assms(1,2) by (auto simp: verify_cmd_def Let_def split: if_splits)
  have ts: "jget ''timestamp'' p \<noteq> JNull" using assms(5) by (auto simp: to_int_def)
  have "length (vf_nonces v') \<le> NONCE_RING_SIZE" using a(5) by (simp add: ring_push_def Let_def)
  then have "foldl (\<lambda>r n. ring_push n r) (vf_nonces v') others = others"
    using foldl_ring_push assms(3) by simp
  then show ?thesis
    using assms a sig ts by (simp add: verify_cmd_def Let_def)
qed

end
