(* ===== verification/Router.thy ===== *)
theory Router
  imports Signing Broker_Acl
begin

text \<open>
  nff-fleet's device channel: the registry and its reaper (\<open>registry.py\<close>, \<open>reaper.py\<close>), the message
  router with its pending futures and the redelivery of commands (\<open>broker/router.py\<close>), the forwarding of
  update reports to nff-ota (\<open>ota_result.py\<close>), \<open>send_command\<close> (\<open>commands.py\<close>) and the roll-over of one
  enrolment (\<open>enroll_worker.py\<close>).

  A coroutine that waits is two operations, what it does before waiting and what it does when it
  resumes or times out, so that every interleaving of the event loop is a list of events. Futures
  are numbers; a future is pending, done with a value, or cancelled by its timeout. What leaves the
  process (publishing, database calls, requests) is a list of effects. Publishing succeeds exactly
  while the router holds a client. A payload is not serialised: \<open>json.dumps\<close> and \<open>json.loads\<close> are
  taken as inverse.
\<close>

section \<open>State and effects\<close>

datatype future = FPending | FDone json | FCancelled

text \<open>\<open>DeviceInfo\<close>. The status is whatever the heartbeat carried.\<close>

record dev_info =
  di_status :: json
  di_project :: "string option"
  di_last_seen :: rat
  di_payload :: payload
  di_interval :: "int option"

type_synonym registry = "(string \<times> dev_info) list"

record router =
  rt_crash :: "string \<Rightarrow> payload option"
  rt_pending :: "string \<Rightarrow> nat option"
  rt_redeliver :: "string \<Rightarrow> (string \<times> payload) option"
  rt_bootstrap :: "string \<Rightarrow> nat option"
  rt_futures :: "nat \<Rightarrow> future option"
  rt_next :: nat
  rt_connected :: bool
  rt_registry :: registry
  rt_progress :: "string \<Rightarrow> rat option"

definition init_router :: router where
  "init_router = \<lparr>rt_crash = Map.empty, rt_pending = Map.empty, rt_redeliver = Map.empty,
     rt_bootstrap = Map.empty, rt_futures = Map.empty, rt_next = 0, rt_connected = False,
     rt_registry = [], rt_progress = Map.empty\<rparr>"

datatype effect =
    Publish string payload
  | UpsertOffline string string
  | UpsertDevice string payload
  | IngestCrash string payload
  | RecordEnrollment string string payload
  | ClaimByDevice string
  | PostOta string payload
  | Audit string json string string
  | MarkClaimed string string
  | MarkIssued string string
  | HandlerError

definition obj :: "json \<Rightarrow> payload option" where
  "obj v = (case v of JObj d \<Rightarrow> Some d | _ \<Rightarrow> None)"

definition with_key :: "string \<Rightarrow> json \<Rightarrow> payload \<Rightarrow> payload" where
  "with_key k v p = AList.update k v p"


section \<open>Registry and reaper\<close>

definition new_info :: "rat \<Rightarrow> dev_info" where
  "new_info now = \<lparr>di_status = JStr ''offline'', di_project = None, di_last_seen = now, di_payload = [],
     di_interval = None\<rparr>"

text \<open>The flag is false when \<open>int(interval)\<close> raises, after the first three assignments.\<close>

definition update_heartbeat ::
  "rat \<Rightarrow> string \<Rightarrow> payload \<Rightarrow> string option \<Rightarrow> registry \<Rightarrow> bool \<times> registry" where
  "update_heartbeat now device p project reg =
     (let info = (case map_of reg device of None \<Rightarrow> new_info now | Some i \<Rightarrow> i);
          info1 = info\<lparr>di_status := jget_or ''status'' (JStr ''online'') p, di_last_seen := now, di_payload := p\<rparr>;
          interval = jget ''interval_s'' p in
      case (if interval = JNull then Some (di_interval info1) else map_option Some (to_int interval)) of
        None \<Rightarrow> (False, AList.update device info1 reg)
      | Some iv \<Rightarrow>
          (let info2 = info1\<lparr>di_interval := iv\<rparr>;
               info3 = (if truthy project then info2\<lparr>di_project := project\<rparr> else info2) in
           (True, AList.update device info3 reg)))"

definition set_offline :: "string \<Rightarrow> registry \<Rightarrow> registry" where
  "set_offline device reg = (case map_of reg device of
      None \<Rightarrow> reg
    | Some i \<Rightarrow> AList.update device (i\<lparr>di_status := JStr ''offline''\<rparr>) reg)"

definition get_project :: "string \<Rightarrow> registry \<Rightarrow> string option" where
  "get_project device reg = Option.bind (map_of reg device) di_project"

definition online_devices :: "registry \<Rightarrow> (string \<times> dev_info) list" where
  "online_devices reg = filter (\<lambda>(d, i). di_status i = JStr ''online'') reg"

record fleet_settings =
  fs_default_interval :: rat
  fs_miss_factor :: rat
  fs_ota_url :: string

definition heartbeat_interval :: "rat \<Rightarrow> dev_info \<Rightarrow> rat" where
  "heartbeat_interval dflt i = (case di_interval i of
      None \<Rightarrow> dflt
    | Some n \<Rightarrow> if n = 0 then dflt else rat_of_int n)"

definition silent :: "rat \<Rightarrow> rat \<Rightarrow> rat \<Rightarrow> dev_info \<Rightarrow> bool" where
  "silent dflt miss now i \<longleftrightarrow> di_last_seen i < fsub now (fmul miss (heartbeat_interval dflt i))"

definition stale_online_devices :: "rat \<Rightarrow> rat \<Rightarrow> rat \<Rightarrow> registry \<Rightarrow> (string \<times> dev_info) list" where
  "stale_online_devices dflt miss now reg =
     filter (\<lambda>(d, i). di_status i = JStr ''online'' \<and> silent dflt miss now i) reg"

text \<open>One sweep of the reaper loop.\<close>

definition fleet_reaper_sweep :: "fleet_settings \<Rightarrow> rat \<Rightarrow> registry \<Rightarrow> registry \<times> effect list" where
  "fleet_reaper_sweep cfg now reg =
     (let stale = stale_online_devices (fs_default_interval cfg) (fs_miss_factor cfg) now reg in
      (fold (\<lambda>(d, i). set_offline d) stale reg,
       concat (map (\<lambda>(d, i). if truthy (di_project i) then [UpsertOffline d (the (di_project i))] else []) stale)))"


section \<open>Forwarding update reports\<close>

definition is_int :: "json \<Rightarrow> bool" where
  "is_int v = (case v of JInt _ \<Rightarrow> True | JBool _ \<Rightarrow> True | _ \<Rightarrow> False)"

definition forward_ota_result :: "fleet_settings \<Rightarrow> string \<Rightarrow> payload \<Rightarrow> effect list" where
  "forward_ota_result cfg device p =
     (if fs_ota_url cfg = [] then []
      else
        (let status = jget ''status'' p; version = jget ''version'' p; reason = jget ''reason'' p in
         if \<not> jtruthy status \<or> \<not> jtruthy version then []
         else [PostOta ''/internal/ota-result''
           ([(''device_id'', JStr device), (''status'', status), (''version'', version)] @
            (case reason of JStr r \<Rightarrow> if r \<noteq> [] then [(''reason'', reason)] else [] | _ \<Rightarrow> []))]))"

text \<open>\<open>_PROGRESS_MIN_INTERVAL_S\<close> is 1.\<close>

definition forward_ota_progress ::
  "fleet_settings \<Rightarrow> rat \<Rightarrow> string \<Rightarrow> payload \<Rightarrow> (string \<Rightarrow> rat option) \<Rightarrow> effect list \<times> (string \<Rightarrow> rat option)" where
  "forward_ota_progress cfg now device p sent =
     (if fs_ota_url cfg = [] then ([], sent)
      else
        (let version = jget ''version'' p; stage = jget ''stage'' p; progress = jget ''progress'' p;
             attempt = jget ''attempt'' p;
             body = [(''device_id'', JStr device), (''version'', version), (''stage'', stage)] @
               (if is_int progress then [(''progress'', progress)] else []) @
               (if is_int attempt then [(''attempt'', attempt)] else []) in
         if \<not> jtruthy version \<or> \<not> jtruthy stage then ([], sent)
         else if stage = JStr ''downloading'' then
           (if fsub now (case sent device of None \<Rightarrow> 0 | Some t \<Rightarrow> t) < 1 then ([], sent)
            else ([PostOta ''/internal/ota-progress'' body], sent(device \<mapsto> now)))
         else ([PostOta ''/internal/ota-progress'' body], sent)))"


section \<open>The router\<close>

text \<open>\<open>set_result\<close> on a future that is not done.\<close>

definition settle :: "nat \<Rightarrow> json \<Rightarrow> router \<Rightarrow> router" where
  "settle f v s = (if rt_futures s f = Some FPending then s\<lparr>rt_futures := (rt_futures s)(f \<mapsto> FDone v)\<rparr> else s)"

definition fut_done :: "nat \<Rightarrow> router \<Rightarrow> bool" where
  "fut_done f s \<longleftrightarrow> rt_futures s f \<noteq> Some FPending"

definition resolve_response :: "string \<Rightarrow> json \<Rightarrow> router \<Rightarrow> router" where
  "resolve_response device v s = (case rt_pending s device of None \<Rightarrow> s | Some f \<Rightarrow> settle f v s)"

definition resolve_bootstrap_response :: "string \<Rightarrow> json \<Rightarrow> router \<Rightarrow> router" where
  "resolve_bootstrap_response hwid v s = (case rt_bootstrap s hwid of None \<Rightarrow> s | Some f \<Rightarrow> settle f v s)"

definition register_pending :: "string \<Rightarrow> nat \<Rightarrow> router \<Rightarrow> router" where
  "register_pending device f s = s\<lparr>rt_pending := (rt_pending s)(device \<mapsto> f)\<rparr>"

definition unregister_pending :: "string \<Rightarrow> router \<Rightarrow> router" where
  "unregister_pending device s = s\<lparr>rt_pending := (rt_pending s)(device := None)\<rparr>"

definition register_redeliver :: "string \<Rightarrow> string \<Rightarrow> payload \<Rightarrow> router \<Rightarrow> router" where
  "register_redeliver device topic p s = s\<lparr>rt_redeliver := (rt_redeliver s)(device \<mapsto> (topic, p))\<rparr>"

definition unregister_redeliver :: "string \<Rightarrow> router \<Rightarrow> router" where
  "unregister_redeliver device s = s\<lparr>rt_redeliver := (rt_redeliver s)(device := None)\<rparr>"

definition register_bootstrap_pending :: "string \<Rightarrow> nat \<Rightarrow> router \<Rightarrow> router" where
  "register_bootstrap_pending hwid f s = s\<lparr>rt_bootstrap := (rt_bootstrap s)(hwid \<mapsto> f)\<rparr>"

definition unregister_bootstrap_pending :: "string \<Rightarrow> router \<Rightarrow> router" where
  "unregister_bootstrap_pending hwid s = s\<lparr>rt_bootstrap := (rt_bootstrap s)(hwid := None)\<rparr>"

definition set_crash :: "string \<Rightarrow> payload \<Rightarrow> router \<Rightarrow> router" where
  "set_crash device p s = s\<lparr>rt_crash := (rt_crash s)(device \<mapsto> p)\<rparr>"

definition maybe_redeliver :: "string \<Rightarrow> router \<Rightarrow> effect list" where
  "maybe_redeliver device s = (case rt_redeliver s device of
      None \<Rightarrow> []
    | Some (topic, p) \<Rightarrow>
        if (case rt_pending s device of None \<Rightarrow> False | Some f \<Rightarrow> fut_done f s) then []
        else if rt_connected s then [Publish topic p] else [])"

definition hardware_keys :: "string list" where
  "hardware_keys = [''device_type'', ''fqbn'', ''chip'', ''rev'', ''flash'', ''fw'', ''build'']"

definition hardware :: "payload \<Rightarrow> payload" where
  "hardware p = map (\<lambda>k. (k, jget k p))
     (filter (\<lambda>k. jget k p \<noteq> JNull \<and> jget k p \<noteq> JStr []) hardware_keys)"

text \<open>\<open>_handle_message\<close>; the body is \<open>None\<close> when it does not parse. An exception in a handler is logged
  by the loop: it ends the handling with \<open>HandlerError\<close>.\<close>

definition handle_heartbeat :: "rat \<Rightarrow> string \<Rightarrow> string \<Rightarrow> payload \<Rightarrow> router \<Rightarrow> router \<times> effect list" where
  "handle_heartbeat now project device p s =
     (let was_online = (case map_of (rt_registry s) device of
            None \<Rightarrow> False | Some i \<Rightarrow> di_status i = JStr ''online'') in
      case update_heartbeat now device p (Some project) (rt_registry s) of
        (False, reg) \<Rightarrow> (s\<lparr>rt_registry := reg\<rparr>, [HandlerError])
      | (True, reg) \<Rightarrow>
          (let s1 = s\<lparr>rt_registry := reg\<rparr>; p1 = with_key ''project_id'' (JStr project) p in
           if jget ''status'' p1 = JStr ''offline'' then
             (s1\<lparr>rt_registry := set_offline device reg\<rparr>, [UpsertOffline device project])
           else
             (s1, [UpsertDevice device p1] @ maybe_redeliver device s1 @
                (if was_online then [] else [ClaimByDevice device]))))"

definition handle_response ::
  "fleet_settings \<Rightarrow> rat \<Rightarrow> string \<Rightarrow> payload \<Rightarrow> router \<Rightarrow> router \<times> effect list" where
  "handle_response cfg now device p s =
     (if jget ''type'' p = JStr ''ota_result'' then (s, forward_ota_result cfg device p)
      else if jget ''type'' p = JStr ''ota_progress'' then
        (let (effects, sent) = forward_ota_progress cfg now device p (rt_progress s) in
         (s\<lparr>rt_progress := sent\<rparr>, effects))
      else (resolve_response device (JObj p) s, []))"

definition handle_crash :: "string \<Rightarrow> string \<Rightarrow> payload \<Rightarrow> router \<Rightarrow> router \<times> effect list" where
  "handle_crash project device p s =
     (let p1 = with_key ''project_id'' (JStr project) p; s1 = set_crash device p1 s in
      (s1, [IngestCrash device p1] @ maybe_redeliver device s1))"

definition handle_message ::
  "fleet_settings \<Rightarrow> rat \<Rightarrow> string \<Rightarrow> json option \<Rightarrow> router \<Rightarrow> router \<times> effect list" where
  "handle_message cfg now topic body s = (case body of
      None \<Rightarrow> (s, [])
    | Some v \<Rightarrow>
        (let parts = levels topic in
         if length parts \<ge> 5 \<and> parts ! 0 = ''nff'' \<and> parts ! 1 = ''_bootstrap'' then
           (if parts ! 4 = ''announce'' then
              (case obj v of
                None \<Rightarrow> (s, [HandlerError])
              | Some p \<Rightarrow> (s, [RecordEnrollment (parts ! 2) (parts ! 3) (hardware p)]))
            else if parts ! 4 = ''response'' then (resolve_bootstrap_response (parts ! 3) v s, [])
            else (s, []))
         else if length parts < 5 \<or> parts ! 0 \<noteq> ''nff'' \<or> parts ! 2 \<noteq> ''devices'' then (s, [])
         else
           (let project = parts ! 1; device = parts ! 3; msg_type = parts ! 4 in
            if msg_type \<notin> {''heartbeat'', ''response'', ''crash''} then (s, [])
            else (case obj v of
                None \<Rightarrow> (s, [HandlerError])
              | Some p \<Rightarrow>
                  if msg_type = ''heartbeat'' then handle_heartbeat now project device p s
                  else if msg_type = ''response'' then handle_response cfg now device p s
                  else handle_crash project device p s))))"


section \<open>Sending a command, rolling over a certificate\<close>

definition new_future :: "router \<Rightarrow> nat \<times> router" where
  "new_future s = (rt_next s, s\<lparr>rt_next := rt_next s + 1, rt_futures := (rt_futures s)(rt_next s \<mapsto> FPending)\<rparr>)"

text \<open>\<open>send_command\<close> up to the wait: \<open>None\<close> is an exception (signing failed, or the publish raised,
  after which the \<open>finally\<close> block has run).\<close>

definition send_begin ::
  "'k crypto \<Rightarrow> string \<Rightarrow> payload \<Rightarrow> string \<Rightarrow> string \<Rightarrow> int \<Rightarrow> router \<times> 'k keyring \<Rightarrow>
     nat option \<times> effect list \<times> router \<times> 'k keyring" where
  "send_begin c device p project nonce now sk =
     (let (s, keys) = sk; (signed, keys') = sign c (full_payload p nonce now) project keys in
      case signed of
        None \<Rightarrow> (None, [], s, keys')
      | Some q \<Rightarrow>
          (let audit = Audit device (jget_or ''action'' (JStr ''unknown'') p) nonce project;
               (f, s1) = new_future s; topic = topic_cmd project device;
               s2 = register_redeliver device topic q (register_pending device f s1) in
           if rt_connected s then (Some f, [audit, Publish topic q], s2, keys')
           else (None, [audit], unregister_redeliver device (unregister_pending device s2), keys')))"

text \<open>The rest of \<open>send_command\<close>: the answer, or \<open>None\<close> for the timeout, which cancels the future.\<close>

definition send_resume :: "string \<Rightarrow> nat \<Rightarrow> router \<Rightarrow> json option \<times> router" where
  "send_resume device f s =
     (let s' = (if rt_futures s f = Some FPending then s\<lparr>rt_futures := (rt_futures s)(f \<mapsto> FCancelled)\<rparr> else s) in
      (case rt_futures s f of Some (FDone v) \<Rightarrow> Some v | _ \<Rightarrow> None,
       unregister_redeliver device (unregister_pending device s')))"

definition roll_begin ::
  "'k crypto \<Rightarrow> 'k \<Rightarrow> string \<Rightarrow> string \<Rightarrow> payload \<Rightarrow> router \<times> 'k keyring \<Rightarrow>
     nat option \<times> effect list \<times> router \<times> 'k keyring" where
  "roll_begin c fresh batch hwid p sk =
     (let (s, keys) = sk; (signed, keys') = sign_rollover c fresh p keys in
      case signed of
        None \<Rightarrow> (None, [], s, keys')
      | Some q \<Rightarrow>
          (let (f, s1) = new_future s; s2 = register_bootstrap_pending hwid f s1 in
           if rt_connected s then (Some f, [Publish (rollover_topic batch hwid) q], s2, keys')
           else (None, [], unregister_bootstrap_pending hwid s2, keys')))"

text \<open>\<open>None\<close> is the exception of an acknowledgement that is no object.\<close>

definition roll_resume :: "string \<Rightarrow> string \<Rightarrow> nat \<Rightarrow> router \<Rightarrow> bool option \<times> effect list \<times> router" where
  "roll_resume enrollment hwid f s =
     (let s' = (if rt_futures s f = Some FPending then s\<lparr>rt_futures := (rt_futures s)(f \<mapsto> FCancelled)\<rparr> else s);
          s'' = unregister_bootstrap_pending hwid s' in
      case rt_futures s f of
        Some (FDone v) \<Rightarrow> (case obj v of
            None \<Rightarrow> (None, [], s'')
          | Some ack \<Rightarrow>
              if jget ''status'' ack = JStr ''applied'' \<or> jget ''ok'' ack = JBool True
              then (Some True, [MarkClaimed enrollment hwid], s'')
              else (Some False, [MarkIssued enrollment hwid], s''))
      | _ \<Rightarrow> (Some False, [MarkIssued enrollment hwid], s''))"

end
