(* ===== verification/Fleet_System.thy ===== *)
theory Fleet_System
  imports Router
begin

text \<open>
  nff-fleet as one event loop: commands and roll-overs are started, messages arrive, waiting
  coroutines wake (with the answer, or at their timeout), the reaper sweeps, the router's own
  connection comes and goes. A run is a list of events from the initial state, in any order.

  The properties: every answer a caller gets was sent by the device it called after the call; what
  two commands to one device do to each other; what the reaper marks offline, and what it never
  does.
\<close>

datatype event =
    Send string payload string string int
  | Roll string string string payload
  | Msg rat string "json option"
  | Wake nat
  | Reap rat
  | Link bool

text \<open>The coroutine that waits on a future: a command to a device, or the roll-over of an enrolment.\<close>

datatype caller = Command string | Rollover string string

record 'k fleet =
  fl_router :: router
  fl_keys :: "'k keyring"
  fl_calls :: "nat \<Rightarrow> caller option"
  fl_open :: "nat set"
  fl_results :: "(nat \<times> json option) list"

definition init_fleet :: "'k keyring \<Rightarrow> 'k fleet" where
  "init_fleet keys = \<lparr>fl_router = init_router, fl_keys = keys, fl_calls = Map.empty, fl_open = {}, fl_results = []\<rparr>"

definition start_call :: "caller \<Rightarrow> nat option \<times> effect list \<times> router \<times> 'k keyring \<Rightarrow> 'k fleet \<Rightarrow> 'k fleet \<times> effect list" where
  "start_call w started s = (case started of
      (None, effects, r, keys) \<Rightarrow> (s\<lparr>fl_router := r, fl_keys := keys\<rparr>, effects)
    | (Some f, effects, r, keys) \<Rightarrow>
        (s\<lparr>fl_router := r, fl_keys := keys, fl_calls := (fl_calls s)(f \<mapsto> w), fl_open := insert f (fl_open s)\<rparr>, effects))"

definition wake :: "nat \<Rightarrow> 'k fleet \<Rightarrow> 'k fleet \<times> effect list" where
  "wake f s =
     (if f \<notin> fl_open s then (s, [])
      else (case fl_calls s f of
        Some (Command d) \<Rightarrow>
          (let (r, rt) = send_resume d f (fl_router s) in
           (s\<lparr>fl_router := rt, fl_open := fl_open s - {f}, fl_results := fl_results s @ [(f, r)]\<rparr>, []))
      | Some (Rollover en hwid) \<Rightarrow>
          (let (r, effects, rt) = roll_resume en hwid f (fl_router s) in
           (s\<lparr>fl_router := rt, fl_open := fl_open s - {f}\<rparr>, effects))
      | None \<Rightarrow> (s, [])))"

definition step :: "'k crypto \<Rightarrow> fleet_settings \<Rightarrow> 'k \<Rightarrow> event \<Rightarrow> 'k fleet \<Rightarrow> 'k fleet \<times> effect list" where
  "step c cfg fresh e s = (case e of
      Send d p project nonce now \<Rightarrow>
        start_call (Command d) (send_begin c d p project nonce now (fl_router s, fl_keys s)) s
    | Roll en batch hwid p \<Rightarrow>
        start_call (Rollover en hwid) (roll_begin c fresh batch hwid p (fl_router s, fl_keys s)) s
    | Msg now topic body \<Rightarrow>
        (let (rt, effects) = handle_message cfg now topic body (fl_router s) in (s\<lparr>fl_router := rt\<rparr>, effects))
    | Wake f \<Rightarrow> wake f s
    | Reap now \<Rightarrow>
        (let (reg, effects) = fleet_reaper_sweep cfg now (rt_registry (fl_router s)) in
         (s\<lparr>fl_router := (fl_router s)\<lparr>rt_registry := reg\<rparr>\<rparr>, effects))
    | Link up \<Rightarrow> (s\<lparr>fl_router := (fl_router s)\<lparr>rt_connected := up\<rparr>\<rparr>, []))"

definition run :: "'k crypto \<Rightarrow> fleet_settings \<Rightarrow> 'k \<Rightarrow> 'k keyring \<Rightarrow> event list \<Rightarrow> 'k fleet" where
  "run c cfg fresh keys es = foldl (\<lambda>s e. fst (step c cfg fresh e s)) (init_fleet keys) es"

lemma run_Nil [simp]: "run c cfg fresh keys [] = init_fleet keys"
  by (simp add: run_def)

lemma run_snoc [simp]: "run c cfg fresh keys (es @ [e]) = fst (step c cfg fresh e (run c cfg fresh keys es))"
  by (simp add: run_def)


section \<open>Whose answer a caller gets\<close>

text \<open>A message that answers a command to device \<open>d\<close> with the value \<open>v\<close>.\<close>

definition answers :: "event \<Rightarrow> string \<Rightarrow> json \<Rightarrow> bool" where
  "answers e d v \<longleftrightarrow> (\<exists>now topic p. e = Msg now topic (Some v) \<and> v = JObj p \<and>
     5 \<le> length (levels topic) \<and> levels topic ! 0 = ''nff'' \<and> levels topic ! 1 \<noteq> ''_bootstrap'' \<and>
     levels topic ! 2 = ''devices'' \<and> levels topic ! 3 = d \<and> levels topic ! 4 = ''response'' \<and>
     jget ''type'' p \<noteq> JStr ''ota_result'' \<and> jget ''type'' p \<noteq> JStr ''ota_progress'')"

text \<open>How a state of the router changes the answers held for commands.\<close>

lemma settle_futures:
  "rt_futures (settle f v s) g = (if g = f \<and> rt_futures s f = Some FPending then Some (FDone v) else rt_futures s g)"
  by (simp add: settle_def)

lemma settle_other [simp]:
  "rt_pending (settle f v s) = rt_pending s" "rt_bootstrap (settle f v s) = rt_bootstrap s"
  "rt_next (settle f v s) = rt_next s" "rt_connected (settle f v s) = rt_connected s"
  "rt_redeliver (settle f v s) = rt_redeliver s"
  by (simp_all add: settle_def)

lemma resolve_other [simp]:
  "rt_pending (resolve_response d v s) = rt_pending s" "rt_bootstrap (resolve_response d v s) = rt_bootstrap s"
  "rt_next (resolve_response d v s) = rt_next s"
  "rt_pending (resolve_bootstrap_response d v s) = rt_pending s"
  "rt_bootstrap (resolve_bootstrap_response d v s) = rt_bootstrap s"
  "rt_next (resolve_bootstrap_response d v s) = rt_next s"
  "rt_redeliver (resolve_response d v s) = rt_redeliver s"
  "rt_redeliver (resolve_bootstrap_response d v s) = rt_redeliver s"
  by (simp_all add: resolve_response_def resolve_bootstrap_response_def split: option.split)

lemma handle_message_tables:
  assumes "handle_message cfg now topic body s = (s', effects)"
  shows "rt_pending s' = rt_pending s \<and> rt_bootstrap s' = rt_bootstrap s \<and> rt_next s' = rt_next s \<and>
    rt_redeliver s' = rt_redeliver s"
  using assms
  by (auto simp: handle_message_def handle_heartbeat_def handle_response_def handle_crash_def set_crash_def
      Let_def split: option.splits if_splits prod.splits bool.splits)

lemma handle_message_futures:
  assumes "handle_message cfg now topic body s = (s', effects)"
    and "rt_futures s' f \<noteq> rt_futures s f"
  shows "\<exists>v. rt_futures s f = Some FPending \<and> rt_futures s' f = Some (FDone v) \<and>
    ((\<exists>d. rt_pending s d = Some f \<and> answers (Msg now topic body) d v) \<or> (\<exists>h. rt_bootstrap s h = Some f))"
  using assms
  by (auto simp: handle_message_def handle_heartbeat_def handle_response_def handle_crash_def set_crash_def
      resolve_response_def resolve_bootstrap_response_def settle_futures answers_def obj_def
      Let_def split: option.splits if_splits prod.splits bool.splits json.splits)


lemma send_begin_cases:
  assumes "send_begin c d p project nonce now (s, keys) = (r, effects, s', keys')"
  shows "r = None \<and> s' = s \<or>
    rt_next s' = rt_next s + 1 \<and> rt_futures s' = (rt_futures s)(rt_next s \<mapsto> FPending) \<and>
    rt_bootstrap s' = rt_bootstrap s \<and>
    (r = None \<and> rt_pending s' = (rt_pending s)(d := None) \<or>
     r = Some (rt_next s) \<and> rt_pending s' = (rt_pending s)(d \<mapsto> rt_next s))"
  using assms
  by (auto simp: send_begin_def new_future_def register_pending_def register_redeliver_def
      unregister_pending_def unregister_redeliver_def Let_def split: option.splits prod.splits if_splits)

lemma roll_begin_cases:
  assumes "roll_begin c fresh batch hwid p (s, keys) = (r, effects, s', keys')"
  shows "r = None \<and> s' = s \<or>
    rt_next s' = rt_next s + 1 \<and> rt_futures s' = (rt_futures s)(rt_next s \<mapsto> FPending) \<and>
    rt_pending s' = rt_pending s \<and>
    (r = None \<and> rt_bootstrap s' = (rt_bootstrap s)(hwid := None) \<or>
     r = Some (rt_next s) \<and> rt_bootstrap s' = (rt_bootstrap s)(hwid \<mapsto> rt_next s))"
  using assms
  by (auto simp: roll_begin_def new_future_def register_bootstrap_pending_def
      unregister_bootstrap_pending_def Let_def split: option.splits prod.splits if_splits)

lemma send_resume_tables:
  assumes "send_resume d f s = (r, s')"
  shows "rt_next s' = rt_next s \<and> rt_bootstrap s' = rt_bootstrap s \<and> rt_pending s' = (rt_pending s)(d := None) \<and>
    rt_futures s' = (if rt_futures s f = Some FPending then (rt_futures s)(f \<mapsto> FCancelled) else rt_futures s) \<and>
    (\<forall>v. r = Some v \<longleftrightarrow> rt_futures s f = Some (FDone v))"
  using assms
  by (auto simp: send_resume_def unregister_pending_def unregister_redeliver_def Let_def
      split: option.splits future.splits)

lemma roll_resume_tables:
  assumes "roll_resume en hwid f s = (r, effects, s')"
  shows "rt_next s' = rt_next s \<and> rt_pending s' = rt_pending s \<and> rt_bootstrap s' = (rt_bootstrap s)(hwid := None) \<and>
    rt_futures s' = (if rt_futures s f = Some FPending then (rt_futures s)(f \<mapsto> FCancelled) else rt_futures s)"
  using assms
  by (auto simp: roll_resume_def unregister_bootstrap_pending_def Let_def split: option.splits future.splits if_splits)

text \<open>Future \<open>f\<close> was made by a command sent to \<open>d\<close>; it was answered with \<open>v\<close> after that.\<close>

definition answered ::
  "'k crypto \<Rightarrow> fleet_settings \<Rightarrow> 'k \<Rightarrow> 'k keyring \<Rightarrow> event list \<Rightarrow> nat \<Rightarrow> string \<Rightarrow> json \<Rightarrow> bool" where
  "answered c cfg fresh keys es f d v \<longleftrightarrow> (\<exists>before p project nonce now after.
     es = before @ Send d p project nonce now # after \<and> rt_next (fl_router (run c cfg fresh keys before)) = f \<and>
     (\<exists>m \<in> set after. answers m d v))"

definition started ::
  "'k crypto \<Rightarrow> fleet_settings \<Rightarrow> 'k \<Rightarrow> 'k keyring \<Rightarrow> event list \<Rightarrow> nat \<Rightarrow> string \<Rightarrow> bool" where
  "started c cfg fresh keys es f d \<longleftrightarrow> (\<exists>before p project nonce now after.
     es = before @ Send d p project nonce now # after \<and> rt_next (fl_router (run c cfg fresh keys before)) = f)"

lemma answered_snoc: "answered c cfg fresh keys es f d v \<Longrightarrow> answered c cfg fresh keys (es @ [e]) f d v"
  unfolding answered_def by fastforce

lemma started_snoc: "started c cfg fresh keys es f d \<Longrightarrow> started c cfg fresh keys (es @ [e]) f d"
  unfolding started_def by fastforce

lemma started_new: "rt_next (fl_router (run c cfg fresh keys es)) = f \<Longrightarrow>
    started c cfg fresh keys (es @ [Send d p project nonce now]) f d"
  unfolding started_def by blast

lemma started_answered:
  "started c cfg fresh keys es f d \<Longrightarrow> answers e d v \<Longrightarrow> answered c cfg fresh keys (es @ [e]) f d v"
  unfolding started_def answered_def by fastforce

definition tables_ok :: "'k fleet \<Rightarrow> bool" where
  "tables_ok s \<longleftrightarrow>
     (\<forall>d f. rt_pending (fl_router s) d = Some f \<longrightarrow> fl_calls s f = Some (Command d)) \<and>
     (\<forall>h f. rt_bootstrap (fl_router s) h = Some f \<longrightarrow> (\<exists>en. fl_calls s f = Some (Rollover en h))) \<and>
     (\<forall>f. fl_calls s f \<noteq> None \<or> rt_futures (fl_router s) f \<noteq> None \<longrightarrow> f < rt_next (fl_router s)) \<and>
     distinct (map fst (fl_results s)) \<and> fl_open s \<inter> fst ` set (fl_results s) = {} \<and>
     fl_open s \<subseteq> dom (fl_calls s) \<and> fst ` set (fl_results s) \<subseteq> dom (fl_calls s)"

lemma tables_ok_owner:
  assumes "tables_ok s"
  shows "rt_pending (fl_router s) d = Some f \<Longrightarrow> fl_calls s f = Some (Command d)"
    "rt_bootstrap (fl_router s) h = Some f \<Longrightarrow> \<exists>en. fl_calls s f = Some (Rollover en h)"
  using assms by (simp_all add: tables_ok_def)

lemma tables_ok_fresh:
  assumes "tables_ok s"
  shows "fl_calls s (rt_next (fl_router s)) = None"
    "rt_pending (fl_router s) d \<noteq> Some (rt_next (fl_router s))"
    "rt_bootstrap (fl_router s) h \<noteq> Some (rt_next (fl_router s))"
proof -
  have "\<forall>f. fl_calls s f \<noteq> None \<or> rt_futures (fl_router s) f \<noteq> None \<longrightarrow> f < rt_next (fl_router s)"
    using assms by (simp add: tables_ok_def)
  then show new: "fl_calls s (rt_next (fl_router s)) = None" by (metis less_irrefl)
  show "rt_pending (fl_router s) d \<noteq> Some (rt_next (fl_router s))"
    "rt_bootstrap (fl_router s) h \<noteq> Some (rt_next (fl_router s))"
    using tables_ok_owner [OF assms] new by (metis option.distinct(1))+
qed

lemma tables_ok_step:
  assumes "tables_ok s"
  shows "tables_ok (fst (step c cfg fresh e s))"
proof (cases e)
  case (Send d p project nonce now)
  obtain r eff rt k where b: "send_begin c d p project nonce now (fl_router s, fl_keys s) = (r, eff, rt, k)"
    by (metis prod_cases4)
  have st: "fst (step c cfg fresh e s) = fst (start_call (Command d) (r, eff, rt, k) s)"
    by (simp add: step_def Send b)
  show ?thesis unfolding st using send_begin_cases [OF b] assms tables_ok_fresh [OF assms]
    by (cases r) (auto simp: start_call_def tables_ok_def less_Suc_eq split: if_splits)
next
  case (Roll en batch hwid p)
  obtain r eff rt k where b: "roll_begin c fresh batch hwid p (fl_router s, fl_keys s) = (r, eff, rt, k)"
    by (metis prod_cases4)
  have st: "fst (step c cfg fresh e s) = fst (start_call (Rollover en hwid) (r, eff, rt, k) s)"
    by (simp add: step_def Roll b)
  show ?thesis unfolding st using roll_begin_cases [OF b] assms tables_ok_fresh [OF assms]
    by (cases r) (auto simp: start_call_def tables_ok_def less_Suc_eq split: if_splits)
next
  case (Msg now topic body)
  obtain rt eff where b: "handle_message cfg now topic body (fl_router s) = (rt, eff)" by fastforce
  have "\<forall>f. rt_futures rt f \<noteq> None \<longrightarrow> rt_futures (fl_router s) f \<noteq> None"
    by (metis handle_message_futures [OF b] option.distinct(1))
  then show ?thesis using handle_message_tables [OF b] assms
    by (auto simp: step_def Msg b tables_ok_def)
next
  case (Wake f)
  show ?thesis
  proof (cases "f \<in> fl_open s \<and> fl_calls s f \<noteq> None")
    case True
    then obtain w where w: "fl_calls s f = Some w" by auto
    show ?thesis
    proof (cases w)
      case (Command d)
      obtain r rt where b: "send_resume d f (fl_router s) = (r, rt)" by fastforce
      show ?thesis using send_resume_tables [OF b] assms True w Command
        by (auto simp: step_def Wake wake_def b tables_ok_def split: if_splits)
    next
      case (Rollover en hwid)
      obtain r eff rt where b: "roll_resume en hwid f (fl_router s) = (r, eff, rt)" by (metis prod_cases3)
      show ?thesis using roll_resume_tables [OF b] assms True w Rollover
        by (auto simp: step_def Wake wake_def b tables_ok_def split: if_splits)
    qed
  next
    case False
    then show ?thesis using assms by (auto simp: step_def Wake wake_def split: option.split)
  qed
next
  case (Reap now)
  then show ?thesis using assms by (simp add: step_def tables_ok_def split: prod.split)
next
  case (Link up)
  then show ?thesis using assms by (simp add: step_def tables_ok_def)
qed

lemma tables_ok_run: "tables_ok (run c cfg fresh keys es)"
proof (induction es rule: rev_induct)
  case Nil
  show ?case by (simp add: tables_ok_def init_fleet_def init_router_def)
qed (simp add: tables_ok_step)


definition answers_ok ::
  "'k crypto \<Rightarrow> fleet_settings \<Rightarrow> 'k \<Rightarrow> 'k keyring \<Rightarrow> event list \<Rightarrow> 'k fleet \<Rightarrow> bool" where
  "answers_ok c cfg fresh keys es s \<longleftrightarrow>
     (\<forall>f d. fl_calls s f = Some (Command d) \<longrightarrow> started c cfg fresh keys es f d) \<and>
     (\<forall>f d v. fl_calls s f = Some (Command d) \<and> rt_futures (fl_router s) f = Some (FDone v) \<longrightarrow>
        answered c cfg fresh keys es f d v) \<and>
     (\<forall>f v. (f, Some v) \<in> set (fl_results s) \<longrightarrow>
        (\<exists>d. fl_calls s f = Some (Command d) \<and> answered c cfg fresh keys es f d v))"

lemma answers_ok_keep:
  assumes "answers_ok c cfg fresh keys es s" and "fl_calls s' = fl_calls s" and "fl_results s' = fl_results s"
    and "\<And>f v. rt_futures (fl_router s') f = Some (FDone v) \<Longrightarrow> rt_futures (fl_router s) f = Some (FDone v)"
  shows "answers_ok c cfg fresh keys (es @ [e]) s'"
  using assms unfolding answers_ok_def by (metis answered_snoc started_snoc)

lemma answers_ok_step:
  assumes a: "answers_ok c cfg fresh keys es s" and t: "tables_ok s" and s: "s = run c cfg fresh keys es"
  shows "answers_ok c cfg fresh keys (es @ [e]) (fst (step c cfg fresh e s))"
proof (cases e)
  case (Send d p project nonce now)
  obtain r eff rt k where b: "send_begin c d p project nonce now (fl_router s, fl_keys s) = (r, eff, rt, k)"
    by (metis prod_cases4)
  have st: "fst (step c cfg fresh e s) = fst (start_call (Command d) (r, eff, rt, k) s)"
    by (simp add: step_def Send b)
  have old: "rt_futures (fl_router s) f = Some (FDone v)" if "rt_futures rt f = Some (FDone v)" for f v
    using send_begin_cases [OF b] that by (auto split: if_splits)
  show ?thesis
  proof (cases r)
    case None
    then show ?thesis unfolding st by (intro answers_ok_keep [OF a]) (auto simp: start_call_def old)
  next
    case (Some f)
    then have f: "f = rt_next (fl_router s)" "rt_futures rt f = Some FPending"
      using send_begin_cases [OF b] by auto
    have new: "started c cfg fresh keys (es @ [e]) f d" unfolding Send using f(1) s by (simp add: started_new)
    have fc: "fl_calls s f = None" using tables_ok_fresh(1) [OF t] f(1) by simp
    then have nf: "(f, Some v) \<notin> set (fl_results s)" for v using t unfolding tables_ok_def by force
    show ?thesis unfolding st Some answers_ok_def start_call_def
      using a new f(2) nf unfolding answers_ok_def
      by (auto simp: old intro: started_snoc answered_snoc) (metis answered_snoc old)+
  qed
next
  case (Roll en batch hwid p)
  obtain r eff rt k where b: "roll_begin c fresh batch hwid p (fl_router s, fl_keys s) = (r, eff, rt, k)"
    by (metis prod_cases4)
  have st: "fst (step c cfg fresh e s) = fst (start_call (Rollover en hwid) (r, eff, rt, k) s)"
    by (simp add: step_def Roll b)
  have old: "rt_futures (fl_router s) f = Some (FDone v)" if "rt_futures rt f = Some (FDone v)" for f v
    using roll_begin_cases [OF b] that by (auto split: if_splits)
  show ?thesis
  proof (cases r)
    case None
    then show ?thesis unfolding st by (intro answers_ok_keep [OF a]) (auto simp: start_call_def old)
  next
    case (Some f)
    then have f: "f = rt_next (fl_router s)" using roll_begin_cases [OF b] by auto
    have "fl_calls s f = None" using tables_ok_fresh(1) [OF t] f by simp
    then have nf: "(f, Some v) \<notin> set (fl_results s)" for v using t unfolding tables_ok_def by force
    show ?thesis unfolding st Some answers_ok_def start_call_def
      using a nf unfolding answers_ok_def
      by (auto simp: old intro: started_snoc answered_snoc) (metis answered_snoc old)+
  qed
next
  case (Msg now topic body)
  obtain rt eff where b: "handle_message cfg now topic body (fl_router s) = (rt, eff)" by fastforce
  have st: "fst (step c cfg fresh e s) = s\<lparr>fl_router := rt\<rparr>" by (simp add: step_def Msg b)
  have "answered c cfg fresh keys (es @ [e]) f d v"
    if "fl_calls s f = Some (Command d)" "rt_futures rt f = Some (FDone v)" for f d v
  proof (cases "rt_futures rt f = rt_futures (fl_router s) f")
    case True
    then show ?thesis using a that unfolding answers_ok_def by (simp add: answered_snoc)
  next
    case False
    from handle_message_futures [OF b this] that(2)
    consider d' where "rt_pending (fl_router s) d' = Some f" "answers (Msg now topic body) d' v"
      | h where "rt_bootstrap (fl_router s) h = Some f" by auto
    then show ?thesis
    proof cases
      case 1
      then have "d' = d" using tables_ok_owner(1) [OF t 1(1)] that(1) by simp
      have "started c cfg fresh keys es f d" using a that(1) unfolding answers_ok_def by blast
      from started_answered [OF this] show ?thesis using 1(2) \<open>d' = d\<close> unfolding Msg by blast
    next
      case 2
      then show ?thesis using tables_ok_owner(2) [OF t 2] that(1) by auto
    qed
  qed
  then show ?thesis unfolding st using a unfolding answers_ok_def
    by (auto intro: started_snoc) (metis answered_snoc)
next
  case (Wake f)
  show ?thesis
  proof (cases "\<exists>d. f \<in> fl_open s \<and> fl_calls s f = Some (Command d)")
    case True
    then obtain d where d: "f \<in> fl_open s" "fl_calls s f = Some (Command d)" by blast
    obtain r rt where b: "send_resume d f (fl_router s) = (r, rt)" by fastforce
    have st: "fst (step c cfg fresh e s) =
        s\<lparr>fl_router := rt, fl_open := fl_open s - {f}, fl_results := fl_results s @ [(f, r)]\<rparr>"
      using d by (simp add: step_def Wake wake_def b)
    note tab = send_resume_tables [OF b]
    have fut: "rt_futures (fl_router s) g = Some (FDone v)" if "rt_futures rt g = Some (FDone v)" for g v
      using tab that by (auto split: if_splits)
    have val: "rt_futures (fl_router s) f = Some (FDone v)" if "r = Some v" for v using tab that by blast
    have a1: "started c cfg fresh keys es g d'" if "fl_calls s g = Some (Command d')" for g d'
      using a that by (simp add: answers_ok_def)
    have a2: "answered c cfg fresh keys es g d' v"
      if "fl_calls s g = Some (Command d')" "rt_futures (fl_router s) g = Some (FDone v)" for g d' v
      using a that by (simp add: answers_ok_def)
    have a3: "\<exists>d'. fl_calls s g = Some (Command d') \<and> answered c cfg fresh keys es g d' v"
      if "(g, Some v) \<in> set (fl_results s)" for g v
      using a that by (simp add: answers_ok_def)
    show ?thesis unfolding st answers_ok_def
    proof (intro conjI allI impI)
      fix g d' assume "fl_calls (s\<lparr>fl_router := rt, fl_open := fl_open s - {f}, fl_results := fl_results s @ [(f, r)]\<rparr>) g =
        Some (Command d')"
      then show "started c cfg fresh keys (es @ [e]) g d'" by (simp add: a1 started_snoc)
    next
      fix g d' v assume "fl_calls (s\<lparr>fl_router := rt, fl_open := fl_open s - {f}, fl_results := fl_results s @ [(f, r)]\<rparr>) g =
        Some (Command d') \<and> rt_futures (fl_router (s\<lparr>fl_router := rt, fl_open := fl_open s - {f},
          fl_results := fl_results s @ [(f, r)]\<rparr>)) g = Some (FDone v)"
      then show "answered c cfg fresh keys (es @ [e]) g d' v" by (simp add: a2 fut answered_snoc)
    next
      fix g v assume "(g, Some v) \<in> set (fl_results (s\<lparr>fl_router := rt, fl_open := fl_open s - {f},
        fl_results := fl_results s @ [(f, r)]\<rparr>))"
      then consider "(g, Some v) \<in> set (fl_results s)" | "g = f" "r = Some v" by auto
      then have "\<exists>d'. fl_calls s g = Some (Command d') \<and> answered c cfg fresh keys es g d' v"
        using a3 a2 [OF d(2) val] d(2) by cases blast+
      then show "\<exists>d'. fl_calls (s\<lparr>fl_router := rt, fl_open := fl_open s - {f}, fl_results := fl_results s @ [(f, r)]\<rparr>) g =
        Some (Command d') \<and> answered c cfg fresh keys (es @ [e]) g d' v"
        using answered_snoc by fastforce
    qed
  next
    case False
    show ?thesis
    proof (rule answers_ok_keep [OF a])
      show "fl_calls (fst (step c cfg fresh e s)) = fl_calls s" "fl_results (fst (step c cfg fresh e s)) = fl_results s"
        using False by (auto simp: step_def Wake wake_def split: option.split caller.split prod.split)
      show "rt_futures (fl_router s) g = Some (FDone v)"
        if "rt_futures (fl_router (fst (step c cfg fresh e s))) g = Some (FDone v)" for g v
        using that False
        by (auto simp: step_def Wake wake_def split: if_splits option.splits caller.splits prod.splits
            dest!: roll_resume_tables)
    qed
  qed
next
  case (Reap now)
  then show ?thesis by (intro answers_ok_keep [OF a]) (auto simp: step_def split: prod.splits)
next
  case (Link up)
  then show ?thesis by (intro answers_ok_keep [OF a]) (auto simp: step_def)
qed

lemma answers_ok_run: "answers_ok c cfg fresh keys es (run c cfg fresh keys es)"
proof (induction es rule: rev_induct)
  case Nil
  show ?case by (simp add: answers_ok_def init_fleet_def init_router_def)
next
  case (snoc e es)
  then show ?case using answers_ok_step [OF snoc.IH tables_ok_run refl] by simp
qed

text \<open>
  C20. However commands, roll-overs, messages, timeouts and reaper sweeps interleave: every call
  gets at most one result, and an answer handed to the caller of a command is a message that
  arrived, after that command was sent, on a response topic naming the very device it was sent to,
  and is no update report.
\<close>

theorem answers_authentic:
  assumes "(f, Some v) \<in> set (fl_results (run c cfg fresh keys es))"
  shows "distinct (map fst (fl_results (run c cfg fresh keys es))) \<and>
    (\<exists>d before p project nonce now after. es = before @ Send d p project nonce now # after \<and>
       rt_next (fl_router (run c cfg fresh keys before)) = f \<and> (\<exists>m \<in> set after. answers m d v))"
proof -
  from answers_ok_run [of c cfg fresh keys es] assms obtain d where "answered c cfg fresh keys es f d v"
    unfolding answers_ok_def by blast
  moreover have "distinct (map fst (fl_results (run c cfg fresh keys es)))"
    using tables_ok_run [of c cfg fresh keys es] unfolding tables_ok_def by blast
  ultimately show ?thesis unfolding answered_def by blast
qed


text \<open>A concrete fleet: one project key, connected.\<close>

definition sample_cfg :: fleet_settings where
  "sample_cfg = \<lparr>fs_default_interval = 30, fs_miss_factor = 2, fs_ota_url = ''u''\<rparr>"

abbreviation ping :: payload where
  "ping \<equiv> [(''action'', JStr ''ping'')]"

abbreviation pong :: json where
  "pong \<equiv> JObj [(''type'', JStr ''pong'')]"

lemma levels_response: "levels ''nff/p/devices/d/response'' = [''nff'', ''p'', ''devices'', ''d'', ''response'']"
  by simp

lemmas fleet_run_defs = run_def step_def start_call_def send_begin_def new_future_def register_pending_def
  register_redeliver_def unregister_pending_def unregister_redeliver_def init_fleet_def init_router_def
  wake_def send_resume_def handle_message_def handle_response_def resolve_response_def settle_def obj_def
  Let_def

theorem answers_authentic_witness:
  "distinct (map fst (fl_results (run sample_crypto sample_cfg ''r'' sample_ring
     [Link True, Send ''d'' ping ''p'' ''n1'' 7, Msg 8 ''nff/p/devices/d/response'' (Some pong), Wake 0])))"
proof -
  let ?s = "run sample_crypto sample_cfg ''r'' sample_ring
     [Link True, Send ''d'' ping ''p'' ''n1'' 7, Msg 8 ''nff/p/devices/d/response'' (Some pong), Wake 0]"
  have "(0, Some pong) \<in> set (fl_results ?s)"
    by (simp add: fleet_run_defs sample_sign)
  from answers_authentic [OF this] show ?thesis by blast
qed


section \<open>Two commands to one device\<close>

text \<open>
  The answer is matched by the device alone. \<open>answer\<close> is any object that is no update report.
\<close>

lemma send_Some:
  assumes "sign c (full_payload p nonce now) project keys = (Some q, keys')" and "rt_connected s"
  shows "send_begin c d p project nonce now (s, keys) =
    (Some (rt_next s), [Audit d (jget_or ''action'' (JStr ''unknown'') p) nonce project, Publish (topic_cmd project d) q],
     s\<lparr>rt_next := rt_next s + 1, rt_futures := (rt_futures s)(rt_next s \<mapsto> FPending),
       rt_pending := (rt_pending s)(d \<mapsto> rt_next s), rt_redeliver := (rt_redeliver s)(d \<mapsto> (topic_cmd project d, q))\<rparr>,
     keys')"
  using assms
  by (simp add: send_begin_def new_future_def register_pending_def register_redeliver_def Let_def)

lemma response_message:
  assumes "levels topic = [''nff'', sender, ''devices'', d, ''response'']" and "sender \<noteq> ''_bootstrap''"
    and "jget ''type'' a \<noteq> JStr ''ota_result''" and "jget ''type'' a \<noteq> JStr ''ota_progress''"
  shows "handle_message cfg now topic (Some (JObj a)) s = (resolve_response d (JObj a) s, [])"
  using assms by (simp add: handle_message_def handle_response_def obj_def)

text \<open>
  Two commands to one device disturb each other, because the router keys the waiting call by
  the device and nothing in the answer is compared, not even the project of its topic (\<open>sender\<close>). A late answer to a command that timed out is
  handed to the caller of the next command; and when two commands wait at once, the timeout of the
  first removes the registration of the second, whose answer is then dropped so that it times out
  although the device answered.
\<close>

theorem commands_disturb_each_other:
  assumes "sign c (full_payload p1 n1 t1) project (fl_keys s) = (Some q1, keys1)"
    and "sign c (full_payload p2 n2 t2) project keys1 = (Some q2, keys2)"
    and "rt_connected (fl_router s)" and "f = rt_next (fl_router s)"
    and "levels topic = [''nff'', sender, ''devices'', d, ''response'']" and "sender \<noteq> ''_bootstrap''"
    and "jget ''type'' answer \<noteq> JStr ''ota_result''" and "jget ''type'' answer \<noteq> JStr ''ota_progress''"
  shows "fl_results (foldl (\<lambda>s e. fst (step c cfg fresh e s)) s
      [Send d p1 project n1 t1, Wake f, Send d p2 project n2 t2,
       Msg t3 topic (Some (JObj answer)), Wake (f + 1)]) =
      fl_results s @ [(f, None), (f + 1, Some (JObj answer))] \<and>
    fl_results (foldl (\<lambda>s e. fst (step c cfg fresh e s)) s
      [Send d p1 project n1 t1, Send d p2 project n2 t2, Wake f,
       Msg t3 topic (Some (JObj answer)), Wake (f + 1)]) =
      fl_results s @ [(f, None), (f + 1, None)]"
proof -
  note msg = response_message [OF assms(5-8)]
  note steps = step_def start_call_def wake_def send_resume_def unregister_pending_def unregister_redeliver_def
    resolve_response_def settle_def Let_def
  have "fl_results (foldl (\<lambda>s e. fst (step c cfg fresh e s)) s
      [Send d p1 project n1 t1, Wake f, Send d p2 project n2 t2,
       Msg t3 topic (Some (JObj answer)), Wake (f + 1)]) =
      fl_results s @ [(f, None), (f + 1, Some (JObj answer))]"
    using assms(3,4) by (simp add: steps send_Some [OF assms(1)] send_Some [OF assms(2)] msg)
  moreover have "fl_results (foldl (\<lambda>s e. fst (step c cfg fresh e s)) s
      [Send d p1 project n1 t1, Send d p2 project n2 t2, Wake f,
       Msg t3 topic (Some (JObj answer)), Wake (f + 1)]) =
      fl_results s @ [(f, None), (f + 1, None)]"
    using assms(3,4) by (simp add: steps send_Some [OF assms(1)] send_Some [OF assms(2)] msg)
  ultimately show ?thesis ..
qed


lemma sample_sign_again:
  "sign sample_crypto (full_payload ping ''n1'' 7) ''p'' (sample_ring\<lparr>kr_cache := [''p'' \<mapsto> ''k'']\<rparr>) =
    (Some sample_cmd, sample_ring\<lparr>kr_cache := [''p'' \<mapsto> ''k'']\<rparr>)"
  by (simp add: sign_def load_key_def sample_ring_def sample_crypto_def full_payload_def build_tbs_def
      with_sig_def fmt_def bar_def show_int_7 sample_cmd_def)

theorem commands_disturb_each_other_witness:
  "fl_results (run sample_crypto sample_cfg ''r'' sample_ring
      [Link True, Send ''d'' ping ''p'' ''n1'' 7, Wake 0, Send ''d'' ping ''p'' ''n1'' 7,
       Msg 8 ''nff/p/devices/d/response'' (Some pong), Wake 1]) = [(0, None), (1, Some pong)]"
proof -
  let ?s = "(init_fleet sample_ring)\<lparr>fl_router := init_router\<lparr>rt_connected := True\<rparr>\<rparr>"
  have f: "0 = rt_next (fl_router ?s)" by (simp add: init_router_def)
  have s1: "sign sample_crypto (full_payload ping ''n1'' 7) ''p'' (fl_keys ?s) =
      (Some sample_cmd, sample_ring\<lparr>kr_cache := [''p'' \<mapsto> ''k'']\<rparr>)"
    by (simp add: sample_sign init_fleet_def)
  have c: "rt_connected (fl_router ?s)" by simp
  have start: "fst (step sample_crypto sample_cfg ''r'' (Link True) (init_fleet sample_ring)) = ?s"
    by (simp add: step_def init_fleet_def)
  have res: "fl_results ?s = []" by (simp add: init_fleet_def)
  show ?thesis
    using commands_disturb_each_other [where ?p1.0 = ping and ?n1.0 = "''n1''" and ?t1.0 = 7 and project = "''p''"
        and s = ?s and ?p2.0 = ping and ?n2.0 = "''n1''" and ?t2.0 = 7 and c = sample_crypto and d = "''d''" and ?t3.0 = 8
        and cfg = sample_cfg and fresh = "''r''", OF s1 sample_sign_again c f levels_response, of "[(''type'', JStr ''pong'')]"]
    by (simp add: run_def start res)
qed


section \<open>What the reaper does\<close>

lemma map_of_set_offline:
  "map_of (set_offline d reg) e =
     (if e = d then map_option (\<lambda>i. i\<lparr>di_status := JStr ''offline''\<rparr>) (map_of reg d) else map_of reg e)"
  by (auto simp: set_offline_def update_conv' split: option.split)

lemma keys_set_offline [simp]: "map fst (set_offline d reg) = map fst reg"
  by (cases "map_of reg d") (auto simp: set_offline_def update_keys dest: map_of_SomeD intro: rev_image_eqI)

lemma map_of_fold_offline:
  "map_of (fold (\<lambda>(d, i). set_offline d) stale reg) e =
     (if e \<in> fst ` set stale then map_option (\<lambda>i. i\<lparr>di_status := JStr ''offline''\<rparr>) (map_of reg e) else map_of reg e)"
  by (induction stale arbitrary: reg) (auto simp: map_of_set_offline option.map_comp comp_def)

lemma keys_fold_offline [simp]: "map fst (fold (\<lambda>(d, i). set_offline d) stale reg) = map fst reg"
  by (induction stale arbitrary: reg) auto

text \<open>
  A sweep of the fleet's reaper marks offline exactly the devices whose status is \<open>online\<close> and whose
  last heartbeat is older than the miss factor times their own interval (the default where they
  reported none, or 0); it changes nothing else in the registry, and records the change of each of
  them that has a project, once, in order.
\<close>

theorem fleet_reaper_exact:
  assumes "distinct (map fst reg)" and "fleet_reaper_sweep cfg now reg = (reg', effects)"
  shows "map fst reg' = map fst reg \<and>
    (\<forall>d i. map_of reg d = Some i \<longrightarrow> map_of reg' d =
       Some (if di_status i = JStr ''online'' \<and> silent (fs_default_interval cfg) (fs_miss_factor cfg) now i
             then i\<lparr>di_status := JStr ''offline''\<rparr> else i)) \<and>
    effects = map (\<lambda>(d, i). UpsertOffline d (the (di_project i)))
      (filter (\<lambda>(d, i). di_status i = JStr ''online'' \<and>
         silent (fs_default_interval cfg) (fs_miss_factor cfg) now i \<and> truthy (di_project i)) reg)"
proof -
  let ?stale = "stale_online_devices (fs_default_interval cfg) (fs_miss_factor cfg) now reg"
  have r: "reg' = fold (\<lambda>(d, i). set_offline d) ?stale reg"
    and e: "effects = concat (map (\<lambda>(d, i). if truthy (di_project i) then [UpsertOffline d (the (di_project i))] else []) ?stale)"
    using assms(2) by (simp_all add: fleet_reaper_sweep_def Let_def)
  have in_stale: "d \<in> fst ` set ?stale \<longleftrightarrow>
      di_status i = JStr ''online'' \<and> silent (fs_default_interval cfg) (fs_miss_factor cfg) now i"
    if "map_of reg d = Some i" for d i
  proof -
    have "(d, j) \<in> set reg \<longleftrightarrow> j = i" for j using that assms(1) by (metis eq_key_imp_eq_value map_of_SomeD)
    then show ?thesis by (force simp: stale_online_devices_def)
  qed
  have "effects = map (\<lambda>(d, i). UpsertOffline d (the (di_project i)))
      (filter (\<lambda>(d, i). di_status i = JStr ''online'' \<and>
         silent (fs_default_interval cfg) (fs_miss_factor cfg) now i \<and> truthy (di_project i)) reg)"
    unfolding e stale_online_devices_def by (induction reg) (auto split: if_splits)
  then show ?thesis unfolding r using in_stale by (simp add: map_of_fold_offline)
qed

definition sample_info :: dev_info where
  "sample_info = \<lparr>di_status = JStr ''online'', di_project = Some ''p'', di_last_seen = 0, di_payload = [], di_interval = None\<rparr>"

theorem fleet_reaper_exact_witness:
  "snd (fleet_reaper_sweep sample_cfg 100 [(''d'', sample_info)]) = [UpsertOffline ''d'' ''p'']"
proof -
  have s: "silent 30 2 100 sample_info" by code_simp
  obtain reg' effects where r: "fleet_reaper_sweep sample_cfg 100 [(''d'', sample_info)] = (reg', effects)"
    by fastforce
  have "distinct (map fst [(''d'', sample_info)])" by simp
  from fleet_reaper_exact [OF this r] show ?thesis using s r
    by (simp add: sample_cfg_def sample_info_def)
qed



section \<open>Redelivery\<close>

text \<open>\<open>q\<close> on topic \<open>t\<close> is the signed command of a call to \<open>d\<close> among the events.\<close>

definition from_call :: "'k crypto \<Rightarrow> event list \<Rightarrow> string \<Rightarrow> string \<Rightarrow> payload \<Rightarrow> bool" where
  "from_call c es d t q \<longleftrightarrow> (\<exists>p project nonce now keys. Send d p project nonce now \<in> set es \<and>
     t = topic_cmd project d \<and> fst (sign c (full_payload p nonce now) project keys) = Some q)"

lemma from_call_snoc: "from_call c es d t q \<Longrightarrow> from_call c (es @ [e]) d t q"
  unfolding from_call_def by fastforce

lemma from_call_new: "fst (sign c (full_payload p nonce now) project keys) = Some q \<Longrightarrow>
    from_call c (es @ [Send d p project nonce now]) d (topic_cmd project d) q"
  unfolding from_call_def by fastforce

definition redeliver_ok :: "'k crypto \<Rightarrow> event list \<Rightarrow> 'k fleet \<Rightarrow> bool" where
  "redeliver_ok c es s \<longleftrightarrow>
     (\<forall>d. rt_pending (fl_router s) d = None \<longleftrightarrow> rt_redeliver (fl_router s) d = None) \<and>
     (\<forall>d f. rt_pending (fl_router s) d = Some f \<longrightarrow> f \<in> fl_open s) \<and>
     (\<forall>d t q. rt_redeliver (fl_router s) d = Some (t, q) \<longrightarrow> from_call c es d t q)"

lemma redeliver_ok_keep:
  assumes "redeliver_ok c es s"
    and "\<And>d. rt_pending (fl_router s') d = rt_pending (fl_router s) d \<and>
        rt_redeliver (fl_router s') d = rt_redeliver (fl_router s) d \<or>
      rt_pending (fl_router s') d = None \<and> rt_redeliver (fl_router s') d = None"
    and "\<And>d f. rt_pending (fl_router s') d = Some f \<Longrightarrow> f \<in> fl_open s \<Longrightarrow> f \<in> fl_open s'"
  shows "redeliver_ok c (es @ [e]) s'"
proof -
  have a: "\<And>d. rt_pending (fl_router s) d = None \<longleftrightarrow> rt_redeliver (fl_router s) d = None"
    "\<And>d f. rt_pending (fl_router s) d = Some f \<Longrightarrow> f \<in> fl_open s"
    "\<And>d t q. rt_redeliver (fl_router s) d = Some (t, q) \<Longrightarrow> from_call c es d t q"
    using assms(1) by (simp_all add: redeliver_ok_def)
  show ?thesis unfolding redeliver_ok_def
  proof (intro conjI allI impI)
    show "(rt_pending (fl_router s') d = None) = (rt_redeliver (fl_router s') d = None)" for d
      using a(1) [of d] assms(2) [of d] by auto
    show "f \<in> fl_open s'" if "rt_pending (fl_router s') d = Some f" for d f
      using assms(3) [OF that] a(2) [of d f] assms(2) [of d] that by auto
    show "from_call c (es @ [e]) d t q" if "rt_redeliver (fl_router s') d = Some (t, q)" for d t q
      using assms(2) [of d] that from_call_snoc [OF a(3) [of d t q]] by auto
  qed
qed

lemma send_begin_redeliver:
  assumes "send_begin c d p project nonce now (s, keys) = (r, effects, s', keys')"
  shows "r = None \<and> s' = s \<or>
    r = None \<and> rt_redeliver s' = (rt_redeliver s)(d := None) \<or>
    (\<exists>q. r \<noteq> None \<and> rt_redeliver s' = (rt_redeliver s)(d \<mapsto> (topic_cmd project d, q)) \<and>
       fst (sign c (full_payload p nonce now) project keys) = Some q)"
  using assms
  by (auto simp: send_begin_def new_future_def register_pending_def register_redeliver_def
      unregister_pending_def unregister_redeliver_def Let_def split: option.splits prod.splits if_splits)

lemma redeliver_ok_step:
  assumes a: "redeliver_ok c es s" and t: "tables_ok s"
  shows "redeliver_ok c (es @ [e]) (fst (step c cfg fresh e s))"
proof (cases e)
  case (Send d p project nonce now)
  obtain r eff rt k where b: "send_begin c d p project nonce now (fl_router s, fl_keys s) = (r, eff, rt, k)"
    by (metis prod_cases4)
  have st: "fst (step c cfg fresh e s) = fst (start_call (Command d) (r, eff, rt, k) s)"
    by (simp add: step_def Send b)
  show ?thesis
  proof (cases r)
    case None
    then show ?thesis unfolding st using send_begin_redeliver [OF b] send_begin_cases [OF b]
      by (intro redeliver_ok_keep [OF a]) (auto simp: start_call_def split: if_splits)
  next
    case (Some f)
    then obtain q where q: "rt_redeliver rt = (rt_redeliver (fl_router s))(d \<mapsto> (topic_cmd project d, q))"
      "fst (sign c (full_payload p nonce now) project (fl_keys s)) = Some q"
      using send_begin_redeliver [OF b] by auto
    have pend: "rt_pending rt = (rt_pending (fl_router s))(d \<mapsto> f)" using send_begin_cases [OF b] Some by auto
    note new = from_call_new [OF q(2), of es d]
    show ?thesis unfolding st using a pend q(1) new Some
      by (auto simp: start_call_def redeliver_ok_def Send intro: from_call_snoc)
  qed
next
  case (Roll en batch hwid p)
  obtain r eff rt k where b: "roll_begin c fresh batch hwid p (fl_router s, fl_keys s) = (r, eff, rt, k)"
    by (metis prod_cases4)
  have red: "rt_redeliver rt = rt_redeliver (fl_router s)" "rt_pending rt = rt_pending (fl_router s)"
    using b by (auto simp: roll_begin_def new_future_def register_bootstrap_pending_def
        unregister_bootstrap_pending_def Let_def split: option.splits prod.splits if_splits)
  show ?thesis
    by (rule redeliver_ok_keep [OF a]; cases r) (auto simp: step_def Roll b start_call_def red)
next
  case (Msg now topic body)
  obtain rt eff where b: "handle_message cfg now topic body (fl_router s) = (rt, eff)" by fastforce
  show ?thesis using handle_message_tables [OF b]
    by (intro redeliver_ok_keep [OF a]) (auto simp: step_def Msg b)
next
  case (Wake f)
  show ?thesis
  proof (cases "f \<in> fl_open s \<and> fl_calls s f \<noteq> None")
    case True
    then obtain w where w: "fl_calls s f = Some w" by auto
    show ?thesis
    proof (cases w)
      case (Command d)
      have own: "g = f \<Longrightarrow> d' = d" if "rt_pending (fl_router s) d' = Some g" for d' g
        using tables_ok_owner(1) [OF t that] w Command by auto
      show ?thesis
        by (rule redeliver_ok_keep [OF a])
          (use True w Command own in \<open>auto simp: step_def Wake wake_def send_resume_def unregister_pending_def
            unregister_redeliver_def Let_def split: if_splits\<close>)
    next
      case (Rollover en hwid)
      have own: "g \<noteq> f" if "rt_pending (fl_router s) d' = Some g" for d' g
        using tables_ok_owner(1) [OF t that] w Rollover by auto
      obtain r eff rt where b: "roll_resume en hwid f (fl_router s) = (r, eff, rt)" by (metis prod_cases3)
      have red: "rt_redeliver rt = rt_redeliver (fl_router s)" "rt_pending rt = rt_pending (fl_router s)"
        using b by (auto simp: roll_resume_def unregister_bootstrap_pending_def Let_def
            split: option.splits future.splits if_splits)
      show ?thesis
        by (rule redeliver_ok_keep [OF a])
          (use True w Rollover own in \<open>auto simp: step_def Wake wake_def b red\<close>)
    qed
  next
    case False
    then have "fst (step c cfg fresh e s) = s" by (auto simp: step_def Wake wake_def split: option.split)
    then show ?thesis by (intro redeliver_ok_keep [OF a]) auto
  qed
next
  case (Reap now)
  then show ?thesis by (intro redeliver_ok_keep [OF a]) (auto simp: step_def split: prod.splits)
next
  case (Link up)
  then show ?thesis by (intro redeliver_ok_keep [OF a]) (auto simp: step_def)
qed

lemma redeliver_ok_run: "redeliver_ok c es (run c cfg fresh keys es)"
proof (induction es rule: rev_induct)
  case Nil
  show ?case by (simp add: redeliver_ok_def init_fleet_def init_router_def)
next
  case (snoc e es)
  then show ?case using redeliver_ok_step [OF snoc.IH tables_ok_run] by simp
qed

lemma handle_message_publish:
  assumes "handle_message cfg now topic body s = (s', effects)" and "Publish t q \<in> set effects"
  shows "rt_redeliver s (levels topic ! 3) = Some (t, q) \<and>
    (\<forall>f. rt_pending s (levels topic ! 3) = Some f \<longrightarrow> rt_futures s f = Some FPending) \<and>
    levels topic ! 4 \<in> {''heartbeat'', ''crash''} \<and> rt_connected s"
  using assms
  by (auto simp: handle_message_def handle_heartbeat_def handle_response_def handle_crash_def set_crash_def
      forward_ota_result_def forward_ota_progress_def maybe_redeliver_def fut_done_def
      Let_def split: option.splits if_splits prod.splits bool.splits json.splits)

text \<open>
  Redelivery stays inside the call it serves: in every run, what the router publishes while it
  handles a message is the signed command of an earlier call to the very device the message came
  from, on that device's own command topic, and only while a call to that device is still waiting
  with its answer outstanding; only heartbeats and crash reports cause it.
\<close>

theorem redelivery_confined:
  assumes "handle_message cfg now topic body (fl_router (run c cfg fresh keys es)) = (s', effects)"
    and "Publish t q \<in> set effects"
  shows "levels topic ! 4 \<in> {''heartbeat'', ''crash''} \<and>
    (\<exists>d f p project nonce now' keys'. levels topic ! 3 = d \<and> Send d p project nonce now' \<in> set es \<and>
       t = topic_cmd project d \<and> fst (sign c (full_payload p nonce now') project keys') = Some q \<and>
       f \<in> fl_open (run c cfg fresh keys es) \<and>
       fl_calls (run c cfg fresh keys es) f = Some (Command d) \<and>
       rt_futures (fl_router (run c cfg fresh keys es)) f = Some FPending)"
proof -
  let ?s = "run c cfg fresh keys es" and ?d = "levels topic ! 3"
  note pub = handle_message_publish [OF assms]
  have ok: "redeliver_ok c es ?s" by (rule redeliver_ok_run)
  from pub have "rt_redeliver (fl_router ?s) ?d \<noteq> None" by simp
  with ok obtain f where f: "rt_pending (fl_router ?s) ?d = Some f"
    unfolding redeliver_ok_def by (metis not_None_eq)
  with ok have o: "f \<in> fl_open ?s" unfolding redeliver_ok_def by metis
  from pub f have p: "rt_futures (fl_router ?s) f = Some FPending" by simp
  have w: "fl_calls ?s f = Some (Command ?d)" using tables_ok_owner(1) [OF tables_ok_run f] .
  have "from_call c es ?d t q" using ok pub unfolding redeliver_ok_def by blast
  with f o p w pub show ?thesis unfolding from_call_def by blast
qed


theorem redelivery_confined_witness:
  "snd (handle_message sample_cfg 8 ''nff/p/devices/d/heartbeat'' (Some (JObj []))
     (fl_router (run sample_crypto sample_cfg ''r'' sample_ring [Link True, Send ''d'' ping ''p'' ''n1'' 7]))) =
     [UpsertDevice ''d'' [(''project_id'', JStr ''p'')], Publish ''nff/p/devices/d/cmd'' sample_cmd, ClaimByDevice ''d''] \<and>
   (0::nat) \<in> fl_open (run sample_crypto sample_cfg ''r'' sample_ring [Link True, Send ''d'' ping ''p'' ''n1'' 7])"
proof -
  let ?s = "run sample_crypto sample_cfg ''r'' sample_ring [Link True, Send ''d'' ping ''p'' ''n1'' 7]"
  obtain s' effects where h: "handle_message sample_cfg 8 ''nff/p/devices/d/heartbeat'' (Some (JObj [])) (fl_router ?s) =
      (s', effects)" by fastforce
  then have e: "effects = [UpsertDevice ''d'' [(''project_id'', JStr ''p'')],
      Publish ''nff/p/devices/d/cmd'' sample_cmd, ClaimByDevice ''d'']"
    by (auto simp: fleet_run_defs sample_sign handle_heartbeat_def update_heartbeat_def new_info_def
        with_key_def maybe_redeliver_def fut_done_def topic_cmd_def device_topic_def)
  then have "Publish ''nff/p/devices/d/cmd'' sample_cmd \<in> set effects" by simp
  from redelivery_confined [OF h this] obtain f where "f \<in> fl_open ?s" by blast
  moreover have "fl_open ?s = {0}"
    by (simp add: fleet_run_defs sample_sign)
  ultimately show ?thesis using h e by auto
qed


section \<open>Whose acknowledgement an enrolment accepts\<close>

definition bootstrap_response :: "string \<Rightarrow> string \<Rightarrow> string" where
  "bootstrap_response batch hwid = ''nff/_bootstrap/'' @ batch @ ''/'' @ hwid @ ''/response''"

lemma levels_bootstrap_response:
  assumes "CHR ''/'' \<notin> set batch" and "CHR ''/'' \<notin> set hwid"
  shows "levels (bootstrap_response batch hwid) = [''nff'', ''_bootstrap'', batch, hwid, ''response'']"
  using levels_append [OF assms(1)] levels_append [OF assms(2)] by (simp add: bootstrap_response_def)

text \<open>
  The acknowledgement of a roll-over is matched by the hardware id alone: while an enrolment of a
  device waits for it, whoever holds the certificate of any other batch can call itself by that
  hardware id, is admitted to publish on its own batch's channel, and its \<open>applied\<close> marks the
  enrolment claimed.
\<close>

theorem rollover_ack_from_any_batch:
  assumes "sign_rollover c fresh p (fl_keys s) = (Some q, keys')"
    and "rt_connected (fl_router s)" and "f = rt_next (fl_router s)"
    and "ce_batch_marker cert" and "ce_batch cert = Some other" and "other \<noteq> []" and "hwid \<noteq> []"
    and "CHR ''/'' \<notin> set other" and "CHR ''/'' \<notin> set hwid"
  shows "(\<exists>session. authenticate (Cert cert) (Some hwid) = (True, session) \<and>
      topic_allowed session (bootstrap_response other hwid)) \<and>
    snd (step c cfg fresh (Wake f) (foldl (\<lambda>s e. fst (step c cfg fresh e s)) s
      [Roll en batch hwid p,
       Msg t (bootstrap_response other hwid) (Some (JObj [(''status'', JStr ''applied'')]))])) =
      [MarkClaimed en hwid]"
proof
  note lev = levels_bootstrap_response [OF assms(8,9)]
  let ?ses = "no_session\<lparr>se_identity := Some (BOOTSTRAP_SENTINEL, hwid), se_batch := Some other\<rparr>"
  have "authenticate (Cert cert) (Some hwid) = (True, ?ses)"
    using assms(4-7) by (simp add: authenticate_def)
  moreover have "topic_allowed ?ses (bootstrap_response other hwid)"
    by (simp add: topic_allowed_def lev BOOTSTRAP_SENTINEL_def INTERNAL_def)
  ultimately show "\<exists>session. authenticate (Cert cert) (Some hwid) = (True, session) \<and>
      topic_allowed session (bootstrap_response other hwid)" by blast
  show "snd (step c cfg fresh (Wake f) (foldl (\<lambda>s e. fst (step c cfg fresh e s)) s
      [Roll en batch hwid p,
       Msg t (bootstrap_response other hwid) (Some (JObj [(''status'', JStr ''applied'')]))])) =
      [MarkClaimed en hwid]"
    using assms(2,3)
    by (simp add: step_def start_call_def roll_begin_def assms(1) new_future_def register_bootstrap_pending_def
        handle_message_def lev resolve_bootstrap_response_def settle_def wake_def roll_resume_def obj_def
        Let_def)
qed

theorem rollover_ack_from_any_batch_witness:
  "snd (step sample_crypto sample_cfg ''r'' (Wake 0) (run sample_crypto sample_cfg ''r'' sample_ring
      [Link True, Roll ''e'' ''b'' ''h'' (full_payload ping ''n1'' 7),
       Msg 8 ''nff/_bootstrap/x/h/response'' (Some (JObj [(''status'', JStr ''applied'')]))])) = [MarkClaimed ''e'' ''h'']"
proof -
  let ?s = "(init_fleet sample_ring)\<lparr>fl_router := init_router\<lparr>rt_connected := True\<rparr>\<rparr>"
  let ?c = "\<lparr>ce_batch_marker = True, ce_batch = Some ''x'', ce_cn = None, ce_project = Some ''p''\<rparr>"
  have q: "\<exists>q keys'. sign_rollover sample_crypto ''r'' (full_payload ping ''n1'' 7) (fl_keys ?s) = (Some q, keys')"
    by (simp add: sign_rollover_def load_rollover_def ensure_rollover_key_def init_fleet_def sample_ring_def
        build_tbs_def full_payload_def Let_def)
  then obtain q keys' where q: "sign_rollover sample_crypto ''r'' (full_payload ping ''n1'' 7) (fl_keys ?s) = (Some q, keys')"
    by blast
  have f: "0 = rt_next (fl_router ?s)" by (simp add: init_router_def)
  have c: "rt_connected (fl_router ?s)" by simp
  have start: "fst (step sample_crypto sample_cfg ''r'' (Link True) (init_fleet sample_ring)) = ?s"
    by (simp add: step_def init_fleet_def)
  have topic: "bootstrap_response ''x'' ''h'' = ''nff/_bootstrap/x/h/response''"
    by (simp add: bootstrap_response_def)
  show ?thesis
    using rollover_ack_from_any_batch [where cert = ?c and other = "''x''" and hwid = "''h''" and en = "''e''"
        and batch = "''b''" and cfg = sample_cfg and t = 8, OF q c f]
    by (simp add: run_def start topic)
qed

end
