(* ===== verification/Scenarios.thy ===== *)
theory Scenarios
  imports Broker_Acl Signing
begin

text \<open>
  The catalog of crash scenarios and the crash report built from one
  (\<open>nff_mock_core/scenarios.py\<close>). A scenario is a record; the optional keys of the Python
  dictionaries are options. \<open>json.dumps\<close> turns the tuple, list and \<open>None\<close> values of a report into
  JSON, so the report is a JSON object here.
\<close>

section \<open>The catalog\<close>

record scenario =
  sc_label :: string
  sc_reason :: string
  sc_panic :: "string option"
  sc_cause :: "int option"
  sc_pc :: string
  sc_fault_addr :: "string option"
  sc_task :: string
  sc_assert :: "string option"
  sc_backtrace :: "string list"
  sc_symbols :: "(string \<times> string) list"
  sc_rtc :: "(string \<times> string \<times> string \<times> int) list"
  sc_recovers :: string

definition null_deref :: scenario where
  "null_deref = \<lparr>sc_label = ''NULL pointer dereference (firmware bug, crash-loop)'',
     sc_reason = ''StoreProhibited'', sc_panic = None, sc_cause = Some 29,
     sc_pc = ''0x400d1a2c'', sc_fault_addr = Some ''0x00000000'', sc_task = ''relay_ctrl'',
     sc_assert = None,
     sc_backtrace = [''0x400d1a2c'', ''0x400d5b30'', ''0x400d88a4'', ''0x4008b2e5''],
     sc_symbols = [(''0x400d1a2c'', ''relay_state_set at src/relay.cpp:53''),
        (''0x400d5b30'', ''relay_apply_command at src/relay.cpp:118''),
        (''0x400d88a4'', ''loop at src/main.cpp:156'')],
     sc_rtc = [(''I'', ''nff'', ''connected, heartbeat sent'', 240),
        (''I'', ''relay'', ''applying relay command'', 30),
        (''E'', ''PANIC'', ''Guru Meditation StoreProhibited (NULL relay_handle)'', 0)],
     sc_recovers = ''ota''\<rparr>"

definition stack_overflow :: scenario where
  "stack_overflow = \<lparr>sc_label = ''Stack overflow / unbounded recursion (firmware bug, crash-loop)'',
     sc_reason = ''LoadProhibited'', sc_panic = None, sc_cause = Some 28,
     sc_pc = ''0x400d3f10'', sc_fault_addr = Some ''0x3ffc0000'', sc_task = ''sensor_poll'',
     sc_assert = None,
     sc_backtrace = [''0x400d3f10'', ''0x400d3f10'', ''0x400d3f10'', ''0x400d3f10'', ''0x400d3f10''],
     sc_symbols = [(''0x400d3f10'', ''sensor_poll at src/sensor.cpp:212'')],
     sc_rtc = [(''I'', ''nff'', ''connected, heartbeat sent'', 180),
        (''W'', ''sensor'', ''poll depth high'', 12),
        (''E'', ''PANIC'', ''Guru Meditation LoadProhibited (stack canary)'', 0)],
     sc_recovers = ''ota''\<rparr>"

definition heap_leak :: scenario where
  "heap_leak = \<lparr>sc_label = ''Heap exhaustion after leak (firmware bug, crash-loop)'',
     sc_reason = ''LoadProhibited'', sc_panic = None, sc_cause = Some 28,
     sc_pc = ''0x400d6644'', sc_fault_addr = Some ''0x3ffb9c14'', sc_task = ''mqtt_tx'',
     sc_assert = None,
     sc_backtrace = [''0x400d6644'', ''0x400d70a1'', ''0x400d8112'', ''0x4008b2e5''],
     sc_symbols = [(''0x400d6644'', ''mqtt_buffer_alloc at src/mqtt.cpp:204''),
        (''0x400d70a1'', ''mqtt_publish at src/mqtt.cpp:178''),
        (''0x400d8112'', ''telemetry_send at src/telemetry.cpp:67'')],
     sc_rtc = [(''I'', ''nff'', ''connected, heartbeat sent'', 300),
        (''W'', ''heap'', ''free heap low: 1184 bytes'', 60),
        (''E'', ''PANIC'', ''Guru Meditation LoadProhibited (alloc returned NULL)'', 0)],
     sc_recovers = ''ota''\<rparr>"

definition divide_by_zero :: scenario where
  "divide_by_zero = \<lparr>sc_label = ''Integer divide-by-zero (firmware bug, crash-loop)'',
     sc_reason = ''IntegerDivideByZero'', sc_panic = None, sc_cause = Some 6,
     sc_pc = ''0x400d2a10'', sc_fault_addr = Some ''0x00000000'', sc_task = ''sensor_poll'',
     sc_assert = None,
     sc_backtrace = [''0x400d2a10'', ''0x400d2b44'', ''0x400d88a4'', ''0x4008b2e5''],
     sc_symbols = [(''0x400d2a10'', ''sensor_scale at src/sensor.cpp:141''),
        (''0x400d2b44'', ''sensor_poll at src/sensor.cpp:212''),
        (''0x400d88a4'', ''loop at src/main.cpp:156'')],
     sc_rtc = [(''I'', ''nff'', ''connected, heartbeat sent'', 210),
        (''W'', ''sensor'', ''sample_count reached 0'', 8),
        (''E'', ''PANIC'', ''Guru Meditation IntegerDivideByZero (avg over 0 samples)'', 0)],
     sc_recovers = ''ota''\<rparr>"

definition unaligned_access :: scenario where
  "unaligned_access = \<lparr>sc_label = ''Unaligned memory access (firmware bug, crash-loop)'',
     sc_reason = ''LoadStoreAlignment'', sc_panic = None, sc_cause = Some 9,
     sc_pc = ''0x400d3f2c'', sc_fault_addr = Some ''0x3ffb8003'', sc_task = ''mqtt_tx'',
     sc_assert = None,
     sc_backtrace = [''0x400d3f2c'', ''0x400d4010'', ''0x400d8112'', ''0x4008b2e5''],
     sc_symbols = [(''0x400d3f2c'', ''frame_read_u32 at src/proto.cpp:77''),
        (''0x400d4010'', ''mqtt_encode at src/mqtt.cpp:149''),
        (''0x400d8112'', ''telemetry_send at src/telemetry.cpp:67'')],
     sc_rtc = [(''I'', ''nff'', ''connected, heartbeat sent'', 260),
        (''E'', ''PANIC'', ''Guru Meditation LoadStoreAlignment (u32 read at +3 offset)'', 0)],
     sc_recovers = ''ota''\<rparr>"

definition assert_failed :: scenario where
  "assert_failed = \<lparr>sc_label = ''Assertion / abort() (firmware bug, crash-loop)'',
     sc_reason = ''abort'', sc_panic = Some ''abort'', sc_cause = None,
     sc_pc = ''0x400845e4'', sc_fault_addr = None, sc_task = ''relay_ctrl'',
     sc_assert = Some ''assert failed: relay_apply_command src/relay.cpp:118 (handle != NULL)'',
     sc_backtrace = [''0x40084668'', ''0x400845e4'', ''0x400d1a2c'', ''0x400d88a4''],
     sc_symbols = [(''0x400d1a2c'', ''relay_apply_command at src/relay.cpp:118''),
        (''0x400d88a4'', ''loop at src/main.cpp:156'')],
     sc_rtc = [(''I'', ''nff'', ''connected, heartbeat sent'', 190),
        (''E'', ''PANIC'', ''assert failed: relay_apply_command (handle != NULL)'', 0)],
     sc_recovers = ''ota''\<rparr>"

definition watchdog :: scenario where
  "watchdog = \<lparr>sc_label = ''Task watchdog timeout (hung task)'',
     sc_reason = ''TaskWatchdog'', sc_panic = Some ''idf_watchdog'', sc_cause = None,
     sc_pc = ''0x400d2200'', sc_fault_addr = None, sc_task = ''sensor_poll'',
     sc_assert = None,
     sc_backtrace = [''0x400d2200'', ''0x400d4410'', ''0x4008b2e5''],
     sc_symbols = [(''0x400d2200'', ''sensor_read_blocking at src/sensor.cpp:34''),
        (''0x400d4410'', ''sensor_poll at src/sensor.cpp:212'')],
     sc_rtc = [(''I'', ''nff'', ''connected, heartbeat sent'', 5000),
        (''E'', ''TWDT'', ''Task watchdog got triggered (sensor_poll)'', 0)],
     sc_recovers = ''reboot''\<rparr>"

definition transient_load :: scenario where
  "transient_load = \<lparr>sc_label = ''Transient LoadProhibited (one-off glitch)'',
     sc_reason = ''LoadProhibited'', sc_panic = None, sc_cause = Some 28,
     sc_pc = ''0x400d2a1f'', sc_fault_addr = Some ''0x000003e8'', sc_task = ''loopTask'',
     sc_assert = None,
     sc_backtrace = [''0x400d2a1f'', ''0x400d5b30'', ''0x4008b2e5''],
     sc_symbols = [(''0x400d2a1f'', ''sensor_parse_frame at src/sensor.cpp:88''),
        (''0x400d5b30'', ''loop at src/main.cpp:156'')],
     sc_rtc = [(''I'', ''nff'', ''connected, heartbeat sent'', 120),
        (''E'', ''PANIC'', ''Guru Meditation LoadProhibited'', 0)],
     sc_recovers = ''reboot''\<rparr>"

definition SCENARIOS :: "(string \<times> scenario) list" where
  "SCENARIOS = [
     (''null_deref'', null_deref), (''stack_overflow'', stack_overflow), (''heap_leak'', heap_leak),
     (''divide_by_zero'', divide_by_zero), (''unaligned_access'', unaligned_access),
     (''assert_failed'', assert_failed), (''watchdog'', watchdog), (''transient_load'', transient_load)]"

definition DEFAULT_SCENARIO :: string where "DEFAULT_SCENARIO = ''transient_load''"

definition fallback_scenario :: "string \<times> scenario" where
  "fallback_scenario = (DEFAULT_SCENARIO, transient_load)"

text \<open>
  \<open>resolve\<close>: by id, else the first scenario with that reason, else the fallback_scenario. Membership of a
  non-empty list or object in a dictionary raises (\<open>None\<close>); other values equal no id and no reason.
\<close>

definition resolve :: "json \<Rightarrow> (string \<times> scenario) option" where
  "resolve name = (case name of
      JList xs \<Rightarrow> if xs = [] then Some fallback_scenario else None
    | JObj d \<Rightarrow> if d = [] then Some fallback_scenario else None
    | JStr s \<Rightarrow> (case map_of SCENARIOS s of
          Some sc \<Rightarrow> Some (s, sc)
        | None \<Rightarrow> (case find (\<lambda>(sid, sc). sc_reason sc = s) SCENARIOS of
            Some hit \<Rightarrow> Some hit
          | None \<Rightarrow> Some fallback_scenario))
    | _ \<Rightarrow> Some fallback_scenario)"


section \<open>The report\<close>

definition rtc_log_objects :: "scenario \<Rightarrow> json list" where
  "rtc_log_objects sc = map (\<lambda>(lvl, tag, msg, ms).
     JObj [(''level'', JStr lvl), (''tag'', JStr tag), (''message'', JStr msg), (''ms_before_crash'', JInt ms)]) (sc_rtc sc)"

definition jopt :: "string option \<Rightarrow> json" where
  "jopt s = (case s of None \<Rightarrow> JNull | Some x \<Rightarrow> JStr x)"

definition backtrace_frames :: "scenario \<Rightarrow> json list" where
  "backtrace_frames sc = map (\<lambda>addr.
     JObj [(''address'', JStr addr), (''resolved'', jopt (map_of (sc_symbols sc) addr))]) (sc_backtrace sc)"

definition nl :: string where "nl = [CHR 0x0A]"

definition hex_char :: "nat \<Rightarrow> char" where
  "hex_char n = (if n < 10 then digit_char n else char_of (87 + n))"

text \<open>\<open>{n:08x}\<close> of a number that fits eight digits.\<close>

fun hex_digits :: "nat \<Rightarrow> nat \<Rightarrow> string" where
  "hex_digits 0 n = []"
| "hex_digits (Suc k) n = hex_digits k (n div 16) @ [hex_char (n mod 16)]"

definition regs :: "int \<Rightarrow> string \<Rightarrow> string" where
  "regs exccause excvaddr =
     ''PS      : 0x00060f30  A0      : 0x800d2b1f  A1      : 0x3ffb1f60'' @ nl @
     ''A2      : 0x00000000  A3      : 0x3ffc1a40  A4      : 0x000000ff  A5      : 0x0000ff00'' @ nl @
     ''SAR     : 0x0000001d  EXCCAUSE: 0x'' @ hex_digits 8 (nat exccause) @ ''  EXCVADDR: '' @ excvaddr @ nl"

definition frames_line :: "scenario \<Rightarrow> string" where
  "frames_line sc = join '' '' (map (\<lambda>a. a @ '':0x3ffb1f60'') (sc_backtrace sc))"

definition build_raw :: "scenario \<Rightarrow> string \<Rightarrow> string \<Rightarrow> int \<Rightarrow> string" where
  "build_raw sc fw build uptime =
     (if sc_panic sc = Some ''idf_watchdog'' then
        ''E ('' @ show_int uptime @ '') task_wdt: Task watchdog got triggered. '' @
        ''The following tasks did not reset the watchdog in time:'' @ nl @
        ''E task_wdt:  - '' @ sc_task sc @ '' (CPU 1)'' @ nl @
        ''Backtrace: '' @ frames_line sc @ nl @
        ''ELF file SHA256: '' @ build @ nl @
        ''nff: fw='' @ fw @ nl @ ''Rebooting...'' @ nl
      else if sc_panic sc = Some ''abort'' then
        (case sc_assert sc of None \<Rightarrow> ''abort() was called'' | Some m \<Rightarrow> m) @ nl @ nl @
        ''abort() was called at PC '' @ sc_pc sc @ '' on core 1'' @ nl @ nl @
        ''Backtrace: '' @ frames_line sc @ nl @ nl @
        ''ELF file SHA256: '' @ build @ nl @
        ''nff: fw='' @ fw @ '' uptime='' @ show_int uptime @ ''ms'' @ nl @
        ''Rebooting...'' @ nl
      else
        ''Guru Meditation Error: Core 1 panic'' @ [CHR 0x27] @ ''ed ('' @ sc_reason sc @ ''). Exception was unhandled.'' @ nl @ nl @
        ''Core 1 register dump:'' @ nl @
        ''PC      : '' @ sc_pc sc @ ''  '' @
        regs (case sc_cause sc of None \<Rightarrow> 0 | Some c \<Rightarrow> c) (or_else (sc_fault_addr sc) ''0x00000000'') @ nl @
        ''Backtrace: '' @ frames_line sc @ nl @ nl @
        ''ELF file SHA256: '' @ build @ nl @
        ''nff: fw='' @ fw @ '' uptime='' @ show_int uptime @ ''ms'' @ nl @
        ''Rebooting...'' @ nl)"

definition build_crash_report :: "string \<Rightarrow> scenario \<Rightarrow> string \<Rightarrow> string \<Rightarrow> int \<Rightarrow> int \<Rightarrow> payload" where
  "build_crash_report device sc fw build uptime count =
     [(''type'', JStr ''crash''), (''id'', JStr device), (''fw'', JStr fw), (''fw_version'', JStr fw),
      (''build'', JStr build), (''build_id'', JStr build), (''reason'', JStr (sc_reason sc)),
      (''exception_cause'', case sc_cause sc of None \<Rightarrow> JNull | Some c \<Rightarrow> JInt c),
      (''pc'', JStr (sc_pc sc)), (''fault_addr'', jopt (sc_fault_addr sc)), (''task_name'', JStr (sc_task sc)),
      (''panic_type'', JStr (or_else (sc_panic sc) ''guru_meditation'')),
      (''crash_count'', JInt count), (''uptime_ms'', JInt uptime),
      (''backtrace'', JList (backtrace_frames sc)), (''rtc_log'', JList (rtc_log_objects sc)),
      (''raw'', JStr (build_raw sc fw build uptime))]"

lemma resolve_str: "\<exists>sid sc. resolve (JStr s) = Some (sid, sc)"
  by (auto simp: resolve_def fallback_scenario_def split: option.split)

lemma resolve_known: "map_of SCENARIOS s = Some sc \<Longrightarrow> resolve (JStr s) = Some (s, sc)"
  by (simp add: resolve_def)

end
