(* ===== verification/Mock_Device.thy ===== *)
theory Mock_Device
  imports Signing Broker_Acl Scenarios
begin

text \<open>
  The virtual device of nff-mock (level 1): its non-volatile store (\<open>nff_mock_core/nvs.py\<close>), its
  metrics (\<open>telemetry.py\<close>), heartbeats (\<open>nff_mock_core/heartbeat.py\<close>), crash injection (\<open>crash.py\<close>),
  loading a firmware sketch (\<open>firmware/loader.py\<close>), the update simulator (\<open>ota.py\<close> with the messages of
  \<open>nff_mock_core/ota_state.py\<close>), command routing (\<open>dispatcher.py\<close>) and the session that ties them together
  (\<open>device.py\<close>).

  One session is a boot followed by messages; a message that requests a reboot ends it, and the next
  boot follows at once. What a device publishes is a list of effects; \<open>None\<close> is an exception that
  leaves the session and ends the process.

  Parameters: parsing a sketch, \<open>dict()\<close> of a value that is no object, \<open>float()\<close> (\<open>None\<close> where
  it raises), SHA-256, the random draws and the clock. Draw \<open>n\<close> is the value of the \<open>n\<close>-th use of the random
  generator. A download is given by what the server sends.
\<close>

record 'k env =
  en_crypto :: "'k crypto"
  en_parse :: "string \<Rightarrow> json option"
  en_dict :: "json \<Rightarrow> payload option"
  en_sha :: "string \<Rightarrow> string"
  en_float :: "json \<Rightarrow> json option"
  en_uniform :: "nat \<Rightarrow> json \<Rightarrow> json \<Rightarrow> json"
  en_walk :: "nat \<Rightarrow> int \<Rightarrow> int"
  en_uptime :: "nat \<Rightarrow> int"

definition as_dict :: "'k env \<Rightarrow> json \<Rightarrow> payload option" where
  "as_dict e v = (case v of JObj d \<Rightarrow> Some d | _ \<Rightarrow> en_dict e v)"


section \<open>The store\<close>

type_synonym nvs = "string \<Rightarrow> json option"

definition get_str :: "'k env \<Rightarrow> string \<Rightarrow> nvs \<Rightarrow> string option" where
  "get_str e key n = (case n key of
      None \<Rightarrow> None
    | Some v \<Rightarrow> if v = JNull then None else Some (fmt (en_crypto e) v))"

text \<open>\<open>None\<close> where \<open>int()\<close> raises.\<close>

definition get_u32 :: "string \<Rightarrow> nvs \<Rightarrow> int option" where
  "get_u32 key n = (case n key of None \<Rightarrow> Some 0 | Some v \<Rightarrow> to_int v)"

definition set_str :: "string \<Rightarrow> json \<Rightarrow> nvs \<Rightarrow> nvs" where
  "set_str key v n = n(key \<mapsto> v)"

definition set_u32 :: "string \<Rightarrow> int \<Rightarrow> nvs \<Rightarrow> nvs" where
  "set_u32 key v n = n(key \<mapsto> JInt v)"

definition erase :: "string \<Rightarrow> nvs \<Rightarrow> nvs" where
  "erase key n = n(key := None)"


section \<open>Firmware, configuration, state\<close>

text \<open>\<open>fw_telemetry\<close> holds the rules of a sketch's extra metrics, \<open>fw_readings\<close> their last values.\<close>

record firmware =
  fw_version :: string
  fw_extra :: payload
  fw_telemetry :: payload
  fw_readings :: payload
  fw_commands :: "(string \<times> json) list"
  fw_fault :: "string option"

definition default_firmware :: "string \<Rightarrow> firmware" where
  "default_firmware v = \<lparr>fw_version = v, fw_extra = [], fw_telemetry = [], fw_readings = [], fw_commands = [], fw_fault = None\<rparr>"

text \<open>\<open>_parse_fault\<close>.\<close>

definition parse_fault :: "json \<Rightarrow> string option" where
  "parse_fault raw = (case (case raw of JObj d \<Rightarrow> jget ''scenario'' d | _ \<Rightarrow> raw) of
      JStr s \<Rightarrow> if map_of SCENARIOS s = None then None else Some s
    | _ \<Rightarrow> None)"

definition sketch_firmware :: "'k env \<Rightarrow> payload \<Rightarrow> firmware option" where
  "sketch_firmware e spec =
     (case (as_dict e (jget_or ''heartbeat_extra'' (JObj []) spec), as_dict e (jget_or ''telemetry_extra'' (JObj []) spec),
            as_dict e (jget_or ''commands'' (JObj []) spec)) of
        (Some extra, Some telemetry, Some commands) \<Rightarrow>
          Some \<lparr>fw_version = fmt (en_crypto e) (jget_or ''version'' (JStr ''1.0.0'') spec), fw_extra = extra,
            fw_telemetry = telemetry, fw_readings = [], fw_commands = commands, fw_fault = parse_fault (jget ''fault'' spec)\<rparr>
      | _ \<Rightarrow> None)"

definition load_firmware :: "'k env \<Rightarrow> string option \<Rightarrow> string \<Rightarrow> firmware" where
  "load_firmware e raw fallback =
     (if \<not> truthy raw then default_firmware fallback
      else (case en_parse e (the raw) of
          Some (JObj spec) \<Rightarrow> (case sketch_firmware e spec of
              Some f \<Rightarrow> f
            | None \<Rightarrow> default_firmware fallback)
        | _ \<Rightarrow> default_firmware fallback))"

text \<open>\<open>_resample_telemetry\<close>: a rule with a random walk draws a value, any other is a constant; unpacking the
  bounds or reading them as floats may raise.\<close>

definition unpack2 :: "json \<Rightarrow> (json \<times> json) option" where
  "unpack2 b = (case b of
      JList [lo, hi] \<Rightarrow> Some (lo, hi)
    | JStr [c, d] \<Rightarrow> Some (JStr [c], JStr [d])
    | JObj [(k, v), (l, w)] \<Rightarrow> Some (JStr k, JStr l)
    | _ \<Rightarrow> None)"

definition sample_rule :: "'k env \<Rightarrow> nat \<Rightarrow> json \<Rightarrow> json option" where
  "sample_rule e n rule = (case rule of
      JObj r \<Rightarrow> (case map_of r ''random_walk'' of
          None \<Rightarrow> Some rule
        | Some bounds \<Rightarrow> (case unpack2 bounds of
            None \<Rightarrow> None
          | Some (lo, hi) \<Rightarrow> (case (en_float e lo, en_float e hi) of
              (Some a, Some b) \<Rightarrow> Some (en_uniform e n a b)
            | _ \<Rightarrow> None)))
    | _ \<Rightarrow> Some rule)"

fun resample :: "'k env \<Rightarrow> nat \<Rightarrow> payload \<Rightarrow> payload option" where
  "resample e n [] = Some []"
| "resample e n ((k, rule) # rules) = (case (sample_rule e n rule, resample e (Suc n) rules) of
      (Some v, Some out) \<Rightarrow> Some ((k, v) # out)
    | _ \<Rightarrow> None)"

text \<open>\<open>mc_project\<close>, \<open>mc_name\<close> and \<open>mc_ip\<close> are empty where the setting is unset.\<close>

record mock_cfg =
  mc_device :: string
  mc_project :: string
  mc_fw :: string
  mc_build :: string
  mc_buggy :: string
  mc_type :: string
  mc_fqbn :: string
  mc_chip :: string
  mc_rev :: int
  mc_flash :: int
  mc_interval :: int
  mc_ip :: string
  mc_name :: string

text \<open>\<open>buggy_version_map\<close>: the later of two entries for one version wins.\<close>

definition buggy_entry :: "string \<Rightarrow> (string \<times> string) option" where
  "buggy_entry entry =
     (let pair = strip entry in
      if CHR ''='' \<notin> set pair then None
      else
        (let ver = takeWhile (\<lambda>c. c \<noteq> CHR ''='') pair;
             scenario = tl (dropWhile (\<lambda>c. c \<noteq> CHR ''='') pair) in
         if strip ver = [] then None else Some (strip ver, strip scenario)))"

definition buggy_version_map :: "string \<Rightarrow> string \<Rightarrow> string option" where
  "buggy_version_map buggy = map_of (rev (List.map_filter buggy_entry (split_on (CHR '','') buggy)))"

text \<open>The metrics; the uptime is the clock as last read.\<close>

record telemetry =
  te_heap :: int
  te_min_heap :: int
  te_rssi :: int
  te_uptime :: int

definition new_telemetry :: telemetry where
  "new_telemetry = \<lparr>te_heap = 245600, te_min_heap = 245600, te_rssi = - 55, te_uptime = 0\<rparr>"

definition walk :: "int \<Rightarrow> int \<Rightarrow> int \<Rightarrow> int \<Rightarrow> int" where
  "walk draw value lo hi = max lo (min hi (value + draw))"

record 'k device =
  dv_fw :: string
  dv_build :: string
  dv_nvs :: nvs
  dv_firmware :: firmware
  dv_state :: payload
  dv_artifact :: "string option"
  dv_verifier :: "'k verifier"
  dv_reboot :: bool
  dv_tele :: telemetry
  dv_draws :: nat

definition new_device :: "mock_cfg \<Rightarrow> 'k verifier \<Rightarrow> firmware \<Rightarrow> 'k device" where
  "new_device cfg v f = \<lparr>dv_fw = mc_fw cfg, dv_build = mc_build cfg, dv_nvs = Map.empty, dv_firmware = f,
     dv_state = [], dv_artifact = None, dv_verifier = v, dv_reboot = False,
     dv_tele = new_telemetry, dv_draws = 0\<rparr>"

text \<open>What a device publishes: an answer or report on its response topic, a crash report, a heartbeat.\<close>

datatype device_effect =
    Respond payload
  | CrashReport payload
  | Heartbeat payload

definition on_nvs :: "(nvs \<Rightarrow> nvs) \<Rightarrow> 'k device \<Rightarrow> 'k device" where
  "on_nvs g d = d\<lparr>dv_nvs := g (dv_nvs d)\<rparr>"

definition request_reboot :: "'k device \<Rightarrow> 'k device" where
  "request_reboot d = d\<lparr>dv_reboot := True\<rparr>"


text \<open>\<open>Telemetry.sample\<close>: two draws, \<open>randint(-4000, 4000)\<close> for the heap and \<open>randint(-3, 3)\<close> for the signal.\<close>

definition sample_telemetry :: "'k env \<Rightarrow> 'k device \<Rightarrow> 'k device" where
  "sample_telemetry e d =
     (let n = dv_draws d; t = dv_tele d; heap = walk (en_walk e n 4000) (te_heap t) 180000 260000 in
      d\<lparr>dv_tele := \<lparr>te_heap = heap, te_min_heap = min (te_min_heap t) heap,
          te_rssi = walk (en_walk e (n + 1) 3) (te_rssi t) (- 92) (- 40), te_uptime = en_uptime e n\<rparr>,
        dv_draws := n + 2\<rparr>)"

text \<open>\<open>on_boot\<close> and the resampling before a declared command.\<close>

definition resample_firmware :: "'k env \<Rightarrow> 'k device \<Rightarrow> 'k device option" where
  "resample_firmware e d =
     map_option (\<lambda>out. d\<lparr>dv_firmware := (dv_firmware d)\<lparr>fw_readings := out\<rparr>,
         dv_draws := dv_draws d + length (fw_telemetry (dv_firmware d))\<rparr>)
       (resample e (dv_draws d) (fw_telemetry (dv_firmware d)))"


section \<open>Crashes\<close>

definition fault_scenario :: "'k env \<Rightarrow> 'k device \<Rightarrow> string option" where
  "fault_scenario e d = get_str e ''fault_scenario'' (dv_nvs d)"

definition fault_source :: "'k env \<Rightarrow> 'k device \<Rightarrow> string option" where
  "fault_source e d = get_str e ''fault_source'' (dv_nvs d)"

definition arm_fault :: "string \<Rightarrow> string \<Rightarrow> string \<Rightarrow> 'k device \<Rightarrow> 'k device" where
  "arm_fault sid fixed_after source =
     on_nvs (set_str ''fault_source'' (JStr source) \<circ>
       set_str ''fault_fixed_after'' (JStr (if fixed_after = [] then ''0.0.0'' else fixed_after)) \<circ>
       set_str ''fault_scenario'' (JStr sid))"

definition clear_fault :: "'k device \<Rightarrow> 'k device" where
  "clear_fault = on_nvs (erase ''fault_source'' \<circ> erase ''fault_fixed_after'' \<circ> erase ''fault_scenario'')"

text \<open>\<open>inject\<close> at an uptime; \<open>None\<close> is an exception.\<close>

definition inject :: "'k env \<Rightarrow> int \<Rightarrow> json \<Rightarrow> 'k device \<Rightarrow> 'k device option" where
  "inject e uptime name d = (case (resolve name, get_u32 ''crash_count'' (dv_nvs d)) of
      (Some (sid, sc), Some count) \<Rightarrow>
        (let d1 = on_nvs (set_str ''crash_simulate'' (JStr ''1'') \<circ> set_str ''crash_uptime'' (JStr (show_int uptime)) \<circ>
               set_str ''crash_scenario'' (JStr sid) \<circ> set_u32 ''crash_count'' (count + 1)) d;
             d2 = (if sc_recovers sc = ''ota'' then arm_fault sid (dv_fw d1) ''inject'' d1 else d1) in
         Some (request_reboot d2))
    | _ \<Rightarrow> None)"

definition check_and_report :: "'k env \<Rightarrow> mock_cfg \<Rightarrow> 'k device \<Rightarrow> (device_effect list \<times> 'k device) option" where
  "check_and_report e cfg d =
     (if get_str e ''crash_simulate'' (dv_nvs d) \<noteq> Some ''1'' then Some ([], d)
      else (case (resolve (case get_str e ''crash_scenario'' (dv_nvs d) of None \<Rightarrow> JNull | Some s \<Rightarrow> JStr s),
                  get_u32 ''crash_uptime'' (dv_nvs d), get_u32 ''crash_count'' (dv_nvs d)) of
          (Some (sid, sc), Some uptime, Some count) \<Rightarrow>
            Some ([CrashReport (build_crash_report (mc_device cfg) sc (dv_fw d) (dv_build d) uptime count)],
              on_nvs (erase ''crash_simulate'' \<circ> erase ''crash_uptime'' \<circ> erase ''crash_scenario'') d)
        | _ \<Rightarrow> None))"


section \<open>Versions\<close>

text \<open>The first three components as integers; \<open>None\<close> is a \<open>ValueError\<close>.\<close>

definition version_tuple :: "string \<Rightarrow> int list option" where
  "version_tuple v =
     (let parts = map py_int (take 3 (split_on (CHR ''.'') v)) in
      if list_ex (\<lambda>x. x = None) parts then None else Some (map the parts))"

text \<open>Python's comparison of tuples.\<close>

fun tuple_le :: "int list \<Rightarrow> int list \<Rightarrow> bool" where
  "tuple_le [] ys = True"
| "tuple_le (x # xs) [] = False"
| "tuple_le (x # xs) (y # ys) = (x < y \<or> x = y \<and> tuple_le xs ys)"

definition version_le :: "string \<Rightarrow> string \<Rightarrow> bool" where
  "version_le a b = (case (version_tuple a, version_tuple b) of
      (Some x, Some y) \<Rightarrow> tuple_le x y | _ \<Rightarrow> False)"

definition version_gt :: "string \<Rightarrow> string \<Rightarrow> bool" where
  "version_gt a b = (case (version_tuple a, version_tuple b) of
      (Some x, Some y) \<Rightarrow> \<not> tuple_le x y | _ \<Rightarrow> False)"


section \<open>Updates\<close>

definition build_ota_result :: "string \<Rightarrow> string \<Rightarrow> bool \<Rightarrow> string option \<Rightarrow> payload" where
  "build_ota_result device version committed reason =
     [(''type'', JStr ''ota_result''), (''status'', JStr (if committed then ''committed'' else ''rolled_back'')),
      (''version'', JStr version), (''id'', JStr device)] @
     (if \<not> committed \<and> truthy reason then [(''reason'', JStr (the reason))] else [])"

definition build_ota_progress ::
  "string \<Rightarrow> string \<Rightarrow> string \<Rightarrow> int option \<Rightarrow> int option \<Rightarrow> int option \<Rightarrow> int \<Rightarrow> payload" where
  "build_ota_progress device version stage progress written sz attempt =
     [(''type'', JStr ''ota_progress''), (''id'', JStr device), (''version'', JStr version),
      (''stage'', JStr stage), (''attempt'', JInt attempt)] @
     (case progress of None \<Rightarrow> [] | Some p \<Rightarrow> [(''progress'', JInt (max 0 (min 100 p)))]) @
     (case written of None \<Rightarrow> [] | Some w \<Rightarrow> [(''written'', JInt w)]) @
     (case sz of None \<Rightarrow> [] | Some w \<Rightarrow> [(''size'', JInt w)])"

text \<open>What the server sends: the content length it announces (0 for none), the chunks, and whether
  the transfer ended normally. A request that fails at once is no chunks and \<open>False\<close>.\<close>

record fetch =
  fe_length :: int
  fe_chunks :: "string list"
  fe_complete :: bool

text \<open>The ticks of the download loop: one for every step of at least 5 per cent.\<close>

definition percent :: "int \<Rightarrow> int \<Rightarrow> int" where
  "percent written full = (let r = fdiv (of_int (written * 100)) (of_int full) in if 0 \<le> r then \<lfloor>r\<rfloor> else \<lceil>r\<rceil>)"

fun ticks :: "string \<Rightarrow> string \<Rightarrow> int option \<Rightarrow> int \<Rightarrow> int \<Rightarrow> string list \<Rightarrow> device_effect list" where
  "ticks device version full written last_pct [] = []"
| "ticks device version full written last_pct (chunk # chunks) =
     (let w = written + int (length chunk) in
      case full of
        None \<Rightarrow> ticks device version full w last_pct chunks
      | Some t \<Rightarrow>
          (let pct = percent w t in
           if pct \<ge> last_pct + 5
           then Respond (build_ota_progress device version ''downloading'' (Some pct) (Some w) full 1)
             # ticks device version full w pct chunks
           else ticks device version full w last_pct chunks))"

text \<open>\<open>_download\<close>: the artifact (\<open>None\<close> when unreachable), whether the update goes on, the error.\<close>

definition download ::
  "'k env \<Rightarrow> string \<Rightarrow> string \<Rightarrow> json \<Rightarrow> int option \<Rightarrow> fetch \<Rightarrow>
     device_effect list \<times> string option \<times> bool \<times> string" where
  "download e device version expected_sha announced f =
     (let full = (case announced of
            Some n \<Rightarrow> if n \<noteq> 0 then Some n else (if fe_length f \<noteq> 0 then Some (fe_length f) else None)
          | None \<Rightarrow> if fe_length f \<noteq> 0 then Some (fe_length f) else None);
          progress = ticks device version full 0 0 (fe_chunks f) in
      if fe_complete f then
        (if JStr (en_sha e (concat (fe_chunks f))) \<noteq> expected_sha
         then (progress, None, False, ''ota: sha256 mismatch'')
         else (progress, Some (concat (fe_chunks f)), True, []))
      else
        (progress @ map (\<lambda>p. Respond (build_ota_progress device version ''downloading'' (Some p) None None 1))
           [20, 40, 60, 80, 100], None, True, []))"

text \<open>The intent an update leaves in the store, and the request to reboot.\<close>

definition stage_update :: "string \<Rightarrow> json \<Rightarrow> string option \<Rightarrow> 'k device \<Rightarrow> 'k device" where
  "stage_update v build_id artifact d =
     (let d1 = on_nvs (set_str ''ota_prev_build_id'' (JStr (dv_build d)) \<circ>
            set_str ''ota_prev_version'' (JStr (dv_fw d)) \<circ>
            set_str ''ota_version'' (JStr v) \<circ> set_str ''ota_pending'' (JStr ''1'')) d;
          d2 = (if jtruthy build_id then on_nvs (set_str ''ota_build_id'' build_id) d1 else d1);
          d3 = on_nvs (set_str ''ota_committed'' (JStr ''1'')) d2 in
      request_reboot (d3\<lparr>dv_artifact := artifact\<rparr>))"

text \<open>\<open>OtaSimulator.handle\<close>; \<open>None\<close> is the exception of a version that is not text.\<close>

definition ota_error :: "string \<Rightarrow> payload" where
  "ota_error msg = [(''type'', JStr ''error''), (''msg'', JStr msg)]"

definition ota_handle ::
  "'k env \<Rightarrow> mock_cfg \<Rightarrow> fetch \<Rightarrow> payload \<Rightarrow> 'k device \<Rightarrow> (device_effect list \<times> 'k device) option" where
  "ota_handle e cfg f p d =
     (let version = jget ''version'' p; url = jget ''url'' p; sha256 = jget ''sha256'' p in
      if \<not> jtruthy version \<or> \<not> jtruthy url \<or> \<not> jtruthy sha256
      then Some ([Respond (ota_error ''ota: missing fields'')], d)
      else (case version of
          JStr v \<Rightarrow>
            (let fw = (if dv_fw d = [] then ''0.0.0'' else dv_fw d) in
             if \<not> version_le fw v
             then Some ([Respond (ota_error ''ota: downgrade rejected'' @ [(''current'', JStr fw), (''requested'', version)])], d)
             else
               (let started = Respond [(''type'', JStr ''ota_started''), (''version'', version), (''id'', JStr (mc_device cfg))];
                    announced = (case jget ''size'' p of JInt n \<Rightarrow> Some n | JBool b \<Rightarrow> Some (if b then 1 else 0) | _ \<Rightarrow> None) in
                case download e (mc_device cfg) v sha256 announced f of
                  (progress, artifact, False, err) \<Rightarrow> Some (started # progress @ [Respond (ota_error err)], d)
                | (progress, artifact, True, err) \<Rightarrow>
                    (let stage = (\<lambda>s. Respond (build_ota_progress (mc_device cfg) v s (Some 100) None None 1)) in
                     Some (started # progress @ [stage ''installing'', stage ''rebooting''],
                       stage_update v (jget ''build_id'' p) artifact d))))
        | _ \<Rightarrow> None))"

definition check_pending_result :: "'k env \<Rightarrow> mock_cfg \<Rightarrow> 'k device \<Rightarrow> device_effect list \<times> 'k device" where
  "check_pending_result e cfg d =
     (let n = dv_nvs d in
      if get_str e ''ota_pending'' n \<noteq> Some ''1'' then ([], d)
      else
        (let committed = (get_str e ''ota_committed'' n = Some ''1'');
             version = or_else (get_str e ''ota_version'' n) (dv_fw d);
             reason = get_str e ''ota_rollback_reason'' n in
         ([Respond (build_ota_result (mc_device cfg) version committed reason)],
          on_nvs (erase ''ota_rollback_reason'' \<circ> erase ''ota_prev_build_id'' \<circ> erase ''ota_prev_version'' \<circ>
            erase ''ota_committed'' \<circ> erase ''ota_version'' \<circ> erase ''ota_pending'') d)))"



section \<open>Boot\<close>

definition roll_back :: "'k env \<Rightarrow> string \<Rightarrow> string \<Rightarrow> 'k device \<Rightarrow> 'k device" where
  "roll_back e new_version scenario d =
     (let prev = or_else (get_str e ''ota_prev_version'' (dv_nvs d)) (dv_fw d);
          prev_build = get_str e ''ota_prev_build_id'' (dv_nvs d);
          reason = ''health gate failed on v'' @ new_version @ '' ('' @ scenario @ '')'';
          d1 = d\<lparr>dv_fw := prev, dv_firmware := (dv_firmware d)\<lparr>fw_version := prev\<rparr>,
                 dv_build := (if truthy prev_build then the prev_build else dv_build d), dv_artifact := None\<rparr> in
      on_nvs (set_str ''ota_rollback_reason'' (JStr reason) \<circ> set_str ''ota_committed'' (JStr ''0'') \<circ>
        erase ''ota_build_id'') d1)"

definition adopt :: "'k env \<Rightarrow> string \<Rightarrow> 'k device \<Rightarrow> 'k device" where
  "adopt e new_version d =
     (let d1 = d\<lparr>dv_fw := new_version\<rparr>;
          new_build = get_str e ''ota_build_id'' (dv_nvs d1);
          d2 = (if truthy new_build then on_nvs (erase ''ota_build_id'') (d1\<lparr>dv_build := the new_build\<rparr>) else d1);
          d3 = (case dv_artifact d2 of
              Some bytes \<Rightarrow> d2\<lparr>dv_firmware := load_firmware e (Some bytes) (dv_fw d2), dv_artifact := None\<rparr>
            | None \<Rightarrow> d2\<lparr>dv_firmware := (dv_firmware d2)\<lparr>fw_version := dv_fw d2\<rparr>\<rparr>) in
      if truthy (fault_scenario e d3) \<and> fault_source e d3 \<noteq> Some ''firmware'' \<and>
         version_gt (dv_fw d3) (or_else (get_str e ''fault_fixed_after'' (dv_nvs d3)) ''0.0.0'')
      then clear_fault d3 else d3)"

definition apply_pending_ota :: "'k env \<Rightarrow> mock_cfg \<Rightarrow> 'k device \<Rightarrow> 'k device" where
  "apply_pending_ota e cfg d =
     (if get_str e ''ota_pending'' (dv_nvs d) \<noteq> Some ''1'' then d
      else
        (let new_version = or_else (get_str e ''ota_version'' (dv_nvs d)) (dv_fw d) in
         case buggy_version_map (mc_buggy cfg) new_version of
           Some scenario \<Rightarrow> roll_back e new_version scenario d
         | None \<Rightarrow> adopt e new_version d))"

definition sync_fault_from_firmware :: "'k env \<Rightarrow> 'k device \<Rightarrow> 'k device" where
  "sync_fault_from_firmware e d =
     (if truthy (fw_fault (dv_firmware d)) then arm_fault (the (fw_fault (dv_firmware d))) ''0.0.0'' ''firmware'' d
      else if truthy (fault_scenario e d) \<and> fault_source e d = Some ''firmware'' then clear_fault d
      else d)"

text \<open>The fields the firmware declares come last and may override the others.\<close>

definition build_online :: "mock_cfg \<Rightarrow> 'k device \<Rightarrow> payload" where
  "build_online cfg d =
     fold (\<lambda>(k, v). AList.update k v) (fw_extra (dv_firmware d))
       ([(''status'', JStr ''online''), (''id'', JStr (mc_device cfg)), (''fw'', JStr (dv_fw d)),
         (''build'', JStr (dv_build d)), (''device_type'', JStr (mc_type cfg)), (''fqbn'', JStr (mc_fqbn cfg)),
         (''chip'', JStr (mc_chip cfg)), (''rev'', JInt (mc_rev cfg)), (''flash'', JInt (mc_flash cfg)),
         (''heap'', JInt (te_heap (dv_tele d))), (''uptime'', JInt (te_uptime (dv_tele d))),
         (''rssi'', JInt (te_rssi (dv_tele d))), (''interval_s'', JInt (mc_interval cfg))] @
        (if mc_ip cfg = [] then [] else [(''ip'', JStr (mc_ip cfg))]) @
        (if mc_project cfg = [] then [] else [(''project_id'', JStr (mc_project cfg))]) @
        (if mc_name cfg = [] then [] else [(''name'', JStr (mc_name cfg))]))"

definition build_offline :: "mock_cfg \<Rightarrow> payload" where
  "build_offline cfg = [(''status'', JStr ''offline''), (''id'', JStr (mc_device cfg))] @
     (if mc_project cfg = [] then [] else [(''project_id'', JStr (mc_project cfg))])"

definition online_heartbeat :: "'k env \<Rightarrow> mock_cfg \<Rightarrow> 'k device \<Rightarrow> device_effect" where
  "online_heartbeat e cfg d =
     Heartbeat (if truthy (fault_scenario e d) then AList.update ''status'' (JStr ''error'') (build_online cfg d)
       else build_online cfg d)"

text \<open>A session up to the subscription; \<open>None\<close> is an exception.\<close>

definition boot :: "'k env \<Rightarrow> mock_cfg \<Rightarrow> 'k device \<Rightarrow> (device_effect list \<times> 'k device) option" where
  "boot e cfg d =
     (case resample_firmware e (apply_pending_ota e cfg (d\<lparr>dv_reboot := False\<rparr>)) of
        None \<Rightarrow> None
      | Some d0 \<Rightarrow>
          (let d1 = sample_telemetry e (sync_fault_from_firmware e d0) in
           case check_and_report e cfg d1 of
             None \<Rightarrow> None
           | Some (crashes, d2) \<Rightarrow>
               (let (results, d3) = check_pending_result e cfg d2 in
                Some (online_heartbeat e cfg d1 # crashes @ results, d3))))"


section \<open>Commands\<close>

text \<open>A command the firmware declares: \<open>None\<close> where its handler raises. A key that is hashable but no
  string is stored where nothing reads it.\<close>

definition firmware_handler ::
  "'k env \<Rightarrow> mock_cfg \<Rightarrow> string \<Rightarrow> json \<Rightarrow> payload \<Rightarrow> 'k device \<Rightarrow> (payload \<times> 'k device) option" where
  "firmware_handler e cfg name op p d = (case (resample_firmware e d, op) of
      (Some d0, JObj opd) \<Rightarrow>
        (case (case map_of opd ''sets_state'' of
            None \<Rightarrow> Some d0
          | Some (JStr key) \<Rightarrow>
              Some (d0\<lparr>dv_state := AList.update key (jget_or key (jget_or ''to'' (jget ''value'' p) opd) p) (dv_state d0)\<rparr>)
          | Some (JList _) \<Rightarrow> None
          | Some (JObj _) \<Rightarrow> None
          | Some _ \<Rightarrow> Some d0) of
          None \<Rightarrow> None
        | Some d' \<Rightarrow>
            map_option (\<lambda>resp. (if map_of resp ''id'' = None then resp @ [(''id'', JStr (mc_device cfg))] else resp, d'))
              (as_dict e (jget_or ''response'' (JObj [(''type'', JStr (name @ ''_ack''))]) opd)))
    | _ \<Rightarrow> None)"

text \<open>\<open>_route\<close> and the publishing of its answer.\<close>

definition route ::
  "'k env \<Rightarrow> mock_cfg \<Rightarrow> int \<Rightarrow> fetch \<Rightarrow> json \<Rightarrow> payload \<Rightarrow> 'k device \<Rightarrow> (device_effect list \<times> 'k device) option" where
  "route e cfg uptime f action p d =
     (if action = JStr ''ping''
      then Some ([Respond [(''type'', JStr ''pong''), (''id'', JStr (mc_device cfg)), (''fw'', JStr (dv_fw d))]], d)
      else if action = JStr ''reboot''
      then Some ([Respond [(''type'', JStr ''rebooting''), (''id'', JStr (mc_device cfg))]], request_reboot d)
      else if action = JStr ''diag''
      then
        (let d' = sample_telemetry e d; t = dv_tele d' in
         Some ([Respond (fold (\<lambda>(k, v). AList.update k v) (fw_readings (dv_firmware d'))
           [(''type'', JStr ''diag''), (''id'', JStr (mc_device cfg)), (''fw'', JStr (dv_fw d')),
            (''free_heap'', JInt (te_heap t)), (''min_free_heap'', JInt (te_min_heap t)),
            (''uptime_ms'', JInt (te_uptime t)), (''wifi_rssi'', JInt (te_rssi t)), (''cpu_count'', JInt 2)])], d'))
      else if action = JStr ''ota'' then ota_handle e cfg f p d
      else if action = JStr ''crash'' then
        (let scenario = (if jtruthy (jget ''scenario'' p) then jget ''scenario'' p
               else jget_or ''reason'' (JStr ''transient_load'') p) in
         map_option (\<lambda>d'. ([Respond [(''type'', JStr ''crash_scheduled''), (''id'', JStr (mc_device cfg)),
             (''scenario'', scenario)]], d')) (inject e uptime scenario d))
      else (case action of
          JStr a \<Rightarrow> (case map_of (fw_commands (dv_firmware d)) a of
              Some op \<Rightarrow> map_option (\<lambda>(resp, d'). ([Respond resp], d')) (firmware_handler e cfg a op p d)
            | None \<Rightarrow> Some ([Respond (ota_error ''unknown action'' @ [(''action'', action)])], d))
        | JList _ \<Rightarrow> None
        | JObj _ \<Rightarrow> None
        | _ \<Rightarrow> Some ([Respond (ota_error ''unknown action'' @ [(''action'', action)])], d)))"

text \<open>\<open>Dispatcher.handle\<close> on a body that is \<open>None\<close> when it does not parse.\<close>

definition dispatch ::
  "'k env \<Rightarrow> mock_cfg \<Rightarrow> int \<Rightarrow> int \<Rightarrow> fetch \<Rightarrow> json option \<Rightarrow> 'k device \<Rightarrow> (device_effect list \<times> 'k device) option" where
  "dispatch e cfg now uptime f body d = (case body of
      None \<Rightarrow> Some ([], d)
    | Some (JObj p) \<Rightarrow>
        (case verify_cmd (en_crypto e) now p (dv_verifier d) of
          (Raise, v) \<Rightarrow> None
        | (Drop, v) \<Rightarrow> Some ([], d\<lparr>dv_verifier := v\<rparr>)
        | (Accept, v) \<Rightarrow>
            (let action = jget ''action'' p; d' = d\<lparr>dv_verifier := v\<rparr> in
             if \<not> jtruthy action then Some ([], d') else route e cfg uptime f action p d'))
    | Some _ \<Rightarrow> None)"

text \<open>
  The life of a device. A message that requested a reboot ends the session: the device reports
  offline and boots again. A crash while a fault is armed, and a random one, only request the
  reboot: the loop looks at the request after the next message. \<open>None\<close>: the process has ended.
\<close>

datatype device_event =
    Boot
  | Beat
  | Message int int fetch "json option"
  | Recrash int
  | Chaos int string

definition heartbeat_beat :: "'k env \<Rightarrow> mock_cfg \<Rightarrow> 'k device \<Rightarrow> device_effect list \<times> 'k device" where
  "heartbeat_beat e cfg d = (let d' = sample_telemetry e d in ([online_heartbeat e cfg d'], d'))"

definition random_crash :: "'k env \<Rightarrow> int \<Rightarrow> string \<Rightarrow> 'k device \<Rightarrow> 'k device option" where
  "random_crash e uptime scenario d = inject e uptime (JStr scenario) d"

definition fault_recrash :: "'k env \<Rightarrow> int \<Rightarrow> 'k device \<Rightarrow> 'k device option" where
  "fault_recrash e uptime d =
     (if truthy (fault_scenario e d) then inject e uptime (JStr (the (fault_scenario e d))) d else Some d)"

definition device_step ::
  "'k env \<Rightarrow> mock_cfg \<Rightarrow> device_event \<Rightarrow> 'k device \<Rightarrow> (device_effect list \<times> 'k device) option" where
  "device_step e cfg ev d = (case ev of
      Boot \<Rightarrow> boot e cfg d
    | Beat \<Rightarrow> Some (heartbeat_beat e cfg d)
    | Message now uptime f body \<Rightarrow>
        (case dispatch e cfg now uptime f body d of
          None \<Rightarrow> None
        | Some (effects, d1) \<Rightarrow>
            if \<not> dv_reboot d1 then Some (effects, d1)
            else (case boot e cfg d1 of
                None \<Rightarrow> None
              | Some (rest, d2) \<Rightarrow> Some (effects @ [Heartbeat (build_offline cfg)] @ rest, d2)))
    | Recrash uptime \<Rightarrow> map_option (\<lambda>d'. ([], d')) (fault_recrash e uptime d)
    | Chaos uptime scenario \<Rightarrow> map_option (\<lambda>d'. ([], d')) (random_crash e uptime scenario d))"

lemmas device_step_defs = device_step_def heartbeat_beat_def random_crash_def fault_recrash_def

fun device_run :: "'k env \<Rightarrow> mock_cfg \<Rightarrow> device_event list \<Rightarrow> 'k device \<Rightarrow> (device_effect list \<times> 'k device) option" where
  "device_run e cfg [] d = Some ([], d)"
| "device_run e cfg (ev # evs) d = (case device_step e cfg ev d of
      None \<Rightarrow> None
    | Some (effects, d1) \<Rightarrow> map_option (\<lambda>(rest, d2). (effects @ rest, d2)) (device_run e cfg evs d1))"

end
