(* ===== verification/Device_Life.thy ===== *)
theory Device_Life
  imports Mock_Device
begin

text \<open>
  What holds over the life of a virtual device, for any sequence of boots, messages and crashes: its
  store stays typed, so that booting and crashing never raise; its firmware version never goes
  down; an update command that passes the checks ends in exactly one report, which tells what the
  device runs afterwards; and when a fault armed by the firmware is cured.
\<close>

section \<open>The store\<close>

lemma get_str_set [simp]:
  "get_str e k (set_str k' v n) = (if k = k' then (if v = JNull then None else Some (fmt (en_crypto e) v)) else get_str e k n)"
  "get_str e k (set_u32 k' i n) = (if k = k' then Some (fmt (en_crypto e) (JInt i)) else get_str e k n)"
  "get_str e k (erase k' n) = (if k = k' then None else get_str e k n)"
  by (simp_all add: get_str_def set_str_def set_u32_def erase_def)

lemma fmt_str [simp]: "fmt c (JStr s) = s"
  by (simp add: fmt_def)

lemma on_nvs_simps [simp]:
  "dv_nvs (on_nvs g d) = g (dv_nvs d)" "dv_fw (on_nvs g d) = dv_fw d" "dv_build (on_nvs g d) = dv_build d"
  "dv_firmware (on_nvs g d) = dv_firmware d" "dv_state (on_nvs g d) = dv_state d"
  "dv_artifact (on_nvs g d) = dv_artifact d" "dv_verifier (on_nvs g d) = dv_verifier d"
  "dv_reboot (on_nvs g d) = dv_reboot d"
  by (simp_all add: on_nvs_def)

lemma request_reboot_simps [simp]:
  "dv_nvs (request_reboot d) = dv_nvs d" "dv_fw (request_reboot d) = dv_fw d" "dv_build (request_reboot d) = dv_build d"
  "dv_firmware (request_reboot d) = dv_firmware d" "dv_artifact (request_reboot d) = dv_artifact d"
  "dv_verifier (request_reboot d) = dv_verifier d" "dv_reboot (request_reboot d) = True"
  by (simp_all add: request_reboot_def)

lemma sample_telemetry_simps [simp]:
  "dv_nvs (sample_telemetry e d) = dv_nvs d" "dv_fw (sample_telemetry e d) = dv_fw d"
  "dv_build (sample_telemetry e d) = dv_build d" "dv_firmware (sample_telemetry e d) = dv_firmware d"
  "dv_artifact (sample_telemetry e d) = dv_artifact d" "dv_verifier (sample_telemetry e d) = dv_verifier d"
  "dv_reboot (sample_telemetry e d) = dv_reboot d"
  by (simp_all add: sample_telemetry_def Let_def)

lemma resample_firmware_keeps:
  assumes "resample_firmware e d = Some d'"
  shows "dv_nvs d' = dv_nvs d" "dv_fw d' = dv_fw d" "dv_build d' = dv_build d" "dv_reboot d' = dv_reboot d"
    "dv_artifact d' = dv_artifact d" "dv_verifier d' = dv_verifier d" "fw_fault (dv_firmware d') = fw_fault (dv_firmware d)"
    "fw_telemetry (dv_firmware d') = fw_telemetry (dv_firmware d)"
  using assms by (auto simp: resample_firmware_def)

text \<open>Whether the rules of a firmware can be sampled, whatever the draws.\<close>

definition boots :: "'k env \<Rightarrow> firmware \<Rightarrow> bool" where
  "boots e f \<longleftrightarrow> resample e 0 (fw_telemetry f) \<noteq> None"

lemma sample_rule_draw: "sample_rule e n rule = None \<longleftrightarrow> sample_rule e m rule = None"
  by (auto simp: sample_rule_def split: json.split option.split)

lemma resample_draw: "resample e n rules = None \<longleftrightarrow> resample e m rules = None"
proof (induction rules arbitrary: n m)
  case (Cons r rules)
  obtain k rule where "r = (k, rule)" by (cases r)
  then show ?case using Cons.IH [of "Suc n" "Suc m"] sample_rule_draw [of e n rule m] by (auto split: option.splits)
qed simp

lemma resample_firmware_None: "resample_firmware e d = None \<longleftrightarrow> \<not> boots e (dv_firmware d)"
  using resample_draw by (simp add: resample_firmware_def boots_def)

lemma boots_default [simp]: "boots e (default_firmware v)"
  by (simp add: boots_def default_firmware_def)

text \<open>What a key may hold: the counter a number, the update flags their two values, the build id
  whatever the command carried, everything else text.\<close>

definition slot_ok :: "string \<Rightarrow> json \<Rightarrow> bool" where
  "slot_ok k v \<longleftrightarrow>
     (if k = ''crash_count'' then (\<exists>i \<ge> 0. v = JInt i)
      else if k = ''crash_uptime'' then (\<exists>u. v = JStr (show_int u))
      else if k = ''crash_simulate'' \<or> k = ''ota_pending'' then v = JStr ''1''
      else if k = ''ota_committed'' then v = JStr ''0'' \<or> v = JStr ''1''
      else if k = ''fault_source'' then v = JStr ''inject'' \<or> v = JStr ''firmware''
      else if k = ''ota_build_id'' then jtruthy v
      else k \<in> {''crash_scenario'', ''fault_scenario'', ''fault_fixed_after'', ''ota_version'', ''ota_prev_version'',
             ''ota_prev_build_id'', ''ota_rollback_reason''} \<and> (\<exists>s. v = JStr s))"

definition store_typed :: "nvs \<Rightarrow> bool" where
  "store_typed n \<longleftrightarrow> (\<forall>k v. n k = Some v \<longrightarrow> slot_ok k v)"

lemma store_typed_empty [simp]: "store_typed Map.empty"
  by (simp add: store_typed_def)

lemma store_typed_set [simp]: "store_typed n \<Longrightarrow> slot_ok k v \<Longrightarrow> store_typed (set_str k v n)"
  by (simp add: store_typed_def set_str_def)

lemma store_typed_u32 [simp]: "store_typed n \<Longrightarrow> 0 \<le> i \<Longrightarrow> store_typed (set_u32 ''crash_count'' i n)"
proof -
  assume a: "store_typed n" "0 \<le> i"
  then have "slot_ok ''crash_count'' (JInt i)" by (simp add: slot_ok_def)
  with a show ?thesis by (simp add: store_typed_def set_u32_def)
qed

lemma store_typed_erase [simp]: "store_typed n \<Longrightarrow> store_typed (erase k n)"
  by (simp add: store_typed_def erase_def)

lemma store_typed_count:
  assumes "store_typed n"
  obtains i where "get_u32 ''crash_count'' n = Some i" "0 \<le> i"
proof (cases "n ''crash_count''")
  case None
  then have "get_u32 ''crash_count'' n = Some 0" by (simp add: get_u32_def)
  then show thesis using that by blast
next
  case (Some v)
  then have "slot_ok ''crash_count'' v" using assms by (simp add: store_typed_def)
  then obtain i where "0 \<le> i" "v = JInt i" by (auto simp: slot_ok_def)
  then show thesis using that Some by (simp add: get_u32_def to_int_def)
qed

lemma store_typed_uptime:
  assumes "store_typed n"
  obtains u where "get_u32 ''crash_uptime'' n = Some u"
proof (cases "n ''crash_uptime''")
  case None
  then show thesis using that by (simp add: get_u32_def)
next
  case (Some v)
  then have "slot_ok ''crash_uptime'' v" using assms by (simp add: store_typed_def)
  then obtain u where "v = JStr (show_int u)" by (auto simp: slot_ok_def)
  then show thesis using that Some by (simp add: get_u32_def to_int_def py_int_show_int)
qed

lemma arm_fault_typed: "store_typed (dv_nvs d) \<Longrightarrow> source = ''inject'' \<or> source = ''firmware'' \<Longrightarrow>
    store_typed (dv_nvs (arm_fault sid after source d))"
  by (elim disjE) (simp_all add: arm_fault_def slot_ok_def)

lemma clear_fault_typed: "store_typed (dv_nvs d) \<Longrightarrow> store_typed (dv_nvs (clear_fault d))"
  by (simp add: clear_fault_def)

lemma inject_typed:
  assumes "store_typed (dv_nvs d)" and "inject e u name d = Some d'"
  shows "store_typed (dv_nvs d')"
proof -
  from assms(2) obtain sid sc count where r: "resolve name = Some (sid, sc)"
    "get_u32 ''crash_count'' (dv_nvs d) = Some count" by (auto simp: inject_def split: option.splits)
  obtain i where "get_u32 ''crash_count'' (dv_nvs d) = Some i" "0 \<le> i" by (rule store_typed_count [OF assms(1)])
  with r(2) have c: "0 \<le> count" by simp
  let ?d1 = "on_nvs (set_str ''crash_simulate'' (JStr ''1'') \<circ> set_str ''crash_uptime'' (JStr (show_int u)) \<circ>
               set_str ''crash_scenario'' (JStr sid) \<circ> set_u32 ''crash_count'' (count + 1)) d"
  have "store_typed (dv_nvs ?d1)" using assms(1) c by (simp add: slot_ok_def exI [of _ u])
  then show ?thesis using assms(2) r arm_fault_typed [of ?d1 "''inject''"]
    by (auto simp: inject_def Let_def simp del: on_nvs_simps(1))
qed

lemma inject_total:
  assumes "store_typed (dv_nvs d)"
  shows "inject e u (JStr s) d \<noteq> None"
proof -
  obtain sid sc where "resolve (JStr s) = Some (sid, sc)" using resolve_str by blast
  moreover obtain i where "get_u32 ''crash_count'' (dv_nvs d) = Some i" "0 \<le> i"
    by (rule store_typed_count [OF assms])
  ultimately show ?thesis by (simp add: inject_def Let_def)
qed

lemma check_and_report_total:
  assumes "store_typed (dv_nvs d)"
  shows "\<exists>effects d'. check_and_report e cfg d = Some (effects, d') \<and> store_typed (dv_nvs d')"
proof -
  obtain u where "get_u32 ''crash_uptime'' (dv_nvs d) = Some u" by (rule store_typed_uptime [OF assms])
  moreover obtain i where "get_u32 ''crash_count'' (dv_nvs d) = Some i" "0 \<le> i"
    by (rule store_typed_count [OF assms])
  moreover have "\<exists>sid sc. resolve (case get_str e ''crash_scenario'' (dv_nvs d) of None \<Rightarrow> JNull | Some s \<Rightarrow> JStr s) = Some (sid, sc)"
    using resolve_str by (cases "get_str e ''crash_scenario'' (dv_nvs d)") (auto simp: resolve_def fallback_scenario_def)
  ultimately show ?thesis using assms by (auto simp: check_and_report_def)
qed

lemma apply_pending_ota_typed:
  assumes "store_typed (dv_nvs d)"
  shows "store_typed (dv_nvs (apply_pending_ota e cfg d))"
proof -
  have rb: "store_typed (dv_nvs (roll_back e v s d))" for v s
    using assms by (simp add: roll_back_def Let_def slot_ok_def)
  have ad: "store_typed (dv_nvs (adopt e v d))" for v
    using assms by (auto simp: adopt_def Let_def clear_fault_def split: option.split)
  show ?thesis using assms rb ad by (simp add: apply_pending_ota_def Let_def split: option.split)
qed

lemma sync_fault_typed: "store_typed (dv_nvs d) \<Longrightarrow> store_typed (dv_nvs (sync_fault_from_firmware e d))"
  using arm_fault_typed clear_fault_typed by (auto simp: sync_fault_from_firmware_def)

text \<open>The firmware a boot starts, after the pending update.\<close>

definition boot_image :: "'k env \<Rightarrow> mock_cfg \<Rightarrow> 'k device \<Rightarrow> 'k device" where
  "boot_image e cfg d = apply_pending_ota e cfg (d\<lparr>dv_reboot := False\<rparr>)"

lemma boot_image_typed: "store_typed (dv_nvs d) \<Longrightarrow> store_typed (dv_nvs (boot_image e cfg d))"
  unfolding boot_image_def by (intro apply_pending_ota_typed) simp

lemma boot_parts:
  assumes "store_typed (dv_nvs d)" and "boots e (dv_firmware (boot_image e cfg d))"
  obtains d0 crashes d2 where "resample_firmware e (boot_image e cfg d) = Some d0"
    "check_and_report e cfg (sample_telemetry e (sync_fault_from_firmware e d0)) = Some (crashes, d2)"
    "store_typed (dv_nvs d2)"
    "boot e cfg d = Some (online_heartbeat e cfg (sample_telemetry e (sync_fault_from_firmware e d0)) # crashes @
       fst (check_pending_result e cfg d2), snd (check_pending_result e cfg d2))"
proof -
  obtain d0 where d0: "resample_firmware e (boot_image e cfg d) = Some d0"
    using assms(2) resample_firmware_None [of e "boot_image e cfg d"] by auto
  let ?d1 = "sample_telemetry e (sync_fault_from_firmware e d0)"
  have "store_typed (dv_nvs d0)" using boot_image_typed [OF assms(1)] resample_firmware_keeps(1) [OF d0] by simp
  then have t: "store_typed (dv_nvs ?d1)" using sync_fault_typed by simp
  from check_and_report_total [OF t, of e cfg] obtain crashes d2 where
    c: "check_and_report e cfg ?d1 = Some (crashes, d2)" "store_typed (dv_nvs d2)" by blast
  have "boot e cfg d = Some (online_heartbeat e cfg ?d1 # crashes @ fst (check_pending_result e cfg d2),
      snd (check_pending_result e cfg d2))"
    using d0 c(1) by (simp add: boot_def boot_image_def Let_def split_beta)
  with d0 c show thesis using that by blast
qed

lemma boot_None:
  assumes "store_typed (dv_nvs d)"
  shows "boot e cfg d = None \<longleftrightarrow> \<not> boots e (dv_firmware (boot_image e cfg d))"
proof (cases "boots e (dv_firmware (boot_image e cfg d))")
  case True
  obtain x where "boot e cfg d = Some x" by (rule boot_parts [OF assms True])
  then show ?thesis using True by simp
next
  case False
  then have "resample_firmware e (boot_image e cfg d) = None" by (simp add: resample_firmware_None)
  then show ?thesis using False by (simp add: boot_def boot_image_def)
qed

lemma boot_split:
  assumes "store_typed (dv_nvs d)" and "boot e cfg d = Some (effects, d')"
  obtains d0 crashes d2 where "resample_firmware e (boot_image e cfg d) = Some d0"
    "check_and_report e cfg (sample_telemetry e (sync_fault_from_firmware e d0)) = Some (crashes, d2)"
    "store_typed (dv_nvs d2)" "d' = snd (check_pending_result e cfg d2)"
    "effects = online_heartbeat e cfg (sample_telemetry e (sync_fault_from_firmware e d0)) # crashes @
       fst (check_pending_result e cfg d2)" "boots e (dv_firmware (boot_image e cfg d))"
proof -
  have b: "boots e (dv_firmware (boot_image e cfg d))" using boot_None [OF assms(1), of e cfg] assms(2) by simp
  from boot_parts [OF assms(1) b] obtain d0 crashes d2 where
    p: "resample_firmware e (boot_image e cfg d) = Some d0"
    "check_and_report e cfg (sample_telemetry e (sync_fault_from_firmware e d0)) = Some (crashes, d2)"
    "store_typed (dv_nvs d2)"
    "boot e cfg d = Some (online_heartbeat e cfg (sample_telemetry e (sync_fault_from_firmware e d0)) # crashes @
       fst (check_pending_result e cfg d2), snd (check_pending_result e cfg d2))" by blast
  show thesis by (rule that [OF p(1-3)]) (use p(4) assms(2) b in simp_all)
qed

lemma boot_typed:
  assumes "store_typed (dv_nvs d)" and "boot e cfg d = Some (effects, d')"
  shows "store_typed (dv_nvs d')"
proof -
  obtain d2 where "store_typed (dv_nvs d2)" "d' = snd (check_pending_result e cfg d2)"
    by (rule boot_split [OF assms])
  then show ?thesis by (simp add: check_pending_result_def Let_def)
qed

lemma boot_total:
  assumes "store_typed (dv_nvs d)" and "boots e (dv_firmware (boot_image e cfg d))"
  shows "\<exists>effects d'. boot e cfg d = Some (effects, d') \<and> store_typed (dv_nvs d')"
  using boot_None [OF assms(1), of e cfg] assms(2) boot_typed [OF assms(1), of e cfg]
  by (cases "boot e cfg d") auto


lemma stage_update_typed: "store_typed (dv_nvs d) \<Longrightarrow> store_typed (dv_nvs (stage_update v b artifact d))"
  by (simp add: stage_update_def Let_def slot_ok_def)

lemma ota_handle_cases:
  assumes "ota_handle e cfg f p d = Some (effects, d')"
  shows "d' = d \<or> (\<exists>v artifact. jget ''version'' p = JStr v \<and> v \<noteq> [] \<and>
    version_le (if dv_fw d = [] then ''0.0.0'' else dv_fw d) v \<and>
    d' = stage_update v (jget ''build_id'' p) artifact d)"
proof (cases "jget ''version'' p")
  case (JStr v)
  then show ?thesis using assms
    by (auto simp: ota_handle_def Let_def split: if_splits prod.splits bool.splits)
qed (use assms in \<open>auto simp: ota_handle_def Let_def split: if_splits\<close>)

lemma ota_handle_typed:
  assumes "store_typed (dv_nvs d)" and "ota_handle e cfg f p d = Some (effects, d')"
  shows "store_typed (dv_nvs d')"
  using ota_handle_cases [OF assms(2)] assms(1) stage_update_typed by auto

lemma firmware_handler_nvs:
  assumes "firmware_handler e cfg name op p d = Some (r, d')"
  shows "dv_nvs d' = dv_nvs d \<and> dv_fw d' = dv_fw d \<and> dv_reboot d' = dv_reboot d"
proof -
  obtain d0 opd where d0: "resample_firmware e d = Some d0" "op = JObj opd"
    using assms by (auto simp: firmware_handler_def split: json.splits option.splits)
  then have "dv_nvs d' = dv_nvs d0 \<and> dv_fw d' = dv_fw d0 \<and> dv_reboot d' = dv_reboot d0" using assms
    by (auto simp: firmware_handler_def split: json.splits option.splits if_splits)
  then show ?thesis using resample_firmware_keeps [OF d0(1)] by simp
qed

lemma route_typed:
  assumes "store_typed (dv_nvs d)" and "route e cfg u f action p d = Some (effects, d')"
  shows "store_typed (dv_nvs d')"
  using assms
  by (auto simp: route_def Let_def dest: ota_handle_typed inject_typed firmware_handler_nvs
      split: if_splits json.splits option.splits)

lemma dispatch_typed:
  assumes "store_typed (dv_nvs d)" and "dispatch e cfg now u f body d = Some (effects, d')"
  shows "store_typed (dv_nvs d')"
proof -
  obtain p v where "body = None \<and> d' = d \<or> d' = d\<lparr>dv_verifier := v\<rparr> \<or>
      route e cfg u f (jget ''action'' p) p (d\<lparr>dv_verifier := v\<rparr>) = Some (effects, d')"
    using assms(2)
    by (auto simp: dispatch_def Let_def split: option.splits json.splits prod.splits verdict.splits if_splits)
  then show ?thesis using assms(1) route_typed [of "d\<lparr>dv_verifier := v\<rparr>"] by auto
qed

lemma device_step_typed:
  assumes "store_typed (dv_nvs d)" and "device_step e cfg ev d = Some (effects, d')"
  shows "store_typed (dv_nvs d')"
proof (cases ev)
  case Boot
  then show ?thesis using assms boot_typed by (simp add: device_step_defs) blast
next
  case Beat
  then show ?thesis using assms by (auto simp: device_step_defs Let_def)
next
  case (Message now u f body)
  with assms(2) obtain effects1 d1 where d1: "dispatch e cfg now u f body d = Some (effects1, d1)"
    by (auto simp: device_step_defs split: option.splits)
  have t: "store_typed (dv_nvs d1)" using dispatch_typed [OF assms(1) d1] .
  show ?thesis using assms(2) Message d1 t boot_typed [OF t]
    by (auto simp: device_step_defs split: if_splits option.splits)
next
  case (Recrash u)
  then show ?thesis using assms inject_typed by (auto simp: device_step_defs split: if_splits)
next
  case (Chaos u s)
  then show ?thesis using assms inject_typed by (auto simp: device_step_defs)
qed

lemma device_run_typed:
  "store_typed (dv_nvs d) \<Longrightarrow> device_run e cfg evs d = Some (effects, d') \<Longrightarrow> store_typed (dv_nvs d')"
proof (induction evs arbitrary: d effects)
  case (Cons ev evs)
  then obtain eff1 d1 eff2 where "device_step e cfg ev d = Some (eff1, d1)" "device_run e cfg evs d1 = Some (eff2, d')"
    by (auto split: option.splits)
  then show ?case using Cons.IH [of d1 eff2] device_step_typed [OF Cons.prems(1)] by blast
qed simp

text \<open>
  C23. The device's store is typed over its whole life, whatever commands, crashes and updates reach
  it: the counter is a non-negative number, the uptime prints a number, the flags hold their two
  values, everything else is text and no other key exists. So reading it never raises: a crash always
  succeeds, and a boot fails only where the firmware it starts has a metric that cannot be sampled.
\<close>

theorem device_store_typed:
  assumes "device_run e cfg evs (new_device cfg v firmware) = Some (effects, d)"
  shows "store_typed (dv_nvs d) \<and> (boot e cfg d = None \<longleftrightarrow> \<not> boots e (dv_firmware (boot_image e cfg d))) \<and>
    device_step e cfg (Recrash u) d \<noteq> None \<and> device_step e cfg (Chaos u s) d \<noteq> None"
proof -
  have t: "store_typed (dv_nvs d)" using device_run_typed [OF _ assms] by (simp add: new_device_def)
  then show ?thesis using boot_None [OF t, of e cfg] inject_total [OF t] by (simp add: device_step_defs)
qed


section \<open>The firmware version\<close>

lemma tuple_le_refl [simp]: "tuple_le xs xs"
  by (induction xs) auto

lemma tuple_le_trans: "tuple_le xs ys \<Longrightarrow> tuple_le ys zs \<Longrightarrow> tuple_le xs zs"
proof (induction xs ys arbitrary: zs rule: tuple_le.induct)
  case (3 x xs y ys)
  then show ?case by (cases zs) auto
qed auto

lemma version_le_trans: "version_le a b \<Longrightarrow> version_le b c \<Longrightarrow> version_le a c"
  unfolding version_le_def by (auto split: option.splits intro: tuple_le_trans)

text \<open>The running version as the update check reads it.\<close>

definition running :: "'k device \<Rightarrow> string" where
  "running d = (if dv_fw d = [] then ''0.0.0'' else dv_fw d)"

definition idle :: "'k device \<Rightarrow> bool" where
  "idle d \<longleftrightarrow> dv_nvs d ''ota_pending'' = None"

lemma sample_telemetry_idle [simp]: "idle (sample_telemetry e d) = idle d"
  by (simp add: idle_def)

lemma nvs_updates:
  "set_str k v n k' = (if k' = k then Some v else n k')" "set_u32 k i n k' = (if k' = k then Some (JInt i) else n k')"
  "erase k n k' = (if k' = k then None else n k')"
  by (simp_all add: set_str_def set_u32_def erase_def)

lemma arm_fault_keeps: "dv_fw (arm_fault s a src d) = dv_fw d" "idle (arm_fault s a src d) = idle d"
  "dv_build (arm_fault s a src d) = dv_build d" "dv_firmware (arm_fault s a src d) = dv_firmware d"
  by (simp_all add: arm_fault_def idle_def nvs_updates)

lemma clear_fault_keeps: "dv_fw (clear_fault d) = dv_fw d" "idle (clear_fault d) = idle d"
  "dv_build (clear_fault d) = dv_build d" "dv_firmware (clear_fault d) = dv_firmware d"
  by (simp_all add: clear_fault_def idle_def nvs_updates)

lemma inject_keeps: "inject e u name d = Some d' \<Longrightarrow> dv_fw d' = dv_fw d \<and> (idle d' \<longleftrightarrow> idle d)"
  by (auto simp: inject_def Let_def arm_fault_keeps idle_def nvs_updates arm_fault_def split: option.splits if_splits)

lemma check_and_report_keeps:
  "check_and_report e cfg d = Some (effects, d') \<Longrightarrow> dv_fw d' = dv_fw d \<and> (idle d' \<longleftrightarrow> idle d)"
  by (auto simp: check_and_report_def idle_def nvs_updates split: option.splits if_splits)

lemma sync_fault_keeps: "dv_fw (sync_fault_from_firmware e d) = dv_fw d"
  "idle (sync_fault_from_firmware e d) = idle d"
  by (simp_all add: sync_fault_from_firmware_def arm_fault_keeps clear_fault_keeps)

lemma check_pending_result_idle:
  assumes "store_typed (dv_nvs d)"
  shows "idle (snd (check_pending_result e cfg d))" "dv_fw (snd (check_pending_result e cfg d)) = dv_fw d"
proof -
  have "dv_nvs d ''ota_pending'' = None \<or> dv_nvs d ''ota_pending'' = Some (JStr ''1'')"
    using assms by (cases "dv_nvs d ''ota_pending''") (auto simp: store_typed_def slot_ok_def)
  then show "idle (snd (check_pending_result e cfg d))"
    by (auto simp: check_pending_result_def Let_def idle_def get_str_def nvs_updates fmt_def)
qed (simp add: check_pending_result_def Let_def)

text \<open>A boot, in terms of the update it applies.\<close>

lemma boot_cases:
  assumes "store_typed (dv_nvs d)" and "boot e cfg d = Some (effects, d')"
  shows "idle d' \<and> dv_fw d' = dv_fw (boot_image e cfg d)"
proof -
  obtain d0 crashes d2 where p: "resample_firmware e (boot_image e cfg d) = Some d0"
    "check_and_report e cfg (sample_telemetry e (sync_fault_from_firmware e d0)) = Some (crashes, d2)"
    "store_typed (dv_nvs d2)" "d' = snd (check_pending_result e cfg d2)"
    by (rule boot_split [OF assms])
  then show ?thesis using check_pending_result_idle [OF p(3)] check_and_report_keeps [OF p(2)] resample_firmware_keeps(2) [OF p(1)]
    by (simp add: sync_fault_keeps)
qed

lemma apply_pending_idle: "idle d \<Longrightarrow> apply_pending_ota e cfg d = d"
  by (simp add: apply_pending_ota_def idle_def get_str_def)

lemma boot_image_idle: "idle d \<Longrightarrow> boot_image e cfg d = d\<lparr>dv_reboot := False\<rparr>"
  unfolding boot_image_def by (rule apply_pending_idle) (simp add: idle_def)

lemma stage_update_get [simp]:
  "get_str e ''ota_pending'' (dv_nvs (stage_update v b a d)) = Some ''1''"
  "get_str e ''ota_version'' (dv_nvs (stage_update v b a d)) = Some v"
  "get_str e ''ota_prev_version'' (dv_nvs (stage_update v b a d)) = Some (dv_fw d)"
  "get_str e ''ota_prev_build_id'' (dv_nvs (stage_update v b a d)) = Some (dv_build d)"
  "get_str e ''ota_committed'' (dv_nvs (stage_update v b a d)) = Some ''1''"
  "get_str e ''fault_scenario'' (dv_nvs (stage_update v b a d)) = get_str e ''fault_scenario'' (dv_nvs d)"
  "get_str e ''fault_source'' (dv_nvs (stage_update v b a d)) = get_str e ''fault_source'' (dv_nvs d)"
  "get_str e ''fault_fixed_after'' (dv_nvs (stage_update v b a d)) = get_str e ''fault_fixed_after'' (dv_nvs d)"
  "dv_fw (stage_update v b a d) = dv_fw d" "dv_build (stage_update v b a d) = dv_build d"
  "dv_firmware (stage_update v b a d) = dv_firmware d" "dv_artifact (stage_update v b a d) = a"
  "dv_reboot (stage_update v b a d)"
  by (simp_all add: stage_update_def Let_def)

lemma adopt_fw: "dv_fw (adopt e v d) = v"
  by (simp add: adopt_def Let_def clear_fault_keeps split: option.split)

lemma or_else_self [simp]: "or_else (Some x) x = x"
  by (cases x) simp_all

lemma apply_staged_fw:
  assumes "v \<noteq> []"
  shows "dv_fw (boot_image e cfg (stage_update v b a d)) =
    (if buggy_version_map (mc_buggy cfg) v = None then v else dv_fw d)"
  using assms
  by (simp add: boot_image_def apply_pending_ota_def Let_def adopt_fw roll_back_def split: option.split)

lemma route_fw:
  assumes "route e cfg u f action p d = Some (effects, d')"
  shows "(dv_fw d' = dv_fw d \<and> (idle d' \<longleftrightarrow> idle d)) \<or>
    (\<exists>v b a. v \<noteq> [] \<and> version_le (running d) v \<and> d' = stage_update v b a d)"
proof (cases "action = JStr ''ota''")
  case True
  then have "ota_handle e cfg f p d = Some (effects, d')" using assms by (simp add: route_def)
  from ota_handle_cases [OF this, folded running_def] show ?thesis by (elim disjE) (simp, blast)
next
  case False
  have h: "dv_fw d2 = dv_fw d \<and> (idle d2 \<longleftrightarrow> idle d)" if "firmware_handler e cfg a op p d = Some (r, d2)" for a op r d2
    using firmware_handler_nvs [OF that] by (simp add: idle_def)
  have r: "dv_fw (request_reboot d) = dv_fw d \<and> (idle (request_reboot d) \<longleftrightarrow> idle d)" by (simp add: idle_def)
  show ?thesis using assms False h r
    by (auto simp: route_def Let_def dest!: inject_keeps split: if_splits json.splits option.splits)
qed

lemma device_step_fw:
  assumes t: "store_typed (dv_nvs d)" and "idle d" and "device_step e cfg ev d = Some (effects, d')"
  shows "idle d' \<and> (dv_fw d' = dv_fw d \<or> dv_fw d' \<noteq> [] \<and> version_le (running d) (dv_fw d'))"
proof (cases ev)
  case Boot
  then have "boot e cfg d = Some (effects, d')" using assms(3) by (simp add: device_step_defs)
  from boot_cases [OF t this] show ?thesis using boot_image_idle [OF assms(2)] by simp
next
  case Beat
  then show ?thesis using assms by (auto simp: device_step_defs Let_def idle_def)
next
  case (Message now u f body)
  with assms(3) obtain effects1 d1 where d1: "dispatch e cfg now u f body d = Some (effects1, d1)"
    by (auto simp: device_step_defs split: option.splits)
  have t1: "store_typed (dv_nvs d1)" using dispatch_typed [OF t d1] .
  obtain p v where "d1 = d \<or> d1 = d\<lparr>dv_verifier := v\<rparr> \<or>
      route e cfg u f (jget ''action'' p) p (d\<lparr>dv_verifier := v\<rparr>) = Some (effects1, d1)"
    using d1 by (auto simp: dispatch_def Let_def split: option.splits json.splits prod.splits verdict.splits if_splits)
  moreover have "idle (d\<lparr>dv_verifier := v\<rparr>)" "running (d\<lparr>dv_verifier := v\<rparr>) = running d"
    using assms(2) by (simp_all add: idle_def running_def)
  ultimately consider "dv_fw d1 = dv_fw d" "idle d1"
    | w b a x where "w \<noteq> []" "version_le (running d) w" "d1 = stage_update w b a (d\<lparr>dv_verifier := x\<rparr>)"
    using assms(2) route_fw [of e cfg u f "jget ''action'' p" p "d\<lparr>dv_verifier := v\<rparr>" effects1 d1]
    by (elim disjE) (simp, simp, metis device.ext_inject device.surjective device.update_convs(7))
  then show ?thesis
  proof cases
    case 1
    then show ?thesis using assms(3) Message d1 boot_cases [OF t1] boot_image_idle [OF 1(2)]
      by (auto simp: device_step_defs split: if_splits option.splits)
  next
    case 2
    have "dv_fw d' = dv_fw (boot_image e cfg d1) \<and> idle d'"
      using assms(3) Message d1 boot_cases [OF t1] 2(3)
      by (auto simp: device_step_defs split: if_splits option.splits)
    moreover have "dv_fw (boot_image e cfg d1) =
        (if buggy_version_map (mc_buggy cfg) w = None then w else dv_fw d)"
      unfolding 2(3) using apply_staged_fw [OF 2(1), of e cfg b a "d\<lparr>dv_verifier := x\<rparr>"] by simp
    ultimately show ?thesis using 2(1,2) by simp
  qed
next
  case (Recrash u)
  then show ?thesis using assms inject_keeps by (fastforce simp: device_step_defs split: if_splits)
next
  case (Chaos u s)
  then show ?thesis using assms inject_keeps by (fastforce simp: device_step_defs)
qed

text \<open>
  C21. A device is never downgraded: over any sequence of boots, crashes and commands, the version it
  runs is unchanged or at least the one it ran before, also when updates fail their health gate and
  are rolled back; and between two events no update is left half applied.
\<close>

theorem firmware_never_downgraded:
  assumes "device_run e cfg evs d = Some (effects, d')" and "store_typed (dv_nvs d)" and "idle d"
  shows "idle d' \<and> (dv_fw d' = dv_fw d \<or> version_le (running d) (dv_fw d'))"
  using assms
proof (induction evs arbitrary: d effects)
  case (Cons ev evs)
  then obtain eff1 d1 eff2 where s: "device_step e cfg ev d = Some (eff1, d1)" "device_run e cfg evs d1 = Some (eff2, d')"
    by (auto split: option.splits)
  note st = device_step_fw [OF Cons.prems(2,3) s(1)]
  have ih: "idle d' \<and> (dv_fw d' = dv_fw d1 \<or> version_le (running d1) (dv_fw d'))"
    using Cons.IH [OF s(2)] device_step_typed [OF Cons.prems(2) s(1)] st by blast
  show ?case using st ih version_le_trans [of "running d" "dv_fw d1" "dv_fw d'"] by (auto simp: running_def)
qed simp


section \<open>The outcome of an update\<close>

definition is_result :: "device_effect \<Rightarrow> bool" where
  "is_result eff = (case eff of Respond r \<Rightarrow> jget ''type'' r = JStr ''ota_result'' | _ \<Rightarrow> False)"

definition ota_keys :: "string list" where
  "ota_keys = [''ota_pending'', ''ota_version'', ''ota_committed'', ''ota_rollback_reason'']"

lemma sync_get: "k \<in> set ota_keys \<Longrightarrow> get_str e k (dv_nvs (sync_fault_from_firmware e d)) = get_str e k (dv_nvs d)"
  by (auto simp: ota_keys_def sync_fault_from_firmware_def arm_fault_def clear_fault_def)

lemma report_get:
  assumes "check_and_report e cfg d = Some (effects, d')"
  shows "k \<in> set ota_keys \<Longrightarrow> get_str e k (dv_nvs d') = get_str e k (dv_nvs d)" "filter is_result effects = []"
  using assms
  by (auto simp: ota_keys_def check_and_report_def is_result_def split: if_splits option.splits)

lemma clear_get: "k \<in> set ota_keys \<Longrightarrow> get_str e k (dv_nvs (clear_fault d)) = get_str e k (dv_nvs d)"
  by (auto simp: ota_keys_def clear_fault_def)

lemma adopt_get: "k \<in> set ota_keys \<Longrightarrow> get_str e k (dv_nvs (adopt e v d)) = get_str e k (dv_nvs d)"
  by (auto simp: adopt_def Let_def clear_get split: option.split) (auto simp: ota_keys_def)

lemma roll_back_get:
  "get_str e ''ota_pending'' (dv_nvs (roll_back e v s d)) = get_str e ''ota_pending'' (dv_nvs d)"
  "get_str e ''ota_version'' (dv_nvs (roll_back e v s d)) = get_str e ''ota_version'' (dv_nvs d)"
  "get_str e ''ota_committed'' (dv_nvs (roll_back e v s d)) = Some ''0''"
  "get_str e ''ota_rollback_reason'' (dv_nvs (roll_back e v s d)) =
     Some (''health gate failed on v'' @ v @ '' ('' @ s @ '')'')"
  by (simp_all add: roll_back_def Let_def)

text \<open>The report of the boot after an update to \<open>v\<close>.\<close>

definition update_report :: "mock_cfg \<Rightarrow> string \<Rightarrow> payload" where
  "update_report cfg v = (case buggy_version_map (mc_buggy cfg) v of
      None \<Rightarrow> build_ota_result (mc_device cfg) v True None
    | Some s \<Rightarrow> build_ota_result (mc_device cfg) v False (Some (''health gate failed on v'' @ v @ '' ('' @ s @ '')'')))"

lemma is_result_report: "is_result (Respond (update_report cfg v))"
  by (simp add: is_result_def update_report_def build_ota_result_def split: option.split)

lemma boot_results:
  assumes "store_typed (dv_nvs d)" and "boot e cfg d = Some (effects, d')"
  shows "filter is_result effects = (let n = dv_nvs (boot_image e cfg d) in
      if get_str e ''ota_pending'' n \<noteq> Some ''1'' then []
      else [Respond (build_ota_result (mc_device cfg) (or_else (get_str e ''ota_version'' n) (dv_fw d'))
        (get_str e ''ota_committed'' n = Some ''1'') (get_str e ''ota_rollback_reason'' n))])"
proof -
  obtain d0 crashes d2 where p: "resample_firmware e (boot_image e cfg d) = Some d0"
    "check_and_report e cfg (sample_telemetry e (sync_fault_from_firmware e d0)) = Some (crashes, d2)"
    "d' = snd (check_pending_result e cfg d2)"
    and eff: "effects = online_heartbeat e cfg (sample_telemetry e (sync_fault_from_firmware e d0)) # crashes @
       fst (check_pending_result e cfg d2)"
    by (rule boot_split [OF assms])
  have get: "get_str e k (dv_nvs d2) = get_str e k (dv_nvs (boot_image e cfg d))" if "k \<in> set ota_keys" for k
    using report_get(1) [OF p(2) that] sync_get [OF that, of e d0] resample_firmware_keeps(1) [OF p(1)] by simp
  have keys: "get_str e ''ota_pending'' (dv_nvs d2) = get_str e ''ota_pending'' (dv_nvs (boot_image e cfg d))"
    "get_str e ''ota_version'' (dv_nvs d2) = get_str e ''ota_version'' (dv_nvs (boot_image e cfg d))"
    "get_str e ''ota_committed'' (dv_nvs d2) = get_str e ''ota_committed'' (dv_nvs (boot_image e cfg d))"
    "get_str e ''ota_rollback_reason'' (dv_nvs d2) = get_str e ''ota_rollback_reason'' (dv_nvs (boot_image e cfg d))"
    by (simp_all add: get ota_keys_def)
  have fw: "dv_fw d' = dv_fw d2" unfolding p(3) by (simp add: check_pending_result_def Let_def)
  have hb: "\<not> is_result (online_heartbeat e cfg x)" for x by (simp add: is_result_def online_heartbeat_def)
  have res: "is_result (Respond (build_ota_result a b c r))" for a b c r
    by (simp add: is_result_def build_ota_result_def)
  show ?thesis unfolding eff
    using hb report_get(2) [OF p(2)] keys res fw by (simp add: check_pending_result_def Let_def)
qed

lemma boot_image_staged:
  assumes "v \<noteq> []"
  shows "boot_image e cfg (stage_update v b a d) = (case buggy_version_map (mc_buggy cfg) v of
      None \<Rightarrow> adopt e v ((stage_update v b a d)\<lparr>dv_reboot := False\<rparr>)
    | Some s \<Rightarrow> roll_back e v s ((stage_update v b a d)\<lparr>dv_reboot := False\<rparr>))"
  using assms by (simp add: boot_image_def apply_pending_ota_def)

lemma boot_staged_results:
  assumes "store_typed (dv_nvs d)" and "v \<noteq> []"
    and "boot e cfg (stage_update v b a d) = Some (effects, d')"
  shows "filter is_result effects = [Respond (update_report cfg v)]"
proof -
  have t: "store_typed (dv_nvs (stage_update v b a d))" using stage_update_typed [OF assms(1)] .
  show ?thesis
  proof (cases "buggy_version_map (mc_buggy cfg) v")
    case None
    then show ?thesis using boot_results [OF t assms(3)] assms(2) boot_image_staged [OF assms(2), of e cfg b a d]
      by (simp add: adopt_get ota_keys_def update_report_def build_ota_result_def)
  next
    case (Some sc)
    then show ?thesis using boot_results [OF t assms(3)] assms(2) boot_image_staged [OF assms(2), of e cfg b a d]
      by (simp add: roll_back_get update_report_def)
  qed
qed

lemma boot_idle_results:
  assumes "store_typed (dv_nvs d)" and "idle d" and "boot e cfg d = Some (effects, d')"
  shows "filter is_result effects = []"
  using boot_results [OF assms(1,3)] assms(2) boot_image_idle [OF assms(2)]
  by (simp add: idle_def get_str_def)

text \<open>The firmware a device boots after an update to \<open>v\<close>: the one in the artifact, unless there is none
  or the version fails its health gate, where the running one stays.\<close>

definition next_firmware :: "'k env \<Rightarrow> mock_cfg \<Rightarrow> string \<Rightarrow> string option \<Rightarrow> firmware \<Rightarrow> firmware" where
  "next_firmware e cfg v artifact f = (case (buggy_version_map (mc_buggy cfg) v, artifact) of
      (None, Some bytes) \<Rightarrow> load_firmware e (Some bytes) v
    | _ \<Rightarrow> f)"

lemma boots_version [simp]: "boots e (f\<lparr>fw_version := v\<rparr>) = boots e f"
  by (simp add: boots_def)

lemma staged_boots:
  assumes "v \<noteq> []"
  shows "boots e (dv_firmware (boot_image e cfg (stage_update v b a d))) \<longleftrightarrow>
    boots e (next_firmware e cfg v a (dv_firmware d))"
  using boot_image_staged [OF assms, of e cfg b a d]
  by (cases a; cases "buggy_version_map (mc_buggy cfg) v")
    (simp_all add: next_firmware_def adopt_def roll_back_def Let_def clear_fault_keeps)

lemma idle_boots: "idle d \<Longrightarrow> boots e (dv_firmware (boot_image e cfg d)) \<longleftrightarrow> boots e (dv_firmware d)"
  by (simp add: boot_image_idle)

text \<open>After a boot the device runs the firmware it booted, up to the readings.\<close>

lemma boot_firmware:
  assumes "store_typed (dv_nvs d)" and "boot e cfg d = Some (effects, d')"
  shows "boots e (dv_firmware d')" "fw_fault (dv_firmware d') = fw_fault (dv_firmware (boot_image e cfg d))"
    "fault_scenario e d' = fault_scenario e (sync_fault_from_firmware e (boot_image e cfg d))"
proof -
  obtain d0 crashes d2 where p: "resample_firmware e (boot_image e cfg d) = Some d0"
    "check_and_report e cfg (sample_telemetry e (sync_fault_from_firmware e d0)) = Some (crashes, d2)"
    "d' = snd (check_pending_result e cfg d2)" and b: "boots e (dv_firmware (boot_image e cfg d))"
    by (rule boot_split [OF assms])
  have f2: "dv_firmware d2 = dv_firmware d0" "fault_scenario e d2 = fault_scenario e (sync_fault_from_firmware e d0)"
    using p(2) by (auto simp: check_and_report_def fault_scenario_def sync_fault_from_firmware_def arm_fault_keeps
        clear_fault_keeps split: if_splits option.splits)
  have f': "dv_firmware d' = dv_firmware d2" "fault_scenario e d' = fault_scenario e d2"
    unfolding p(3) by (simp_all add: check_pending_result_def Let_def fault_scenario_def)
  note k = resample_firmware_keeps [OF p(1)]
  show "boots e (dv_firmware d')" "fw_fault (dv_firmware d') = fw_fault (dv_firmware (boot_image e cfg d))"
    using b k f2 f' by (simp_all add: boots_def)
  show "fault_scenario e d' = fault_scenario e (sync_fault_from_firmware e (boot_image e cfg d))"
    using f2 f' k by (simp add: sync_fault_from_firmware_def fault_scenario_def fault_source_def arm_fault_def clear_fault_def)
qed

lemma ticks_no_result: "filter is_result (ticks dev v t w lp cs) = []"
  by (cases t; induction cs arbitrary: w lp)
    (simp_all add: is_result_def build_ota_progress_def Let_def)

lemma progress_no_result: "\<not> is_result (Respond (build_ota_progress dev v st pr w sz a))"
  by (simp add: is_result_def build_ota_progress_def)

text \<open>Whether a download lets the update go on.\<close>

definition transfer_ok :: "'k env \<Rightarrow> json \<Rightarrow> fetch \<Rightarrow> bool" where
  "transfer_ok e sha f = (if fe_complete f then JStr (en_sha e (concat (fe_chunks f))) = sha else True)"

lemma download_result:
  assumes "download e dev v sha announced f = (progress, artifact, ok, err)"
  shows "ok = transfer_ok e sha f" "filter is_result progress = []"
    "artifact = (if fe_complete f \<and> transfer_ok e sha f then Some (concat (fe_chunks f)) else None)"
  using assms
  by (auto simp: download_def transfer_ok_def Let_def ticks_no_result progress_no_result split: if_splits)

text \<open>What an accepted update command does in the session, before the reboot.\<close>

definition artifact_of :: "fetch \<Rightarrow> string option" where
  "artifact_of f = (if fe_complete f then Some (concat (fe_chunks f)) else None)"

definition ota_started :: "mock_cfg \<Rightarrow> string \<Rightarrow> device_effect" where
  "ota_started cfg v = Respond [(''type'', JStr ''ota_started''), (''version'', JStr v), (''id'', JStr (mc_device cfg))]"

lemma update_dispatched:
  assumes acc: "verify_cmd (en_crypto e) now p (dv_verifier d) = (Accept, vf)"
    and fields: "jget ''action'' p = JStr ''ota''" "jget ''version'' p = JStr v" "v \<noteq> []"
      "jtruthy (jget ''url'' p)" "jtruthy (jget ''sha256'' p)"
    and ver: "version_le (running d) v"
  obtains effects where
    "dispatch e cfg now u f (Some (JObj p)) d = Some (ota_started cfg v # effects,
      if transfer_ok e (jget ''sha256'' p) f
      then stage_update v (jget ''build_id'' p) (artifact_of f) (d\<lparr>dv_verifier := vf\<rparr>) else d\<lparr>dv_verifier := vf\<rparr>)"
    "filter is_result (ota_started cfg v # effects) = []"
proof -
  let ?d = "d\<lparr>dv_verifier := vf\<rparr>" and ?sha = "jget ''sha256'' p"
  have err: "\<not> is_result (Respond (ota_error m))" for m by (simp add: is_result_def ota_error_def)
  have started: "\<not> is_result (ota_started cfg v)" by (simp add: is_result_def ota_started_def)
  obtain n where n: "(case jget ''size'' p of JInt n \<Rightarrow> Some n | JBool b \<Rightarrow> Some (if b then 1 else 0) | _ \<Rightarrow> None) = n"
    by blast
  obtain progress artifact ok m where dl: "download e (mc_device cfg) v ?sha n f = (progress, artifact, ok, m)"
    by (metis prod_cases4)
  note dr = download_result [OF dl]
  let ?stage = "\<lambda>s. Respond (build_ota_progress (mc_device cfg) v s (Some 100) None None 1)"
  have ver': "version_le (if dv_fw d = [] then ''0.0.0'' else dv_fw d) v" using ver by (simp only: running_def)
  have art: "ok \<Longrightarrow> artifact = artifact_of f" using dr by (simp add: artifact_of_def)
  have "dispatch e cfg now u f (Some (JObj p)) d = Some
      (if ok then (ota_started cfg v # progress @ [?stage ''installing'', ?stage ''rebooting''],
           stage_update v (jget ''build_id'' p) artifact ?d)
       else (ota_started cfg v # progress @ [Respond (ota_error m)], ?d))"
    using fields ver' acc n dl
    by (cases "dv_fw d = []")
      (simp_all add: dispatch_def route_def ota_handle_def Let_def ota_started_def split: bool.split)
  then show thesis using dr art started err progress_no_result
    by (cases ok) (auto intro!: that)
qed

lemma update_outcome:
  assumes typed: "store_typed (dv_nvs d)" and idle: "idle d"
    and acc: "verify_cmd (en_crypto e) now p (dv_verifier d) = (Accept, vf)"
    and fields: "jget ''action'' p = JStr ''ota''" "jget ''version'' p = JStr v" "v \<noteq> []"
      "jtruthy (jget ''url'' p)" "jtruthy (jget ''sha256'' p)"
    and ver: "version_le (running d) v"
    and sound: "boots e (dv_firmware d)" "boots e (next_firmware e cfg v (artifact_of f) (dv_firmware d))"
  shows "\<exists>effects d'. device_step e cfg (Message now u f (Some (JObj p))) d = Some (effects, d') \<and>
    hd effects = ota_started cfg v \<and>
    (if transfer_ok e (jget ''sha256'' p) f
     then filter is_result effects = [Respond (update_report cfg v)] \<and>
       dv_fw d' = (if buggy_version_map (mc_buggy cfg) v = None then v else dv_fw d)
     else filter is_result effects = [] \<and> dv_fw d' = dv_fw d) \<and>
    store_typed (dv_nvs d') \<and> idle d' \<and> (\<exists>again d''. boot e cfg d' = Some (again, d'') \<and> filter is_result again = [])"
proof -
  let ?d = "d\<lparr>dv_verifier := vf\<rparr>" and ?sha = "jget ''sha256'' p"
  obtain effects where disp: "dispatch e cfg now u f (Some (JObj p)) d = Some (ota_started cfg v # effects,
      if transfer_ok e ?sha f then stage_update v (jget ''build_id'' p) (artifact_of f) ?d else ?d)"
    and none: "filter is_result (ota_started cfg v # effects) = []"
    by (rule update_dispatched [OF acc fields ver])
  have t: "store_typed (dv_nvs ?d)" "idle ?d" "boots e (dv_firmware ?d)" using typed idle sound by (simp_all add: idle_def)
  have hb: "\<not> is_result (Heartbeat x)" for x by (simp add: is_result_def)
  have again: "\<exists>again d''. boot e cfg x = Some (again, d'') \<and> filter is_result again = []"
    if "store_typed (dv_nvs x)" "idle x" "boots e (dv_firmware x)" for x
    using boot_total [OF that(1), of e cfg] boot_idle_results [OF that(1,2)] idle_boots [OF that(2)] that(3) by blast
  show ?thesis
  proof (cases "transfer_ok e ?sha f")
    case True
    let ?s = "stage_update v (jget ''build_id'' p) (artifact_of f) ?d"
    have ts: "store_typed (dv_nvs ?s)" using stage_update_typed [OF t(1)] .
    have bs: "boots e (dv_firmware (boot_image e cfg ?s))" using staged_boots [OF fields(3), of e cfg "jget ''build_id'' p" "artifact_of f" ?d] sound(2) by simp
    from boot_total [OF ts bs] obtain eff d' where b: "boot e cfg ?s = Some (eff, d')" "store_typed (dv_nvs d')"
      by blast
    have st: "device_step e cfg (Message now u f (Some (JObj p))) d =
        Some ((ota_started cfg v # effects) @ [Heartbeat (build_offline cfg)] @ eff, d')"
      using disp True b(1) by (simp add: device_step_defs)
    have res: "filter is_result ((ota_started cfg v # effects) @ [Heartbeat (build_offline cfg)] @ eff) =
        [Respond (update_report cfg v)]"
      using boot_staged_results [OF t(1) fields(3) b(1)] hb unfolding filter_append none by simp
    have fw: "idle d'" "dv_fw d' = (if buggy_version_map (mc_buggy cfg) v = None then v else dv_fw d)"
      using boot_cases [OF ts b(1)] apply_staged_fw [OF fields(3), of e cfg "jget ''build_id'' p" "artifact_of f" ?d] by simp_all
    have ag: "\<exists>again d''. boot e cfg d' = Some (again, d'') \<and> filter is_result again = []"
      using again [OF b(2) fw(1) boot_firmware(1) [OF ts b(1)]] .
    show ?thesis using st res fw ag b(2) True by auto
  next
    case False
    show ?thesis
    proof (cases "dv_reboot d")
      case True
      have bs: "boots e (dv_firmware (boot_image e cfg ?d))" using idle_boots [OF t(2)] t(3) by simp
      from boot_total [OF t(1) bs] obtain eff d' where b: "boot e cfg ?d = Some (eff, d')" "store_typed (dv_nvs d')"
        by blast
      have fw: "idle d'" "dv_fw d' = dv_fw d"
        using boot_cases [OF t(1) b(1)] boot_image_idle [OF t(2)] by simp_all
      have st: "device_step e cfg (Message now u f (Some (JObj p))) d =
          Some ((ota_started cfg v # effects) @ [Heartbeat (build_offline cfg)] @ eff, d')"
        using disp False b(1) True by (simp add: device_step_defs)
      have res: "filter is_result ((ota_started cfg v # effects) @ [Heartbeat (build_offline cfg)] @ eff) = []"
        using boot_idle_results [OF t(1,2) b(1)] hb unfolding filter_append none by simp
      show ?thesis using st res fw again [OF b(2) fw(1) boot_firmware(1) [OF t(1) b(1)]] b(2) False by auto
    next
      case r: False
      have "device_step e cfg (Message now u f (Some (JObj p))) d = Some (ota_started cfg v # effects, ?d)"
        using disp False r by (simp add: device_step_defs)
      then show ?thesis using again [OF t] t(1,2) False none by auto
    qed
  qed
qed


text \<open>
  A sketch that loads can still end the device. The loader accepts any sketch and catches what goes
  wrong while building it; a metric whose random walk has malformed bounds is read only when the firmware
  boots, where nothing catches the error. An accepted update to such an artifact is announced and then ends the
  process in the boot that follows, so no report of the update is ever sent.
\<close>

theorem bad_metric_ends_device:
  assumes "store_typed (dv_nvs d)"
    and "verify_cmd (en_crypto e) now p (dv_verifier d) = (Accept, vf)"
    and "jget ''action'' p = JStr ''ota''" and "jget ''version'' p = JStr v" and "v \<noteq> []"
      and "jtruthy (jget ''url'' p)" and "jtruthy (jget ''sha256'' p)"
    and "version_le (running d) v"
    and "fe_complete f" and "transfer_ok e (jget ''sha256'' p) f" and "buggy_version_map (mc_buggy cfg) v = None"
    and "load_firmware e (Some (concat (fe_chunks f))) v = sketch"
    and "map_of (fw_telemetry sketch) metric = Some (JObj rule)" and "map_of rule ''random_walk'' = Some bounds"
    and "unpack2 bounds = None"
  shows "device_step e cfg (Message now u f (Some (JObj p))) d = None"
proof -
  let ?d = "d\<lparr>dv_verifier := vf\<rparr>"
  let ?s = "stage_update v (jget ''build_id'' p) (artifact_of f) ?d"
  obtain effects where disp: "dispatch e cfg now u f (Some (JObj p)) d = Some (ota_started cfg v # effects, ?s)"
    by (rule update_dispatched [OF assms(2-8), of cfg u f]) (use assms(10) in simp)
  have none: "resample e n rules = None" if "map_of rules metric = Some (JObj rule)" for n rules
    using that
  proof (induction rules arbitrary: n)
    case (Cons r rules)
    obtain k w where "r = (k, w)" by (cases r)
    then show ?case using Cons assms(14,15)
      by (cases "k = metric") (auto simp: sample_rule_def split: option.split)
  qed simp
  have "\<not> boots e (next_firmware e cfg v (artifact_of f) (dv_firmware ?d))"
    using assms(9,11,12,13) none by (simp add: next_firmware_def artifact_of_def boots_def)
  then have "boot e cfg ?s = None"
    using boot_None [of ?s e cfg] stage_update_typed [of ?d v] assms(1) staged_boots [OF assms(5), of e cfg "jget ''build_id'' p" "artifact_of f" ?d] by simp
  then show ?thesis using disp by (simp add: device_step_defs)
qed




section \<open>Curing a fault\<close>

lemma clear_fault_get [simp]: "fault_scenario e (clear_fault d) = None" "fault_source e (clear_fault d) = None"
  by (simp_all add: fault_scenario_def fault_source_def clear_fault_def)

lemma fault_update [simp]:
  "fault_scenario e (d\<lparr>dv_fw := w\<rparr>) = fault_scenario e d" "fault_source e (d\<lparr>dv_fw := w\<rparr>) = fault_source e d"
  "fault_scenario e (d\<lparr>dv_reboot := r\<rparr>) = fault_scenario e d" "fault_source e (d\<lparr>dv_reboot := r\<rparr>) = fault_source e d"
  "fault_scenario e (stage_update v b a d) = fault_scenario e d" "fault_source e (stage_update v b a d) = fault_source e d"
  "fault_scenario e (d\<lparr>dv_verifier := vf\<rparr>) = fault_scenario e d" "fault_source e (d\<lparr>dv_verifier := vf\<rparr>) = fault_source e d"
  by (simp_all add: fault_scenario_def fault_source_def)

lemma adopt_artifact:
  assumes "dv_artifact d = Some bytes"
  shows "dv_firmware (adopt e v d) = load_firmware e (Some bytes) v"
    "fault_scenario e (adopt e v d) = (if fault_source e d \<noteq> Some ''firmware'' \<and> truthy (fault_scenario e d) \<and>
        version_gt v (or_else (get_str e ''fault_fixed_after'' (dv_nvs d)) ''0.0.0'') then None else fault_scenario e d)"
    "fault_source e (adopt e v d) = (if fault_source e d \<noteq> Some ''firmware'' \<and> truthy (fault_scenario e d) \<and>
        version_gt v (or_else (get_str e ''fault_fixed_after'' (dv_nvs d)) ''0.0.0'') then None else fault_source e d)"
  using assms
  by (auto simp: adopt_def Let_def clear_fault_keeps) (simp_all add: fault_scenario_def fault_source_def)

text \<open>An update to \<open>v\<close> whose firmware boots and declares no fault, handled in a session.\<close>

lemma healthy_update:
  assumes typed: "store_typed (dv_nvs d)"
    and acc: "verify_cmd (en_crypto e) now p (dv_verifier d) = (Accept, vf)"
    and fields: "jget ''action'' p = JStr ''ota''" "jget ''version'' p = JStr v" "v \<noteq> []"
      "jtruthy (jget ''url'' p)" "jtruthy (jget ''sha256'' p)"
    and ver: "version_le (running d) v"
    and good: "fe_complete f" "transfer_ok e (jget ''sha256'' p) f" "buggy_version_map (mc_buggy cfg) v = None"
      "load_firmware e (Some (concat (fe_chunks f))) v = sketch" "fw_fault sketch = None" "boots e sketch"
  shows "\<exists>effects d'. device_step e cfg (Message now u f (Some (JObj p))) d = Some (effects, d') \<and>
    fw_fault (dv_firmware d') = None \<and>
    fault_scenario e d' = (if truthy (fault_scenario e d) \<and> (fault_source e d = Some ''firmware'' \<or>
        version_gt v (or_else (get_str e ''fault_fixed_after'' (dv_nvs d)) ''0.0.0'')) then None
      else fault_scenario e d)"
proof -
  let ?d = "d\<lparr>dv_verifier := vf\<rparr>"
  let ?s = "stage_update v (jget ''build_id'' p) (artifact_of f) ?d"
  let ?r = "?s\<lparr>dv_reboot := False\<rparr>"
  obtain eff1 where disp: "dispatch e cfg now u f (Some (JObj p)) d = Some (ota_started cfg v # eff1, ?s)"
    by (rule update_dispatched [OF acc fields ver, of cfg u f]) (use good(2) in simp)
  have ts: "store_typed (dv_nvs ?s)" using stage_update_typed [of ?d] typed by simp
  have bs: "boots e (dv_firmware (boot_image e cfg ?s))"
    using staged_boots [OF fields(3), of e cfg "jget ''build_id'' p" "artifact_of f" ?d] good
    by (simp add: next_firmware_def artifact_of_def)
  from boot_total [OF ts bs] obtain eff d' where b: "boot e cfg ?s = Some (eff, d')" by blast
  have img: "boot_image e cfg ?s = adopt e v ?r" using boot_image_staged [OF fields(3), of e cfg "jget ''build_id'' p" "artifact_of f" ?d] good(3) by simp
  have art: "dv_artifact ?r = Some (concat (fe_chunks f))" using good(1) by (simp add: artifact_of_def)
  note ad = adopt_artifact [OF art, of e v]
  note bf = boot_firmware [OF ts b, unfolded img]
  have fw: "fw_fault (dv_firmware d') = None" using bf(2) ad(1) good(4,5) by simp
  have "fault_scenario e d' = fault_scenario e (sync_fault_from_firmware e (adopt e v ?r))" using bf(3) .
  also have "\<dots> = (if truthy (fault_scenario e d) \<and> (fault_source e d = Some ''firmware'' \<or>
        version_gt v (or_else (get_str e ''fault_fixed_after'' (dv_nvs d)) ''0.0.0'')) then None
      else fault_scenario e d)"
    using ad good(4,5)
    by (cases "truthy (fault_scenario e d)"; cases "fault_source e d = Some ''firmware''")
      (auto simp: sync_fault_from_firmware_def)
  finally show ?thesis using disp b fw by (fastforce simp: device_step_defs)
qed

text \<open>
  Whether an update cures a crash-looping device can depend on when it arrives. The device holds
  firmware that declares a fault; an update whose firmware declares none, at a version that passes
  the downgrade check but is not strictly higher, clears the fault if it arrives right after a boot;
  if the crash loop has fired once in that session, the fault is marked as injected and the same
  update leaves the device crash-looping on healthy firmware.
\<close>

theorem cure_depends_on_timing:
  assumes typed: "store_typed (dv_nvs d)"
    and fault: "fault_scenario e d = Some sc" "fault_source e d = Some ''firmware''"
      "map_of SCENARIOS sc = Some x" "sc_recovers x = ''ota''"
    and acc: "verify_cmd (en_crypto e) now p (dv_verifier d) = (Accept, vf)"
    and fields: "jget ''action'' p = JStr ''ota''" "jget ''version'' p = JStr v" "v \<noteq> []"
      "jtruthy (jget ''url'' p)" "jtruthy (jget ''sha256'' p)"
    and ver: "dv_fw d \<noteq> []" "version_le (dv_fw d) v" "\<not> version_gt v (dv_fw d)"
    and good: "fe_complete f" "transfer_ok e (jget ''sha256'' p) f" "buggy_version_map (mc_buggy cfg) v = None"
      "load_firmware e (Some (concat (fe_chunks f))) v = sketch" "fw_fault sketch = None" "boots e sketch"
  shows "(\<exists>effects d'. device_run e cfg [Message now u f (Some (JObj p))] d = Some (effects, d') \<and>
      fault_scenario e d' = None) \<and>
    (\<exists>effects d'. device_run e cfg [Recrash u, Message now u f (Some (JObj p))] d = Some (effects, d') \<and>
      fw_fault (dv_firmware d') = None \<and> fault_scenario e d' = Some sc)"
proof
  have sc: "sc \<noteq> []" using fault(3) by (auto simp: SCENARIOS_def split: if_splits)
  have run: "running d = dv_fw d" using ver(1) by (simp add: running_def)
  from healthy_update [OF typed acc fields _ good, of u] show "\<exists>effects d'.
      device_run e cfg [Message now u f (Some (JObj p))] d = Some (effects, d') \<and> fault_scenario e d' = None"
    using fault sc ver(2) run by fastforce
  obtain d1 where d1: "inject e u (JStr sc) d = Some d1" using inject_total [OF typed] by blast
  have t1: "store_typed (dv_nvs d1)" using inject_typed [OF typed d1] .
  have res: "resolve (JStr sc) = Some (sc, x)" using resolve_known [OF fault(3)] .
  have f1: "fault_scenario e d1 = Some sc" "fault_source e d1 = Some ''inject''"
    "get_str e ''fault_fixed_after'' (dv_nvs d1) = Some (dv_fw d)" "dv_fw d1 = dv_fw d" "dv_verifier d1 = dv_verifier d"
    using d1 res ver(1) fault(4)
    by (auto simp: inject_def Let_def arm_fault_def fault_scenario_def fault_source_def split: option.splits)
  have acc1: "verify_cmd (en_crypto e) now p (dv_verifier d1) = (Accept, vf)" using acc f1(5) by simp
  have run1: "version_le (running d1) v" using run f1(4) ver(1,2) by (simp add: running_def)
  have or: "or_else (Some (dv_fw d)) ''0.0.0'' = dv_fw d" using ver(1) by simp
  from healthy_update [OF t1 acc1 fields run1 good, of u] obtain eff d2 where
    "device_step e cfg (Message now u f (Some (JObj p))) d1 = Some (eff, d2)"
    "fw_fault (dv_firmware d2) = None" "fault_scenario e d2 = Some sc"
    using f1 ver(3) or by auto
  then show "\<exists>effects d'. device_run e cfg [Recrash u, Message now u f (Some (JObj p))] d = Some (effects, d') \<and>
      fw_fault (dv_firmware d') = None \<and> fault_scenario e d' = Some sc"
    using d1 fault(1) sc by (simp add: device_step_def [of _ _ "Recrash u"] fault_recrash_def)
qed


section \<open>A concrete device\<close>

definition sample_env :: "string env" where
  "sample_env = \<lparr>en_crypto = sample_crypto, en_parse = (\<lambda>s. Some (JObj [])), en_dict = (\<lambda>v. None), en_sha = (\<lambda>s. s),
     en_float = Some, en_uniform = (\<lambda>n lo hi. lo), en_walk = (\<lambda>n k. 0), en_uptime = int\<rparr>"

definition sample_mock :: mock_cfg where
  "sample_mock = \<lparr>mc_device = ''d'', mc_project = ''p'', mc_fw = ''1'', mc_build = ''b'', mc_buggy = [],
     mc_type = ''esp32'', mc_fqbn = [], mc_chip = ''ESP32'', mc_rev = 3, mc_flash = 4194304, mc_interval = 30, mc_ip = [], mc_name = []\<rparr>"

definition sample_fetch :: fetch where
  "sample_fetch = \<lparr>fe_length = 0, fe_chunks = [''x''], fe_complete = True\<rparr>"

definition sample_ota :: payload where
  "sample_ota = [(''action'', JStr ''ota''), (''version'', JStr ''1''), (''url'', JStr ''u''), (''sha256'', JStr ''x''),
     (''nonce'', JStr ''n''), (''timestamp'', JInt 7), (''cmd_sig'', JStr ''k#ota|1|x|n|7'')]"

abbreviation sample_vdev :: "string device" where
  "sample_vdev \<equiv> new_device sample_mock (new_verifier ''k'' True) (default_firmware ''1'')"

lemma sample_version: "version_le ''1'' ''1''" "\<not> version_gt ''1'' ''1''"
  by code_simp+

lemma sample_ota_fields: "jget ''action'' sample_ota = JStr ''ota''" "jget ''version'' sample_ota = JStr ''1''"
  "jtruthy (jget ''url'' sample_ota)" "jtruthy (jget ''sha256'' sample_ota)"
  by (simp_all add: sample_ota_def)

lemma sample_ota_accepted: "\<exists>vf. verify_cmd (en_crypto sample_env) 9 sample_ota (new_verifier ''k'' True) = (Accept, vf)"
  by (simp add: verify_cmd_def new_verifier_def sample_ota_def sample_env_def sample_crypto_def mock_build_tbs_def
      to_int_def fmt_def bar_def TIMESTAMP_WINDOW_S_def show_int_7)

lemma sample_transfer: "transfer_ok sample_env (jget ''sha256'' sample_ota) sample_fetch"
  by (simp add: transfer_ok_def sample_env_def sample_fetch_def sample_ota_def)

lemma sample_not_buggy: "buggy_version_map (mc_buggy sample_mock) ''1'' = None"
  by (simp add: buggy_version_map_def sample_mock_def buggy_entry_def strip_def lstrip_def List.map_filter_def)

lemma sample_vdev_simps: "dv_nvs sample_vdev = Map.empty" "dv_fw sample_vdev = ''1''"
  "dv_verifier sample_vdev = new_verifier ''k'' True"
  by (simp_all add: new_device_def sample_mock_def)

lemma sample_vdev_typed: "store_typed (dv_nvs sample_vdev)" "idle sample_vdev"
  by (simp_all add: sample_vdev_simps idle_def)

lemma sample_vdev_boots: "boots e (dv_firmware sample_vdev)"
  by (simp add: new_device_def)

lemma sample_load: "load_firmware sample_env (Some (concat (fe_chunks sample_fetch))) ''1'' =
    \<lparr>fw_version = ''1.0.0'', fw_extra = [], fw_telemetry = [], fw_readings = [], fw_commands = [], fw_fault = None\<rparr>"
  by (simp add: load_firmware_def sample_env_def sample_fetch_def sketch_firmware_def as_dict_def parse_fault_def fmt_def)

theorem device_store_typed_witness:
  "boot sample_env sample_mock sample_vdev \<noteq> None"
proof -
  have "device_run sample_env sample_mock [] sample_vdev = Some ([], sample_vdev)" by simp
  from device_store_typed [OF this] show ?thesis
    using idle_boots [OF sample_vdev_typed(2)] sample_vdev_boots by blast
qed

theorem firmware_never_downgraded_witness:
  "\<exists>effects d'. device_run sample_env sample_mock [Boot] sample_vdev = Some (effects, d') \<and> idle d'"
proof -
  note t = sample_vdev_typed
  from boot_total [OF t(1)] idle_boots [OF t(2)] sample_vdev_boots obtain effects d' where
    b: "boot sample_env sample_mock sample_vdev = Some (effects, d')" by blast
  have "device_run sample_env sample_mock [Boot] sample_vdev = Some (effects @ [], d')"
    using b by (simp add: device_step_defs)
  from firmware_never_downgraded [OF this t] this show ?thesis by blast
qed

lemma sample_accepts: "\<exists>vf. verify_cmd (en_crypto sample_env) 9 sample_ota (dv_verifier sample_vdev) = (Accept, vf)"
  using sample_ota_accepted by (simp add: sample_vdev_simps)

lemma sample_running: "version_le (running sample_vdev) ''1''"
  using sample_version by (simp add: running_def sample_vdev_simps)

lemma sample_next: "boots sample_env (next_firmware sample_env sample_mock ''1'' (artifact_of sample_fetch) (dv_firmware sample_vdev))"
  using sample_not_buggy sample_load
  by (simp add: next_firmware_def artifact_of_def boots_def) (simp add: sample_fetch_def)


text \<open>An environment whose artifact is a sketch with a random walk of one bound.\<close>

definition walk_env :: "string env" where
  "walk_env = sample_env\<lparr>en_parse := (\<lambda>s. Some (JObj [(''telemetry_extra'',
     JObj [(''t'', JObj [(''random_walk'', JList [JInt 1])])])]))\<rparr>"

theorem bad_metric_ends_device_witness:
  "device_step walk_env sample_mock (Message 9 0 sample_fetch (Some (JObj sample_ota))) sample_vdev = None"
proof -
  obtain vf where acc: "verify_cmd (en_crypto walk_env) 9 sample_ota (dv_verifier sample_vdev) = (Accept, vf)"
    using sample_accepts by (auto simp: walk_env_def)
  have tr: "transfer_ok walk_env (jget ''sha256'' sample_ota) sample_fetch"
    using sample_transfer by (simp add: transfer_ok_def walk_env_def)
  have load: "load_firmware walk_env (Some (concat (fe_chunks sample_fetch))) ''1'' =
      \<lparr>fw_version = ''1.0.0'', fw_extra = [], fw_telemetry = [(''t'', JObj [(''random_walk'', JList [JInt 1])])],
       fw_readings = [], fw_commands = [], fw_fault = None\<rparr>"
    by (simp add: load_firmware_def walk_env_def sample_env_def sample_fetch_def sketch_firmware_def as_dict_def
        parse_fault_def fmt_def)
  have compl: "fe_complete sample_fetch" by (simp add: sample_fetch_def)
  from bad_metric_ends_device [OF sample_vdev_typed(1) acc sample_ota_fields(1,2) _ sample_ota_fields(3,4)
      sample_running compl tr sample_not_buggy load, of "''t''" "[(''random_walk'', JList [JInt 1])]" "JList [JInt 1]"]
  show ?thesis by (simp add: unpack2_def)
qed

text \<open>The same device after its firmware has armed a fault.\<close>

definition faulty_device :: "string device" where
  "faulty_device = arm_fault ''null_deref'' ''0.0.0'' ''firmware'' sample_vdev"

theorem cure_depends_on_timing_witness:
  "\<exists>effects d'. device_run sample_env sample_mock [Recrash 0, Message 9 0 sample_fetch (Some (JObj sample_ota))]
     faulty_device = Some (effects, d') \<and> fault_scenario sample_env d' = Some ''null_deref''"
proof -
  obtain vf where acc: "verify_cmd (en_crypto sample_env) 9 sample_ota (dv_verifier faulty_device) = (Accept, vf)"
    using sample_ota_accepted by (auto simp: faulty_device_def arm_fault_def sample_vdev_simps)
  have t: "store_typed (dv_nvs faulty_device)" unfolding faulty_device_def
    by (rule arm_fault_typed) (simp_all add: sample_vdev_simps)
  have f: "fault_scenario sample_env faulty_device = Some ''null_deref''" "fault_source sample_env faulty_device = Some ''firmware''"
    by (simp_all add: faulty_device_def fault_scenario_def fault_source_def arm_fault_def)
  have sc: "map_of SCENARIOS ''null_deref'' = Some null_deref" "sc_recovers null_deref = ''ota''"
    by (simp_all add: SCENARIOS_def null_deref_def)
  have fw: "dv_fw faulty_device = ''1''" by (simp add: faulty_device_def arm_fault_keeps sample_vdev_simps)
  have ne: "dv_fw faulty_device \<noteq> []" "version_le (dv_fw faulty_device) ''1''" "\<not> version_gt ''1'' (dv_fw faulty_device)"
    using sample_version by (simp_all add: fw)
  have bt: "boots sample_env \<lparr>fw_version = ''1.0.0'', fw_extra = [], fw_telemetry = [], fw_readings = [],
      fw_commands = [], fw_fault = None\<rparr>" by (simp add: boots_def)
  have compl: "fe_complete sample_fetch" by (simp add: sample_fetch_def)
  from cure_depends_on_timing [OF t f sc acc sample_ota_fields(1,2) _ sample_ota_fields(3,4) ne compl sample_transfer
      sample_not_buggy sample_load _ bt, of 0]
  show ?thesis by auto
qed

end
