(* ===== verification/Update_Loop.thy ===== *)
theory Update_Loop
  imports Device_Life Router Webhooks
begin

text \<open>
  The feedback loop of an update, over the three services: what a device publishes
  (\<open>nff_mock/device.py\<close>) goes through the fleet's router (\<open>broker/router.py\<close>, \<open>ota_result.py\<close>), whose
  posts reach the webhooks of nff-ota (\<open>webhooks.py\<close>) and there the jobs of the deployment. The
  definitions only connect the components; the theorem is that an accepted update closes its job with
  the outcome the device had, whatever progress reports come with it.
\<close>

section \<open>Connecting the components\<close>

text \<open>The topic and the body of a publication.\<close>

definition wire :: "mock_cfg \<Rightarrow> device_effect \<Rightarrow> string \<times> json" where
  "wire cfg eff = (case eff of
      Respond p \<Rightarrow> (topic_response (mc_project cfg) (mc_device cfg), JObj p)
    | CrashReport p \<Rightarrow> (topic_crash (mc_project cfg) (mc_device cfg), JObj p)
    | Heartbeat p \<Rightarrow> (topic_heartbeat (mc_project cfg) (mc_device cfg), JObj p))"

definition ota_post ::
  "hook_ext \<Rightarrow> art_ext \<Rightarrow> fix_ext \<Rightarrow> string \<Rightarrow> ctx \<Rightarrow> effect \<Rightarrow> fix_state \<Rightarrow> fix_state" where
  "ota_post w a x secret c eff s = (case eff of
      PostOta path body \<Rightarrow> (case hook_route c w a x path (Some secret) (Some (JObj body)) s of
          None \<Rightarrow> s | Some (r, s') \<Rightarrow> s')
    | _ \<Rightarrow> s)"

text \<open>A publication with the time it reaches the fleet at, and the context nff-ota handles the posts in.\<close>

fun update_pipeline ::
  "hook_ext \<Rightarrow> art_ext \<Rightarrow> fix_ext \<Rightarrow> string \<Rightarrow> fleet_settings \<Rightarrow> mock_cfg \<Rightarrow> (ctx \<times> rat \<times> device_effect) list \<Rightarrow>
     router \<times> fix_state \<Rightarrow> router \<times> fix_state" where
  "update_pipeline w a x secret fs cfg [] rs = rs"
| "update_pipeline w a x secret fs cfg ((c, now, eff) # es) rs =
     (let (topic, body) = wire cfg eff; (r1, out) = handle_message fs now topic (Some body) (fst rs) in
      update_pipeline w a x secret fs cfg es (r1, fold (ota_post w a x secret c) out (snd rs)))"


section \<open>The job that waits\<close>

definition active_ids :: "string \<Rightarrow> db \<Rightarrow> nat list" where
  "active_ids dev s = map j_id (filter (\<lambda>j. j_device j = dev \<and> \<not> job_terminal (j_status j)) (db_jobs s))"

definition well_kept :: "db \<Rightarrow> bool" where
  "well_kept s \<longleftrightarrow> distinct (map j_id (db_jobs s)) \<and> (\<forall>j \<in> set (db_jobs s). j_progress j \<le> 100)"

text \<open>Only the row of job \<open>i\<close> may differ.\<close>

definition only_job :: "nat \<Rightarrow> db \<Rightarrow> db \<Rightarrow> bool" where
  "only_job i s s' \<longleftrightarrow> list_all2 (\<lambda>j j'. j_id j' = j_id j \<and> (j_id j = i \<or> j' = j)) (db_jobs s) (db_jobs s')"

lemma only_job_refl [simp]: "only_job i s s"
  by (simp add: only_job_def list_all2_conv_all_nth)

lemma only_job_trans:
  assumes "only_job i s t" and "only_job i t u"
  shows "only_job i s u"
  unfolding only_job_def
  by (rule list_all2_trans [OF _ assms [unfolded only_job_def]]) auto

lemma only_job_upd:
  assumes "\<And>r. j_id (f r) = j_id r"
  shows "list_all2 (\<lambda>j j'. j_id j' = j_id j \<and> (j_id j = i \<or> j' = j)) js (upd_key j_id i f js)"
  using assms by (simp add: upd_key_def update_where_def list_all2_conv_all_nth)

lemma find_active_in:
  assumes "active_ids dev s = [i]"
  obtains job where "find_active_job dev version s = Some job" "j_id job = i" "j_device job = dev"
    "\<not> job_terminal (j_status job)" "job \<in> set (db_jobs s)"
proof -
  have "find_active_job dev version s \<noteq> None"
    using assms by (auto simp: find_active_job_None active_ids_def map_eq_Cons_conv filter_eq_Cons_iff)
  then obtain job where job: "find_active_job dev version s = Some job" by blast
  note a = find_active_job_Some [OF job]
  have "j_id job \<in> set (active_ids dev s)" using a by (auto simp: active_ids_def)
  with assms have "j_id job = i" by simp
  with a job show thesis using that by blast
qed

lemma stamp_row_id: "j_id (extra (j\<lparr>j_status := st, j_updated := cx_now c\<rparr>)) = j_id j \<Longrightarrow> j_id (stamp_row c st extra j) = j_id j"
  by (simp add: stamp_row_def Let_def)

lemma apply_job_status_devices:
  "st \<noteq> JSuccess \<Longrightarrow> db_devices (apply_job_status c job st i d extra s) = db_devices s"
  by (simp add: apply_job_status_def Let_def)

lemma ticked_active:
  assumes "list_all2 R js js'" and "map j_id js' = map j_id js" and "\<And>j j'. R j j' \<Longrightarrow> P j' = P j"
  shows "map j_id (filter P js') = map j_id (filter P js)"
  using assms by (induction rule: list_all2_induct) auto

lemma ticked_progress:
  assumes "list_all2 ticked js js'" and "\<forall>j \<in> set js. j_progress j \<le> 100"
  shows "\<forall>j' \<in> set js'. j_progress j' \<le> 100"
  using assms by (induction rule: list_all2_induct) (auto simp: ticked_def)

lemma record_ota_progress_cases:
  assumes "resolve_device_id device s = Some dev" and "find_active_job dev version s = Some job"
  shows "snd (record_ota_progress c device version stage progress attempt s) \<in> {s,
    apply_job_status c job JInstalling (j_dep job) dev (\<lambda>j. j\<lparr>j_progress := 100\<rparr>) s,
    apply_job_status c job JRebooting (j_dep job) dev (\<lambda>j. j\<lparr>j_progress := 100\<rparr>) s,
    upd_job (j_id job) (tick_update c job progress attempt) s}"
proof -
  consider (none) "stage \<notin> {''downloading'', ''installing'', ''rebooting''}" | (inst) "stage = ''installing''"
    | (reb) "stage = ''rebooting''" | (down) "stage = ''downloading''" by blast
  then show ?thesis
  proof cases
    case none
    then show ?thesis unfolding record_ota_progress_def by simp
  next
    case inst
    show ?thesis
    proof (cases "j_status job = JInstalling")
      case True
      then show ?thesis unfolding record_ota_progress_def inst using assms by simp
    next
      case False
      then show ?thesis unfolding record_ota_progress_def inst assms Let_def option.case
        by (cases "job_ok (j_status job) JInstalling") simp_all
    qed
  next
    case reb
    show ?thesis
    proof (cases "j_status job = JRebooting")
      case True
      then show ?thesis unfolding record_ota_progress_def reb using assms by simp
    next
      case False
      then show ?thesis unfolding record_ota_progress_def reb assms Let_def option.case
        by (cases "job_ok (j_status job) JRebooting") simp_all
    qed
  next
    case down
    then show ?thesis unfolding record_ota_progress_def assms down option.case by simp
  qed
qed

lemma progress_keeps:
  assumes "active_ids dev s = [i]" and "well_kept s" and "resolve_device_id device s = Some dev"
  shows "active_ids dev (snd (record_ota_progress c device version stage progress attempt s)) = [i]"
    and "well_kept (snd (record_ota_progress c device version stage progress attempt s))"
    and "resolve_device_id device (snd (record_ota_progress c device version stage progress attempt s)) = Some dev"
    and "only_job i s (snd (record_ota_progress c device version stage progress attempt s))"
proof -
  let ?s' = "snd (record_ota_progress c device version stage progress attempt s)"
  have tk: "list_all2 ticked (db_jobs s) (db_jobs ?s')"
    using record_ota_progress_jobs assms(2) by (simp add: well_kept_def)
  have ids: "map j_id (db_jobs ?s') = map j_id (db_jobs s)"
    using tick_ids [of "(c, device, version, stage, progress, attempt)" s] by (simp add: tick_def)
  have same: "(j_device j' = dev \<and> \<not> job_terminal (j_status j')) = (j_device j = dev \<and> \<not> job_terminal (j_status j))"
    if "ticked j j'" for j j'
    using that unfolding ticked_def by (elim disjE) simp_all
  show "active_ids dev ?s' = [i]"
    using ticked_active [OF tk ids, of "\<lambda>j. j_device j = dev \<and> \<not> job_terminal (j_status j)", OF same] assms(1)
    unfolding active_ids_def by simp
  have "\<forall>j' \<in> set (db_jobs ?s'). j_progress j' \<le> 100"
    using ticked_progress [OF tk] assms(2) by (simp add: well_kept_def)
  then show "well_kept ?s'" using assms(2) ids by (simp add: well_kept_def)
  obtain job where job: "find_active_job dev version s = Some job" "j_id job = i" by (rule find_active_in [OF assms(1)])
  note cs = record_ota_progress_cases [OF assms(3) job(1), of c stage progress attempt]
  have st: "only_job i s (apply_job_status c job st (j_dep job) dev (\<lambda>j. j\<lparr>j_progress := 100\<rparr>) s)" for st
    unfolding only_job_def apply_job_status_jobs job(2) by (rule only_job_upd) (simp add: stamp_row_def Let_def)
  have tu: "only_job i s (upd_job (j_id job) (tick_update c job progress attempt) s)"
    unfolding only_job_def upd_job_def job(2) by (simp add: only_job_upd tick_update_sel(1))
  show "only_job i s ?s'" using cs st tu by (elim insertE emptyE) simp_all
  have "db_devices ?s' = db_devices s" using cs
    by (elim insertE emptyE) (simp_all add: apply_job_status_devices)
  then show "resolve_device_id device ?s' = Some dev" using resolve_device_id_cong [of ?s' s] assms(3) by simp
qed

lemma look_key_in: "distinct (map key rs) \<Longrightarrow> r \<in> set rs \<Longrightarrow> look_key key (key r) rs = Some r"
  by (induction rs) (auto simp: look_key_def)

text \<open>The outcome lands on it, whatever version the report names.\<close>

lemma finalize_lands:
  assumes "active_ids dev s = [i]" and "well_kept s" and "resolve_device_id device s = Some dev"
  shows "\<exists>dep j. fst (finalize_ota_result c device status version reason s) =
      Finalized dev dep i (if status = ''committed'' then JSuccess else JFailure) \<and>
    active_ids dev (snd (finalize_ota_result c device status version reason s)) = [] \<and>
    only_job i s (snd (finalize_ota_result c device status version reason s)) \<and>
    well_kept (snd (finalize_ota_result c device status version reason s)) \<and>
    job_of i (snd (finalize_ota_result c device status version reason s)) = Some j \<and> j_device j = dev \<and> j_dep j = dep \<and>
    j_status j = (if status = ''committed'' then JSuccess else JFailure) \<and>
    (status = ''committed'' \<or> \<not> truthy reason \<or> j_reason j = reason) \<and>
    resolve_device_id device (snd (finalize_ota_result c device status version reason s)) = Some dev"
proof -
  obtain job where job: "find_active_job dev version s = Some job" "j_id job = i" "j_device job = dev"
    "\<not> job_terminal (j_status job)" "job \<in> set (db_jobs s)" by (rule find_active_in [OF assms(1)])
  define st where "st = (if status = ''committed'' then JSuccess else JFailure)"
  define extra where "extra = (if st = JFailure \<and> truthy reason then (\<lambda>j :: job_row. j\<lparr>j_reason := reason\<rparr>) else (\<lambda>j. j))"
  define f' where "f' = stamp_row c st extra"
  define t where "t = apply_job_status c job st (j_dep job) dev extra s"
  have run: "finalize_ota_result c device status version reason s = (Finalized dev (j_dep job) i st, t)"
    using assms(3) job(1,2) by (simp add: finalize_ota_result_def Let_def st_def extra_def t_def)
  have jobs: "db_jobs t = upd_key j_id i f' (db_jobs s)" using job(2) by (simp add: t_def f'_def apply_job_status_jobs)
  have f: "j_id (f' r) = j_id r" "j_device (f' r) = j_device r" "j_dep (f' r) = j_dep r" "job_terminal (j_status (f' r))"
    "j_status (f' r) = st" "status \<noteq> ''committed'' \<Longrightarrow> truthy reason \<Longrightarrow> j_reason (f' r) = reason"
    "j_progress r \<le> 100 \<Longrightarrow> j_progress (f' r) \<le> 100" for r
    by (simp_all add: f'_def extra_def st_def stamp_row_def Let_def terminal_dd_def)
  have uniq: "r = job" if "r \<in> set (db_jobs s)" "j_id r = i" for r
    using that job assms(2) by (auto simp: well_kept_def distinct_map dest: inj_onD)
  have act: "active_ids dev t = []"
  proof -
    have "\<not> (j_device r = dev \<and> \<not> job_terminal (j_status r))" if r: "r \<in> set (db_jobs t)" for r
    proof (rule ccontr)
      assume a: "\<not> \<not> (j_device r = dev \<and> \<not> job_terminal (j_status r))"
      from r consider "r \<in> set (db_jobs s)" "j_id r \<noteq> i" | q where "r = f' q"
        unfolding jobs by (auto dest: upd_key_in)
      then show False
      proof cases
        case 1
        then have "j_id r \<in> set (active_ids dev s)" using a by (auto simp: active_ids_def)
        then show False using assms(1) 1 by simp
      next
        case 2
        then show False using a f(4) by simp
      qed
    qed
    then show ?thesis by (auto simp: active_ids_def filter_empty_conv)
  qed
  have only: "only_job i s t" unfolding only_job_def jobs by (rule only_job_upd) (rule f(1))
  have kept: "well_kept t"
    using assms(2) f(7) unfolding well_kept_def jobs
    by (auto simp: keys_upd_key [of j_id f', OF f(1)] dest!: upd_key_in)
  have "job_of i s = Some job"
    using job(2,5) assms(2) look_key_in [of j_id "db_jobs s" job] by (simp add: well_kept_def)
  then have jb: "job_of i t = Some (f' job)"
    unfolding jobs using look_key_upd_key [of j_id f', OF f(1)] by simp
  have "map d_id (db_devices t) = map d_id (db_devices s)"
    "map d_identity (db_devices t) = map d_identity (db_devices s)"
    by (simp_all add: t_def apply_job_status_def Let_def upd_device_def upd_key_def update_where_def o_def split: option.split)
  then have rs: "resolve_device_id device t = Some dev" using resolve_device_id_cong [of t s device] assms(3) by simp
  have fr: "status = ''committed'' \<or> \<not> truthy reason \<or> j_reason (f' job) = reason" using f(6) by blast
  have fd: "j_device (f' job) = dev" using f(2) job(3) by simp
  show ?thesis unfolding run fst_conv snd_conv st_def [symmetric]
    by (intro exI [of _ "j_dep job"] exI [of _ "f' job"] conjI; rule refl act only kept jb fd f(3) f(5) fr rs)
qed


section \<open>What a publication makes of it\<close>

definition is_post :: "effect \<Rightarrow> bool" where
  "is_post eff = (case eff of PostOta path body \<Rightarrow> True | _ \<Rightarrow> False)"

definition progress_post :: "string \<Rightarrow> effect \<Rightarrow> bool" where
  "progress_post device eff = (case eff of
      PostOta path body \<Rightarrow> path = ''/internal/ota-progress'' \<and> jget ''device_id'' body = JStr device | _ \<Rightarrow> True)"

lemma redeliver_no_post: "list_all (\<lambda>eff. \<not> is_post eff) (maybe_redeliver device r)"
  by (auto simp: maybe_redeliver_def is_post_def split: option.split)

lemma not_post: "\<not> is_post eff \<Longrightarrow> progress_post device eff"
  by (cases eff) (simp_all add: is_post_def progress_post_def)

text \<open>Topics as \<open>wire\<close> builds them, for names without a slash.\<close>

definition plain_names :: "mock_cfg \<Rightarrow> bool" where
  "plain_names cfg \<longleftrightarrow> CHR ''/'' \<notin> set (mc_project cfg) \<and> CHR ''/'' \<notin> set (mc_device cfg) \<and>
     mc_project cfg \<noteq> ''_bootstrap'' \<and> mc_device cfg \<noteq> []"

lemma wire_message:
  assumes "plain_names cfg" and "wire cfg eff = (topic, body)"
  shows "handle_message fs now topic (Some body) r = (case eff of
      Respond p \<Rightarrow> handle_response fs now (mc_device cfg) p r
    | CrashReport p \<Rightarrow> handle_crash (mc_project cfg) (mc_device cfg) p r
    | Heartbeat p \<Rightarrow> handle_heartbeat now (mc_project cfg) (mc_device cfg) p r)"
  using assms levels_device_topic [of "mc_project cfg" "mc_device cfg"]
  by (cases eff) (auto simp: wire_def handle_message_def Let_def topic_response_def topic_crash_def topic_heartbeat_def
      plain_names_def obj_def)

text \<open>Everything but an update report leads at most to progress posts.\<close>

lemma other_publications:
  assumes "plain_names cfg" and "\<not> is_result eff" and "wire cfg eff = (topic, body)"
    and "handle_message fs now topic (Some body) r = (r1, out)"
  shows "list_all (progress_post (mc_device cfg)) out"
proof -
  have out: "out = snd (case eff of Respond p \<Rightarrow> handle_response fs now (mc_device cfg) p r
    | CrashReport p \<Rightarrow> handle_crash (mc_project cfg) (mc_device cfg) p r
    | Heartbeat p \<Rightarrow> handle_heartbeat now (mc_project cfg) (mc_device cfg) p r)"
    using wire_message [OF assms(1,3)] assms(4) by simp
  have red: "list_all (progress_post (mc_device cfg)) (maybe_redeliver d r)" for d r
    using redeliver_no_post [of d r] not_post by (auto simp: list_all_iff)
  show ?thesis
  proof (cases eff)
    case (Respond p)
    then have "jget ''type'' p \<noteq> JStr ''ota_result''" using assms(2) by (simp add: is_result_def)
    then show ?thesis unfolding out using Respond
      by (auto simp: handle_response_def forward_ota_progress_def Let_def progress_post_def split: prod.splits if_splits)
  next
    case (CrashReport p)
    then show ?thesis unfolding out using red by (simp add: handle_crash_def Let_def progress_post_def)
  next
    case (Heartbeat p)
    then show ?thesis unfolding out using red
      by (auto simp: handle_heartbeat_def Let_def progress_post_def split: prod.splits bool.splits if_splits)
  qed
qed


section \<open>The posts at nff-ota\<close>

text \<open>A job that waits for the report of a device, which nff-ota knows as \<open>dev\<close>.\<close>

definition waiting :: "string \<Rightarrow> string \<Rightarrow> nat \<Rightarrow> db \<Rightarrow> bool" where
  "waiting device dev i s \<longleftrightarrow> active_ids dev s = [i] \<and> well_kept s \<and> resolve_device_id device s = Some dev"

lemma progress_hook_keeps:
  assumes "waiting device dev i s" and "jget ''device_id'' body = JStr device"
  shows "waiting device dev i (snd (ota_progress_hook c header (Some (JObj body)) s))"
    and "only_job i s (snd (ota_progress_hook c header (Some (JObj body)) s))"
proof -
  have "snd (ota_progress_hook c header (Some (JObj body)) s) = s \<or>
      (\<exists>version stage progress attempt. snd (ota_progress_hook c header (Some (JObj body)) s) =
        snd (record_ota_progress c device version stage progress attempt s))"
    using assms(2)
    by (auto simp: ota_progress_hook_def hook_body_def str_field_def case_prod_unfold Let_def split: option.split json.split)
  then show "waiting device dev i (snd (ota_progress_hook c header (Some (JObj body)) s))"
    "only_job i s (snd (ota_progress_hook c header (Some (JObj body)) s))"
    using assms(1) progress_keeps [of dev s i device c] by (auto simp: waiting_def)
qed

lemma progress_post_keeps:
  assumes "waiting device dev i (fs_db s)" and "progress_post device eff"
  shows "waiting device dev i (fs_db (ota_post w a x secret c eff s)) \<and> only_job i (fs_db s) (fs_db (ota_post w a x secret c eff s))"
proof (cases "\<exists>path body. eff = PostOta path body")
  case True
  then obtain body where eff: "eff = PostOta ''/internal/ota-progress'' body" "jget ''device_id'' body = JStr device"
    using assms(2) by (auto simp: progress_post_def)
  have "fs_db (ota_post w a x secret c eff s) = snd (ota_progress_hook c (Some secret) (Some (JObj body)) (fs_db s))"
    by (simp add: ota_post_def eff(1) hook_route_def on_db_def case_prod_unfold Let_def)
  then show ?thesis using progress_hook_keeps [OF assms(1) eff(2)] by simp
next
  case False
  then have "ota_post w a x secret c eff s = s" by (cases eff) (simp_all add: ota_post_def)
  then show ?thesis using assms(1) by simp
qed

lemma progress_posts_keep:
  assumes "waiting device dev i (fs_db s)" and "list_all (progress_post device) out"
  shows "waiting device dev i (fs_db (fold (ota_post w a x secret c) out s)) \<and>
    only_job i (fs_db s) (fs_db (fold (ota_post w a x secret c) out s))"
  using assms
proof (induction out arbitrary: s)
  case (Cons eff out)
  then have "waiting device dev i (fs_db (ota_post w a x secret c eff s)) \<and>
      only_job i (fs_db s) (fs_db (ota_post w a x secret c eff s))"
    using progress_post_keeps by simp
  then show ?case using Cons.IH [of "ota_post w a x secret c eff s"] Cons.prems(2) only_job_trans by fastforce
qed simp

text \<open>Publications that hold no report.\<close>

lemma pipeline_keeps:
  assumes "plain_names cfg" and "waiting (mc_device cfg) dev i (fs_db s)"
    and "filter is_result (map (\<lambda>e. snd (snd e)) es) = []"
  shows "waiting (mc_device cfg) dev i (fs_db (snd (update_pipeline w a x secret fs cfg es (r, s)))) \<and>
    only_job i (fs_db s) (fs_db (snd (update_pipeline w a x secret fs cfg es (r, s))))"
  using assms(2,3)
proof (induction es arbitrary: r s)
  case (Cons e es)
  obtain c now eff where e: "e = (c, now, eff)" by (cases e)
  obtain topic body where wr: "wire cfg eff = (topic, body)" by (cases "wire cfg eff")
  obtain r1 out where hm: "handle_message fs now topic (Some body) r = (r1, out)"
    by (cases "handle_message fs now topic (Some body) r")
  have nr: "\<not> is_result eff" "filter is_result (map (\<lambda>e. snd (snd e)) es) = []" using Cons.prems(2) e by (auto split: if_splits)
  let ?s1 = "fold (ota_post w a x secret c) out s"
  have k: "waiting (mc_device cfg) dev i (fs_db ?s1) \<and> only_job i (fs_db s) (fs_db ?s1)"
    by (rule progress_posts_keep [OF Cons.prems(1) other_publications [OF assms(1) nr(1) wr hm]])
  have "update_pipeline w a x secret fs cfg (e # es) (r, s) = update_pipeline w a x secret fs cfg es (r1, ?s1)"
    using e wr hm by simp
  then show ?case using Cons.IH [of ?s1 r1] k nr(2) only_job_trans by metis
qed simp

text \<open>The report itself.\<close>

lemma report_body:
  assumes "fs_ota_url fs \<noteq> []" and "v \<noteq> []"
  shows "forward_ota_result fs device (update_report cfg v) = [PostOta ''/internal/ota-result''
    ([(''device_id'', JStr device), (''status'', JStr (if buggy_version_map (mc_buggy cfg) v = None then ''committed'' else ''rolled_back'')),
      (''version'', JStr v)] @ (case buggy_version_map (mc_buggy cfg) v of None \<Rightarrow> []
      | Some b \<Rightarrow> [(''reason'', JStr (''health gate failed on v'' @ v @ '' ('' @ b @ '')''))]))]"
  using assms
  by (simp add: forward_ota_result_def update_report_def build_ota_result_def Let_def split: option.split)

definition outcome_of :: "mock_cfg \<Rightarrow> string \<Rightarrow> job_status" where
  "outcome_of cfg v = (if buggy_version_map (mc_buggy cfg) v = None then JSuccess else JFailure)"

definition closed_by :: "mock_cfg \<Rightarrow> string \<Rightarrow> nat \<Rightarrow> string \<Rightarrow> db \<Rightarrow> bool" where
  "closed_by cfg v i dev s \<longleftrightarrow> active_ids dev s = [] \<and> resolve_device_id (mc_device cfg) s = Some dev \<and>
     (\<exists>j. job_of i s = Some j \<and> j_device j = dev \<and> j_status j = outcome_of cfg v \<and>
        (case buggy_version_map (mc_buggy cfg) v of None \<Rightarrow> True
         | Some b \<Rightarrow> j_reason j = Some (''health gate failed on v'' @ v @ '' ('' @ b @ '')'')))"

lemma report_post:
  assumes "waiting device dev i (fs_db s)" and "fs_ota_url fs \<noteq> []" and "v \<noteq> []" and "device \<noteq> []" and dc: "device = mc_device cfg"
    and "s_fleet_secret (cx_set c) = secret" and "secret \<noteq> []"
  shows "closed_by cfg v i dev (fs_db (fold (ota_post w a x secret c) (forward_ota_result fs device (update_report cfg v)) s)) \<and>
    only_job i (fs_db s) (fs_db (fold (ota_post w a x secret c) (forward_ota_result fs device (update_report cfg v)) s))"
proof -
  let ?status = "if buggy_version_map (mc_buggy cfg) v = None then ''committed'' else ''rolled_back''"
  let ?reason = "map_option (\<lambda>b. ''health gate failed on v'' @ v @ '' ('' @ b @ '')'') (buggy_version_map (mc_buggy cfg) v)"
  have hb: "hook_body (cx_set c) (Some secret) (Some (JObj p)) = HOk p" for p
    using assms(6,7) by (simp add: hook_body_def hook_secret_ok_def)
  have db: "fs_db (fold (ota_post w a x secret c) (forward_ota_result fs device (update_report cfg v)) s) =
      snd (finalize_ota_result c device ?status v ?reason (fs_db s))"
    using assms(3,4) hb unfolding report_body [OF assms(2,3)]
    by (simp add: ota_post_def hook_route_def on_db_def ota_result_hook_def str_field_def case_prod_unfold Let_def
        split: option.split)
  have w: "active_ids dev (fs_db s) = [i]" "well_kept (fs_db s)" "resolve_device_id device (fs_db s) = Some dev"
    using assms(1) by (simp_all add: waiting_def)
  have r: "truthy ?reason" if "buggy_version_map (mc_buggy cfg) v \<noteq> None" using that by auto
  from finalize_lands [OF w, of c ?status v ?reason] show ?thesis
    unfolding db closed_by_def outcome_of_def using r dc
    by (cases "buggy_version_map (mc_buggy cfg) v") auto
qed

text \<open>Once the job is closed, reports of progress find nothing to change.\<close>

lemma late_progress_post:
  assumes "active_ids dev (fs_db s) = []" and "resolve_device_id device (fs_db s) = Some dev" and "progress_post device eff"
  shows "ota_post w a x secret c eff s = s"
proof (cases "\<exists>path body. eff = PostOta path body")
  case True
  then obtain body where eff: "eff = PostOta ''/internal/ota-progress'' body" "jget ''device_id'' body = JStr device"
    using assms(3) by (auto simp: progress_post_def)
  have none: "find_active_job dev version (fs_db s) = None" for version
    using assms(1) by (auto simp: find_active_job_None active_ids_def filter_empty_conv)
  have "snd (record_ota_progress c device version stage progress attempt (fs_db s)) = fs_db s" for version stage progress attempt
    using assms(2) none by (simp add: record_ota_progress_def)
  then have "snd (ota_progress_hook c (Some secret) (Some (JObj body)) (fs_db s)) = fs_db s"
    using eff(2)
    by (auto simp: ota_progress_hook_def hook_body_def str_field_def case_prod_unfold Let_def split: option.split json.split)
  then show ?thesis by (simp add: ota_post_def eff(1) hook_route_def on_db_def case_prod_unfold Let_def)
next
  case False
  then show ?thesis by (cases eff) (simp_all add: ota_post_def)
qed

lemma late_progress_posts:
  assumes "active_ids dev (fs_db s) = []" and "resolve_device_id device (fs_db s) = Some dev" and "list_all (progress_post device) out"
  shows "fold (ota_post w a x secret c) out s = s"
  using assms(3) late_progress_post [OF assms(1,2)] by (induction out) simp_all

lemma pipeline_after:
  assumes "plain_names cfg" and "active_ids dev (fs_db s) = []" and "resolve_device_id (mc_device cfg) (fs_db s) = Some dev"
    and "filter is_result (map (\<lambda>e. snd (snd e)) es) = []"
  shows "snd (update_pipeline w a x secret fs cfg es (r, s)) = s"
  using assms(4)
proof (induction es arbitrary: r)
  case (Cons e es)
  obtain c now eff where e: "e = (c, now, eff)" by (cases e)
  obtain topic body where wr: "wire cfg eff = (topic, body)" by (cases "wire cfg eff")
  obtain r1 out where hm: "handle_message fs now topic (Some body) r = (r1, out)"
    by (cases "handle_message fs now topic (Some body) r")
  have nr: "\<not> is_result eff" "filter is_result (map (\<lambda>e. snd (snd e)) es) = []" using Cons.prems e by (auto split: if_splits)
  have "fold (ota_post w a x secret c) out s = s"
    by (rule late_progress_posts [OF assms(2,3) other_publications [OF assms(1) nr(1) wr hm]])
  then show ?case using Cons.IH [OF nr(2)] e wr hm by simp
qed simp

lemma pipeline_append:
  "update_pipeline w a x secret fs cfg (es @ es') rs =
     update_pipeline w a x secret fs cfg es' (update_pipeline w a x secret fs cfg es rs)"
proof (induction es arbitrary: rs)
  case (Cons e es)
  obtain c now eff where "e = (c, now, eff)" by (cases e)
  then show ?case using Cons.IH by (simp add: case_prod_unfold Let_def)
qed simp

lemma split_report:
  assumes "filter is_result (map f es) = [y]"
  obtains pre e post where "es = pre @ e # post" "f e = y" "filter is_result (map f pre) = []" "filter is_result (map f post) = []"
proof -
  have "filter (\<lambda>e. is_result (f e)) es \<noteq> []" "map f (filter (\<lambda>e. is_result (f e)) es) = [y]"
    using assms by (auto simp: filter_map o_def)
  then obtain e where fe: "filter (\<lambda>e. is_result (f e)) es = [e]" "f e = y" by auto
  from filter_eq_ConsD [OF fe(1)] obtain pre post where sp: "es = pre @ e # post"
    "\<forall>u \<in> set pre. \<not> is_result (f u)" "filter (\<lambda>e. is_result (f e)) post = []" by auto
  have "filter is_result (map f pre) = []" "filter is_result (map f post) = []"
    using sp(2,3) by (auto simp: filter_map o_def filter_empty_conv)
  with sp(1) fe(2) show thesis using that by blast
qed

lemma pipeline_closes:
  assumes names: "plain_names cfg" and wait: "waiting (mc_device cfg) dev i (fs_db s)" and url: "fs_ota_url fs \<noteq> []" and v: "v \<noteq> []"
    and one: "filter is_result (map (\<lambda>e. snd (snd e)) es) = [Respond (update_report cfg v)]"
    and sec: "\<forall>e \<in> set es. s_fleet_secret (cx_set (fst e)) = secret" "secret \<noteq> []"
  shows "closed_by cfg v i dev (fs_db (snd (update_pipeline w a x secret fs cfg es (r, s)))) \<and>
    only_job i (fs_db s) (fs_db (snd (update_pipeline w a x secret fs cfg es (r, s))))"
proof -
  obtain pre e post where sp: "es = pre @ e # post" "snd (snd e) = Respond (update_report cfg v)"
    "filter is_result (map (\<lambda>e. snd (snd e)) pre) = []" "filter is_result (map (\<lambda>e. snd (snd e)) post) = []"
    by (rule split_report [OF one])
  obtain c now where e: "e = (c, now, Respond (update_report cfg v))" using sp(2) by (cases e) auto
  obtain r1 s1 where p1: "update_pipeline w a x secret fs cfg pre (r, s) = (r1, s1)"
    by (cases "update_pipeline w a x secret fs cfg pre (r, s)")
  have w1: "waiting (mc_device cfg) dev i (fs_db s1)" "only_job i (fs_db s) (fs_db s1)"
    using pipeline_keeps [OF names wait sp(3), of w a x secret fs r] p1 by simp_all
  obtain topic body where wr: "wire cfg (Respond (update_report cfg v)) = (topic, body)" by (cases "wire cfg (Respond (update_report cfg v))")
  have "handle_message fs now topic (Some body) r1 = (r1, forward_ota_result fs (mc_device cfg) (update_report cfg v))"
    using wire_message [OF names wr, of fs now r1] is_result_report [of cfg v]
    by (simp add: handle_response_def is_result_def)
  note hm = this
  let ?s2 = "fold (ota_post w a x secret c) (forward_ota_result fs (mc_device cfg) (update_report cfg v)) s1"
  have ne: "mc_device cfg \<noteq> []" using names by (simp add: plain_names_def)
  have sc: "s_fleet_secret (cx_set c) = secret" using sec(1) sp(1) e by auto
  have w2: "closed_by cfg v i dev (fs_db ?s2)" "only_job i (fs_db s1) (fs_db ?s2)"
    using report_post [OF w1(1) url v ne refl sc sec(2), of w a x] by simp_all
  have "snd (update_pipeline w a x secret fs cfg es (r, s)) = snd (update_pipeline w a x secret fs cfg post (r1, ?s2))"
    unfolding sp(1) pipeline_append p1 using e wr hm by simp
  also have "\<dots> = ?s2"
    by (rule pipeline_after [OF names _ _ sp(4)]) (use w2(1) in \<open>auto simp: closed_by_def\<close>)
  finally show ?thesis using w2 only_job_trans [OF w1(2) w2(2)] by simp
qed

text \<open>
  C2. The feedback loop of an update closes. A device that gets an accepted update command with a good
  image publishes a list of messages; whenever these reach the fleet's router and its posts reach nff-ota, with whatever
  progress throttling, clock and redelivery, the one job waiting for that device ends with the outcome the
  device had: success when it runs the new version, failure with the device's reason when it rolled
  back. The device then has no job under way, and no other job row has changed.
\<close>

theorem update_loop_closes:
  assumes "store_typed (dv_nvs d)" and "idle d"
    and "verify_cmd (en_crypto e) now p (dv_verifier d) = (Accept, vf)"
    and "jget ''action'' p = JStr ''ota''" and "jget ''version'' p = JStr v" and "v \<noteq> []"
      and "jtruthy (jget ''url'' p)" and "jtruthy (jget ''sha256'' p)"
    and "version_le (running d) v"
    and "boots e (dv_firmware d)" and "boots e (next_firmware e cfg v (artifact_of f) (dv_firmware d))"
    and "transfer_ok e (jget ''sha256'' p) f"
    and "plain_names cfg" and "waiting (mc_device cfg) dev i (fs_db s)" and "fs_ota_url fs \<noteq> []" and "secret \<noteq> []"
  shows "\<exists>effects d'. device_step e cfg (Message now u f (Some (JObj p))) d = Some (effects, d') \<and>
    dv_fw d' = (if outcome_of cfg v = JSuccess then v else dv_fw d) \<and>
    (\<forall>es r. map (\<lambda>e. snd (snd e)) es = effects \<and> (\<forall>e \<in> set es. s_fleet_secret (cx_set (fst e)) = secret) \<longrightarrow>
      closed_by cfg v i dev (fs_db (snd (update_pipeline w a x secret fs cfg es (r, s)))) \<and>
      only_job i (fs_db s) (fs_db (snd (update_pipeline w a x secret fs cfg es (r, s)))))"
proof -
  from update_outcome [OF assms(1-11), of u] assms(12) obtain effects d' where
    o: "device_step e cfg (Message now u f (Some (JObj p))) d = Some (effects, d')"
    "filter is_result effects = [Respond (update_report cfg v)]"
    "dv_fw d' = (if buggy_version_map (mc_buggy cfg) v = None then v else dv_fw d)" by auto
  have "closed_by cfg v i dev (fs_db (snd (update_pipeline w a x secret fs cfg es (r, s)))) \<and>
      only_job i (fs_db s) (fs_db (snd (update_pipeline w a x secret fs cfg es (r, s))))"
    if "map (\<lambda>e. snd (snd e)) es = effects" "\<forall>e \<in> set es. s_fleet_secret (cx_set (fst e)) = secret" for es r
    using pipeline_closes [OF assms(13,14,15,6) _ that(2) assms(16), of w a x r] that(1) o(2) by simp
  then show ?thesis using o(1,3) by (auto simp: outcome_of_def)
qed


section \<open>A concrete run\<close>

definition loop_mock :: mock_cfg where
  "loop_mock = sample_mock\<lparr>mc_device := ''d1''\<rparr>"

definition loop_fleet :: fleet_settings where
  "loop_fleet = \<lparr>fs_default_interval = 30, fs_miss_factor = 2, fs_ota_url = ''u''\<rparr>"

definition loop_state :: fix_state where
  "loop_state = \<lparr>fs_db = sample_db JDownloading JPending JPending, fs_jobs = [], fs_revs = []\<rparr>"

theorem update_loop_closes_witness:
  "\<forall>w a x. \<exists>effects d'. device_step sample_env loop_mock (Message 9 0 sample_fetch (Some (JObj sample_ota))) sample_vdev = Some (effects, d') \<and>
     (\<exists>j. job_of 30 (fs_db (snd (update_pipeline w a x ''k'' loop_fleet loop_mock (map (\<lambda>eff. (sample_ctx, 0, eff)) effects)
        (init_router, loop_state)))) = Some j \<and> j_status j = JSuccess)"
proof (intro allI)
  fix w a x
  obtain vf where acc: "verify_cmd (en_crypto sample_env) 9 sample_ota (dv_verifier sample_vdev) = (Accept, vf)"
    using sample_accepts by blast
  have nb: "buggy_version_map (mc_buggy loop_mock) ''1'' = None" using sample_not_buggy by (simp add: loop_mock_def)
  have nx: "boots sample_env (next_firmware sample_env loop_mock ''1'' (artifact_of sample_fetch) (dv_firmware sample_vdev))"
    using sample_next nb sample_not_buggy by (simp add: next_firmware_def)
  have pn: "plain_names loop_mock" by (simp add: plain_names_def loop_mock_def sample_mock_def)
  have wt: "waiting (mc_device loop_mock) ''d1'' 30 (fs_db loop_state)"
    using sample_resolve [of JDownloading JPending JPending]
    by (simp add: waiting_def loop_mock_def loop_state_def active_ids_def well_kept_def)
      (simp add: sample_db_def sample_job_def terminal_dd_def)
  have url: "fs_ota_url loop_fleet \<noteq> []" by (simp add: loop_fleet_def)
  have sc: "s_fleet_secret (cx_set sample_ctx) = ''k''" by (simp add: sample_ctx_def sample_settings_def)
  from update_loop_closes [OF sample_vdev_typed acc sample_ota_fields(1,2) _ sample_ota_fields(3,4) sample_running sample_vdev_boots nx
      sample_transfer pn wt url, of "''k''" 0 w a x] obtain effects d' where
    o: "device_step sample_env loop_mock (Message 9 0 sample_fetch (Some (JObj sample_ota))) sample_vdev = Some (effects, d')"
    "\<And>es r. map (\<lambda>e. snd (snd e)) es = effects \<Longrightarrow> \<forall>e \<in> set es. s_fleet_secret (cx_set (fst e)) = ''k'' \<Longrightarrow>
      closed_by loop_mock ''1'' 30 ''d1'' (fs_db (snd (update_pipeline w a x ''k'' loop_fleet loop_mock es (r, loop_state))))"
    by auto
  let ?es = "map (\<lambda>eff. (sample_ctx, 0 :: rat, eff)) effects"
  have "closed_by loop_mock ''1'' 30 ''d1'' (fs_db (snd (update_pipeline w a x ''k'' loop_fleet loop_mock ?es (init_router, loop_state))))"
    by (rule o(2)) (simp_all add: o_def sc)
  then show "\<exists>effects d'. device_step sample_env loop_mock (Message 9 0 sample_fetch (Some (JObj sample_ota))) sample_vdev = Some (effects, d') \<and>
     (\<exists>j. job_of 30 (fs_db (snd (update_pipeline w a x ''k'' loop_fleet loop_mock (map (\<lambda>eff. (sample_ctx, 0, eff)) effects)
        (init_router, loop_state)))) = Some j \<and> j_status j = JSuccess)"
    using o(1) nb by (auto simp: closed_by_def outcome_of_def)
qed

end
