(* ===== verification/Regexp.thy ===== *)
theory Regexp
  imports Prelude
begin

text \<open>
  The part of Python's \<open>re\<close> module the sources use. A pattern is a term of \<open>rx\<close>; the matcher returns
  the list of all ways a pattern matches at a position, in the order in which Python's backtracking tries
  them, so that the first element is Python's match. A position is what is before it (for \<open>\b\<close>), the
  rest of the text and the groups recorded so far. Characters are ASCII.

  The lemmas: a match consumes a part of the text (\<open>mt_splits\<close>); the search finds the first position with a
  match, and finds a literal exactly when the text contains it (\<open>search_Lit\<close>); a region whose characters
  cannot begin the literal can be skipped (\<open>search_skip\<close>).
\<close>

datatype rx =
    Lit string
  | Cls "char \<Rightarrow> bool"
  | Seq rx rx
  | Alt rx rx
  | Opt rx
  | Star rx
  | LazyStar rx
  | Group nat rx
  | Edge
  | Finish

type_synonym pos = "char option \<times> string \<times> (nat \<times> string) list"

type_synonym hit = "string \<times> pos" \<comment> \<open>the text consumed and where it left off\<close>

text \<open>\<open>+\<close> and \<open>+?\<close>.\<close>

definition Plus :: "rx \<Rightarrow> rx" where "Plus r = Seq r (Star r)"

definition LazyPlus :: "rx \<Rightarrow> rx" where "LazyPlus r = Seq r (LazyStar r)"

fun seqs :: "rx list \<Rightarrow> rx" where
  "seqs [] = Lit []"
| "seqs [r] = r"
| "seqs (r # q # rs) = Seq r (seqs (q # rs))"

definition is_word :: "char \<Rightarrow> bool" where
  "is_word c \<longleftrightarrow> is_digit c \<or> c = CHR ''_'' \<or> (of_char c :: nat) \<in> {65..90} \<or> (of_char c :: nat) \<in> {97..122}"

definition is_hex :: "char \<Rightarrow> bool" where
  "is_hex c \<longleftrightarrow> is_digit c \<or> (of_char c :: nat) \<in> {65..70} \<or> (of_char c :: nat) \<in> {97..102}"

definition newline :: char where "newline = CHR 0x0A"

definition same_char :: "bool \<Rightarrow> char \<Rightarrow> char \<Rightarrow> bool" where
  "same_char ic c d \<longleftrightarrow> (if ic then to_lower c = to_lower d else c = d)"

definition at_edge :: "pos \<Rightarrow> bool" where
  "at_edge p = (case p of (before, t, _) \<Rightarrow>
     (case before of None \<Rightarrow> False | Some c \<Rightarrow> is_word c) \<noteq> (case t of [] \<Rightarrow> False | c # _ \<Rightarrow> is_word c))"

fun rest :: "pos \<Rightarrow> string" where "rest (b, t, g) = t"

definition after :: "string \<Rightarrow> hit list \<Rightarrow> hit list" where
  "after w hs = map (\<lambda>(v, q). (w @ v, q)) hs"

definition chain :: "hit list \<Rightarrow> (pos \<Rightarrow> hit list) \<Rightarrow> hit list" where
  "chain hs f = concat (map (\<lambda>(w, q). after w (f q)) hs)"

fun lit :: "bool \<Rightarrow> string \<Rightarrow> pos \<Rightarrow> hit list" where
  "lit ic [] p = [([], p)]"
| "lit ic (c # cs) (b, [], g) = []"
| "lit ic (c # cs) (b, d # t, g) = (if same_char ic d c then after [d] (lit ic cs (Some d, t, g)) else [])"

fun cls :: "(char \<Rightarrow> bool) \<Rightarrow> pos \<Rightarrow> hit list" where
  "cls f (b, [], g) = []"
| "cls f (b, d # t, g) = (if f d then [([d], (Some d, t, g))] else [])"

text \<open>
  Repetition. A round that consumes nothing ends it, so the text that is left bounds the rounds; the
  bound is given as a list, of which only the length matters.
\<close>

fun greedy :: "(pos \<Rightarrow> hit list) \<Rightarrow> string \<Rightarrow> pos \<Rightarrow> hit list" where
  "greedy f [] p = [([], p)]"
| "greedy f (_ # n) p = chain (filter (\<lambda>h. fst h \<noteq> []) (f p)) (greedy f n) @ [([], p)]"

fun lazy :: "(pos \<Rightarrow> hit list) \<Rightarrow> string \<Rightarrow> pos \<Rightarrow> hit list" where
  "lazy f [] p = [([], p)]"
| "lazy f (_ # n) p = ([], p) # chain (filter (\<lambda>h. fst h \<noteq> []) (f p)) (lazy f n)"

fun record_group :: "nat \<Rightarrow> hit \<Rightarrow> hit" where
  "record_group n (w, (b, u, g)) = (w, (b, u, (n, w) # g))"

primrec mt :: "bool \<Rightarrow> rx \<Rightarrow> pos \<Rightarrow> hit list" where
  "mt ic (Lit s) = lit ic s"
| "mt ic (Cls f) = cls f"
| "mt ic (Seq r q) = (\<lambda>p. chain (mt ic r p) (mt ic q))"
| "mt ic (Alt r q) = (\<lambda>p. mt ic r p @ mt ic q p)"
| "mt ic (Opt r) = (\<lambda>p. mt ic r p @ [([], p)])"
| "mt ic (Star r) = (\<lambda>p. greedy (mt ic r) (rest p) p)"
| "mt ic (LazyStar r) = (\<lambda>p. lazy (mt ic r) (rest p) p)"
| "mt ic (Group n r) = (\<lambda>p. map (record_group n) (mt ic r p))"
| "mt ic Edge = (\<lambda>p. if at_edge p then [([], p)] else [])"
| "mt ic Finish = (\<lambda>p. if rest p = [] \<or> rest p = [newline] then [([], p)] else [])"

text \<open>A match: the text that matched, the groups and what follows.\<close>

record rx_match =
  rm_text :: string
  rm_groups :: "(nat \<times> string) list"
  rm_end :: "char option \<times> string"

fun match_of :: "hit \<Rightarrow> rx_match" where
  "match_of (w, (b, u, g)) = \<lparr>rm_text = w, rm_groups = g, rm_end = (b, u)\<rparr>"

definition try_at :: "bool \<Rightarrow> rx \<Rightarrow> char option \<Rightarrow> string \<Rightarrow> rx_match option" where
  "try_at ic r b t = (case mt ic r (b, t, []) of [] \<Rightarrow> None | h # _ \<Rightarrow> Some (match_of h))"

fun search_from :: "bool \<Rightarrow> rx \<Rightarrow> char option \<Rightarrow> string \<Rightarrow> rx_match option" where
  "search_from ic r b [] = try_at ic r b []"
| "search_from ic r b (c # t) = (case try_at ic r b (c # t) of
      Some m \<Rightarrow> Some m | None \<Rightarrow> search_from ic r (Some c) t)"

definition search :: "bool \<Rightarrow> rx \<Rightarrow> string \<Rightarrow> rx_match option" where
  "search ic r t = search_from ic r None t"

definition group_of :: "nat \<Rightarrow> rx_match \<Rightarrow> string option" where
  "group_of n m = map_of (rm_groups m) n"

text \<open>
  \<open>findall\<close>: the matches from left to right, each search starting where the last match ended. The patterns it
  is called with never match the empty string; an empty match ends the walk here.
\<close>

fun find_all :: "bool \<Rightarrow> rx \<Rightarrow> nat \<Rightarrow> char option \<Rightarrow> string \<Rightarrow> rx_match list" where
  "find_all ic r 0 b t = []"
| "find_all ic r (Suc n) b t = (case search_from ic r b t of
      None \<Rightarrow> []
    | Some m \<Rightarrow> m # (if rm_text m = [] then [] else find_all ic r n (fst (rm_end m)) (snd (rm_end m))))"

definition findall :: "bool \<Rightarrow> rx \<Rightarrow> string \<Rightarrow> rx_match list" where
  "findall ic r t = find_all ic r (Suc (length t)) None t"

lemma findall_first: "(case findall ic r t of [] \<Rightarrow> a | m # _ \<Rightarrow> f m) = (case search ic r t of None \<Rightarrow> a | Some m \<Rightarrow> f m)"
  by (simp add: findall_def search_def split: option.split)


section \<open>Characters, bit by bit\<close>

text \<open>Equations that decide the character classes on a literal without arithmetic, for evaluation.\<close>

lemma to_lower_Char [code]:
  "to_lower (Char b0 b1 b2 b3 b4 b5 b6 b7) =
     Char b0 b1 b2 b3 b4 (b5 \<or> b6 \<and> \<not> b7 \<and> (b0 \<or> b1 \<or> b2 \<or> b3 \<or> b4) \<and> \<not> (b4 \<and> b3 \<and> (b2 \<or> b1 \<and> b0))) b6 b7"
  by (cases b0; cases b1; cases b2; cases b3; cases b4; cases b5; cases b6; cases b7; simp add: to_lower_def char_of_eq_iff)

lemma is_digit_Char [code]:
  "is_digit (Char b0 b1 b2 b3 b4 b5 b6 b7) \<longleftrightarrow> \<not> b7 \<and> \<not> b6 \<and> b5 \<and> b4 \<and> (b3 \<longrightarrow> \<not> b2 \<and> \<not> b1)"
  by (cases b0; cases b1; cases b2; cases b3; cases b4; cases b5; cases b6; cases b7; simp add: is_digit_def)

lemma is_hex_Char [code]:
  "is_hex (Char b0 b1 b2 b3 b4 b5 b6 b7) \<longleftrightarrow> \<not> b7 \<and> (\<not> b6 \<and> b5 \<and> b4 \<and> (b3 \<longrightarrow> \<not> b2 \<and> \<not> b1) \<or>
     b6 \<and> \<not> b4 \<and> \<not> b3 \<and> (b0 \<or> b1 \<or> b2) \<and> \<not> (b0 \<and> b1 \<and> b2))"
  by (cases b0; cases b1; cases b2; cases b3; cases b4; cases b5; cases b6; cases b7; simp add: is_digit_def is_hex_def)

lemma is_space_Char [code]:
  "is_space (Char b0 b1 b2 b3 b4 b5 b6 b7) \<longleftrightarrow> \<not> b7 \<and> \<not> b6 \<and> (b5 \<and> \<not> b4 \<and> \<not> b3 \<and> \<not> b2 \<and> \<not> b1 \<and> \<not> b0 \<or>
     \<not> b5 \<and> (\<not> b4 \<and> b3 \<and> (b0 \<or> b1 \<or> b2) \<and> \<not> (b2 \<and> b1) \<or> b4 \<and> b3 \<and> b2))"
  by (cases b0; cases b1; cases b2; cases b3; cases b4; cases b5; cases b6; cases b7; simp add: is_space_def)


section \<open>A match consumes text\<close>

text \<open>Every hit splits the text into what it consumed and what is left.\<close>

definition splits :: "pos \<Rightarrow> hit \<Rightarrow> bool" where
  "splits p h \<longleftrightarrow> rest p = fst h @ rest (snd h)"

lemma after_iff: "h \<in> set (after w hs) \<longleftrightarrow> (\<exists>v q. (v, q) \<in> set hs \<and> h = (w @ v, q))"
  by (force simp: after_def)

lemma chain_iff: "h \<in> set (chain hs f) \<longleftrightarrow> (\<exists>w q v q'. (w, q) \<in> set hs \<and> (v, q') \<in> set (f q) \<and> h = (w @ v, q'))"
  by (force simp: chain_def after_iff)

lemma chain_simps [simp]: "chain [] f = []" "chain ((w, q) # hs) f = after w (f q) @ chain hs f"
  "after w [] = []" "after w ((v, q) # hs) = (w @ v, q) # after w hs"
  by (simp_all add: chain_def after_def)

lemma chain_splits:
  assumes "\<And>h. h \<in> set hs \<Longrightarrow> splits p h" and "\<And>q h. h \<in> set (f q) \<Longrightarrow> splits q h" and "h \<in> set (chain hs f)"
  shows "splits p h"
proof -
  obtain w q v q' where h: "(w, q) \<in> set hs" "(v, q') \<in> set (f q)" "h = (w @ v, q')"
    using assms(3) by (auto simp: chain_iff)
  show ?thesis using assms(1) [OF h(1)] assms(2) [OF h(2)] h(3) by (simp add: splits_def)
qed

lemma lit_splits: "h \<in> set (lit ic s p) \<Longrightarrow> splits p h"
proof (induction ic s p arbitrary: h rule: lit.induct)
  case (3 ic c cs b d t g)
  from 3(2) have sc: "same_char ic d c" "h \<in> set (after [d] (lit ic cs (Some d, t, g)))" by (auto split: if_splits)
  then obtain v q where h: "(v, q) \<in> set (lit ic cs (Some d, t, g))" "h = (d # v, q)" by (auto simp: after_iff)
  show ?case using 3(1) [OF sc(1) h(1)] h(2) by (simp add: splits_def)
qed (auto simp: splits_def)

lemma cls_splits: "h \<in> set (cls f p) \<Longrightarrow> splits p h"
  by (cases "(f, p)" rule: cls.cases) (auto simp: splits_def split: if_splits)

lemma greedy_splits:
  assumes "\<And>p h. h \<in> set (f p) \<Longrightarrow> splits p h"
  shows "h \<in> set (greedy f n p) \<Longrightarrow> splits p h"
proof (induction n arbitrary: p h)
  case (Cons c n)
  then consider "h = ([], p)" | "h \<in> set (chain (filter (\<lambda>h. fst h \<noteq> []) (f p)) (greedy f n))" by auto
  then show ?case
  proof cases
    case 2
    then show ?thesis by (rule chain_splits [rotated 2]) (auto intro: assms Cons.IH)
  qed (simp add: splits_def)
qed (simp add: splits_def)

lemma lazy_splits:
  assumes "\<And>p h. h \<in> set (f p) \<Longrightarrow> splits p h"
  shows "h \<in> set (lazy f n p) \<Longrightarrow> splits p h"
proof (induction n arbitrary: p h)
  case (Cons c n)
  then consider "h = ([], p)" | "h \<in> set (chain (filter (\<lambda>h. fst h \<noteq> []) (f p)) (lazy f n))" by auto
  then show ?case
  proof cases
    case 2
    then show ?thesis by (rule chain_splits [rotated 2]) (auto intro: assms Cons.IH)
  qed (simp add: splits_def)
qed (simp add: splits_def)

lemma record_group_splits [simp]: "splits p (record_group n h) \<longleftrightarrow> splits p h"
  by (cases "(n, h)" rule: record_group.cases) (simp add: splits_def)

lemma mt_splits: "h \<in> set (mt ic r p) \<Longrightarrow> splits p h"
proof (induction r arbitrary: p h)
  case (Seq r1 r2)
  from Seq.prems have "h \<in> set (chain (mt ic r1 p) (mt ic r2))" by simp
  then show ?case by (rule chain_splits [rotated 2]) (auto intro: Seq.IH)
next
  case (Star r)
  then show ?case using greedy_splits [of "mt ic r"] by simp
next
  case (LazyStar r)
  then show ?case using lazy_splits [of "mt ic r"] by simp
next
  case (Group n r)
  then obtain k where "h = record_group n k" "k \<in> set (mt ic r p)" by auto
  then show ?case using Group.IH by (simp only: record_group_splits)
qed (auto simp: lit_splits cls_splits splits_def [of _ "([], _)"] split: if_splits)


section \<open>Searching\<close>

lemma try_at_text: "try_at ic r b t = Some m \<Longrightarrow> t = rm_text m @ snd (rm_end m)"
proof -
  assume "try_at ic r b t = Some m"
  then obtain h hs where h: "mt ic r (b, t, []) = h # hs" "m = match_of h"
    by (auto simp: try_at_def split: list.splits)
  then have "splits (b, t, []) h" using mt_splits [of h ic r] by simp
  then show ?thesis using h(2) by (cases h rule: match_of.cases) (simp add: splits_def)
qed

lemma search_from_text: "search_from ic r b t = Some m \<Longrightarrow> \<exists>w. t = w @ rm_text m @ snd (rm_end m)"
proof (induction t arbitrary: b)
  case (Cons c t)
  then show ?case
    by (cases "try_at ic r b (c # t)") (fastforce dest: try_at_text, auto dest!: try_at_text)
qed (auto dest: try_at_text)

text \<open>With a non-empty match in every round, the walk of \<open>findall\<close> never reaches its bound.\<close>

lemma find_all_enough:
  assumes "\<And>b t m. search_from ic r b t = Some m \<Longrightarrow> rm_text m \<noteq> []"
  shows "length t < n \<Longrightarrow> length t < k \<Longrightarrow> find_all ic r n b t = find_all ic r k b t"
proof (induction n arbitrary: k b t)
  case (Suc n)
  then obtain k' where k: "k = Suc k'" by (cases k) auto
  show ?case
  proof (cases "search_from ic r b t")
    case (Some m)
    obtain w where "t = w @ rm_text m @ snd (rm_end m)" using search_from_text [OF Some] by blast
    moreover have "rm_text m \<noteq> []" using assms [OF Some] .
    ultimately have "length (snd (rm_end m)) < length t" by (cases "rm_text m") auto
    then have "find_all ic r n b' (snd (rm_end m)) = find_all ic r k' b' (snd (rm_end m))" for b'
      using Suc.prems k by (intro Suc.IH) simp_all
    then show ?thesis using k Some by simp
  qed (simp add: k)
qed simp

text \<open>A literal matches exactly at the positions where the text goes on with it.\<close>

fun lit_at :: "bool \<Rightarrow> string \<Rightarrow> string \<Rightarrow> bool" where
  "lit_at ic [] t = True"
| "lit_at ic (c # s) [] = False"
| "lit_at ic (c # s) (d # t) = (same_char ic d c \<and> lit_at ic s t)"

lemma after_Nil_iff [simp]: "after w hs = [] \<longleftrightarrow> hs = []"
  by (simp add: after_def)

lemma lit_Nil_iff: "lit ic s p = [] \<longleftrightarrow> \<not> lit_at ic s (rest p)"
  by (induction ic s p rule: lit.induct) auto

fun has_lit :: "bool \<Rightarrow> string \<Rightarrow> string \<Rightarrow> bool" where
  "has_lit ic s [] = (s = [])"
| "has_lit ic s (c # t) = (lit_at ic s (c # t) \<or> has_lit ic s t)"

lemma try_at_None: "try_at ic r b t = None \<longleftrightarrow> mt ic r (b, t, []) = []"
  by (simp add: try_at_def split: list.split)

lemma search_from_Nil: "search_from ic r b [] = None \<longleftrightarrow> mt ic r (b, [], []) = []"
  by (simp add: try_at_None)

lemma search_from_step:
  "search_from ic r b (c # t) = None \<longleftrightarrow> mt ic r (b, c # t, []) = [] \<and> search_from ic r (Some c) t = None"
  by (simp add: try_at_None [symmetric] split: option.split)

lemma lit_at_empty [simp]: "lit_at ic s [] \<longleftrightarrow> s = []"
  by (cases s) auto

lemma search_from_Lit: "search_from ic (Lit s) b t = None \<longleftrightarrow> \<not> has_lit ic s t"
proof (induction t arbitrary: b)
  case (Cons c t)
  then show ?case using lit_Nil_iff [of ic s "(b, c # t, [])"] try_at_None [of ic "Lit s" b "c # t"]
    by (cases "try_at ic (Lit s) b (c # t)") auto
qed (use lit_Nil_iff [of ic s "(b, [], [])" for b] in \<open>simp add: try_at_None\<close>)

lemma has_lit_iff: "has_lit ic s t \<longleftrightarrow> (\<exists>u v. t = u @ v \<and> lit_at ic s v)"
proof (induction t)
  case (Cons c t)
  have "(\<exists>u v. c # t = u @ v \<and> lit_at ic s v) \<longleftrightarrow> lit_at ic s (c # t) \<or> (\<exists>u v. t = u @ v \<and> lit_at ic s v)"
    by (metis append_Cons append_Nil append_eq_Cons_conv)
  then show ?case using Cons by simp
qed simp

lemma search_Lit: "search ic (Lit s) t = None \<longleftrightarrow> \<not> (\<exists>u v. t = u @ v \<and> lit_at ic s v)"
  by (simp add: search_def search_from_Lit has_lit_iff)

text \<open>Alternatives, and what a sequence needs of the literals in it.\<close>

lemma search_from_Alt:
  "search_from ic (Alt r q) b t = None \<longleftrightarrow> search_from ic r b t = None \<and> search_from ic q b t = None"
  by (induction t arbitrary: b) (auto simp: search_from_Nil search_from_step simp del: search_from.simps)

lemma mt_ends_Lit:
  assumes "mt ic (Seq r (Seq q (Lit s))) (b, t, []) \<noteq> []"
  shows "has_lit ic s t"
proof -
  from assms obtain h where "h \<in> set (chain (mt ic r (b, t, [])) (mt ic (Seq q (Lit s))))"
    by (metis list.set_intros(1) mt.simps(3) neq_Nil_conv)
  then obtain w p v p' where h: "(w, p) \<in> set (mt ic r (b, t, []))" "(v, p') \<in> set (chain (mt ic q p) (mt ic (Lit s)))"
    unfolding chain_iff [of h] by auto
  from h(2) obtain x y z z' where m: "(x, y) \<in> set (mt ic q p)" "(z, z') \<in> set (lit ic s y)"
    unfolding chain_iff by auto
  have "lit_at ic s (rest y)" using m(2) lit_Nil_iff [of ic s y] by auto
  moreover have "t = (w @ x) @ rest y" using mt_splits [OF h(1)] mt_splits [OF m(1)] by (simp add: splits_def)
  ultimately show ?thesis unfolding has_lit_iff by blast
qed

lemma search_from_ends_Lit: "search_from ic (Seq r (Seq q (Lit s))) b t \<noteq> None \<Longrightarrow> has_lit ic s t"
proof (induction t arbitrary: b)
  case Nil
  then show ?case using mt_ends_Lit [of ic r q s b "[]"] by (simp add: search_from_Nil del: search_from.simps)
next
  case (Cons c t)
  then show ?case using mt_ends_Lit [of ic r q s b "c # t"] Cons.IH [of "Some c"]
    by (auto simp: search_from_step simp del: search_from.simps mt.simps)
qed

text \<open>
  \<open>absent ic s u t\<close>: the literal does not begin inside \<open>u\<close>, which \<open>t\<close> follows. A chunk is clear of it when the
  \<open>k\<close>-th character of the literal occurs neither in the chunk nor among the first \<open>k\<close> characters behind it.
\<close>

fun absent :: "bool \<Rightarrow> string \<Rightarrow> string \<Rightarrow> string \<Rightarrow> bool" where
  "absent ic s [] t = True"
| "absent ic s (c # u) t = (\<not> lit_at ic s (c # u @ t) \<and> absent ic s u t)"

lemma absent_append: "absent ic s (u @ v) t \<longleftrightarrow> absent ic s u (v @ t) \<and> absent ic s v t"
  by (induction u) auto

lemma has_lit_absent: "absent ic s u t \<Longrightarrow> has_lit ic s (u @ t) \<longleftrightarrow> has_lit ic s t"
  by (induction u) auto

lemma lit_at_nth: "lit_at ic s t \<Longrightarrow> k < length s \<Longrightarrow> k < length t \<and> same_char ic (t ! k) (s ! k)"
proof (induction ic s t arbitrary: k rule: lit_at.induct)
  case (3 ic c s d t)
  then show ?case by (cases k) auto
qed auto

lemma absent_char:
  assumes "k < length s" and "list_all (\<lambda>c. \<not> same_char ic c (s ! k)) w"
    and "list_all (\<lambda>c. \<not> same_char ic c (s ! k)) (take k t)"
  shows "absent ic s w t"
  using assms(2)
proof (induction w)
  case (Cons c w)
  have "\<not> lit_at ic s (c # w @ t)"
  proof
    assume "lit_at ic s (c # w @ t)"
    then have k: "k < length (c # w @ t)" "same_char ic ((c # w @ t) ! k) (s ! k)"
      using lit_at_nth assms(1) by blast+
    show False
    proof (cases "k < length (c # w)")
      case True
      then have "(c # w @ t) ! k \<in> set (c # w)" by (metis append_Cons nth_append nth_mem)
      then show False using k(2) Cons.prems unfolding list_all_iff by blast
    next
      case False
      let ?i = "k - length (c # w)"
      have "(c # w @ t) ! k = t ! ?i" using False nth_append [of "c # w" t k] by simp
      moreover have "?i < length (take k t)" using False k(1) by auto
      ultimately have "(c # w @ t) ! k \<in> set (take k t)"
        by (metis length_take min_less_iff_conj nth_mem nth_take)
      then show False using k(2) assms(3) unfolding list_all_iff by blast
    qed
  qed
  then show ?case using Cons by simp
qed simp


section \<open>The first hit\<close>

text \<open>\<open>hits ic r p h\<close>: the first way \<open>r\<close> matches at \<open>p\<close> is \<open>h\<close>; one rule per operator.\<close>

definition hits :: "bool \<Rightarrow> rx \<Rightarrow> pos \<Rightarrow> hit \<Rightarrow> bool" where
  "hits ic r p h \<longleftrightarrow> (\<exists>hs. mt ic r p = h # hs)"

definition last_char :: "char option \<Rightarrow> string \<Rightarrow> char option" where
  "last_char b w = (if w = [] then b else Some (List.last w))"

lemma last_char_simps [simp]: "last_char b [] = b" "last_char b (c # w) = last_char (Some c) w"
  "last_char b (u @ w) = last_char (last_char b u) w"
  by (auto simp: last_char_def)

definition stops :: "(char \<Rightarrow> bool) \<Rightarrow> string \<Rightarrow> bool" where
  "stops f t = (case t of [] \<Rightarrow> True | c # _ \<Rightarrow> \<not> f c)"

lemma stops_simps [simp]: "stops f []" "stops f (c # t) \<longleftrightarrow> \<not> f c"
  by (simp_all add: stops_def)

lemma same_char_refl [simp]: "same_char ic c c"
  by (simp add: same_char_def)

lemma lit_here: "lit ic s (b, s @ t, g) = [(s, (last_char b s, t, g))]"
  by (induction s arbitrary: b) auto

lemma hits_Lit: "hits ic (Lit s) (b, s @ t, g) (s, (last_char b s, t, g))"
  by (simp add: hits_def lit_here)

lemma hits_Cls: "f c \<Longrightarrow> hits ic (Cls f) (b, c # t, g) ([c], (Some c, t, g))"
  by (simp add: hits_def)

lemma hits_Seq: "hits ic r p (w, q) \<Longrightarrow> hits ic r' q (v, q') \<Longrightarrow> hits ic (Seq r r') p (w @ v, q')"
  by (auto simp: hits_def)

lemma hits_Group: "hits ic r p (w, (b, t, g)) \<Longrightarrow> hits ic (Group n r) p (w, (b, t, (n, w) # g))"
  by (auto simp: hits_def)

lemma hits_Alt1: "hits ic r p h \<Longrightarrow> hits ic (Alt r r') p h"
  by (auto simp: hits_def)

lemma hits_Alt2: "mt ic r p = [] \<Longrightarrow> hits ic r' p h \<Longrightarrow> hits ic (Alt r r') p h"
  by (auto simp: hits_def)

lemma hits_Opt: "hits ic r p h \<Longrightarrow> hits ic (Opt r) p h" "mt ic r p = [] \<Longrightarrow> hits ic (Opt r) p ([], p)"
  by (auto simp: hits_def)

lemma hits_Edge: "at_edge p \<Longrightarrow> hits ic Edge p ([], p)"
  by (simp add: hits_def)

lemma greedy_stop: "f p = [] \<Longrightarrow> greedy f n p = [([], p)]"
  by (cases n) auto

lemma greedy_cls:
  assumes "list_all f w" and "stops f t" and "length w \<le> length n"
  shows "\<exists>hs. greedy (cls f) n (b, w @ t, g) = (w, (last_char b w, t, g)) # hs"
  using assms
proof (induction w arbitrary: b n)
  case Nil
  then show ?case by (cases t) (auto simp: greedy_stop)
next
  case (Cons c w)
  then obtain d n' where n: "n = d # n'" by (cases n) auto
  from Cons.IH [of n' "Some c"] Cons.prems n obtain hs where
    "greedy (cls f) n' (Some c, w @ t, g) = (w, (last_char (Some c) w, t, g)) # hs" by auto
  then show ?case using Cons.prems(1) n by simp
qed

lemma hits_Star: "list_all f w \<Longrightarrow> stops f t \<Longrightarrow> hits ic (Star (Cls f)) (b, w @ t, g) (w, (last_char b w, t, g))"
  using greedy_cls [of f w t "w @ t" b g] by (simp add: hits_def)

lemma hits_Plus:
  assumes "w \<noteq> []" and "list_all f w" and "stops f t"
  shows "hits ic (Plus (Cls f)) (b, w @ t, g) (w, (last_char b w, t, g))"
proof -
  obtain c v where w: "w = c # v" using assms(1) by (cases w) auto
  have "hits ic (Plus (Cls f)) (b, c # v @ t, g) ([c] @ v, (last_char (Some c) v, t, g))"
    unfolding Plus_def using assms(2,3) w by (intro hits_Seq [OF hits_Cls] hits_Star) auto
  then show ?thesis using w by simp
qed

text \<open>Repetition of any pattern: one round after the other, until none is possible.\<close>

lemma greedy_enough:
  assumes "\<And>p h. h \<in> set (f p) \<Longrightarrow> splits p h"
  shows "length (rest p) \<le> length n \<Longrightarrow> length (rest p) \<le> length m \<Longrightarrow> greedy f n p = greedy f m p"
proof (induction n arbitrary: m p)
  case Nil
  then have "\<forall>h \<in> set (f p). fst h = []" using assms by (fastforce simp: splits_def)
  then have "filter (\<lambda>h. fst h \<noteq> []) (f p) = []" by (simp add: filter_empty_conv)
  then show ?case by (cases m) simp_all
next
  case (Cons c n)
  show ?case
  proof (cases m)
    case Nil
    then have "\<forall>h \<in> set (f p). fst h = []" using assms Cons.prems by (fastforce simp: splits_def)
    then have "filter (\<lambda>h. fst h \<noteq> []) (f p) = []" by (simp add: filter_empty_conv)
    then show ?thesis using Nil by simp
  next
    case (Cons d m')
    have "greedy f n (snd h) = greedy f m' (snd h)" if h: "h \<in> set (filter (\<lambda>h. fst h \<noteq> []) (f p))" for h
    proof -
      have "length (rest (snd h)) < length (rest p)" using h assms [of h p] by (cases "fst h") (auto simp: splits_def)
      then show ?thesis using Cons.IH [of "snd h" m'] Cons.prems \<open>m = d # m'\<close> by simp
    qed
    then have "chain (filter (\<lambda>h. fst h \<noteq> []) (f p)) (greedy f n) = chain (filter (\<lambda>h. fst h \<noteq> []) (f p)) (greedy f m')"
      unfolding chain_def by (intro arg_cong [where f = concat] map_cong) (auto split: prod.splits)
    then show ?thesis using \<open>m = d # m'\<close> by simp
  qed
qed

lemma hits_Star_Nil: "mt ic r p = [] \<Longrightarrow> hits ic (Star r) p ([], p)"
  by (simp add: hits_def greedy_stop)

lemma hits_Star_Cons:
  assumes "hits ic r p (w, q)" and "w \<noteq> []" and "hits ic (Star r) q (v, q')"
  shows "hits ic (Star r) p (w @ v, q')"
proof -
  obtain hs where hs: "mt ic r p = (w, q) # hs" using assms(1) by (auto simp: hits_def)
  then have len: "rest p = w @ rest q" using mt_splits [of "(w, q)" ic r p] by (simp add: splits_def)
  then obtain c n where n: "rest p = c # n" using assms(2) by (cases w) auto
  have "length (rest q) \<le> length n" using len n assms(2) by (cases w) auto
  then have "greedy (mt ic r) n q = greedy (mt ic r) (rest q) q"
    using greedy_enough [of "mt ic r" q n "rest q"] mt_splits by blast
  then show ?thesis using assms(2,3) hs n by (auto simp: hits_def)
qed

text \<open>Some way to match, not the first: enough to be found.\<close>

lemma lazy_cls_in:
  "list_all f w \<Longrightarrow> length w \<le> length n \<Longrightarrow> (w, (last_char b w, t, g)) \<in> set (lazy (cls f) n (b, w @ t, g))"
proof (induction w arbitrary: b n)
  case Nil
  then show ?case by (cases n) auto
next
  case (Cons c w)
  then obtain d n' where n: "n = d # n'" by (cases n) auto
  from Cons.IH [of n' "Some c"] Cons.prems n show ?case by (auto simp: after_iff)
qed

lemma LazyStar_in: "list_all f w \<Longrightarrow> (w, (last_char b w, t, g)) \<in> set (mt ic (LazyStar (Cls f)) (b, w @ t, g))"
  using lazy_cls_in [of f w "w @ t" b t g] by simp

lemma hits_in: "hits ic r p h \<Longrightarrow> h \<in> set (mt ic r p)"
  by (auto simp: hits_def)

lemma Seq_in: "(w, q) \<in> set (mt ic r p) \<Longrightarrow> (v, q') \<in> set (mt ic r' q) \<Longrightarrow> (w @ v, q') \<in> set (mt ic (Seq r r') p)"
  unfolding mt.simps chain_iff by blast

lemma search_in: "h \<in> set (mt ic r (None, t, [])) \<Longrightarrow> search ic r t \<noteq> None"
  by (cases t) (auto simp: search_def search_from_Nil search_from_step simp del: search_from.simps)

text \<open>A literal that does not continue the text ends a sequence.\<close>

definition needs :: "bool \<Rightarrow> rx \<Rightarrow> string \<Rightarrow> bool" where
  "needs ic r s \<longleftrightarrow> (\<forall>b t g. \<not> lit_at ic s t \<longrightarrow> mt ic r (b, t, g) = [])"

lemma needs_Lit: "needs ic (Lit s) s" "needs ic (Seq (Lit s) r) s" "needs ic (Seq Edge (Seq (Lit s) r)) s"
  using lit_Nil_iff [THEN iffD2] by (simp_all add: needs_def)

lemma search_from_hit: "hits ic r (b, t, []) h \<Longrightarrow> search_from ic r b t = Some (match_of h)"
  by (cases t) (auto simp: hits_def try_at_def)

lemma search_from_absent:
  assumes "needs ic r s" and "absent ic s u t"
  shows "search_from ic r b (u @ t) = search_from ic r (last_char b u) t"
  using assms(2)
proof (induction u arbitrary: b)
  case (Cons c u)
  then have "mt ic r (b, c # u @ t, []) = []" using assms(1) by (simp add: needs_def)
  then have "try_at ic r b (c # u @ t) = None" by (simp only: try_at_None)
  then show ?case using Cons by simp
qed simp

text \<open>A search that skips \<open>u\<close> and hits behind it.\<close>

lemma search_hit:
  assumes "needs ic r s" and "absent ic s u t" and "hits ic r (last_char None u, t, []) h"
  shows "search ic r (u @ t) = Some (match_of h)"
  unfolding search_def using search_from_absent [OF assms(1,2)] search_from_hit [OF assms(3)] by simp

end
