(* ===== verification/Crash_Analysis.thy ===== *)
theory Crash_Analysis
  imports Floats
begin

text \<open>
  nff-diagnosis: the crash record (\<open>schemas/crash_record.py\<close>), the taxonomy of faults
  (\<open>schemas/taxonomy.py\<close>) and the rule classifier (\<open>engine/classifier.py\<close>). Rationales are values of a
  datatype, one constructor per rule, instead of sentences; the descriptions and hints of the taxonomy, which
  only the prompt quotes, are left out.

  The theorem \<open>classify_by_cause\<close> states the outcome of the ordered rules as a table keyed by the
  panic format and the exception cause.
\<close>

section \<open>Crash records\<close>

record crash_record =
  cr_id :: string
  cr_build :: string
  cr_device :: "string option"
  cr_panic :: string
  cr_cause :: "int option"
  cr_abort :: "string option"
  cr_pc :: "string option"
  cr_addr :: "string option"
  cr_regs :: "(string \<times> string) list"
  cr_backtrace :: "string list"
  cr_task :: "string option"
  cr_cpu :: "int option"
  cr_core_dump :: "string option"
  cr_raw :: string
  cr_received :: time

text \<open>\<open>int(s, 16)\<close>: as \<open>py_int\<close>, with hexadecimal digits and an optional prefix \<open>0x\<close>.\<close>

definition hex_digit :: "char \<Rightarrow> int option" where
  "hex_digit c = (let n = int (of_char c) in
     if 48 \<le> n \<and> n \<le> 57 then Some (n - 48)
     else if 97 \<le> n \<and> n \<le> 102 then Some (n - 87)
     else if 65 \<le> n \<and> n \<le> 70 then Some (n - 55) else None)"

fun hex_val :: "int \<Rightarrow> bool \<Rightarrow> string \<Rightarrow> int option" where
  "hex_val acc ok [] = (if ok then Some acc else None)"
| "hex_val acc ok (c # cs) = (case hex_digit c of
      Some d \<Rightarrow> hex_val (16 * acc + d) True cs
    | None \<Rightarrow> if c = CHR ''_'' \<and> ok then hex_val acc False cs else None)"

definition hex_body :: "string \<Rightarrow> int option" where
  "hex_body s = (if take 2 s = ''0x'' \<or> take 2 s = ''0X''
     then (case drop 2 s of [] \<Rightarrow> None | c # cs \<Rightarrow> hex_val 0 False (if c = CHR ''_'' then cs else c # cs))
     else hex_val 0 False s)"

definition py_hex :: "string \<Rightarrow> int option" where
  "py_hex s = (case strip s of
      [] \<Rightarrow> None
    | c # cs \<Rightarrow>
        if c = CHR ''-'' then map_option uminus (hex_body cs)
        else if c = CHR ''+'' then hex_body cs
        else hex_body (c # cs))"


section \<open>The taxonomy\<close>

datatype crash_class = NullDeref | StackOverflow | Watchdog | HeapCorruption | DivideByZero | UnalignedAccess
  | IllegalInstruction | BadInstructionFetch | AssertFailed | Brownout | UnknownClass

datatype fault_family = Memory | ControlFlow | Arithmetic | Assertion | Timing | Power | UnknownFamily

record fault_class =
  fc_key :: crash_class
  fc_title :: string
  fc_family :: fault_family
  fc_symptom :: bool

definition FAULT_TAXONOMY :: "(crash_class \<times> fault_class) list" where
  "FAULT_TAXONOMY = map (\<lambda>(k, t, f, s). (k, \<lparr>fc_key = k, fc_title = t, fc_family = f, fc_symptom = s\<rparr>))
     [(NullDeref, ''Null-pointer dereference'', Memory, False),
      (StackOverflow, ''Stack overflow'', ControlFlow, False),
      (Watchdog, ''Watchdog timeout'', Timing, True),
      (HeapCorruption, ''Heap corruption'', Memory, False),
      (DivideByZero, ''Integer divide by zero'', Arithmetic, False),
      (UnalignedAccess, ''Unaligned memory access'', Memory, False),
      (IllegalInstruction, ''Illegal instruction'', ControlFlow, False),
      (BadInstructionFetch, ''Instruction fetch prohibited'', ControlFlow, False),
      (AssertFailed, ''Assertion / abort'', Assertion, False),
      (Brownout, ''Brownout reset'', Power, False),
      (UnknownClass, ''Unknown'', UnknownFamily, False)]"

definition unknown_fault :: fault_class where
  "unknown_fault = \<lparr>fc_key = UnknownClass, fc_title = ''Unknown'', fc_family = UnknownFamily, fc_symptom = False\<rparr>"

definition taxonomy_for :: "crash_class \<Rightarrow> fault_class" where
  "taxonomy_for k = (case map_of FAULT_TAXONOMY k of Some f \<Rightarrow> f | None \<Rightarrow> unknown_fault)"

lemma taxonomy_total: "fc_key (taxonomy_for k) = k" "fc_symptom (taxonomy_for k) \<longleftrightarrow> k = Watchdog"
  by (cases k; simp add: taxonomy_for_def FAULT_TAXONOMY_def)+


section \<open>The classifier\<close>

datatype rationale =
    WatchdogFormat
  | AbortCalled string
  | BrownoutFormat
  | StoreToNull "string option"
  | StoreElsewhere "string option"
  | LoadFromNull "string option"
  | DivisionTrap
  | AlignmentTrap "string option"
  | FetchTrap "string option"
  | StuckUnwinder
  | IllegalWithRepeats
  | IllegalOpcode
  | LoadFromHeap "string option"
  | LoadElsewhere "string option"
  | NoSignal string "int option" "string option"

record classification =
  cl_class :: crash_class
  cl_confidence :: rat
  cl_rationale :: rationale
  cl_candidates :: "crash_class list"

definition HEAP_LOW :: int where "HEAP_LOW = 0x3FFB0000"
definition HEAP_HIGH :: int where "HEAP_HIGH = 0x3FFF0000"

definition is_null_range :: "string option \<Rightarrow> bool" where
  "is_null_range addr = (case addr of None \<Rightarrow> False
    | Some a \<Rightarrow> (case py_hex a of None \<Rightarrow> False | Some v \<Rightarrow> v \<le> 0xFF))"

definition is_heap_range :: "string option \<Rightarrow> bool" where
  "is_heap_range addr = (case addr of None \<Rightarrow> False
    | Some a \<Rightarrow> (case py_hex a of None \<Rightarrow> False | Some v \<Rightarrow> HEAP_LOW \<le> v \<and> v \<le> HEAP_HIGH))"

definition has_repeated_pcs :: "string list \<Rightarrow> nat \<Rightarrow> bool" where
  "has_repeated_pcs backtrace min_repeat = list_ex (\<lambda>pc. min_repeat \<le> count_list backtrace pc) backtrace"

definition verdict :: "crash_class \<Rightarrow> rat \<Rightarrow> rationale \<Rightarrow> crash_class list \<Rightarrow> classification" where
  "verdict k p r cs = \<lparr>cl_class = k, cl_confidence = fl p, cl_rationale = r, cl_candidates = cs\<rparr>"

definition classify :: "crash_record \<Rightarrow> classification" where
  "classify c = (let cause = cr_cause c; addr = cr_addr c in
     if cr_panic c = ''idf_watchdog'' then verdict Watchdog (97/100) WatchdogFormat []
     else if cr_panic c = ''abort'' then
       verdict AssertFailed (95/100) (AbortCalled (or_else (cr_abort c) ''abort() was called'')) []
     else if cr_panic c = ''brownout'' then verdict Brownout (96/100) BrownoutFormat []
     else if cause = Some 29 \<and> is_null_range addr then verdict NullDeref (96/100) (StoreToNull addr) []
     else if cause = Some 29 then verdict NullDeref (75/100) (StoreElsewhere addr) [HeapCorruption]
     else if cause = Some 28 \<and> is_null_range addr then verdict NullDeref (96/100) (LoadFromNull addr) []
     else if cause = Some 6 then verdict DivideByZero (97/100) DivisionTrap []
     else if cause = Some 9 then verdict UnalignedAccess (95/100) (AlignmentTrap addr) []
     else if cause = Some 20 then verdict BadInstructionFetch (90/100) (FetchTrap (cr_pc c)) [StackOverflow]
     else if has_repeated_pcs (cr_backtrace c) 3 then
       verdict StackOverflow (93/100) StuckUnwinder (if is_heap_range addr then [HeapCorruption] else [])
     else if cause = Some 0 \<and> has_repeated_pcs (cr_backtrace c) 2 then
       verdict StackOverflow (85/100) IllegalWithRepeats []
     else if cause = Some 0 then verdict IllegalInstruction (80/100) IllegalOpcode [BadInstructionFetch]
     else if cause = Some 28 \<and> is_heap_range addr then verdict HeapCorruption (72/100) (LoadFromHeap addr) [NullDeref]
     else if cause = Some 28 then verdict NullDeref (60/100) (LoadElsewhere addr) [HeapCorruption]
     else verdict UnknownClass (30/100) (NoSignal (cr_panic c) cause addr) [NullDeref])"

text \<open>The same as a table: first the panic format, then the exception cause, then address and backtrace.\<close>

definition class_of_cause :: "int option \<Rightarrow> string option \<Rightarrow> string list \<Rightarrow> crash_class" where
  "class_of_cause cause addr backtrace =
     (let stuck = has_repeated_pcs backtrace in
      case cause of
        None \<Rightarrow> if stuck 3 then StackOverflow else UnknownClass
      | Some n \<Rightarrow>
          if n = 29 then NullDeref
          else if n = 6 then DivideByZero
          else if n = 9 then UnalignedAccess
          else if n = 20 then BadInstructionFetch
          else if n = 0 then (if stuck 2 then StackOverflow else IllegalInstruction)
          else if n = 28 then
            (if is_null_range addr then NullDeref
             else if stuck 3 then StackOverflow
             else if is_heap_range addr then HeapCorruption else NullDeref)
          else if stuck 3 then StackOverflow else UnknownClass)"

lemma has_repeated_mono: "has_repeated_pcs b n \<Longrightarrow> m \<le> n \<Longrightarrow> has_repeated_pcs b m"
  unfolding has_repeated_pcs_def list_ex_iff using order_trans by blast

lemma verdict_simps [simp]: "cl_class (verdict k p r cs) = k" "cl_confidence (verdict k p r cs) = fl p"
  "cl_rationale (verdict k p r cs) = r" "cl_candidates (verdict k p r cs) = cs"
  by (simp_all add: verdict_def)

lemma classify_panic:
  "cr_panic c = ''idf_watchdog'' \<Longrightarrow> classify c = verdict Watchdog (97/100) WatchdogFormat []"
  "cr_panic c = ''abort'' \<Longrightarrow>
     classify c = verdict AssertFailed (95/100) (AbortCalled (or_else (cr_abort c) ''abort() was called'')) []"
  "cr_panic c = ''brownout'' \<Longrightarrow> classify c = verdict Brownout (96/100) BrownoutFormat []"
  by (simp_all add: classify_def)

lemma classify_cause:
  assumes "cr_panic c \<notin> {''idf_watchdog'', ''abort'', ''brownout''}"
  shows "cl_class (classify c) = class_of_cause (cr_cause c) (cr_addr c) (cr_backtrace c)"
  using assms has_repeated_mono [of "cr_backtrace c" 3 2]
  by (auto simp: classify_def class_of_cause_def Let_def split: option.splits)

text \<open>Thresholds survive the rounding of the literals.\<close>

lemma fl_le: "a \<le> b \<Longrightarrow> fl a \<le> fl b"
  using fadd_mono [of a b 0 0] by (simp add: fadd_def)

text \<open>A verdict that hedges: one of low confidence names an alternative, never its own class.\<close>

definition hedged :: "classification \<Rightarrow> bool" where
  "hedged v \<longleftrightarrow> (cl_confidence v < fl (85/100) \<longrightarrow> cl_candidates v \<noteq> []) \<and> cl_class v \<notin> set (cl_candidates v)"

lemma classify_hedged: "hedged (classify c)"
proof -
  have "\<not> fl (97/100) < fl (17/20)" "\<not> fl (19/20) < fl (17/20)" "\<not> fl (24/25) < fl (17/20)"
    "\<not> fl (93/100) < fl (17/20)"
    by (simp_all add: not_less fl_le)
  note this [simp]
  show ?thesis by (simp add: hedged_def classify_def Let_def)
qed

text \<open>
  C28. The classifier reads the hard signal. Its ordered rules decide as the table does: the panic format
  settles watchdog, abort and brownout; otherwise the exception cause does, where a load fault also looks at the address
  and at a stuck unwinder, and an illegal instruction at two repeated frames. A verdict of confidence below
  0.85 names an alternative, and no verdict lists its own class as one.
\<close>

theorem classify_by_cause:
  "cl_class (classify c) =
     (if cr_panic c = ''idf_watchdog'' then Watchdog
      else if cr_panic c = ''abort'' then AssertFailed
      else if cr_panic c = ''brownout'' then Brownout
      else class_of_cause (cr_cause c) (cr_addr c) (cr_backtrace c)) \<and> hedged (classify c)"
  using classify_panic [of c] classify_cause [of c] classify_hedged [of c] by simp

end
