(* ===== verification/Panic_Parser.thy ===== *)
theory Panic_Parser
  imports Regexp Crash_Analysis Scenarios
begin

text \<open>
  nff-diagnosis' parser of ESP32 panic dumps (\<open>capture/parser.py\<close>), pattern by pattern, and what it makes of
  the dumps nff-mock prints (\<open>Scenarios\<close>).
\<close>

section \<open>The patterns\<close>

definition ws :: rx where "ws = Cls is_space"
definition digit :: rx where "digit = Cls is_digit"
definition hexnum :: rx where "hexnum = Seq (Lit ''0x'') (Plus (Cls is_hex))"
definition dot :: rx where "dot = Cls (\<lambda>c. c \<noteq> newline)"
definition any :: rx where "any = Cls (\<lambda>c. True)"
definition colon_eq :: rx where "colon_eq = Cls (\<lambda>c. c = CHR '':'' \<or> c = CHR ''='')"
definition apostrophe :: char where "apostrophe = CHR 0x27"
definition is_quote :: "char \<Rightarrow> bool" where "is_quote c \<longleftrightarrow> c = apostrophe \<or> c = CHR 0x22"
definition quote :: rx where "quote = Cls is_quote"

definition WDT_RE :: rx where
  "WDT_RE = Alt (Lit ''Task watchdog got triggered'')
     (Alt (Lit ''Interrupt wdt timeout'') (seqs [Lit ''Guru Meditation Error'', LazyStar dot, Lit ''TWDT'']))"

definition BROWNOUT_RE :: rx where "BROWNOUT_RE = Lit ''Brownout detector was triggered''"

definition ABORT_RE :: rx where "ABORT_RE = Alt (Lit ''abort() was called'') (Lit ''assert failed:'')"

definition panicked :: rx where "panicked = Lit (''panic'' @ [apostrophe] @ ''ed'')"

definition GURU_RE :: rx where
  "GURU_RE = seqs [Lit ''Guru Meditation Error'', LazyStar any, Lit ''Core'', Plus ws, Group 1 (Plus digit), Plus ws, panicked]"

definition ASSERT_MSG_RE :: rx where
  "ASSERT_MSG_RE = seqs [Lit ''assert failed:'', Star ws, Group 1 (Plus dot)]"

definition ABORT_LINE_RE :: rx where
  "ABORT_LINE_RE = seqs [Lit ''abort() was called at PC'', Star ws, hexnum,
     Opt (seqs [Plus ws, Lit ''on core'', Star ws, Plus digit])]"

definition ABORT_PC_RE :: rx where
  "ABORT_PC_RE = seqs [Lit ''abort() was called at PC'', Star ws, Group 1 hexnum]"

definition ABORT_CORE_RE :: rx where
  "ABORT_CORE_RE = seqs [Lit ''on core'', Plus ws, Group 1 (Plus digit)]"

definition EXCCAUSE_RE :: rx where
  "EXCCAUSE_RE = seqs [Lit ''EXCCAUSE'', Star ws, colon_eq, Star ws, Group 1 (Alt hexnum (Plus digit))]"

definition EXCVADDR_RE :: rx where
  "EXCVADDR_RE = seqs [Lit ''EXCVADDR'', Star ws, colon_eq, Star ws, Group 1 hexnum]"

definition PC_RE :: rx where
  "PC_RE = seqs [Edge, Lit ''PC'', Star ws, colon_eq, Star ws, Group 1 hexnum]"

definition CPU_RE :: rx where
  "CPU_RE = seqs [Lit ''Core'', Plus ws, Group 1 (Plus digit), Plus ws, panicked]"

definition REG_RE :: rx where
  "REG_RE = seqs [Edge,
     Group 1 (Alt (seqs [Lit ''A'', digit, Opt digit]) (Alt (Lit ''PC'') (Alt (Lit ''PS'') (Alt (Lit ''SAR'')
       (Alt (Lit ''EXCCAUSE'') (Lit ''EXCVADDR'')))))),
     Star ws, colon_eq, Star ws, Group 2 hexnum]"

definition BACKTRACE_RE :: rx where
  "BACKTRACE_RE = seqs [Lit ''Backtrace:'', Star ws,
     Group 1 (Plus (seqs [hexnum, Opt (Seq (Lit '':'') hexnum), Star ws]))]"

definition PC_TOKEN_RE :: rx where "PC_TOKEN_RE = Group 1 hexnum"

definition TASK_RE :: rx where
  "TASK_RE = Alt
     (seqs [Lit ''Running task'', Star ws, Opt quote, Group 1 (Plus (Cls (\<lambda>c. \<not> is_space c \<and> \<not> is_quote c))), Opt quote])
     (seqs [Lit ''Task'', Star ws, quote, Group 2 (Plus (Cls (\<lambda>c. \<not> is_quote c))), quote, LazyStar dot, Lit ''watchdog''])"


section \<open>The parser\<close>

text \<open>The dictionary \<open>parse\<close> returns: a missing key becomes the default of the crash record.\<close>

record parsed =
  pr_panic :: string
  pr_cpu :: "int option"
  pr_cause :: "int option"
  pr_abort :: "string option"
  pr_pc :: "string option"
  pr_addr :: "string option"
  pr_regs :: "(string \<times> string) list"
  pr_backtrace :: "string list"
  pr_task :: "string option"

definition no_fields :: "string \<Rightarrow> parsed" where
  "no_fields panic = \<lparr>pr_panic = panic, pr_cpu = None, pr_cause = None, pr_abort = None, pr_pc = None, pr_addr = None,
     pr_regs = [], pr_backtrace = [], pr_task = None\<rparr>"

text \<open>\<open>search\<close> and one of its groups.\<close>

definition find_group :: "bool \<Rightarrow> rx \<Rightarrow> nat \<Rightarrow> string \<Rightarrow> string option" where
  "find_group ic r n raw = (case search ic r raw of None \<Rightarrow> None | Some m \<Rightarrow> group_of n m)"

definition found :: "bool \<Rightarrow> rx \<Rightarrow> string \<Rightarrow> bool" where
  "found ic r raw \<longleftrightarrow> search ic r raw \<noteq> None"

text \<open>\<open>s.split()\<close>: the maximal runs of characters that are no whitespace.\<close>

fun words_from :: "string \<Rightarrow> string \<Rightarrow> string list" where
  "words_from w [] = (if w = [] then [] else [rev w])"
| "words_from w (c # cs) =
     (if is_space c then (if w = [] then words_from [] cs else rev w # words_from [] cs)
      else words_from (c # w) cs)"

definition words :: "string \<Rightarrow> string list" where "words s = words_from [] s"

definition parse_backtrace :: "string \<Rightarrow> string list" where
  "parse_backtrace raw = (case find_group True BACKTRACE_RE 1 raw of
      None \<Rightarrow> []
    | Some frames \<Rightarrow> concat (map (\<lambda>token. case findall False PC_TOKEN_RE token of
          [] \<Rightarrow> [] | m # _ \<Rightarrow> [rm_text m]) (words frames)))"

definition task_name :: "string \<Rightarrow> string option" where
  "task_name raw = (case search True TASK_RE raw of None \<Rightarrow> None
    | Some m \<Rightarrow> (case group_of 1 m of Some t \<Rightarrow> if t = [] then group_of 2 m else Some t | None \<Rightarrow> group_of 2 m))"

definition parse_watchdog :: "string \<Rightarrow> parsed" where
  "parse_watchdog raw = (no_fields ''idf_watchdog'')\<lparr>pr_task := task_name raw\<rparr>"

definition parse_abort :: "string \<Rightarrow> parsed" where
  "parse_abort raw = (no_fields ''abort'')\<lparr>
     pr_abort := (case find_group False ASSERT_MSG_RE 1 raw of
         Some m \<Rightarrow> Some (''assert failed: '' @ strip m)
       | None \<Rightarrow> map_option (\<lambda>m. strip (rm_text m)) (search True ABORT_LINE_RE raw)),
     pr_pc := find_group True ABORT_PC_RE 1 raw,
     pr_cpu := Option.bind (find_group True ABORT_CORE_RE 1 raw) py_int,
     pr_backtrace := parse_backtrace raw\<rparr>"

fun set_reg :: "string \<Rightarrow> string \<Rightarrow> (string \<times> string) list \<Rightarrow> (string \<times> string) list" where
  "set_reg k v [] = [(k, v)]"
| "set_reg k v ((k', v') # d) = (if k = k' then (k, v) # d else (k', v') # set_reg k v d)"

definition registers :: "string \<Rightarrow> (string \<times> string) list" where
  "registers raw = fold (\<lambda>m d. set_reg (or_else (group_of 1 m) []) (or_else (group_of 2 m) []) d) (findall False REG_RE raw) []"

definition parse_guru :: "string \<Rightarrow> parsed" where
  "parse_guru raw = (no_fields ''guru_meditation'')\<lparr>
     pr_cpu := Option.bind (find_group False CPU_RE 1 raw) py_int,
     pr_cause := Option.bind (find_group False EXCCAUSE_RE 1 raw)
       (\<lambda>v. if take 2 v = ''0x'' \<or> take 2 v = ''0X'' then py_hex v else py_int v),
     pr_addr := find_group False EXCVADDR_RE 1 raw,
     pr_pc := (case findall False PC_RE raw of [] \<Rightarrow> None | m # _ \<Rightarrow> group_of 1 m),
     pr_regs := registers raw,
     pr_backtrace := parse_backtrace raw,
     pr_task := task_name raw\<rparr>"

definition parse :: "string \<Rightarrow> parsed" where
  "parse raw =
     (if found True BROWNOUT_RE raw then no_fields ''brownout''
      else if found True WDT_RE raw then parse_watchdog raw
      else if found True ABORT_RE raw then parse_abort raw
      else if found True GURU_RE raw then parse_guru raw
      else no_fields ''unknown'')"

text \<open>\<open>CrashRecord(build_id=..., raw=..., **parsed)\<close>, with the identifier and the time drawn for it.\<close>

definition crash_of :: "string \<Rightarrow> time \<Rightarrow> string \<Rightarrow> string option \<Rightarrow> string \<Rightarrow> crash_record" where
  "crash_of i now build dev raw = (let p = parse raw in
     \<lparr>cr_id = i, cr_build = build, cr_device = dev, cr_panic = pr_panic p, cr_cause = pr_cause p, cr_abort = pr_abort p,
      cr_pc = pr_pc p, cr_addr = pr_addr p, cr_regs = pr_regs p, cr_backtrace = pr_backtrace p, cr_task = pr_task p,
      cr_cpu = pr_cpu p, cr_core_dump = None, cr_raw = raw, cr_received = now\<rparr>)"

end
