(* ===== verification/Dumps.thy ===== *)
theory Dumps
  imports Panic_Parser
begin

text \<open>
  From nff-mock's printer of panic dumps to nff-diagnosis' parser of them and on to the classifier: for every
  scenario with well-formed addresses, and so for the whole catalog, the parser reads back what was printed.
\<close>

section \<open>The markers of the other formats\<close>

definition markers :: "string list" where
  "markers = [''Brownout detector was triggered'', ''Task watchdog got triggered'', ''Interrupt wdt timeout'', ''TWDT'',
     ''abort() was called'', ''assert failed:'']"

definition free :: "string list \<Rightarrow> string \<Rightarrow> bool" where
  "free ms raw \<longleftrightarrow> (\<forall>s \<in> set ms. \<not> has_lit True s raw)"

abbreviation unmarked :: "string \<Rightarrow> bool" where
  "unmarked \<equiv> free markers"

text \<open>Chunks without the characters i, w, s and the parenthesis cannot begin a marker, whatever follows.\<close>

definition clear :: "string \<Rightarrow> bool" where
  "clear w \<longleftrightarrow> list_all (\<lambda>c. to_lower c \<notin> set ''iws('') w"

text \<open>What follows such a chunk must not complete a marker that began in it.\<close>

definition closes :: "string \<Rightarrow> bool" where
  "closes t \<longleftrightarrow> list_all (\<lambda>c. to_lower c \<noteq> CHR ''w'') (take 5 t) \<and> list_all (\<lambda>c. to_lower c \<noteq> CHR ''s'') (take 1 t) \<and>
     list_all (\<lambda>c. c \<noteq> CHR ''('') (take 5 t)"

lemma to_lower_paren: "to_lower c = CHR ''('' \<longleftrightarrow> c = CHR ''(''"
proof
  assume a: "to_lower c = CHR ''(''"
  show "c = CHR ''(''"
  proof (cases "65 \<le> (of_char c :: nat) \<and> of_char c \<le> (90 :: nat)")
    case True
    then have "(of_char (to_lower c) :: nat) = of_char c + 32" by (simp add: to_lower_def Let_def of_char_of)
    then show ?thesis using a True by simp
  next
    case False
    then have "to_lower c = c" by (auto simp: to_lower_def Let_def)
    then show ?thesis using a by simp
  qed
qed (simp add: to_lower_def)

lemma clear_absent:
  assumes "clear w" and "closes t" and "s \<in> set markers"
  shows "absent True s w t"
proof -
  have cl: "list_all (\<lambda>c. to_lower c \<noteq> CHR ''i'') w" "list_all (\<lambda>c. to_lower c \<noteq> CHR ''w'') w"
    "list_all (\<lambda>c. to_lower c \<noteq> CHR ''s'') w" "list_all (\<lambda>c. to_lower c \<noteq> CHR ''('') w"
    using assms(1) by (auto simp: clear_def list_all_iff)
  have t: "list_all (\<lambda>c. to_lower c \<noteq> CHR ''w'') (take 5 t)" "list_all (\<lambda>c. to_lower c \<noteq> CHR ''s'') (take 1 t)"
    "list_all (\<lambda>c. to_lower c \<noteq> CHR ''('') (take 5 t)"
    using assms(2) by (auto simp: closes_def to_lower_paren)
  have sub: "list_all P (take k t)" if "list_all P (take 5 t)" "k \<le> 5" for P k
    using that set_take_subset_set_take [of k 5 t] by (auto simp: list_all_iff)
  have low: "to_lower (CHR ''w'') = CHR ''w''" "to_lower (CHR ''W'') = CHR ''w''" "to_lower (CHR ''I'') = CHR ''i''"
    "to_lower (CHR ''s'') = CHR ''s''" "to_lower (CHR ''('') = CHR ''(''" by code_simp+
  have "absent True ''Brownout detector was triggered'' w t"
    using cl t sub [of "\<lambda>c. to_lower c \<noteq> CHR ''w''" 3] by (intro absent_char [where k = 3]) (simp_all add: same_char_def low)
  moreover have "absent True ''Task watchdog got triggered'' w t"
    using cl t by (intro absent_char [where k = 5]) (simp_all add: same_char_def low)
  moreover have "absent True ''Interrupt wdt timeout'' w t"
    using cl t by (intro absent_char [where k = 0]) (simp_all add: same_char_def low)
  moreover have "absent True ''TWDT'' w t"
    using cl t sub [of "\<lambda>c. to_lower c \<noteq> CHR ''w''" 1] by (intro absent_char [where k = 1]) (simp_all add: same_char_def low)
  moreover have "absent True ''abort() was called'' w t"
    using cl t by (intro absent_char [where k = 5]) (simp_all add: same_char_def low)
  moreover have "absent True ''assert failed:'' w t"
    using cl t by (intro absent_char [where k = 1]) (simp_all add: same_char_def low)
  ultimately show ?thesis using assms(3) by (auto simp: markers_def)
qed

lemma free_clear: "set ms \<subseteq> set markers \<Longrightarrow> clear w \<Longrightarrow> closes t \<Longrightarrow> free ms t \<Longrightarrow> free ms (w @ t)"
  using clear_absent has_lit_absent by (fastforce simp: free_def)

lemmas unmarked_clear = free_clear [OF order_refl]

lemma unmarked_chunk:
  assumes "list_all (\<lambda>s. absent True s u t) ms" and "free ms t"
  shows "free ms (u @ t)"
  using assms has_lit_absent by (auto simp: free_def list_all_iff)

lemma unmarked_Nil: "unmarked []"
  by (simp add: free_def markers_def)

lemma free_subset: "free ms raw \<Longrightarrow> set ns \<subseteq> set ms \<Longrightarrow> free ns raw"
  by (auto simp: free_def)

text \<open>A dump without markers is neither a brownout nor a watchdog nor an abort.\<close>

lemma unmarked_not_found:
  assumes "unmarked raw"
  shows "\<not> found True BROWNOUT_RE raw" "\<not> found True WDT_RE raw" "\<not> found True ABORT_RE raw"
proof -
  have n: "\<not> has_lit True ''Brownout detector was triggered'' raw" "\<not> has_lit True ''Task watchdog got triggered'' raw"
    "\<not> has_lit True ''Interrupt wdt timeout'' raw" "\<not> has_lit True ''TWDT'' raw"
    "\<not> has_lit True ''abort() was called'' raw" "\<not> has_lit True ''assert failed:'' raw"
    using assms by (auto simp: free_def markers_def)
  have tw: "search_from True (Seq (Lit ''Guru Meditation Error'') (Seq (LazyStar dot) (Lit ''TWDT''))) b raw = None" for b
    using n(4) search_from_ends_Lit by blast
  show "\<not> found True BROWNOUT_RE raw" "\<not> found True ABORT_RE raw"
    using n by (simp_all add: found_def search_def BROWNOUT_RE_def ABORT_RE_def search_from_Lit search_from_Alt)
  show "\<not> found True WDT_RE raw"
    using n tw by (simp add: found_def search_def WDT_RE_def search_from_Lit search_from_Alt)
qed


section \<open>Hexadecimal numbers\<close>

definition hex_addr :: "string \<Rightarrow> bool" where
  "hex_addr a \<longleftrightarrow> take 2 a = ''0x'' \<and> drop 2 a \<noteq> [] \<and> list_all is_hex (drop 2 a)"

lemma hex_addr_split: "hex_addr a \<Longrightarrow> \<exists>h. a = ''0x'' @ h \<and> h \<noteq> [] \<and> list_all is_hex h"
  unfolding hex_addr_def by (metis append_take_drop_id)

lemma hex_chars: "is_hex c \<Longrightarrow> to_lower c \<notin> set ''iws(kpx:'' \<and> c \<noteq> CHR ''X'' \<and> c \<noteq> CHR ''P'' \<and> c \<noteq> CHR '':'' \<and> \<not> is_space c"
proof -
  assume h: "is_hex c"
  let ?n = "of_char c :: nat"
  have n: "?n \<in> {48..57} \<union> {65..70} \<union> {97..102}" using h by (auto simp: is_hex_def is_digit_def)
  have low: "(of_char (to_lower c) :: nat) \<in> {48..57} \<union> {97..102}"
    using n by (auto simp: to_lower_def Let_def of_char_of)
  have ne: "to_lower c \<noteq> d" if "(of_char d :: nat) \<notin> {48..57} \<union> {97..102}" for d using low that by metis
  have nd: "c \<noteq> d" if "(of_char d :: nat) \<notin> {48..57} \<union> {65..70} \<union> {97..102}" for d using n that by metis
  show ?thesis using ne [of "CHR ''i''"] ne [of "CHR ''w''"] ne [of "CHR ''s''"] ne [of "CHR ''(''"] ne [of "CHR ''k''"]
      ne [of "CHR ''p''"] ne [of "CHR ''x''"] ne [of "CHR '':''"] nd [of "CHR ''X''"] nd [of "CHR ''P''"] nd [of "CHR '':''"] n
    by (auto simp: is_space_def)
qed

lemma hex_addr_chars:
  assumes "hex_addr a"
  shows "list_all (\<lambda>c. to_lower c \<notin> set ''iws(kp:'' \<and> c \<noteq> CHR ''X'' \<and> c \<noteq> CHR ''P'' \<and> c \<noteq> CHR '':'' \<and> \<not> is_space c) a"
proof -
  obtain h where h: "a = ''0x'' @ h" "list_all is_hex h" using hex_addr_split [OF assms] by blast
  have "list_all (\<lambda>c. to_lower c \<notin> set ''iws(kp:'' \<and> c \<noteq> CHR ''X'' \<and> c \<noteq> CHR ''P'' \<and> c \<noteq> CHR '':'' \<and> \<not> is_space c) ''0x''"
    by code_simp
  moreover have "list_all (\<lambda>c. to_lower c \<notin> set ''iws(kp:'' \<and> c \<noteq> CHR ''X'' \<and> c \<noteq> CHR ''P'' \<and> c \<noteq> CHR '':'' \<and> \<not> is_space c) h"
    using h(2) hex_chars by (fastforce simp: list_all_iff)
  ultimately show ?thesis by (simp add: h(1))
qed

lemma clear_addr: "hex_addr a \<Longrightarrow> clear a"
  using hex_addr_chars [of a] by (auto simp: clear_def list_all_iff)

lemma hits_hexnum:
  assumes "hex_addr a" and "stops is_hex t"
  shows "hits ic hexnum (b, a @ t, g) (a, (last_char b a, t, g))"
proof -
  obtain h where h: "a = ''0x'' @ h" "h \<noteq> []" "list_all is_hex h" using hex_addr_split [OF assms(1)] by blast
  have "hits ic hexnum (b, ''0x'' @ h @ t, g) (''0x'' @ h, (last_char (last_char b ''0x'') h, t, g))"
    unfolding hexnum_def by (rule hits_Seq [OF hits_Lit hits_Plus [OF h(2,3) assms(2)]])
  then show ?thesis using h(1) by simp
qed

text \<open>What \<open>{n:08x}\<close> printed is read back by \<open>int(s, 16)\<close>.\<close>

lemma hex_char_read: "d < 16 \<Longrightarrow> hex_digit (hex_char d) = Some (int d) \<and> is_hex (hex_char d)"
  by (auto simp: hex_digit_def hex_char_def digit_char_def is_hex_def is_digit_def Let_def of_char_of)

lemma hex_digits_hex: "list_all is_hex (hex_digits k n)"
  by (induction k arbitrary: n) (auto simp: hex_char_read)

lemma hex_digits_length [simp]: "length (hex_digits k n) = k"
  by (induction k arbitrary: n) auto

lemma hex_val_digits:
  "n < 16 ^ k \<Longrightarrow> hex_val acc ok (hex_digits k n @ t) = hex_val (acc * 16 ^ k + int n) (ok \<or> 0 < k) t"
proof (induction k arbitrary: n acc ok t)
  case (Suc k)
  have lt: "n div 16 < 16 ^ k" using Suc.prems by (simp add: less_mult_imp_div_less mult.commute)
  have "hex_val acc ok (hex_digits (Suc k) n @ t) =
      hex_val (acc * 16 ^ k + int (n div 16)) (ok \<or> 0 < k) (hex_char (n mod 16) # t)"
    using Suc.IH [OF lt] by simp
  also have "\<dots> = hex_val (16 * (acc * 16 ^ k + int (n div 16)) + int (n mod 16)) True t"
    using hex_char_read [of "n mod 16"] by simp
  also have "16 * (acc * 16 ^ k + int (n div 16)) + int (n mod 16) = acc * 16 ^ Suc k + int n"
  proof -
    have "int n = 16 * int (n div 16) + int (n mod 16)" by (metis mult_div_mod_eq of_nat_add of_nat_mult of_nat_numeral)
    then show ?thesis by (simp add: algebra_simps)
  qed
  finally show ?case by simp
qed simp

lemma hex_addr_digits: "0 < k \<Longrightarrow> hex_addr (''0x'' @ hex_digits k n)"
  using hex_digits_hex hex_digits_length [of k n] by (auto simp: hex_addr_def numeral_2_eq_2 simp del: hex_digits_length)

lemma py_hex_digits:
  assumes "n < 16 ^ k" and "0 < k"
  shows "py_hex (''0x'' @ hex_digits k n) = Some (int n)"
proof -
  let ?s = "''0x'' @ hex_digits k n"
  have "\<forall>c \<in> set ?s. \<not> is_space c"
    using hex_addr_chars [OF hex_addr_digits [OF assms(2), of n]] by (simp add: list_all_iff)
  then have st: "strip ?s = ?s" by (rule strip_no_space)
  obtain c cs where c: "hex_digits k n = c # cs" using assms(2) hex_digits_length [of k n] by (cases "hex_digits k n") auto
  have "is_hex c" using hex_digits_hex [of k n] c by simp
  then have "c \<noteq> CHR ''_''" by (auto simp: is_hex_def is_digit_def)
  then have "hex_body ?s = hex_val 0 False (hex_digits k n)" by (simp add: hex_body_def c numeral_2_eq_2)
  also have "\<dots> = Some (int n)" using hex_val_digits [OF assms(1), of 0 False "[]"] assms(2) by simp
  finally show ?thesis using st by (simp add: py_hex_def)
qed


section \<open>The guru meditation\<close>

definition frame_text :: "string \<Rightarrow> string" where "frame_text a = a @ '':0x3ffb1f60''"

definition frames_text :: "string list \<Rightarrow> string" where "frames_text as = join '' '' (map frame_text as)"

definition end_text :: "string \<Rightarrow> string \<Rightarrow> int \<Rightarrow> string" where
  "end_text fw build uptime = ''ELF file SHA256: '' @ build @ (newline # ''nff: fw='') @ fw @ '' uptime='' @ show_int uptime @
     (''ms'' @ [newline] @ ''Rebooting...'' @ [newline])"

definition guru_1 :: string where "guru_1 = ''Guru Meditation Error: Core 1 panic'' @ [apostrophe] @ ''ed (''"

definition guru_2 :: string where
  "guru_2 = ''). Exception was unhandled.'' @ [newline, newline] @ ''Core 1 register dump:'' @ [newline]"

definition guru_3 :: string where
  "guru_3 = ''  PS      : 0x00060f30  A0      : 0x800d2b1f  A1      : 0x3ffb1f60'' @ [newline] @
     ''A2      : 0x00000000  A3      : 0x3ffc1a40  A4      : 0x000000ff  A5      : 0x0000ff00'' @ [newline] @
     ''SAR     : 0x0000001d  ''"

definition guru_text :: "string \<Rightarrow> string \<Rightarrow> nat \<Rightarrow> string \<Rightarrow> string list \<Rightarrow> string \<Rightarrow> string" where
  "guru_text reason pc cause addr frames t = guru_1 @ reason @ guru_2 @ ''PC      : '' @ pc @ guru_3 @ ''EXCCAUSE: '' @
     (''0x'' @ hex_digits 8 cause) @ ''  '' @ ''EXCVADDR: '' @ addr @ [newline, newline] @ ''Backtrace: '' @ frames_text frames @
     [newline, newline] @ t"

lemma build_raw_guru:
  assumes "sc_panic sc \<noteq> Some ''idf_watchdog''" and "sc_panic sc \<noteq> Some ''abort''"
  shows "build_raw sc fw build uptime = guru_text (sc_reason sc) (sc_pc sc) (nat (case sc_cause sc of None \<Rightarrow> 0 | Some c \<Rightarrow> c))
     (or_else (sc_fault_addr sc) ''0x00000000'') (sc_backtrace sc) (end_text fw build uptime)"
  using assms by (simp add: build_raw_def guru_text_def guru_1_def guru_2_def guru_3_def end_text_def regs_def nl_def newline_def
      apostrophe_def frames_line_def frames_text_def frame_text_def [abs_def])

lemma clear_append [simp]: "clear (u @ v) \<longleftrightarrow> clear u \<and> clear v" "clear []"
  by (simp_all add: clear_def)

lemma clear_frames: "list_all hex_addr as \<Longrightarrow> clear (frames_text as)"
proof -
  have sep: "clear '' ''" "clear '':0x3ffb1f60''" by code_simp+
  have "list_all clear ws \<Longrightarrow> clear (join '' '' ws)" for ws
    using sep(1) by (induction "'' ''" ws rule: join.induct) (simp_all add: clear_def)
  then show "list_all hex_addr as \<Longrightarrow> clear (frames_text as)"
    using sep(2) clear_addr by (auto simp: frames_text_def frame_text_def list_all_iff)
qed

lemma clear_int: "clear (show_int i)"
proof -
  have d: "\<forall>d \<in> set [0, 1, 2, 3, 4, 5, 6, 7, 8, 9]. to_lower (digit_char d) \<notin> set ''iws(''" by code_simp
  have "to_lower c \<notin> set ''iws(''" if c: "c \<in> set (show_int i)" for c
  proof (cases "c = CHR ''-''")
    case True
    moreover have "to_lower (CHR ''-'') \<notin> set ''iws(''" by code_simp
    ultimately show ?thesis by simp
  next
    case False
    then obtain e where e: "e < 10" "c = digit_char e" using show_int_chars [OF c] by blast
    then have "e \<in> set [0, 1, 2, 3, 4, 5, 6, 7, 8, 9]" by auto
    then show ?thesis using d e(2) by blast
  qed
  then show ?thesis by (simp add: clear_def list_all_iff)
qed

lemma unmarked_end:
  assumes "clear fw" and "clear build"
  shows "unmarked (end_text fw build uptime)"
proof -
  have c: "list_all (\<lambda>s. absent True s ''ELF file SHA256: '' t) markers" "list_all (\<lambda>s. absent True s (newline # ''nff: fw='') t) markers"
    "list_all (\<lambda>s. absent True s '' uptime='' t) markers" for t by code_simp+
  have "list_all (\<lambda>s. absent True s (''ms'' @ [newline] @ ''Rebooting...'' @ [newline]) []) markers" by code_simp
  from unmarked_chunk [OF this unmarked_Nil]
  have e: "unmarked (''ms'' @ [newline] @ ''Rebooting...'' @ [newline])" by simp
  have k: "closes ((newline # ''nff: fw='') @ t)" "closes ('' uptime='' @ t)"
    "closes (''ms'' @ [newline] @ ''Rebooting...'' @ [newline])" for t by code_simp+
  show ?thesis unfolding end_text_def
    by (intro unmarked_chunk [OF c(1)] unmarked_clear [OF assms(2) k(1)] unmarked_chunk [OF c(2)]
        unmarked_clear [OF assms(1) k(2)] unmarked_chunk [OF c(3)] unmarked_clear [OF clear_int k(3) e])
qed

definition plain_reason :: "string \<Rightarrow> bool" where
  "plain_reason r \<longleftrightarrow> list_all (\<lambda>c. to_lower c \<notin> set ''wxck:'') r"

lemma reason_absent:
  assumes "plain_reason r" and "s \<in> set markers"
  shows "absent True s r (guru_2 @ t)"
proof -
  have r: "list_all (\<lambda>c. \<not> same_char True c (CHR ''w'')) r" "list_all (\<lambda>c. \<not> same_char True c (CHR ''W'')) r"
    "list_all (\<lambda>c. \<not> same_char True c (CHR '':'')) r"
  proof -
    have "to_lower (CHR ''w'') = CHR ''w''" "to_lower (CHR ''W'') = CHR ''w''" "to_lower (CHR '':'') = CHR '':''" by code_simp+
    then show "list_all (\<lambda>c. \<not> same_char True c (CHR ''w'')) r" "list_all (\<lambda>c. \<not> same_char True c (CHR ''W'')) r"
      "list_all (\<lambda>c. \<not> same_char True c (CHR '':'')) r"
      using assms(1) by (auto simp: plain_reason_def list_all_iff same_char_def)
  qed
  have t: "list_all (\<lambda>c. \<not> same_char True c (CHR ''w'')) (take 10 (guru_2 @ t))"
    "list_all (\<lambda>c. \<not> same_char True c (CHR ''W'')) (take 1 (guru_2 @ t))"
    "list_all (\<lambda>c. \<not> same_char True c (CHR '':'')) (take 13 (guru_2 @ t))" by code_simp+
  have sub: "list_all P (take k u)" if "list_all P (take n u)" "k \<le> n" for P k n and u :: string
    using that set_take_subset_set_take [of k n u] by (auto simp: list_all_iff)
  have "absent True ''Brownout detector was triggered'' r (guru_2 @ t)"
    using r sub [OF t(1), of 3] by (intro absent_char [where k = 3]) simp_all
  moreover have "absent True ''Task watchdog got triggered'' r (guru_2 @ t)"
    using r sub [OF t(1), of 5] by (intro absent_char [where k = 5]) simp_all
  moreover have "absent True ''Interrupt wdt timeout'' r (guru_2 @ t)"
    using r t by (intro absent_char [where k = 10]) simp_all
  moreover have "absent True ''TWDT'' r (guru_2 @ t)"
    using r t by (intro absent_char [where k = 1]) simp_all
  moreover have "absent True ''abort() was called'' r (guru_2 @ t)"
    using r sub [OF t(1), of 8] by (intro absent_char [where k = 8]) simp_all
  moreover have "absent True ''assert failed:'' r (guru_2 @ t)"
    using r t by (intro absent_char [where k = 13]) simp_all
  ultimately show ?thesis using assms(2) by (auto simp: markers_def)
qed

lemma guru_chunks:
  "list_all (\<lambda>s. absent True s guru_1 t) markers" "list_all (\<lambda>s. absent True s guru_2 t) markers"
  "list_all (\<lambda>s. absent True s ''PC      : '' t) markers" "list_all (\<lambda>s. absent True s guru_3 t) markers"
  "list_all (\<lambda>s. absent True s ''EXCCAUSE: '' t) markers" "list_all (\<lambda>s. absent True s ''  '' t) markers"
  "list_all (\<lambda>s. absent True s ''EXCVADDR: '' t) markers" "list_all (\<lambda>s. absent True s [newline, newline] t) markers"
  "list_all (\<lambda>s. absent True s ''Backtrace: '' t) markers"
  by code_simp+

lemma guru_closes: "closes (guru_3 @ t)" "closes (''  '' @ ''EXCVADDR: '' @ t)" "closes ([newline, newline] @ ''Backtrace: '' @ t)"
  "closes ([newline, newline] @ end_text fw build uptime)"
  by code_simp+

lemma unmarked_guru:
  assumes "plain_reason r" and "hex_addr pc" and "hex_addr addr" and "list_all hex_addr frames" and "clear fw" and "clear build"
  shows "unmarked (guru_text r pc cause addr frames (end_text fw build uptime))"
proof -
  have hx: "hex_addr (''0x'' @ hex_digits 8 cause)" by (rule hex_addr_digits) simp
  have reason: "unmarked (r @ guru_2 @ t)" if "unmarked (guru_2 @ t)" for t
    using that reason_absent [OF assms(1)] has_lit_absent by (auto simp: free_def)
  show ?thesis unfolding guru_text_def
    by (intro unmarked_chunk [OF guru_chunks(1)] reason unmarked_chunk [OF guru_chunks(2)] unmarked_chunk [OF guru_chunks(3)]
        unmarked_clear [OF clear_addr [OF assms(2)] guru_closes(1)] unmarked_chunk [OF guru_chunks(4)] unmarked_chunk [OF guru_chunks(5)]
        unmarked_clear [OF clear_addr [OF hx] guru_closes(2)] unmarked_chunk [OF guru_chunks(6)] unmarked_chunk [OF guru_chunks(7)]
        unmarked_clear [OF clear_addr [OF assms(3)] guru_closes(3)] unmarked_chunk [OF guru_chunks(8)] unmarked_chunk [OF guru_chunks(9)]
        unmarked_clear [OF clear_frames [OF assms(4)] guru_closes(4)] unmarked_end [OF assms(5,6)])
qed

lemma guru_found: "found True GURU_RE (guru_1 @ t)"
proof -
  have tx: "guru_1 @ t = ''Guru Meditation Error'' @ '': '' @ ''Core'' @ '' '' @ ''1'' @ '' '' @ (''panic'' @ [apostrophe] @ ''ed'') @ '' ('' @ t"
    by (simp add: guru_1_def)
  have one: "is_digit (CHR ''1'')" "is_space (CHR '' '')" "\<not> is_digit (CHR '' '')" "\<not> is_space (CHR ''1'')" "\<not> is_space (CHR ''p'')"
    by code_simp+
  have "\<exists>h. h \<in> set (mt True GURU_RE (None, guru_1 @ t, []))"
    unfolding tx GURU_RE_def seqs.simps panicked_def ws_def digit_def any_def
    by (rule exI, rule Seq_in [OF hits_in [OF hits_Lit]], rule Seq_in [OF LazyStar_in], simp, rule Seq_in [OF hits_in [OF hits_Lit]],
        rule Seq_in [OF hits_in [OF hits_Plus]], simp, simp add: one, simp add: one,
        rule Seq_in [OF hits_in [OF hits_Group [OF hits_Plus]]], simp, simp add: one, simp add: one,
        rule Seq_in [OF hits_in [OF hits_Plus]], simp, simp add: one, simp add: one, rule hits_in [OF hits_Lit])
  then show ?thesis using search_in by (auto simp: found_def)
qed

text \<open>A labelled number: \<open>LABEL : 0x..\<close>.\<close>

lemma addr_start: "hex_addr a \<Longrightarrow> stops is_space (a @ t)"
proof -
  assume "hex_addr a"
  then obtain h where "a = ''0x'' @ h" using hex_addr_split by blast
  moreover have "\<not> is_space (CHR ''0'')" by code_simp
  ultimately show ?thesis by simp
qed

lemma hits_field:
  assumes "list_all is_space pad" and "hex_addr a" and "\<And>b g. hits ic num (b, a @ t, g) (a, (last_char b a, t, g))"
  shows "hits ic (seqs [Lit s, Star ws, colon_eq, Star ws, Group n num]) (b, s @ pad @ '':'' @ '' '' @ a @ t, g)
    (s @ pad @ '':'' @ '' '' @ a, (last_char b (s @ pad @ '':'' @ '' '' @ a), t, (n, a) # g))"
proof -
  have sp: "\<not> is_space (CHR '':'')" "is_space (CHR '' '')" by code_simp+
  have c: "hits ic colon_eq (b, '':'' @ u, g) ('':'', (Some (CHR '':''), u, g))" for b u g
    unfolding colon_eq_def using hits_Cls [of "\<lambda>c. c = CHR '':'' \<or> c = CHR ''=''" "CHR '':''"] by simp
  have "hits ic (seqs [Lit s, Star ws, colon_eq, Star ws, Group n num]) (b, s @ pad @ '':'' @ '' '' @ a @ t, g)
    (s @ pad @ '':'' @ '' '' @ a, (last_char (last_char (Some (CHR '':'')) '' '') a, t, (n, a) # g))"
    unfolding seqs.simps ws_def
    by (rule hits_Seq [OF hits_Lit], rule hits_Seq [OF hits_Star], rule assms(1), simp add: sp, rule hits_Seq [OF c],
        rule hits_Seq [OF hits_Star], simp add: sp, rule addr_start [OF assms(2)], rule hits_Group, rule assms(3))
  then show ?thesis by simp
qed

lemma hits_field_edge:
  assumes "list_all is_space pad" and "hex_addr a" and "stops is_hex t" and "at_edge (b, s @ pad @ '':'' @ '' '' @ a @ t, g)"
  shows "hits ic (seqs [Edge, Lit s, Star ws, colon_eq, Star ws, Group n hexnum]) (b, s @ pad @ '':'' @ '' '' @ a @ t, g)
    (s @ pad @ '':'' @ '' '' @ a, (last_char b (s @ pad @ '':'' @ '' '' @ a), t, (n, a) # g))"
proof -
  have "hits ic (Seq Edge (seqs [Lit s, Star ws, colon_eq, Star ws, Group n hexnum])) (b, s @ pad @ '':'' @ '' '' @ a @ t, g)
    ([] @ (s @ pad @ '':'' @ '' '' @ a), (last_char b (s @ pad @ '':'' @ '' '' @ a), t, (n, a) # g))"
    by (rule hits_Seq [OF hits_Edge [OF assms(4)]], rule hits_field [OF assms(1,2)], rule hits_hexnum [OF assms(2,3)])
  then show ?thesis by simp
qed

lemma find_group_hit:
  assumes "needs ic r s" and "absent ic s u t" and "hits ic r (last_char None u, t, []) (w, (b, v, (n, a) # g))"
  shows "find_group ic r n (u @ t) = Some a" "search ic r (u @ t) = Some \<lparr>rm_text = w, rm_groups = (n, a) # g, rm_end = (b, v)\<rparr>"
  using search_hit [OF assms] by (simp_all add: find_group_def group_of_def)

lemma same_False: "same_char False c d \<longleftrightarrow> c = d"
  by (simp add: same_char_def)

text \<open>Where the labels of the dump do not begin.\<close>

lemma reason_no_label:
  assumes "plain_reason r"
  shows "absent False ''EXCCAUSE'' r (guru_2 @ t)" "absent False ''EXCVADDR'' r (guru_2 @ t)"
    "absent False ''PC'' r (guru_2 @ t)" "absent True ''Backtrace:'' r (guru_2 @ t)"
proof -
  have low: "to_lower (CHR ''X'') = CHR ''x''" "to_lower (CHR ''C'') = CHR ''c''" "to_lower (CHR '':'') = CHR '':''" by code_simp+
  have r: "list_all (\<lambda>c. c \<noteq> CHR ''X'') r" "list_all (\<lambda>c. c \<noteq> CHR ''C'') r" "list_all (\<lambda>c. \<not> same_char True c (CHR '':'')) r"
    using assms low by (auto simp: plain_reason_def list_all_iff same_char_def)
  have t: "list_all (\<lambda>c. c \<noteq> CHR ''X'') (take 1 (guru_2 @ t))" "list_all (\<lambda>c. c \<noteq> CHR ''C'') (take 1 (guru_2 @ t))"
    "list_all (\<lambda>c. \<not> same_char True c (CHR '':'')) (take 9 (guru_2 @ t))" by code_simp+
  show "absent False ''EXCCAUSE'' r (guru_2 @ t)" "absent False ''EXCVADDR'' r (guru_2 @ t)" "absent False ''PC'' r (guru_2 @ t)"
    using r t by (intro absent_char [where k = 1]; simp add: same_False)+
  show "absent True ''Backtrace:'' r (guru_2 @ t)"
    using r t by (intro absent_char [where k = 9]) simp_all
qed

lemma addr_no_label:
  assumes "hex_addr a"
  shows "stops (\<lambda>c. c = CHR ''X'') t \<Longrightarrow> absent False ''EXCCAUSE'' a t"
    "stops (\<lambda>c. c = CHR ''X'') t \<Longrightarrow> absent False ''EXCVADDR'' a t"
    "list_all (\<lambda>c. to_lower c \<noteq> CHR ''k'') (take 3 t) \<Longrightarrow> absent True ''Backtrace:'' a t"
proof -
  have a: "list_all (\<lambda>c. c \<noteq> CHR ''X'') a" "list_all (\<lambda>c. to_lower c \<noteq> CHR ''k'') a"
    using hex_addr_chars [OF assms] by (auto simp: list_all_iff)
  have low: "to_lower (CHR ''k'') = CHR ''k''" by code_simp
  have one: "list_all (\<lambda>c. c \<noteq> CHR ''X'') (take 1 t)" if "stops (\<lambda>c. c = CHR ''X'') t" using that by (cases t) auto
  show "stops (\<lambda>c. c = CHR ''X'') t \<Longrightarrow> absent False ''EXCCAUSE'' a t"
    "stops (\<lambda>c. c = CHR ''X'') t \<Longrightarrow> absent False ''EXCVADDR'' a t"
    using a one by (intro absent_char [where k = 1]; simp add: same_False)+
  show "list_all (\<lambda>c. to_lower c \<noteq> CHR ''k'') (take 3 t) \<Longrightarrow> absent True ''Backtrace:'' a t"
    using a by (intro absent_char [where k = 3]) (simp_all add: same_char_def low)
qed

lemma label_chunks:
  "absent False ''EXCCAUSE'' guru_1 t" "absent False ''EXCCAUSE'' guru_2 t" "absent False ''EXCCAUSE'' ''PC      : '' t"
  "absent False ''EXCCAUSE'' guru_3 t"
  "absent False ''EXCVADDR'' guru_1 t" "absent False ''EXCVADDR'' guru_2 t" "absent False ''EXCVADDR'' ''PC      : '' t"
  "absent False ''EXCVADDR'' guru_3 t" "absent False ''EXCVADDR'' ''EXCCAUSE: '' t" "absent False ''EXCVADDR'' ''  '' t"
  "absent False ''PC'' guru_1 t" "absent False ''PC'' guru_2 t"
  "absent True ''Backtrace:'' guru_1 t" "absent True ''Backtrace:'' guru_2 t" "absent True ''Backtrace:'' ''PC      : '' t"
  "absent True ''Backtrace:'' guru_3 t" "absent True ''Backtrace:'' ''EXCCAUSE: '' t" "absent True ''Backtrace:'' ''  '' t"
  "absent True ''Backtrace:'' ''EXCVADDR: '' t" "absent True ''Backtrace:'' [newline, newline] t"
  by code_simp+

lemma guru_cpu: "find_group False CPU_RE 1 (guru_1 @ t) = Some ''1''"
proof -
  have tx: "guru_1 @ t = ''Guru Meditation Error: '' @ ''Core'' @ '' '' @ ''1'' @ '' '' @ (''panic'' @ [apostrophe] @ ''ed'') @ '' ('' @ t"
    by (simp add: guru_1_def)
  have one: "is_digit (CHR ''1'')" "is_space (CHR '' '')" "\<not> is_digit (CHR '' '')" "\<not> is_space (CHR ''1'')" "\<not> is_space (CHR ''p'')"
    by code_simp+
  have ab: "absent False ''Core'' ''Guru Meditation Error: '' u" for u by code_simp
  show ?thesis unfolding tx CPU_RE_def seqs.simps
    by (rule find_group_hit(1) [OF needs_Lit(2) ab], unfold ws_def digit_def panicked_def,
        rule hits_Seq [OF hits_Lit], rule hits_Seq [OF hits_Plus], simp, simp add: one, simp add: one,
        rule hits_Seq [OF hits_Group [OF hits_Plus]], simp, simp add: one, simp add: one,
        rule hits_Seq [OF hits_Plus], simp, simp add: one, simp add: one, rule hits_Lit)
qed

lemma guru_fields:
  assumes "plain_reason r" and "hex_addr pc" and "hex_addr addr"
  shows "find_group False EXCCAUSE_RE 1 (guru_text r pc cause addr frames t) = Some (''0x'' @ hex_digits 8 cause)"
    "find_group False EXCVADDR_RE 1 (guru_text r pc cause addr frames t) = Some addr"
    "(case findall False PC_RE (guru_text r pc cause addr frames t) of [] \<Rightarrow> None | m # _ \<Rightarrow> group_of 1 m) = Some pc"
proof -
  let ?hx = "''0x'' @ hex_digits 8 cause"
  let ?tail = "addr @ [newline, newline] @ ''Backtrace: '' @ frames_text frames @ [newline, newline] @ t"
  have hx: "hex_addr ?hx" by (rule hex_addr_digits) simp
  have sp: "\<not> is_hex (CHR '' '')" "\<not> is_hex newline" "is_space (CHR '' '')" by code_simp+
  let ?u = "guru_1 @ r @ guru_2 @ ''PC      : '' @ pc @ guru_3"
  have st: "stops (\<lambda>c. c = CHR ''X'') (guru_3 @ u)" "stops is_hex (guru_3 @ u)" for u
    using sp by (simp_all add: guru_3_def)
  have raw1: "guru_text r pc cause addr frames t = ?u @ ''EXCCAUSE'' @ [] @ '':'' @ '' '' @ ?hx @ ''  '' @ ''EXCVADDR: '' @ ?tail"
    by (simp add: guru_text_def)
  have a1: "absent False ''EXCCAUSE'' ?u u" for u
    by (simp only: absent_append append_assoc label_chunks reason_no_label [OF assms(1)] addr_no_label(1) [OF assms(2) st(1)] simp_thms)
  show "find_group False EXCCAUSE_RE 1 (guru_text r pc cause addr frames t) = Some ?hx"
    unfolding raw1 EXCCAUSE_RE_def
    by (rule find_group_hit(1) [OF _ a1], simp add: needs_Lit, rule hits_field [OF _ hx], simp, rule hits_Alt1, rule hits_hexnum [OF hx])
      (simp add: sp)
  let ?v = "?u @ ''EXCCAUSE: '' @ ?hx @ ''  ''"
  have raw2: "guru_text r pc cause addr frames t = ?v @ ''EXCVADDR'' @ [] @ '':'' @ '' '' @ ?tail"
    by (simp add: guru_text_def)
  have st2: "stops (\<lambda>c. c = CHR ''X'') (''  '' @ u)" for u by simp
  have a2: "absent False ''EXCVADDR'' ?v u" for u
    by (simp only: absent_append append_assoc label_chunks reason_no_label [OF assms(1)] addr_no_label(2) [OF assms(2) st(1)]
        addr_no_label(2) [OF hx st2, unfolded absent_append append_assoc] simp_thms)
  show "find_group False EXCVADDR_RE 1 (guru_text r pc cause addr frames t) = Some addr"
    unfolding raw2 EXCVADDR_RE_def
    by (rule find_group_hit(1) [OF _ a2], simp add: needs_Lit, rule hits_field [OF _ assms(3)], simp, rule hits_hexnum [OF assms(3)])
      (simp add: sp)
  let ?w = "guru_1 @ r @ guru_2"
  have raw3: "guru_text r pc cause addr frames t = ?w @ ''PC'' @ ''      '' @ '':'' @ '' '' @ pc @ guru_3 @ ''EXCCAUSE: '' @ ?hx @ ''  '' @ ''EXCVADDR: '' @ ?tail"
    by (simp add: guru_text_def)
  have a3: "absent False ''PC'' ?w u" for u
    by (simp only: absent_append append_assoc label_chunks reason_no_label [OF assms(1)] simp_thms)
  have edge: "at_edge (last_char None ?w, ''PC'' @ u, [])" for u
  proof -
    have "last_char None ?w = Some newline" by (simp add: guru_2_def)
    moreover have "is_word (CHR ''P'')" "\<not> is_word newline" by code_simp+
    ultimately show ?thesis by (simp add: at_edge_def)
  qed
  have h: "hits False PC_RE (last_char None ?w, ''PC'' @ ''      '' @ '':'' @ '' '' @ pc @ guru_3 @ ''EXCCAUSE: '' @ ?hx @ ''  '' @ ''EXCVADDR: '' @ ?tail, [])
    (''PC'' @ ''      '' @ '':'' @ '' '' @ pc, (last_char (last_char None ?w) (''PC'' @ ''      '' @ '':'' @ '' '' @ pc),
      guru_3 @ ''EXCCAUSE: '' @ ?hx @ ''  '' @ ''EXCVADDR: '' @ ?tail, (1, pc) # []))"
    unfolding PC_RE_def by (rule hits_field_edge [OF _ assms(2) st(2)], simp add: sp, rule edge)
  have nd: "needs False PC_RE ''PC''" by (simp add: PC_RE_def needs_Lit)
  have "search False PC_RE (guru_text r pc cause addr frames t) = Some \<lparr>rm_text = ''PC'' @ ''      '' @ '':'' @ '' '' @ pc, rm_groups = [(1, pc)],
      rm_end = (last_char (last_char None ?w) (''PC'' @ ''      '' @ '':'' @ '' '' @ pc), guru_3 @ ''EXCCAUSE: '' @ ?hx @ ''  '' @ ''EXCVADDR: '' @ ?tail)\<rparr>"
    unfolding raw3 by (rule find_group_hit(2) [OF nd a3 h])
  then show "(case findall False PC_RE (guru_text r pc cause addr frames t) of [] \<Rightarrow> None | m # _ \<Rightarrow> group_of 1 m) = Some pc"
    unfolding findall_first by (simp add: group_of_def)
qed


section \<open>The backtrace\<close>

definition frame :: rx where "frame = seqs [hexnum, Opt (Seq (Lit '':'') hexnum), Star ws]"

lemma hits_frame:
  assumes "hex_addr a" and "list_all is_space sp" and "sp \<noteq> []" and "stops is_space t"
  shows "hits ic frame (b, frame_text a @ sp @ t, g) (frame_text a @ sp, (last_char b (frame_text a @ sp), t, g))"
proof -
  have hx: "hex_addr ''0x3ffb1f60''" by code_simp
  obtain c sp' where sp: "sp = c # sp'" using assms(3) by (cases sp) auto
  then have "\<not> is_hex c" using assms(2) hex_chars [of c] by auto
  then have st: "stops is_hex (sp @ t)" by (simp add: sp)
  have colon: "\<not> is_hex (CHR '':'')" by code_simp
  have "hits ic frame (b, a @ '':'' @ ''0x3ffb1f60'' @ sp @ t, g)
    (a @ ('':'' @ ''0x3ffb1f60'') @ sp, (last_char (last_char (last_char (last_char b a) '':'') ''0x3ffb1f60'') sp, t, g))"
    unfolding frame_def seqs.simps ws_def
    by (rule hits_Seq [OF hits_hexnum [OF assms(1)]], simp add: colon, rule hits_Seq [OF hits_Opt(1) [OF hits_Seq [OF hits_Lit hits_hexnum [OF hx st]]]],
        rule hits_Star [OF assms(2,4)])
  then show ?thesis by (simp add: frame_text_def)
qed

lemma frame_text_space: "hex_addr a \<Longrightarrow> stops is_space (frame_text a @ t)"
  by (simp add: frame_text_def addr_start)

text \<open>The first frame of several, and what is left.\<close>

lemma frames_step:
  assumes "hex_addr a" and "hex_addr a'"
  shows "frames_text (a # a' # as) = (frame_text a @ '' '') @ frames_text (a' # as)"
    "hits ic frame (b, frame_text a @ '' '' @ frames_text (a' # as) @ t, g)
      (frame_text a @ '' '', (last_char b (frame_text a @ '' ''), frames_text (a' # as) @ t, g))"
proof -
  have sp: "list_all is_space '' ''" by code_simp
  have start: "stops is_space (frames_text (a' # as) @ t)"
    using frame_text_space [OF assms(2)] by (cases as) (simp_all add: frames_text_def)
  show "frames_text (a # a' # as) = (frame_text a @ '' '') @ frames_text (a' # as)" by (simp add: frames_text_def)
  show "hits ic frame (b, frame_text a @ '' '' @ frames_text (a' # as) @ t, g)
      (frame_text a @ '' '', (last_char b (frame_text a @ '' ''), frames_text (a' # as) @ t, g))"
    by (rule hits_frame [OF assms(1) sp _ start]) simp
qed

lemma frames_last:
  assumes "hex_addr a" and "stops is_space t"
  shows "hits ic frame (b, frames_text [a] @ [newline, newline] @ t, g)
    (frames_text [a] @ [newline, newline], (last_char b (frames_text [a] @ [newline, newline]), t, g))"
proof -
  have nl: "list_all is_space [newline, newline]" by code_simp
  show ?thesis using hits_frame [OF assms(1) nl _ assms(2)] by (simp add: frames_text_def)
qed

lemma hits_frames:
  assumes "list_all hex_addr (a # as)" and "\<And>b g. mt ic frame (b, t, g) = []" and "stops is_space t"
  shows "hits ic (Plus frame) (b, frames_text (a # as) @ [newline, newline] @ t, g)
      (frames_text (a # as) @ [newline, newline], (last_char b (frames_text (a # as) @ [newline, newline]), t, g))"
    "hits ic (Star frame) (b, frames_text (a # as) @ [newline, newline] @ t, g)
      (frames_text (a # as) @ [newline, newline], (last_char b (frames_text (a # as) @ [newline, newline]), t, g))"
  using assms(1)
proof (induction as arbitrary: a b)
  case Nil
  have one: "hits ic frame (b, frames_text [a] @ [newline, newline] @ t, g)
    (frames_text [a] @ [newline, newline], (last_char b (frames_text [a] @ [newline, newline]), t, g))" if "hex_addr a" for a b
    using frames_last [OF that assms(3)] .
  have ne: "frames_text [a] @ [newline, newline] \<noteq> []" for a by simp
  { case 1
    then have "hex_addr a" by simp
    from hits_Seq [OF one [OF this] hits_Star_Nil [OF assms(2)]] show ?case by (simp add: Plus_def) }
  { case 2
    then have "hex_addr a" by simp
    from hits_Star_Cons [OF one [OF this] ne hits_Star_Nil [OF assms(2)]] show ?case by simp }
next
  case (Cons a' as)
  { case 1
    then have ad: "hex_addr a" "hex_addr a'" "list_all hex_addr (a' # as)" by simp_all
    note ft = frames_step(1) [OF ad(1,2), of as] and step = frames_step(2) [OF ad(1,2), where as = as and t = "[newline, newline] @ t"]
    from hits_Seq [OF step Cons.IH(2) [OF ad(3)]] show ?case by (simp add: Plus_def ft) }
  { case 2
    then have ad: "hex_addr a" "hex_addr a'" "list_all hex_addr (a' # as)" by simp_all
    note ft = frames_step(1) [OF ad(1,2), of as] and step = frames_step(2) [OF ad(1,2), where as = as and t = "[newline, newline] @ t"]
    have "frame_text a @ '' '' \<noteq> []" by simp
    from hits_Star_Cons [OF step this Cons.IH(2) [OF ad(3)]] show ?case by (simp add: ft) }
qed

text \<open>Cutting the frames into words, and taking the address of each.\<close>

lemma words_from_word: "list_all (\<lambda>c. \<not> is_space c) u \<Longrightarrow> words_from w (u @ t) = words_from (rev u @ w) t"
  by (induction u arbitrary: w) auto

lemma words_word:
  assumes "list_all (\<lambda>c. \<not> is_space c) u" and "u \<noteq> []" and "is_space c"
  shows "words (u @ c # t) = u # words t"
  using words_from_word [OF assms(1), of "[]" "c # t"] assms(2,3) by (simp add: words_def)

lemma frame_text_word:
  assumes "hex_addr a"
  shows "list_all (\<lambda>c. \<not> is_space c) (frame_text a)" "frame_text a \<noteq> []"
proof -
  have "list_all (\<lambda>c. \<not> is_space c) '':0x3ffb1f60''" by code_simp
  then show "list_all (\<lambda>c. \<not> is_space c) (frame_text a)"
    using hex_addr_chars [OF assms] by (simp add: frame_text_def list_all_iff)
  show "frame_text a \<noteq> []" by (simp add: frame_text_def)
qed

lemma words_frames:
  assumes "list_all hex_addr (a # as)"
  shows "words (frames_text (a # as) @ [newline, newline]) = map frame_text (a # as)"
  using assms
proof (induction as arbitrary: a)
  case Nil
  have nl: "is_space newline" "words [newline] = []" by code_simp+
  from Nil frame_text_word [of a] words_word [OF _ _ nl(1), of "frame_text a" "[newline]"] nl(2)
  show ?case by (simp add: frames_text_def)
next
  case (Cons a' as)
  have sp: "is_space (CHR '' '')" by code_simp
  have ad: "hex_addr a" "hex_addr a'" "list_all hex_addr (a' # as)" using Cons.prems by simp_all
  have "words (frame_text a @ CHR '' '' # (frames_text (a' # as) @ [newline, newline])) =
      frame_text a # words (frames_text (a' # as) @ [newline, newline])"
    by (rule words_word [OF frame_text_word [OF ad(1)] sp])
  then show ?case using Cons.IH [OF ad(3)] frames_step(1) [OF ad(1,2), of as] by simp
qed

lemma token_pc:
  assumes "hex_addr a"
  shows "(case findall False PC_TOKEN_RE (frame_text a) of [] \<Rightarrow> [] | m # _ \<Rightarrow> [rm_text m]) = [a]"
proof -
  have "\<not> is_hex (CHR '':'')" by code_simp
  then have "hits False PC_TOKEN_RE (None, a @ '':0x3ffb1f60'', []) (a, (last_char None a, '':0x3ffb1f60'', [(1, a)]))"
    unfolding PC_TOKEN_RE_def by (intro hits_Group hits_hexnum [OF assms]) simp
  from search_from_hit [OF this] show ?thesis
    unfolding findall_first search_def frame_text_def by simp
qed

lemma parse_backtrace_frames:
  assumes "list_all hex_addr as" and "as \<noteq> []" and "absent True ''Backtrace:'' u (''Backtrace: '' @ frames_text as @ [newline, newline] @ t)"
    and "stops (\<lambda>c. same_char True c (CHR ''0'') \<or> is_space c) t"
  shows "parse_backtrace (u @ ''Backtrace: '' @ frames_text as @ [newline, newline] @ t) = as"
proof -
  obtain a as' where as: "as = a # as'" using assms(2) by (cases as) auto
  have none: "mt True frame (b, t, g) = []" for b g
    using assms(4) by (cases t) (auto simp: frame_def hexnum_def stops_def)
  have st: "stops is_space t" using assms(4) by (cases t) auto
  have sp: "list_all is_space '' ''" by code_simp
  have start: "stops is_space (frames_text as @ v)" for v
    using frame_text_space [of a] assms(1) as by (cases as') (simp_all add: frames_text_def)
  have lab: "''Backtrace: '' = ''Backtrace:'' @ '' ''" by simp
  have plus: "hits True (Plus frame) (b, frames_text as @ [newline, newline] @ t, [])
     (frames_text as @ [newline, newline], (last_char b (frames_text as @ [newline, newline]), t, []))" for b
    using hits_frames(1) [OF assms(1) [unfolded as] none st] unfolding as .
  have h: "hits True BACKTRACE_RE (last_char None u, ''Backtrace:'' @ '' '' @ frames_text as @ [newline, newline] @ t, [])
     (''Backtrace:'' @ '' '' @ frames_text as @ [newline, newline],
       (last_char (last_char (last_char (last_char None u) ''Backtrace:'') '' '') (frames_text as @ [newline, newline]), t,
         (1, frames_text as @ [newline, newline]) # []))"
    unfolding BACKTRACE_RE_def seqs.simps frame_def [unfolded seqs.simps, symmetric]
    unfolding ws_def
    by (rule hits_Seq [OF hits_Lit], rule hits_Seq [OF hits_Star [OF sp start]], rule hits_Group, rule plus)
  have nd: "needs True BACKTRACE_RE ''Backtrace:''" by (simp add: BACKTRACE_RE_def needs_Lit)
  have "find_group True BACKTRACE_RE 1 (u @ ''Backtrace:'' @ '' '' @ frames_text as @ [newline, newline] @ t) =
      Some (frames_text as @ [newline, newline])"
    by (rule find_group_hit(1) [OF nd assms(3) [unfolded lab append_assoc] h])
  moreover have "concat (map (\<lambda>token. case findall False PC_TOKEN_RE token of [] \<Rightarrow> [] | m # _ \<Rightarrow> [rm_text m]) (map frame_text as)) = as"
    using assms(1)
  proof (induction as)
    case (Cons b bs)
    then show ?case using token_pc [of b] by simp
  qed simp
  moreover have "words (frames_text as @ [newline, newline]) = map frame_text as" using words_frames [of a as'] assms(1) as by simp
  ultimately show ?thesis unfolding parse_backtrace_def lab append_assoc by simp
qed

lemma guru_backtrace:
  assumes "plain_reason r" and "hex_addr pc" and "hex_addr addr" and "list_all hex_addr frames" and "frames \<noteq> []"
  shows "parse_backtrace (guru_text r pc cause addr frames (end_text fw build uptime)) = frames"
proof -
  let ?hx = "''0x'' @ hex_digits 8 cause"
  have hx: "hex_addr ?hx" by (rule hex_addr_digits) simp
  let ?u = "guru_1 @ r @ guru_2 @ ''PC      : '' @ pc @ guru_3 @ ''EXCCAUSE: '' @ ?hx @ ''  '' @ ''EXCVADDR: '' @ addr @ [newline, newline]"
  have low: "list_all (\<lambda>c. to_lower c \<noteq> CHR ''k'') (take 3 (guru_3 @ u))" "list_all (\<lambda>c. to_lower c \<noteq> CHR ''k'') (take 3 (''  '' @ ''EXCVADDR: '' @ u))"
    "list_all (\<lambda>c. to_lower c \<noteq> CHR ''k'') (take 3 ([newline, newline] @ ''Backtrace: '' @ u))" for u by code_simp+
  have ab: "absent True ''Backtrace:'' ?u (''Backtrace: '' @ v)" for v
    by (simp only: absent_append append_assoc label_chunks reason_no_label [OF assms(1)] addr_no_label(3) [OF assms(2) low(1)]
        addr_no_label(3) [OF hx low(2), unfolded absent_append append_assoc] addr_no_label(3) [OF assms(3) low(3)] simp_thms)
  have st: "stops (\<lambda>c. same_char True c (CHR ''0'') \<or> is_space c) (end_text fw build uptime)" unfolding end_text_def by code_simp
  have raw: "guru_text r pc cause addr frames (end_text fw build uptime) =
      ?u @ ''Backtrace: '' @ frames_text frames @ [newline, newline] @ end_text fw build uptime"
    by (simp add: guru_text_def)
  show ?thesis unfolding raw by (rule parse_backtrace_frames [OF assms(4,5) ab st])
qed

text \<open>A guru meditation is read back field by field.\<close>

lemma parse_guru_text:
  assumes "plain_reason r" and "hex_addr pc" and "hex_addr addr" and "list_all hex_addr frames" and "frames \<noteq> []"
    and "clear fw" and "clear build" and "cause < 16 ^ 8"
    and p_def: "p = parse (guru_text r pc cause addr frames (end_text fw build uptime))"
  shows "pr_panic p = ''guru_meditation''" "pr_cpu p = Some 1" "pr_cause p = Some (int cause)" "pr_addr p = Some addr"
    "pr_pc p = Some pc" "pr_backtrace p = frames" "pr_abort p = None"
proof -
  let ?raw = "guru_text r pc cause addr frames (end_text fw build uptime)"
  have g: "found True GURU_RE ?raw" "find_group False CPU_RE 1 ?raw = Some ''1''"
    by (simp_all only: guru_text_def guru_found guru_cpu)
  have p: "p = parse_guru ?raw"
    using unmarked_not_found [OF unmarked_guru [OF assms(1-4,6,7)]] g(1) by (simp add: p_def parse_def)
  have one: "py_int ''1'' = Some 1" by code_simp
  have pre: "take 2 (''0x'' @ hex_digits 8 cause) = ''0x''" by (simp add: numeral_2_eq_2)
  note f = guru_fields [OF assms(1-3)]
  show "pr_panic p = ''guru_meditation''" "pr_cpu p = Some 1" "pr_cause p = Some (int cause)" "pr_addr p = Some addr"
    "pr_pc p = Some pc" "pr_backtrace p = frames" "pr_abort p = None"
    unfolding p parse_guru_def using g(2) one pre f guru_backtrace [OF assms(1-5)] py_hex_digits [OF assms(8)]
    by (simp_all add: no_fields_def)
qed


section \<open>The abort\<close>

definition plain_message :: "string \<Rightarrow> bool" where
  "plain_message m \<longleftrightarrow> list_all (\<lambda>c. to_lower c \<notin> set ''wk'' \<and> c \<noteq> newline) m \<and>
     (case m of [] \<Rightarrow> False | c # _ \<Rightarrow> \<not> is_space c) \<and> (case rev m of [] \<Rightarrow> False | c # _ \<Rightarrow> \<not> is_space c)"

definition abort_text :: "string \<Rightarrow> string \<Rightarrow> string list \<Rightarrow> string \<Rightarrow> string" where
  "abort_text m pc frames t = ''assert failed: '' @ m @ [newline, newline] @ ''abort() was called at PC '' @ pc @
     '' on core 1'' @ [newline, newline] @ ''Backtrace: '' @ frames_text frames @ [newline, newline] @ t"

lemma build_raw_abort:
  assumes "sc_panic sc = Some ''abort''" and "sc_assert sc = Some (''assert failed: '' @ m)"
  shows "build_raw sc fw build uptime = abort_text m (sc_pc sc) (sc_backtrace sc) (end_text fw build uptime)"
  using assms by (simp add: build_raw_def abort_text_def end_text_def nl_def newline_def frames_line_def frames_text_def
      frame_text_def [abs_def])

lemma strip_message: "plain_message m \<Longrightarrow> strip m = m"
proof -
  have id: "dropWhile is_space t = t" if "case t of [] \<Rightarrow> False | c # _ \<Rightarrow> \<not> is_space c" for t
    using that by (cases t) auto
  show "plain_message m \<Longrightarrow> strip m = m"
    using id [of m] id [of "rev m"] by (auto simp: plain_message_def strip_def lstrip_def)
qed

definition wait_markers :: "string list" where
  "wait_markers = take 4 markers"

lemma wait_markers_eq: "wait_markers = [''Brownout detector was triggered'', ''Task watchdog got triggered'', ''Interrupt wdt timeout'', ''TWDT'']"
  by (simp add: wait_markers_def markers_def)

lemma wait_markers_sub: "set wait_markers \<subseteq> set markers"
  by (simp add: wait_markers_def set_take_subset)

lemma not_watchdog:
  assumes "free wait_markers raw"
  shows "\<not> found True BROWNOUT_RE raw" "\<not> found True WDT_RE raw"
proof -
  have n: "\<not> has_lit True ''Brownout detector was triggered'' raw" "\<not> has_lit True ''Task watchdog got triggered'' raw"
    "\<not> has_lit True ''Interrupt wdt timeout'' raw" "\<not> has_lit True ''TWDT'' raw"
    using assms by (auto simp: free_def wait_markers_eq)
  have tw: "search_from True (Seq (Lit ''Guru Meditation Error'') (Seq (LazyStar dot) (Lit ''TWDT''))) b raw = None" for b
    using n(4) search_from_ends_Lit by blast
  show "\<not> found True BROWNOUT_RE raw" using n by (simp add: found_def search_def BROWNOUT_RE_def search_from_Lit)
  show "\<not> found True WDT_RE raw" using n tw by (simp add: found_def search_def WDT_RE_def search_from_Lit search_from_Alt)
qed

lemma message_absent:
  assumes "plain_message m"
  shows "list_all (\<lambda>s. absent True s m ([newline, newline] @ ''abort() was called at PC '' @ t)) wait_markers"
    "absent True ''abort() was called at PC'' m ([newline, newline] @ ''abort() was called at PC'' @ t)"
    "absent True ''Backtrace:'' m ([newline, newline] @ ''abort() was called at PC '' @ t)"
proof -
  have low: "to_lower (CHR ''w'') = CHR ''w''" "to_lower (CHR ''W'') = CHR ''w''" "to_lower (CHR ''k'') = CHR ''k''" by code_simp+
  have m: "list_all (\<lambda>c. to_lower c \<noteq> CHR ''w'') m" "list_all (\<lambda>c. to_lower c \<noteq> CHR ''k'') m"
    using assms by (auto simp: plain_message_def list_all_iff)
  have t: "list_all (\<lambda>c. to_lower c \<noteq> CHR ''w'') (take 10 ([newline, newline] @ ''abort() was called at PC '' @ t))"
    "list_all (\<lambda>c. to_lower c \<noteq> CHR ''w'') (take 8 ([newline, newline] @ ''abort() was called at PC'' @ t))"
    "list_all (\<lambda>c. to_lower c \<noteq> CHR ''k'') (take 3 ([newline, newline] @ ''abort() was called at PC '' @ t))" by code_simp+
  have sub: "list_all P (take k u)" if "list_all P (take n u)" "k \<le> n" for P k n and u :: string
    using that set_take_subset_set_take [of k n u] by (auto simp: list_all_iff)
  have "absent True ''Brownout detector was triggered'' m ([newline, newline] @ ''abort() was called at PC '' @ t)"
    using m sub [OF t(1), of 3] by (intro absent_char [where k = 3]) (simp_all add: same_char_def low)
  moreover have "absent True ''Task watchdog got triggered'' m ([newline, newline] @ ''abort() was called at PC '' @ t)"
    using m sub [OF t(1), of 5] by (intro absent_char [where k = 5]) (simp_all add: same_char_def low)
  moreover have "absent True ''Interrupt wdt timeout'' m ([newline, newline] @ ''abort() was called at PC '' @ t)"
    using m t(1) by (intro absent_char [where k = 10]) (simp_all add: same_char_def low)
  moreover have "absent True ''TWDT'' m ([newline, newline] @ ''abort() was called at PC '' @ t)"
    using m sub [OF t(1), of 1] by (intro absent_char [where k = 1]) (simp_all add: same_char_def low)
  ultimately show "list_all (\<lambda>s. absent True s m ([newline, newline] @ ''abort() was called at PC '' @ t)) wait_markers"
    unfolding wait_markers_eq by simp
  show "absent True ''abort() was called at PC'' m ([newline, newline] @ ''abort() was called at PC'' @ t)"
    using m t(2) by (intro absent_char [where k = 8]) (simp_all add: same_char_def low)
  show "absent True ''Backtrace:'' m ([newline, newline] @ ''abort() was called at PC '' @ t)"
    using m t(3) by (intro absent_char [where k = 3]) (simp_all add: same_char_def low)
qed

lemma abort_chunks:
  "list_all (\<lambda>s. absent True s ''assert failed: '' t) wait_markers" "list_all (\<lambda>s. absent True s [newline, newline] t) wait_markers"
  "list_all (\<lambda>s. absent True s ''abort() was called at PC '' t) wait_markers" "list_all (\<lambda>s. absent True s '' on core 1'' t) wait_markers"
  "list_all (\<lambda>s. absent True s ''Backtrace: '' t) wait_markers"
  by code_simp+

lemma abort_not_watchdog:
  assumes "plain_message m" and "hex_addr pc" and "list_all hex_addr frames" and "clear fw" and "clear build"
  shows "free wait_markers (abort_text m pc frames (end_text fw build uptime))"
proof -
  have cl: "closes ('' on core 1'' @ t)" for t by code_simp
  have nd: "free wait_markers (end_text fw build uptime)"
    using free_subset [OF unmarked_end [OF assms(4,5)] wait_markers_sub] .
  show ?thesis unfolding abort_text_def
    by (intro unmarked_chunk [OF abort_chunks(1)] unmarked_chunk [OF message_absent(1) [OF assms(1)]] unmarked_chunk [OF abort_chunks(2)]
        unmarked_chunk [OF abort_chunks(3)] free_clear [OF wait_markers_sub clear_addr [OF assms(2)] cl] unmarked_chunk [OF abort_chunks(4)]
        unmarked_chunk [OF abort_chunks(5)] free_clear [OF wait_markers_sub clear_frames [OF assms(3)] guru_closes(4)] nd)
qed

lemma parse_abort_text:
  assumes "plain_message m" and "hex_addr pc" and "list_all hex_addr frames" and "frames \<noteq> []" and "clear fw" and "clear build"
    and p_def: "p = parse (abort_text m pc frames (end_text fw build uptime))"
  shows "pr_panic p = ''abort''" "pr_abort p = Some (''assert failed: '' @ m)" "pr_pc p = Some pc" "pr_backtrace p = frames"
    "pr_cause p = None" "pr_addr p = None"
proof -
  let ?raw = "abort_text m pc frames (end_text fw build uptime)"
  let ?tl = "'' on core 1'' @ [newline, newline] @ ''Backtrace: '' @ frames_text frames @ [newline, newline] @ end_text fw build uptime"
  have raw: "?raw = ''assert failed:'' @ '' '' @ m @ [newline, newline] @ ''abort() was called at PC'' @ '' '' @ pc @ ?tl"
    by (simp add: abort_text_def)
  have "has_lit True ''assert failed:'' ?raw" unfolding raw by simp
  then have fa: "found True ABORT_RE ?raw"
    by (simp add: found_def search_def ABORT_RE_def search_from_Alt search_from_Lit del: not_None_eq)
  have p: "p = parse_abort ?raw"
    using not_watchdog [OF abort_not_watchdog [OF assms(1,2,3,5,6)]] fa by (simp add: p_def parse_def)
  have sp: "list_all is_space '' ''" "\<not> is_hex (CHR '' '')" by code_simp+
  obtain c m' where m: "m = c # m'" "\<not> is_space c" using assms(1) by (cases m) (auto simp: plain_message_def)
  have dots: "list_all (\<lambda>c. c \<noteq> newline) m" using assms(1) by (simp add: plain_message_def list_all_iff)
  have nm: "needs False ASSERT_MSG_RE ''assert failed:''" by (simp add: ASSERT_MSG_RE_def needs_Lit)
  let ?rl = "[newline, newline] @ ''abort() was called at PC'' @ '' '' @ pc @ ?tl"
  have m1: "stops is_space (m @ ?rl)" "m \<noteq> []" "stops (\<lambda>c. c \<noteq> newline) ?rl" using m by simp_all
  have hm: "hits False ASSERT_MSG_RE (last_char None [], ''assert failed:'' @ '' '' @ m @ ?rl, [])
     (''assert failed:'' @ '' '' @ m, (last_char (last_char (last_char (last_char None []) ''assert failed:'') '' '') m, ?rl, (1, m) # []))"
    unfolding ASSERT_MSG_RE_def seqs.simps ws_def dot_def
    by (rule hits_Seq [OF hits_Lit], rule hits_Seq [OF hits_Star [OF sp(1) m1(1)]], rule hits_Group, rule hits_Plus [OF m1(2) dots m1(3)])
  have "find_group False ASSERT_MSG_RE 1 ([] @ ''assert failed:'' @ '' '' @ m @ ?rl) = Some m"
    by (rule find_group_hit(1) [OF nm absent.simps(1) [THEN iffD2, OF TrueI] hm])
  then have msg: "find_group False ASSERT_MSG_RE 1 ?raw = Some m" using raw by simp
  let ?u = "''assert failed: '' @ m @ [newline, newline]"
  have raw2: "?raw = ?u @ ''abort() was called at PC'' @ '' '' @ pc @ ?tl" by (simp add: raw)
  have ab: "absent True ''abort() was called at PC'' ?u (''abort() was called at PC'' @ v)" for v
  proof -
    have "absent True ''abort() was called at PC'' ''assert failed: '' x" "absent True ''abort() was called at PC'' [newline, newline] x" for x
      by code_simp+
    then show ?thesis using message_absent(2) [OF assms(1), of v] by (simp only: absent_append append_assoc simp_thms)
  qed
  have nd: "needs True ABORT_PC_RE ''abort() was called at PC''" by (simp add: ABORT_PC_RE_def needs_Lit)
  have "hits True ABORT_PC_RE (last_char None ?u, ''abort() was called at PC'' @ '' '' @ pc @ ?tl, [])
     (''abort() was called at PC'' @ '' '' @ pc, (last_char (last_char (last_char (last_char None ?u) ''abort() was called at PC'') '' '') pc, ?tl, (1, pc) # []))"
    unfolding ABORT_PC_RE_def seqs.simps ws_def
    by (rule hits_Seq [OF hits_Lit], rule hits_Seq [OF hits_Star [OF sp(1) addr_start [OF assms(2)]]], rule hits_Group, rule hits_hexnum [OF assms(2)])
      (simp add: sp)
  from find_group_hit(1) [OF nd ab this] have pc: "find_group True ABORT_PC_RE 1 ?raw = Some pc" unfolding raw2 .
  let ?v = "''assert failed: '' @ m @ [newline, newline] @ ''abort() was called at PC '' @ pc @ '' on core 1'' @ [newline, newline]"
  have raw3: "?raw = ?v @ ''Backtrace: '' @ frames_text frames @ [newline, newline] @ end_text fw build uptime"
    by (simp add: abort_text_def)
  have bt: "absent True ''Backtrace:'' ?v (''Backtrace: '' @ x)" for x
  proof -
    have k: "list_all (\<lambda>c. to_lower c \<noteq> CHR ''k'') (take 3 ('' on core 1'' @ y))" for y by code_simp
    have ch: "absent True ''Backtrace:'' ''assert failed: '' y" "absent True ''Backtrace:'' [newline, newline] y"
      "absent True ''Backtrace:'' ''abort() was called at PC '' y" "absent True ''Backtrace:'' '' on core 1'' y" for y by code_simp+
    show ?thesis
      by (simp only: absent_append append_assoc ch message_absent(3) [OF assms(1)] addr_no_label(3) [OF assms(2) k] simp_thms)
  qed
  have st: "stops (\<lambda>c. same_char True c (CHR ''0'') \<or> is_space c) (end_text fw build uptime)" unfolding end_text_def by code_simp
  have btr: "parse_backtrace ?raw = frames" unfolding raw3 by (rule parse_backtrace_frames [OF assms(3,4) bt st])
  show "pr_panic p = ''abort''" "pr_abort p = Some (''assert failed: '' @ m)" "pr_pc p = Some pc" "pr_backtrace p = frames"
    "pr_cause p = None" "pr_addr p = None"
    unfolding p parse_abort_def using msg pc btr strip_message [OF assms(1)] by (simp_all add: no_fields_def)
qed


section \<open>The watchdog\<close>

lemma parse_watchdog_text:
  assumes "list_all (\<lambda>c. to_lower c \<noteq> CHR ''w'') tsk" and "list_all hex_addr frames" and "clear fw" and "clear build"
    and p_def: "p = parse (''E ('' @ show_int n @ '') task_wdt: '' @ ''Task watchdog got triggered'' @
      ''. The following tasks did not reset the watchdog in time:'' @ [newline] @ ''E task_wdt:  - '' @ tsk @ '' (CPU 1)'' @ [newline] @
      ''Backtrace: '' @ frames_text frames @ [newline] @ ''ELF file SHA256: '' @ build @ (newline # ''nff: fw='') @ fw @
      (newline # ''Rebooting...'' @ [newline]))"
  shows "pr_panic p = ''idf_watchdog''" "pr_backtrace p = []" "pr_pc p = None" "pr_cause p = None" "pr_addr p = None"
    "pr_abort p = None"
proof -
  let ?b = "[''Brownout detector was triggered'']"
  let ?tl = "''. The following tasks did not reset the watchdog in time:'' @ [newline] @ ''E task_wdt:  - '' @ tsk @ '' (CPU 1)'' @ [newline] @
      ''Backtrace: '' @ frames_text frames @ [newline] @ ''ELF file SHA256: '' @ build @ (newline # ''nff: fw='') @ fw @
      (newline # ''Rebooting...'' @ [newline])"
  let ?raw = "''E ('' @ show_int n @ '') task_wdt: '' @ ''Task watchdog got triggered'' @ ?tl"
  have sub: "set ?b \<subseteq> set markers" by (simp add: markers_def)
  have ch: "list_all (\<lambda>s. absent True s ''E ('' t) ?b" "list_all (\<lambda>s. absent True s '') task_wdt: '' t) ?b"
    "list_all (\<lambda>s. absent True s ''Task watchdog got triggered'' t) ?b"
    "list_all (\<lambda>s. absent True s ''. The following tasks did not reset the watchdog in time:'' t) ?b"
    "list_all (\<lambda>s. absent True s [newline] t) ?b" "list_all (\<lambda>s. absent True s ''E task_wdt:  - '' t) ?b"
    "list_all (\<lambda>s. absent True s '' (CPU 1)'' t) ?b" "list_all (\<lambda>s. absent True s ''Backtrace: '' t) ?b"
    "list_all (\<lambda>s. absent True s ''ELF file SHA256: '' t) ?b" "list_all (\<lambda>s. absent True s (newline # ''nff: fw='') t) ?b" for t
    by code_simp+
  have en: "free ?b (newline # ''Rebooting...'' @ [newline])"
  proof -
    have "list_all (\<lambda>s. absent True s (newline # ''Rebooting...'' @ [newline]) []) ?b" by code_simp
    from unmarked_chunk [OF this free_subset [OF unmarked_Nil sub]] show ?thesis by simp
  qed
  have cl: "closes ('') task_wdt: '' @ t)" "closes ([newline] @ ''ELF file SHA256: '' @ t)" "closes ((newline # ''nff: fw='') @ t)"
    "closes (newline # ''Rebooting...'' @ [newline])" for t by code_simp+
  have low: "to_lower (CHR ''w'') = CHR ''w''" by code_simp
  have "list_all (\<lambda>c. to_lower c \<noteq> CHR ''w'') (take 3 ('' (CPU 1)'' @ t))" for t by code_simp
  then have tk: "list_all (\<lambda>s. absent True s tsk ('' (CPU 1)'' @ t)) ?b" for t
    using assms(1) by (simp del: absent.simps) (intro absent_char [where k = 3]; simp add: same_char_def low)
  have "free ?b ?raw"
    by (intro unmarked_chunk [OF ch(1)] free_clear [OF sub clear_int cl(1)] unmarked_chunk [OF ch(2)] unmarked_chunk [OF ch(3)]
        unmarked_chunk [OF ch(4)] unmarked_chunk [OF ch(5)] unmarked_chunk [OF ch(6)] unmarked_chunk [OF tk] unmarked_chunk [OF ch(7)]
        unmarked_chunk [OF ch(5)] unmarked_chunk [OF ch(8)] free_clear [OF sub clear_frames [OF assms(2)] cl(2)] unmarked_chunk [OF ch(5)]
        unmarked_chunk [OF ch(9)] free_clear [OF sub assms(4) cl(3)] unmarked_chunk [OF ch(10)] free_clear [OF sub assms(3) cl(4)] en)
  then have "\<not> has_lit True ''Brownout detector was triggered'' ?raw" unfolding free_def by (meson list.set_intros(1))
  then have nb: "\<not> found True BROWNOUT_RE ?raw" unfolding found_def search_def BROWNOUT_RE_def search_from_Lit by blast
  have "lit_at True ''Task watchdog got triggered'' (''Task watchdog got triggered'' @ ?tl)" by simp
  then have "has_lit True ''Task watchdog got triggered'' ?raw" unfolding has_lit_iff by (metis append_assoc)
  then have fw: "found True WDT_RE ?raw"
    unfolding found_def search_def WDT_RE_def search_from_Alt search_from_Lit by blast
  have "p = parse_watchdog ?raw" using nb fw by (simp only: p_def parse_def if_True if_False not_False_eq_True)
  then show "pr_panic p = ''idf_watchdog''" "pr_backtrace p = []" "pr_pc p = None" "pr_cause p = None" "pr_addr p = None"
    "pr_abort p = None"
    by (simp_all add: parse_watchdog_def no_fields_def)
qed


section \<open>The catalog\<close>

text \<open>What makes a scenario printable: an executable check, which every scenario of the catalog passes.\<close>

definition printable :: "scenario \<Rightarrow> bool" where
  "printable sc \<longleftrightarrow> hex_addr (sc_pc sc) \<and> list_all hex_addr (sc_backtrace sc) \<and> sc_backtrace sc \<noteq> [] \<and>
     (if sc_panic sc = None then plain_reason (sc_reason sc) \<and> sc_assert sc = None \<and>
        (case sc_fault_addr sc of None \<Rightarrow> False | Some a \<Rightarrow> hex_addr a) \<and>
        (case sc_cause sc of None \<Rightarrow> False | Some c \<Rightarrow> 0 \<le> c \<and> c < 16 ^ 8)
      else sc_cause sc = None \<and> sc_fault_addr sc = None \<and>
       (if sc_panic sc = Some ''abort'' then
          (case sc_assert sc of None \<Rightarrow> False | Some a \<Rightarrow> take 15 a = ''assert failed: '' \<and> plain_message (drop 15 a))
        else sc_panic sc = Some ''idf_watchdog'' \<and> sc_assert sc = None \<and> list_all (\<lambda>c. to_lower c \<noteq> CHR ''w'') (sc_task sc)))"

text \<open>What the parser should find of a scenario; a watchdog dump keeps neither its backtrace nor the address.\<close>

definition read_back :: "scenario \<Rightarrow> parsed \<Rightarrow> bool" where
  "read_back sc p \<longleftrightarrow> pr_panic p = or_else (sc_panic sc) ''guru_meditation'' \<and> pr_cause p = sc_cause sc \<and>
     pr_addr p = sc_fault_addr sc \<and> pr_abort p = sc_assert sc \<and>
     (if sc_panic sc = Some ''idf_watchdog'' then pr_pc p = None \<and> pr_backtrace p = []
      else pr_pc p = Some (sc_pc sc) \<and> pr_backtrace p = sc_backtrace sc)"

lemma printable_panic:
  "printable sc \<Longrightarrow> sc_panic sc = None \<or> sc_panic sc = Some ''abort'' \<or> sc_panic sc = Some ''idf_watchdog''"
  by (cases "sc_panic sc = None"; cases "sc_panic sc = Some ''abort''"; simp add: printable_def)

lemma parse_build_raw:
  assumes "printable sc" and "clear fw" and "clear build"
  shows "read_back sc (parse (build_raw sc fw build uptime))"
proof -
  have pr: "hex_addr (sc_pc sc)" "list_all hex_addr (sc_backtrace sc)" "sc_backtrace sc \<noteq> []" using assms(1) by (simp_all add: printable_def)
  from printable_panic [OF assms(1)] show ?thesis
  proof (elim disjE, goal_cases)
    case 1
    with assms(1) obtain a c where g: "plain_reason (sc_reason sc)" "sc_assert sc = None" "sc_fault_addr sc = Some a" "hex_addr a"
      "sc_cause sc = Some c" "0 \<le> c" "c < 16 ^ 8"
      by (auto simp: printable_def split: option.splits)
    have raw: "build_raw sc fw build uptime = guru_text (sc_reason sc) (sc_pc sc) (nat c) a (sc_backtrace sc) (end_text fw build uptime)"
      using build_raw_guru [of sc fw build uptime] 1 g(3-5) by (auto simp: hex_addr_def or_else_def)
    have "nat c < 16 ^ 8" using g(6,7) by (simp add: nat_less_iff)
    from parse_guru_text [OF g(1) pr(1) g(4) pr(2,3) assms(2,3) this refl, of uptime] show ?thesis
      using 1 g by (simp add: read_back_def raw)
  next
    case 2
    with assms(1) obtain a where a: "sc_assert sc = Some a" "take 15 a = ''assert failed: ''" "plain_message (drop 15 a)"
      and n: "sc_cause sc = None" "sc_fault_addr sc = None"
      by (auto simp: printable_def split: option.splits)
    then have "a = ''assert failed: '' @ drop 15 a" by (metis append_take_drop_id)
    then have m: "sc_assert sc = Some (''assert failed: '' @ drop 15 a)" using a(1) by simp
    from parse_abort_text [OF a(3) pr assms(2,3) refl, of uptime] show ?thesis
      unfolding build_raw_abort [OF 2 m] using 2 m n by (simp add: read_back_def)
  next
    case 3
    with assms(1) have w: "list_all (\<lambda>c. to_lower c \<noteq> CHR ''w'') (sc_task sc)" "sc_cause sc = None" "sc_fault_addr sc = None"
      "sc_assert sc = None"
      by (auto simp: printable_def)
    have raw: "build_raw sc fw build uptime = ''E ('' @ show_int uptime @ '') task_wdt: '' @ ''Task watchdog got triggered'' @
      ''. The following tasks did not reset the watchdog in time:'' @ [newline] @ ''E task_wdt:  - '' @ sc_task sc @ '' (CPU 1)'' @ [newline] @
      ''Backtrace: '' @ frames_text (sc_backtrace sc) @ [newline] @ ''ELF file SHA256: '' @ build @ (newline # ''nff: fw='') @ fw @
      (newline # ''Rebooting...'' @ [newline])"
      using 3 by (simp add: build_raw_def nl_def newline_def frames_line_def frames_text_def frame_text_def [abs_def])
    from parse_watchdog_text [OF w(1) pr(2) assms(2,3) refl, of uptime] show ?thesis
      unfolding raw using 3 w by (simp add: read_back_def)
  qed
qed

lemma catalog_printable: "list_all (\<lambda>(sid, sc). printable sc) SCENARIOS"
  by code_simp

text \<open>The class each scenario of the catalog is diagnosed as.\<close>

definition catalog_class :: "string \<Rightarrow> crash_class" where
  "catalog_class sid =
     (if sid = ''stack_overflow'' then StackOverflow else if sid = ''heap_leak'' then HeapCorruption
      else if sid = ''divide_by_zero'' then DivideByZero else if sid = ''unaligned_access'' then UnalignedAccess
      else if sid = ''assert_failed'' then AssertFailed else if sid = ''watchdog'' then Watchdog else NullDeref)"

definition class_of_scenario :: "scenario \<Rightarrow> crash_class" where
  "class_of_scenario sc = (case sc_panic sc of
      None \<Rightarrow> class_of_cause (sc_cause sc) (sc_fault_addr sc) (sc_backtrace sc)
    | Some p \<Rightarrow> if p = ''idf_watchdog'' then Watchdog else AssertFailed)"

lemma catalog_classes: "list_all (\<lambda>(sid, sc). class_of_scenario sc = catalog_class sid) SCENARIOS"
  by code_simp

lemma class_of_read_back:
  assumes "printable sc" and "read_back sc (parse raw)"
  shows "cl_class (classify (crash_of i now build dev raw)) = class_of_scenario sc"
proof -
  have f: "cr_panic (crash_of i now build dev raw) = or_else (sc_panic sc) ''guru_meditation''"
    "cr_cause (crash_of i now build dev raw) = sc_cause sc" "cr_addr (crash_of i now build dev raw) = sc_fault_addr sc"
    "sc_panic sc = None \<Longrightarrow> cr_backtrace (crash_of i now build dev raw) = sc_backtrace sc"
    using assms(2) by (simp_all add: read_back_def crash_of_def Let_def)
  from printable_panic [OF assms(1)] show ?thesis
  proof (elim disjE, goal_cases)
    case 1
    then show ?thesis using classify_cause [of "crash_of i now build dev raw"] f by (simp add: class_of_scenario_def)
  qed (use f classify_panic [of "crash_of i now build dev raw"] in \<open>simp_all add: class_of_scenario_def\<close>)
qed

text \<open>
  C26. What nff-mock prints, nff-diagnosis reads. For every scenario of the catalog and any version and build
  id without the letters i, s, w and the parenthesis, parsing the printed dump gives back the panic type, the exception
  cause, the fault address, the abort message, the program counter and the backtrace of the scenario, except that a watchdog
  dump loses its program counter and backtrace; and the classifier names the scenario's class.
\<close>

theorem catalog_read_back:
  assumes "(sid, sc) \<in> set SCENARIOS" and "clear fw" and "clear build"
  shows "read_back sc (parse (build_raw sc fw build uptime)) \<and>
    cl_class (classify (crash_of i now build_id dev (build_raw sc fw build uptime))) = catalog_class sid"
proof -
  have p: "printable sc" using catalog_printable assms(1) by (auto simp: list_all_iff)
  have c: "class_of_scenario sc = catalog_class sid" using catalog_classes assms(1) by (auto simp: list_all_iff)
  have r: "read_back sc (parse (build_raw sc fw build uptime))" by (rule parse_build_raw [OF p assms(2,3)])
  show ?thesis using r class_of_read_back [OF p r] c by simp
qed

theorem catalog_read_back_witness:
  "pr_backtrace (parse (build_raw null_deref ''1.0.0'' ''beef'' 5000)) = sc_backtrace null_deref \<and>
   cl_class (classify (crash_of ''c'' 0 ''beef'' None (build_raw null_deref ''1.0.0'' ''beef'' 5000))) = NullDeref"
proof -
  have m: "(''null_deref'', null_deref) \<in> set SCENARIOS" by (simp add: SCENARIOS_def)
  have c: "clear ''1.0.0''" "clear ''beef''" by code_simp+
  have p: "sc_panic null_deref = None" by (simp add: null_deref_def)
  from catalog_read_back [OF m c, of 5000 "''c''" 0 "''beef''" None] p show ?thesis
    by (simp add: read_back_def catalog_class_def)
qed

end
