(* ===== verification/Diagnosis.thy ===== *)
theory Diagnosis
  imports Panic_Parser
begin

text \<open>
  nff-diagnosis' pipeline: the symbol resolver (\<open>resolution/addr2line.py\<close>), the diagnosis engine
  (\<open>engine/diagnosis.py\<close>), the crash and diagnosis tables (\<open>storage/\<close>), the store of ELF files
  (\<open>store/local.py\<close>) and \<open>run_pipeline\<close> with its two routes (\<open>server/\<close>). \<open>addr2line\<close>, the language
  model and SHA-256 are parameters; that a record survives its JSON text is pydantic's.

  The lemmas: the resolved backtrace follows the raw one frame by frame; paging through the table returns every
  crash; the pipeline keeps the tables keyed, and a crash whose explanation failed is stored without a diagnosis.
\<close>

section \<open>Resolving symbols\<close>

record resolved =
  rf_pc :: string
  rf_function :: "string option"
  rf_file :: "string option"
  rf_line :: "int option"

definition bare :: "string \<Rightarrow> resolved" where
  "bare pc = \<lparr>rf_pc = pc, rf_function = None, rf_file = None, rf_line = None\<rparr>"

text \<open>\<open>hex(n)\<close>.\<close>

fun hex_nat :: "nat \<Rightarrow> string" where
  "hex_nat n = (if n < 16 then [hex_char n] else hex_nat (n div 16) @ [hex_char (n mod 16)])"

declare hex_nat.simps [simp del]

definition show_hex :: "int \<Rightarrow> string" where
  "show_hex n = (if n < 0 then ''-0x'' @ hex_nat (nat (- n)) else ''0x'' @ hex_nat (nat n))"

definition adjust_pc :: "string \<Rightarrow> string" where
  "adjust_pc addr = (case py_hex addr of None \<Rightarrow> addr | Some n \<Rightarrow> show_hex (n - 3))"

definition FRAME_RE :: rx where
  "FRAME_RE = seqs [Group 1 (LazyPlus dot), Lit '' at '', Group 2 (LazyPlus dot), Lit '':'', Group 3 (Plus digit), Finish]"

definition parse_frame :: "string \<Rightarrow> string \<Rightarrow> resolved" where
  "parse_frame addr line = (case try_at False FRAME_RE None (strip line) of
      None \<Rightarrow> bare addr
    | Some m \<Rightarrow> (let fn = or_else (group_of 1 m) []; file = or_else (group_of 2 m) [];
          lineno = (case Option.bind (group_of 3 m) py_int of None \<Rightarrow> 0 | Some n \<Rightarrow> n);
          known = file \<noteq> [] \<and> \<not> has_lit False ''??'' file in
        \<lparr>rf_pc = addr, rf_function = (if fn \<noteq> ''??'' then Some fn else None),
         rf_file = (if known then Some file else None),
         rf_line = (if lineno \<noteq> 0 \<and> known then Some lineno else None)\<rparr>))"

text \<open>The tool: the lines it prints for a file and a list of addresses, or \<open>None\<close> when it is not installed.\<close>

type_synonym addr2line = "string \<Rightarrow> string list \<Rightarrow> string list option"

definition resolve_addresses :: "addr2line \<Rightarrow> string option \<Rightarrow> string list \<Rightarrow> resolved list" where
  "resolve_addresses tool elf addresses = (case elf of
      None \<Rightarrow> map bare addresses
    | Some path \<Rightarrow> (case tool path (map adjust_pc addresses) of
        None \<Rightarrow> map bare addresses
      | Some lines \<Rightarrow> map (\<lambda>(a, l). parse_frame a l) (zip addresses lines) @ map bare (drop (length lines) addresses)))"

record location =
  lo_function :: string
  lo_file :: string
  lo_line :: "int option"

definition first_location :: "resolved list \<Rightarrow> location option" where
  "first_location fs = map_option (\<lambda>f. \<lparr>lo_function = the (rf_function f), lo_file = the (rf_file f), lo_line = rf_line f\<rparr>)
     (find (\<lambda>f. truthy (rf_function f) \<and> truthy (rf_file f)) fs)"

definition resolve_crash :: "addr2line \<Rightarrow> crash_record \<Rightarrow> string option \<Rightarrow> resolved list \<times> location option" where
  "resolve_crash tool c elf =
     (let addresses = (if truthy (cr_pc c) \<and> the (cr_pc c) \<notin> set (cr_backtrace c) then the (cr_pc c) # cr_backtrace c
                       else cr_backtrace c) in
      if addresses = [] then ([], None)
      else (let frames = resolve_addresses tool elf addresses;
                pc_to_frame = map_of (rev (map (\<lambda>f. (rf_pc f, f)) frames));
                bt = map (\<lambda>pc. case pc_to_frame pc of None \<Rightarrow> bare pc | Some f \<Rightarrow> f) (cr_backtrace c) in
            (bt, first_location bt)))"

lemma parse_frame_pc [simp]: "rf_pc (parse_frame a l) = a"
  by (simp add: parse_frame_def bare_def Let_def split: option.split)

lemma resolve_addresses_pcs: "map rf_pc (resolve_addresses tool elf as) = as"
proof (cases "Option.bind elf (\<lambda>path. tool path (map adjust_pc as))")
  case None
  then have "resolve_addresses tool elf as = map bare as"
    by (auto simp: resolve_addresses_def split: option.splits)
  then show ?thesis by (simp add: bare_def comp_def)
next
  case (Some lines)
  then have "resolve_addresses tool elf as =
      map (\<lambda>(a, l). parse_frame a l) (zip as lines) @ map bare (drop (length lines) as)"
    by (auto simp: resolve_addresses_def split: option.splits)
  moreover have "map (rf_pc \<circ> (\<lambda>(a, l). parse_frame a l)) (zip as lines) = take (length lines) as"
    by (induction as lines rule: list_induct2') simp_all
  ultimately show ?thesis by (simp add: bare_def comp_def)
qed

lemma resolve_crash_pcs: "map rf_pc (fst (resolve_crash tool c elf)) = cr_backtrace c"
proof -
  have pc: "rf_pc (case map_of (rev (map (\<lambda>f. (rf_pc f, f)) fs)) pc of None \<Rightarrow> bare pc | Some f \<Rightarrow> f) = pc" for fs pc
    by (auto simp: bare_def split: option.split dest!: map_of_SomeD)
  show ?thesis by (auto simp: resolve_crash_def Let_def comp_def pc)
qed

text \<open>The frame of the fault itself is looked up and then dropped, unless it is in the backtrace too.\<close>

lemma fault_pc_unused:
  "cr_backtrace c = [] \<Longrightarrow> resolve_crash tool c elf = ([], None)"
  by (simp add: resolve_crash_def Let_def first_location_def)


section \<open>Tables\<close>

record diagnosis =
  dg_crash_id :: string
  dg_class :: crash_class
  dg_root_cause :: string
  dg_location :: "location option"
  dg_backtrace :: "resolved list"
  dg_confidence :: rat
  dg_candidates :: "crash_class list"
  dg_family :: fault_family
  dg_symptom :: bool

text \<open>The two tables in the order of their row ids; \<open>INSERT OR REPLACE\<close> gives a known key a new row.\<close>

record storage =
  st_crashes :: "crash_record list"
  st_diagnoses :: "diagnosis list"

definition save_crash :: "crash_record \<Rightarrow> storage \<Rightarrow> storage" where
  "save_crash c s = s\<lparr>st_crashes := filter (\<lambda>d. cr_id d \<noteq> cr_id c) (st_crashes s) @ [c]\<rparr>"

definition save_diagnosis :: "diagnosis \<Rightarrow> storage \<Rightarrow> storage" where
  "save_diagnosis d s = s\<lparr>st_diagnoses := filter (\<lambda>e. dg_crash_id e \<noteq> dg_crash_id d) (st_diagnoses s) @ [d]\<rparr>"

definition get_crash :: "string \<Rightarrow> storage \<Rightarrow> crash_record option" where
  "get_crash i s = look_key cr_id i (st_crashes s)"

definition get_diagnosis :: "string \<Rightarrow> storage \<Rightarrow> diagnosis option" where
  "get_diagnosis i s = look_key dg_crash_id i (st_diagnoses s)"

text \<open>\<open>ORDER BY rowid DESC LIMIT ? OFFSET ?\<close>; SQLite reads a negative limit as none and a negative offset as 0.\<close>

definition list_crashes :: "int \<Rightarrow> int \<Rightarrow> storage \<Rightarrow> crash_record list" where
  "list_crashes limit offset s = (let rows = drop (nat offset) (rev (st_crashes s)) in
     if limit < 0 then rows else take (nat limit) rows)"

text \<open>The paging loop. It runs for ever on a negative batch, hence partial.\<close>

partial_function (option) iter_pages :: "int \<Rightarrow> storage \<Rightarrow> int \<Rightarrow> crash_record list \<Rightarrow> crash_record list option" where
  "iter_pages batch s offset out = (let page = list_crashes batch offset s in
     if page = [] then Some out
     else if int (length page) < batch then Some (out @ page)
     else iter_pages batch s (offset + batch) (out @ page))"

definition iter_all_crashes :: "int \<Rightarrow> storage \<Rightarrow> crash_record list option" where
  "iter_all_crashes batch s = iter_pages batch s 0 []"

lemma iter_pages_all:
  assumes "0 < batch" and "0 \<le> offset"
  shows "iter_pages batch s offset out = Some (out @ drop (nat offset) (rev (st_crashes s)))"
  using assms(2)
proof (induction "length (st_crashes s) - nat offset" arbitrary: offset out rule: less_induct)
  case less
  let ?rows = "drop (nat offset) (rev (st_crashes s))"
  have page: "list_crashes batch offset s = take (nat batch) ?rows" using assms(1) by (simp add: list_crashes_def)
  show ?case
  proof (cases "?rows = [] \<or> int (length (take (nat batch) ?rows)) < batch")
    case True
    then show ?thesis
    proof
      assume "?rows = []"
      then show ?thesis by (subst iter_pages.simps) (simp add: page Let_def)
    next
      assume short: "int (length (take (nat batch) ?rows)) < batch"
      then have "length ?rows < nat batch" by (simp add: min_def split: if_splits)
      then have "take (nat batch) ?rows = ?rows" by simp
      then show ?thesis using short by (subst iter_pages.simps) (simp add: page Let_def)
    qed
  next
    case False
    then have "\<not> int (min (length ?rows) (nat batch)) < batch" by simp
    then have len: "nat batch \<le> length ?rows" using assms(1) by linarith
    have off: "nat (offset + batch) = nat offset + nat batch" using assms(1) less.prems by (simp add: nat_add_distrib)
    have dec: "length (st_crashes s) - nat (offset + batch) < length (st_crashes s) - nat offset"
    proof -
      have "0 < nat batch" "nat batch \<le> length (st_crashes s) - nat offset" using len assms(1) by simp_all
      then show ?thesis unfolding off by linarith
    qed
    have "iter_pages batch s offset out = iter_pages batch s (offset + batch) (out @ take (nat batch) ?rows)"
      using False assms(1) by (subst iter_pages.simps) (simp add: page Let_def)
    also have "\<dots> = Some ((out @ take (nat batch) ?rows) @ drop (nat (offset + batch)) (rev (st_crashes s)))"
      using less.hyps [OF dec] assms(1) less.prems by simp
    also have "drop (nat (offset + batch)) (rev (st_crashes s)) = drop (nat batch) ?rows"
      unfolding off drop_drop by (simp only: add.commute)
    finally show ?thesis by (simp only: append_assoc append_take_drop_id)
  qed
qed



section \<open>The ELF store\<close>

record elf =
  el_build :: string
  el_customer :: string
  el_project :: string
  el_version :: string
  el_target :: string
  el_toolchain :: string
  el_path :: string

text \<open>
  The directories \<open>root/customer/project/build_id\<close>, in the order the file system lists them; the build id is the
  digest of the bytes. A record is looked up by its build id alone.
\<close>

definition elf_get :: "string \<Rightarrow> elf list \<Rightarrow> elf option" where
  "elf_get build es = look_key el_build build es"

definition elf_path :: "string \<Rightarrow> elf list \<Rightarrow> string option" where
  "elf_path build es = map_option el_path (elf_get build es)"

definition elf_put :: "(string \<Rightarrow> string) \<Rightarrow> (elf \<Rightarrow> string) \<Rightarrow> string \<Rightarrow> string \<Rightarrow> string \<Rightarrow> string \<Rightarrow> string \<Rightarrow> string \<Rightarrow>
    elf list \<Rightarrow> elf option \<times> elf list" where
  "elf_put digest path bytes customer project version target toolchain es =
     (let r = \<lparr>el_build = digest bytes, el_customer = customer, el_project = project, el_version = version, el_target = target,
          el_toolchain = toolchain, el_path = []\<rparr> in
      if \<exists>e \<in> set es. el_customer e = customer \<and> el_project e = project \<and> el_build e = digest bytes
      then (elf_get (digest bytes) es, es)
      else (let r' = r\<lparr>el_path := path r\<rparr> in (Some r', es @ [r'])))"

lemma elf_put_get:
  assumes "elf_put digest path bytes customer project version target toolchain es = (r, es')"
  shows "\<exists>e. r = Some e \<and> el_build e = digest bytes"
    "elf_get (digest bytes) es' = (case elf_get (digest bytes) es of None \<Rightarrow> r | Some e \<Rightarrow> Some e)"
    "build \<noteq> digest bytes \<Longrightarrow> elf_get build es' = elf_get build es"
proof -
  have app: "elf_get b (es @ [e]) = (case elf_get b es of None \<Rightarrow> if el_build e = b then Some e else None | Some x \<Rightarrow> Some x)" for b e
    by (induction es) (auto simp: elf_get_def look_key_def)
  have ex: "\<exists>e. elf_get b es = Some e \<and> el_build e = b" if "\<exists>e \<in> set es. el_build e = b" for b
    using that by (cases "elf_get b es") (auto simp: elf_get_def look_key_def find_None_iff find_Some_iff)
  show "\<exists>e. r = Some e \<and> el_build e = digest bytes"
    using assms ex [of "digest bytes"] by (auto simp: elf_put_def Let_def split: if_splits)
  show "elf_get (digest bytes) es' = (case elf_get (digest bytes) es of None \<Rightarrow> r | Some e \<Rightarrow> Some e)"
    "build \<noteq> digest bytes \<Longrightarrow> elf_get build es' = elf_get build es"
    using assms by (auto simp: elf_put_def Let_def app split: if_splits option.splits)
qed


section \<open>The pipeline\<close>

text \<open>The language model: the explanation it writes for a classified crash, or \<open>None\<close> when the call fails.\<close>

type_synonym explainer = "crash_record \<Rightarrow> resolved list \<Rightarrow> classification \<Rightarrow> string option"

definition diagnose :: "explainer \<Rightarrow> crash_record \<Rightarrow> resolved list \<Rightarrow> location option \<Rightarrow> diagnosis option" where
  "diagnose llm c bt loc = (let k = classify c; meta = taxonomy_for (cl_class k) in
     case llm c (take 5 bt) k of
       None \<Rightarrow> None
     | Some root_cause \<Rightarrow> Some \<lparr>dg_crash_id = cr_id c, dg_class = cl_class k, dg_root_cause = strip root_cause, dg_location = loc,
         dg_backtrace = bt, dg_confidence = cl_confidence k, dg_candidates = cl_candidates k, dg_family = fc_family meta,
         dg_symptom = fc_symptom meta\<rparr>)"

text \<open>The crash is saved before anything can fail; an exception leaves it there without a diagnosis.\<close>

definition run_pipeline :: "addr2line \<Rightarrow> explainer \<Rightarrow> elf list \<Rightarrow> crash_record \<Rightarrow> storage \<Rightarrow> diagnosis option \<times> storage" where
  "run_pipeline tool llm es c s =
     (let s1 = save_crash c s; (bt, loc) = resolve_crash tool c (elf_path (cr_build c) es) in
      case diagnose llm c bt loc of
        None \<Rightarrow> (None, s1)
      | Some d \<Rightarrow> (Some d, save_diagnosis d s1))"

definition repair :: "addr2line \<Rightarrow> explainer \<Rightarrow> elf list \<Rightarrow> string \<Rightarrow> time \<Rightarrow> string option \<Rightarrow> string \<Rightarrow> storage \<Rightarrow>
    (diagnosis \<times> string) option \<times> storage" where
  "repair tool llm es fresh now build serial s =
     (let build_id = or_else build ''unknown''; (d, s') = run_pipeline tool llm es (crash_of fresh now build_id None serial) s in
      (map_option (\<lambda>d. (d, build_id)) d, s'))"

lemma get_save_crash: "get_crash i (save_crash c s) = (if i = cr_id c then Some c else get_crash i s)"
proof -
  have "look_key cr_id i (filter (\<lambda>d. cr_id d \<noteq> cr_id c) cs @ [c]) = (if i = cr_id c then Some c else look_key cr_id i cs)" for cs
    by (induction cs) (auto simp: look_key_def)
  then show ?thesis by (simp add: get_crash_def save_crash_def)
qed

lemma get_save_diagnosis: "get_diagnosis i (save_diagnosis d s) = (if i = dg_crash_id d then Some d else get_diagnosis i s)"
proof -
  have "look_key dg_crash_id i (filter (\<lambda>e. dg_crash_id e \<noteq> dg_crash_id d) ds @ [d]) =
      (if i = dg_crash_id d then Some d else look_key dg_crash_id i ds)" for ds
    by (induction ds) (auto simp: look_key_def)
  then show ?thesis by (simp add: get_diagnosis_def save_diagnosis_def)
qed

lemma get_other [simp]: "get_crash i (save_diagnosis d s) = get_crash i s" "get_diagnosis i (save_crash c s) = get_diagnosis i s"
  by (simp_all add: get_crash_def get_diagnosis_def save_crash_def save_diagnosis_def)

text \<open>The tables are keyed, and every diagnosis has its crash.\<close>

definition well_stored :: "storage \<Rightarrow> bool" where
  "well_stored s \<longleftrightarrow> distinct (map cr_id (st_crashes s)) \<and> distinct (map dg_crash_id (st_diagnoses s)) \<and>
     set (map dg_crash_id (st_diagnoses s)) \<subseteq> set (map cr_id (st_crashes s))"

lemma distinct_replace:
  "distinct (map k xs) \<Longrightarrow> distinct (map k (filter (\<lambda>x. k x \<noteq> k y) xs @ [y]))"
  by (induction xs) auto

lemma diagnose_id: "diagnose llm c bt loc = Some d \<Longrightarrow> dg_crash_id d = cr_id c \<and> dg_class d = cl_class (classify c) \<and>
    dg_confidence d = cl_confidence (classify c) \<and> dg_backtrace d = bt \<and> dg_symptom d = (dg_class d = Watchdog)"
  by (auto simp: diagnose_def Let_def taxonomy_total split: option.splits)

lemma run_pipeline_well_stored: "well_stored s \<Longrightarrow> well_stored (snd (run_pipeline tool llm es c s))"
proof -
  assume s: "well_stored s"
  have keys: "set (map cr_id (st_crashes (save_crash c s))) = insert (cr_id c) (set (map cr_id (st_crashes s)))"
    by (auto simp: save_crash_def)
  have one: "well_stored (save_crash c s)"
    using s keys distinct_replace [of cr_id "st_crashes s" c] by (auto simp: well_stored_def save_crash_def)
  have two: "well_stored (save_diagnosis d (save_crash c s))" if "dg_crash_id d = cr_id c" for d
    using one that keys distinct_replace [of dg_crash_id "st_diagnoses s" d]
    by (auto simp: well_stored_def save_diagnosis_def save_crash_def)
  show ?thesis using one two diagnose_id by (auto simp: run_pipeline_def Let_def split: prod.splits option.splits)
qed

text \<open>
  C27. The ingest pipeline. Every crash is stored, whatever happens to its diagnosis; a diagnosis is stored exactly
  when the language model answers, has the classifier's verdict and a backtrace with one frame per raw address,
  and is marked as a symptom exactly for a watchdog; nothing else in the tables changes, and they stay keyed with a
  crash for every diagnosis.
\<close>

theorem run_pipeline_correct:
  assumes "run_pipeline tool llm es c s = (r, s')" and "well_stored s"
  shows "well_stored s' \<and> get_crash (cr_id c) s' = Some c \<and>
    get_diagnosis (cr_id c) s' = (case r of None \<Rightarrow> get_diagnosis (cr_id c) s | Some d \<Rightarrow> Some d) \<and>
    list_all (\<lambda>d. dg_class d = cl_class (classify c) \<and> map rf_pc (dg_backtrace d) = cr_backtrace c \<and>
      dg_symptom d = (dg_class d = Watchdog)) (case r of None \<Rightarrow> [] | Some d \<Rightarrow> [d]) \<and>
    (\<forall>i. i = cr_id c \<or> get_crash i s' = get_crash i s \<and> get_diagnosis i s' = get_diagnosis i s)"
proof -
  obtain bt loc where rs: "resolve_crash tool c (elf_path (cr_build c) es) = (bt, loc)" by (cases "resolve_crash tool c (elf_path (cr_build c) es)")
  then have bt: "map rf_pc bt = cr_backtrace c" using resolve_crash_pcs [of tool c "elf_path (cr_build c) es"] by simp
  have ws: "well_stored s'" using run_pipeline_well_stored [OF assms(2), of tool llm es c] assms(1) by simp
  show ?thesis
  proof (cases "diagnose llm c bt loc")
    case None
    then have "r = None" "s' = save_crash c s" using assms(1) rs by (simp_all add: run_pipeline_def)
    then show ?thesis using ws by (simp add: get_save_crash)
  next
    case (Some d)
    then have "r = Some d" "s' = save_diagnosis d (save_crash c s)" using assms(1) rs by (simp_all add: run_pipeline_def)
    then show ?thesis using ws diagnose_id [OF Some] bt by (simp add: get_save_crash get_save_diagnosis)
  qed
qed

text \<open>
  Paging terminates and loses nothing: with any positive batch size, reading page after page returns every
  stored crash once, newest first.
\<close>

theorem iter_all_crashes_total:
  assumes "0 < batch"
  shows "iter_all_crashes batch s = Some (rev (st_crashes s))"
  unfolding iter_all_crashes_def using iter_pages_all [OF assms, of 0 s "[]"] by simp

theorem iter_all_crashes_total_witness:
  "iter_all_crashes 500 \<lparr>st_crashes = [crash_of ''c'' 0 ''b'' None []], st_diagnoses = []\<rparr> = Some [crash_of ''c'' 0 ''b'' None []]"
  using iter_all_crashes_total [of 500 "\<lparr>st_crashes = [crash_of ''c'' 0 ''b'' None []], st_diagnoses = []\<rparr>"] by simp

theorem run_pipeline_correct_witness:
  "get_crash ''c'' (snd (run_pipeline (\<lambda>p as. None) (\<lambda>c bt k. None) [] (crash_of ''c'' 0 ''b'' None []) \<lparr>st_crashes = [], st_diagnoses = []\<rparr>)) =
     Some (crash_of ''c'' 0 ''b'' None [])"
proof -
  let ?c = "crash_of ''c'' 0 ''b'' None []" and ?s = "\<lparr>st_crashes = [], st_diagnoses = []\<rparr>"
  obtain r s' where rs: "run_pipeline (\<lambda>p as. None) (\<lambda>c bt k. None) [] ?c ?s = (r, s')" by (meson surj_pair)
  have w: "well_stored ?s" by (simp add: well_stored_def)
  have i: "cr_id ?c = ''c''" by (simp add: crash_of_def Let_def)
  show ?thesis using run_pipeline_correct [OF rs w] rs i by simp
qed

end
