(* ===== verification/Predicates.thy ===== *)
theory Predicates
  imports Diagnosis "HOL-Library.List_Lexorder" "HOL-Library.Char_ord" "HOL-Library.Product_Lexorder"
begin

text \<open>
  nff-diagnosis, correlation over the fleet, first part: the data (\<open>schemas/timeline.py\<close>, \<open>fleet.py\<close>,
  \<open>correlation.py\<close>) and the predicate language (\<open>correlation/predicate.py\<close>). A predicate compares an
  attribute of a crash or of a device with a JSON value. Attributes hold JSON values or other
  Python objects (dates, members the model classes inherit), which are known by their text.

  The theorem \<open>version_order\<close> shows that on versions the operators are one total order.
\<close>

section \<open>Data\<close>

record timeline_entry =
  te_crash_id :: string
  te_device :: "string option"
  te_build :: string
  te_firmware :: "string option"
  te_project :: "string option"
  te_customer :: "string option"
  te_received :: time
  te_panic :: string
  te_class :: "string option"
  te_location :: "(string \<times> json) list"
  te_confidence :: "rat option"

record fleet_device =
  fd_id :: string
  fd_firmware :: "string option"
  fd_build :: "string option"
  fd_project :: "string option"
  fd_status :: "string option"
  fd_last_seen :: "time option"
  fd_type :: "string option"
  fd_tags :: "string list"

datatype predicate_op = OpLe | OpLt | OpGe | OpGt | OpEq | OpIn | OpMatches

record predicate =
  pd_attribute :: string
  pd_op :: predicate_op
  pd_value :: json

datatype attr = AJson json | AOther string

datatype pyfloat = FNum rat | FPosInf | FNegInf | FNaN

text \<open>
  Library functions: \<open>str\<close> of floats, lists and objects, \<open>float\<close> of a text, the text of a date, and the members
  \<open>getattr\<close> finds on the model's base class (\<open>AJson JNull\<close>, the default, for every other name).
\<close>

record corr_ext =
  ce_repr :: "json \<Rightarrow> string"
  ce_float :: "string \<Rightarrow> pyfloat option"
  ce_time :: "time \<Rightarrow> string"
  ce_member :: "string \<Rightarrow> attr"


section \<open>Versions\<close>

fun version_parts :: "string list \<Rightarrow> nat list \<Rightarrow> nat list" where
  "version_parts [] parts = parts"
| "version_parts (chunk # chunks) parts = (let digits = filter is_digit chunk in
     if digits \<noteq> [] then version_parts chunks (parts @ [case digits_val 0 False digits of None \<Rightarrow> 0 | Some n \<Rightarrow> n])
     else if parts \<noteq> [] then parts
     else version_parts chunks parts)"

definition parse_version :: "string \<Rightarrow> nat list option" where
  "parse_version s = (let parts = version_parts (split_on (CHR ''.'')
       (map (\<lambda>c. if c = CHR ''-'' \<or> c = CHR ''_'' then CHR ''.'' else c) s)) [] in
     if parts = [] then None else Some parts)"

definition pad_to :: "nat \<Rightarrow> nat list \<Rightarrow> nat list" where
  "pad_to n a = a @ replicate (n - length a) 0"

definition pad :: "nat list \<Rightarrow> nat list \<Rightarrow> nat list \<times> nat list" where
  "pad a b = (let n = max (length a) (length b) in (pad_to n a, pad_to n b))"

definition is_version_attr :: "string \<Rightarrow> bool" where
  "is_version_attr a \<longleftrightarrow> a = ''firmware_version'' \<or> drop (length a - 8) a = ''_version''"


section \<open>Attributes and comparison\<close>

definition opt_str :: "string option \<Rightarrow> attr" where
  "opt_str s = AJson (case s of None \<Rightarrow> JNull | Some x \<Rightarrow> JStr x)"

definition entry_attr :: "corr_ext \<Rightarrow> timeline_entry \<Rightarrow> string \<Rightarrow> attr" where
  "entry_attr x e a =
     (if starts_with ''location.'' a then AJson (jget (drop 9 a) (te_location e))
      else if a = ''crash_id'' then AJson (JStr (te_crash_id e))
      else if a = ''device_id'' then opt_str (te_device e)
      else if a = ''build_id'' then AJson (JStr (te_build e))
      else if a = ''firmware_version'' then opt_str (te_firmware e)
      else if a = ''project'' then opt_str (te_project e)
      else if a = ''customer'' then opt_str (te_customer e)
      else if a = ''received_at'' then AOther (ce_time x (te_received e))
      else if a = ''panic_type'' then AJson (JStr (te_panic e))
      else if a = ''crash_class'' then opt_str (te_class e)
      else if a = ''location'' then AJson (JObj (te_location e))
      else if a = ''confidence'' then AJson (case te_confidence e of None \<Rightarrow> JNull | Some c \<Rightarrow> JFloat c)
      else ce_member x a)"

definition device_attr :: "corr_ext \<Rightarrow> fleet_device \<Rightarrow> string \<Rightarrow> attr" where
  "device_attr x d a =
     (if a = ''device_id'' then AJson (JStr (fd_id d))
      else if a = ''firmware_version'' then opt_str (fd_firmware d)
      else if a = ''build_id'' then opt_str (fd_build d)
      else if a = ''project_id'' then opt_str (fd_project d)
      else if a = ''status'' then opt_str (fd_status d)
      else if a = ''last_seen'' then (case fd_last_seen d of None \<Rightarrow> AJson JNull | Some t \<Rightarrow> AOther (ce_time x t))
      else if a = ''device_type'' then opt_str (fd_type d)
      else if a = ''tags'' then AJson (JList (map JStr (fd_tags d)))
      else ce_member x a)"

text \<open>\<open>str(v)\<close> and \<open>float(v)\<close>; \<open>None\<close> is an exception the caller catches.\<close>

definition json_str :: "corr_ext \<Rightarrow> json \<Rightarrow> string" where
  "json_str x v = (case v of JStr s \<Rightarrow> s | JInt i \<Rightarrow> show_int i | JBool b \<Rightarrow> if b then ''True'' else ''False''
    | JNull \<Rightarrow> ''None'' | _ \<Rightarrow> ce_repr x v)"

fun attr_str :: "corr_ext \<Rightarrow> attr \<Rightarrow> string" where
  "attr_str x (AJson v) = json_str x v"
| "attr_str x (AOther s) = s"

definition json_float :: "corr_ext \<Rightarrow> json \<Rightarrow> pyfloat option" where
  "json_float x v = (case v of JStr s \<Rightarrow> ce_float x s | JInt i \<Rightarrow> Some (FNum (fl (of_int i)))
    | JBool b \<Rightarrow> Some (FNum (if b then 1 else 0)) | JFloat r \<Rightarrow> Some (FNum r) | _ \<Rightarrow> None)"

fun attr_float :: "corr_ext \<Rightarrow> attr \<Rightarrow> pyfloat option" where
  "attr_float x (AJson v) = json_float x v"
| "attr_float x (AOther s) = None"

fun float_le :: "pyfloat \<Rightarrow> pyfloat \<Rightarrow> bool" where
  "float_le FNaN _ = False"
| "float_le _ FNaN = False"
| "float_le FNegInf _ = True"
| "float_le _ FPosInf = True"
| "float_le (FNum a) (FNum b) = (a \<le> b)"
| "float_le _ _ = False"

fun float_lt :: "pyfloat \<Rightarrow> pyfloat \<Rightarrow> bool" where
  "float_lt FNaN _ = False"
| "float_lt _ FNaN = False"
| "float_lt (FNum a) (FNum b) = (a < b)"
| "float_lt FNegInf b = (b \<noteq> FNegInf)"
| "float_lt a FPosInf = (a \<noteq> FPosInf)"
| "float_lt _ _ = False"

text \<open>\<open>==\<close> on JSON values, at any depth; objects compare without their order.\<close>

fun json_eq :: "json \<Rightarrow> json \<Rightarrow> bool"
  and lists_eq :: "json list \<Rightarrow> json list \<Rightarrow> bool"
  and members_eq :: "(string \<times> json) list \<Rightarrow> (string \<times> json) list \<Rightarrow> bool" where
  "json_eq (JList xs) (JList ys) = lists_eq xs ys"
| "json_eq (JObj d) (JObj e) = (length d = length e \<and> members_eq d e)"
| "json_eq a b = py_eq a b"
| "lists_eq [] [] = True"
| "lists_eq (x # xs) (y # ys) = (json_eq x y \<and> lists_eq xs ys)"
| "lists_eq _ _ = False"
| "members_eq [] e = True"
| "members_eq ((k, v) # d) e = ((case map_of e k of None \<Rightarrow> False | Some w \<Rightarrow> json_eq v w) \<and> members_eq d e)"

text \<open>\<open>actual in expected\<close>; where Python raises a \<open>TypeError\<close> the comparison is false.\<close>

fun attr_in :: "attr \<Rightarrow> json \<Rightarrow> bool" where
  "attr_in (AJson (JStr t)) (JStr s) = has_lit False t s"
| "attr_in (AJson v) (JList xs) = list_ex (json_eq v) xs"
| "attr_in (AJson (JStr t)) (JObj d) = (t \<in> fst ` set d)"
| "attr_in _ _ = False"

definition op_holds :: "predicate_op \<Rightarrow> bool \<Rightarrow> bool \<Rightarrow> bool \<Rightarrow> bool \<Rightarrow> bool" where
  "op_holds op le lt ge gt = (case op of OpLe \<Rightarrow> le | OpLt \<Rightarrow> lt | OpGe \<Rightarrow> ge | OpGt \<Rightarrow> gt | _ \<Rightarrow> False)"

definition compare :: "corr_ext \<Rightarrow> attr \<Rightarrow> predicate_op \<Rightarrow> json \<Rightarrow> bool \<Rightarrow> bool" where
  "compare x actual op expected version =
     (let a = attr_str x actual; e = json_str x expected;
          by_text = op_holds op (a \<le> e) (a < e) (e \<le> a) (e < a) in
      if actual = AJson JNull then False
      else if op = OpIn then attr_in actual expected
      else if op = OpMatches then has_lit False (lower e) (lower a)
      else if op = OpEq then
        (case (if version then parse_version a else None, parse_version e) of
           (Some pa, Some pe) \<Rightarrow> fst (pad pa pe) = snd (pad pa pe)
         | _ \<Rightarrow> a = e)
      else if version then
        (case (parse_version a, parse_version e) of
           (Some pa, Some pe) \<Rightarrow> (case pad pa pe of (u, v) \<Rightarrow> op_holds op (u \<le> v) (u < v) (v \<le> u) (v < u))
         | _ \<Rightarrow> by_text)
      else
        (case (attr_float x actual, json_float x expected) of
           (Some f, Some g) \<Rightarrow> op_holds op (float_le f g) (float_lt f g) (float_le g f) (float_lt g f)
         | _ \<Rightarrow> by_text))"

definition eval_predicate :: "corr_ext \<Rightarrow> attr \<Rightarrow> predicate \<Rightarrow> bool" where
  "eval_predicate x actual p = compare x actual (pd_op p) (pd_value p) (is_version_attr (pd_attribute p))"

definition entry_satisfies :: "corr_ext \<Rightarrow> timeline_entry \<Rightarrow> predicate list \<Rightarrow> bool" where
  "entry_satisfies x e ps = list_all (\<lambda>p. eval_predicate x (entry_attr x e (pd_attribute p)) p) ps"

definition device_satisfies :: "corr_ext \<Rightarrow> fleet_device \<Rightarrow> predicate list \<Rightarrow> bool" where
  "device_satisfies x d ps = list_all (\<lambda>p. eval_predicate x (device_attr x d (pd_attribute p)) p) ps"

definition DEVICE_ATTRS :: "string list" where
  "DEVICE_ATTRS = [''firmware_version'', ''build_id'', ''project'', ''project_id'', ''device_id'', ''device_type'']"

definition population_predicates :: "predicate list \<Rightarrow> predicate list" where
  "population_predicates ps = filter (\<lambda>p. pd_attribute p \<in> set DEVICE_ATTRS) ps"

lemma satisfies_population: "entry_satisfies x e ps \<Longrightarrow> entry_satisfies x e (population_predicates ps)"
  by (auto simp: entry_satisfies_def population_predicates_def list_all_iff)


section \<open>One order on versions\<close>

text \<open>The value a version stands for: its parts without the zeros at the end.\<close>

definition release :: "nat list \<Rightarrow> nat list" where
  "release v = rev (dropWhile (\<lambda>n. n = 0) (rev v))"

lemma release_append_zeros: "release (v @ replicate k 0) = release v"
proof -
  have "dropWhile (\<lambda>n. n = 0) (replicate k 0 @ w) = dropWhile (\<lambda>n. n = 0) w" for w :: "nat list"
    by (induction k) auto
  then show ?thesis by (simp add: release_def)
qed

lemma release_decomp: "\<exists>k. v = release v @ replicate k 0"
proof -
  have "takeWhile (\<lambda>n. n = 0) (rev v) = replicate (length (takeWhile (\<lambda>n. n = 0) (rev v))) 0"
    by (rule replicate_eqI) (auto dest: set_takeWhileD)
  then have "rev v = replicate (length (takeWhile (\<lambda>n. n = 0) (rev v))) 0 @ dropWhile (\<lambda>n. n = 0) (rev v)"
    by (metis takeWhile_dropWhile_id)
  then have "v = rev (dropWhile (\<lambda>n. n = 0) (rev v)) @ replicate (length (takeWhile (\<lambda>n. n = 0) (rev v))) 0"
    by (metis rev_append rev_replicate rev_rev_ident)
  then show ?thesis unfolding release_def by blast
qed

lemma pad_length: "pad a b = (u, v) \<Longrightarrow> length u = length v"
  by (auto simp: pad_def pad_to_def Let_def)

lemma pad_eq_iff: "fst (pad a b) = snd (pad a b) \<longleftrightarrow> release a = release b"
proof
  assume "fst (pad a b) = snd (pad a b)"
  then show "release a = release b"
    by (simp add: pad_def pad_to_def Let_def) (metis release_append_zeros)
next
  assume r: "release a = release b"
  obtain k where k: "a = release a @ replicate k 0" using release_decomp by blast
  obtain l where l: "b = release b @ replicate l 0" using release_decomp by blast
  have la: "length a = length (release a) + k" by (subst k) simp
  have lb: "length b = length (release a) + l" by (subst l) (simp add: r)
  have "pad_to (max (length a) (length b)) a = release a @ replicate (max k l) 0"
    by (subst (2) k) (simp add: pad_to_def la lb replicate_add [symmetric] del: replicate_add)
  moreover have "pad_to (max (length a) (length b)) b = release a @ replicate (max k l) 0"
    by (subst (2) l) (simp add: pad_to_def la lb r replicate_add [symmetric] del: replicate_add)
  ultimately show "fst (pad a b) = snd (pad a b)" by (simp add: pad_def Let_def)
qed

text \<open>The lexicographic order does not see zeros added to both sides.\<close>

lemma less_append_same:
  fixes u v :: "nat list"
  assumes "length u = length v"
  shows "u @ w < v @ w \<longleftrightarrow> u < v"
  using assms by (induction u v rule: list_induct2) auto

lemma pad_to_more: "length a \<le> n \<Longrightarrow> n \<le> m \<Longrightarrow> pad_to m a = pad_to n a @ replicate (m - n) 0"
  by (simp add: pad_to_def replicate_add [symmetric])

lemma pad_to_length: "length a \<le> n \<Longrightarrow> length (pad_to n a) = n"
  by (simp add: pad_to_def)

definition version_less :: "nat list \<Rightarrow> nat list \<Rightarrow> bool" where
  "version_less a b = (case pad a b of (u, v) \<Rightarrow> u < v)"

lemma version_less_at:
  assumes "length a \<le> n" and "length b \<le> n"
  shows "version_less a b \<longleftrightarrow> pad_to n a < pad_to n b"
proof -
  let ?m = "max (length a) (length b)"
  have "pad_to n a = pad_to ?m a @ replicate (n - ?m) 0" "pad_to n b = pad_to ?m b @ replicate (n - ?m) 0"
    using assms by (intro pad_to_more; simp)+
  then show ?thesis
    using less_append_same [of "pad_to ?m a" "pad_to ?m b" "replicate (n - ?m) 0"] pad_to_length [of a ?m] pad_to_length [of b ?m]
    by (simp add: version_less_def pad_def Let_def)
qed

lemma version_less_trans:
  assumes "version_less a b" and "version_less b c"
  shows "version_less a c"
proof -
  let ?n = "max (length a) (max (length b) (length c))"
  have "pad_to ?n a < pad_to ?n b" using assms(1) version_less_at [of a ?n b] by simp
  moreover have "pad_to ?n b < pad_to ?n c" using assms(2) version_less_at [of b ?n c] by simp
  ultimately show ?thesis using version_less_at [of a ?n c] by simp
qed

lemma version_less_flip: "(case pad a b of (u, v) \<Rightarrow> v < u) \<longleftrightarrow> version_less b a"
  by (simp add: version_less_def pad_def Let_def max.commute)

lemma version_linear: "version_less a b \<or> release a = release b \<or> version_less b a"
  using pad_eq_iff [of a b] version_less_flip [of a b] by (auto simp: version_less_def split: prod.splits)

lemma version_less_irrefl: "release a = release b \<Longrightarrow> \<not> version_less a b"
  using pad_eq_iff [of a b] by (auto simp: version_less_def split: prod.splits)

lemma version_less_asym: "version_less a b \<Longrightarrow> \<not> version_less b a"
  using version_less_trans version_less_irrefl by blast

lemma compare_version:
  assumes "parse_version u = Some a" and "parse_version v = Some b"
  shows "compare x (AJson (JStr u)) OpLt (JStr v) True \<longleftrightarrow> version_less a b"
    "compare x (AJson (JStr u)) OpGt (JStr v) True \<longleftrightarrow> version_less b a"
    "compare x (AJson (JStr u)) OpEq (JStr v) True \<longleftrightarrow> release a = release b"
    "compare x (AJson (JStr u)) OpLe (JStr v) True \<longleftrightarrow> \<not> version_less b a"
    "compare x (AJson (JStr u)) OpGe (JStr v) True \<longleftrightarrow> \<not> version_less a b"
  using assms pad_eq_iff [of a b] version_less_flip [of a b]
  by (auto simp: compare_def json_str_def op_holds_def Let_def version_less_def not_less split: prod.splits)

text \<open>A predicate on a version attribute, the attribute and the value being texts.\<close>

definition version_holds :: "corr_ext \<Rightarrow> predicate_op \<Rightarrow> string \<Rightarrow> string \<Rightarrow> bool" where
  "version_holds x op u v = eval_predicate x (AJson (JStr u))
     \<lparr>pd_attribute = ''firmware_version'', pd_op = op, pd_value = JStr v\<rparr>"

lemma version_holds_compare: "version_holds x op u v = compare x (AJson (JStr u)) op (JStr v) True"
  by (simp add: version_holds_def eval_predicate_def is_version_attr_def)

text \<open>
  The version operators are one total order. On versions with at least one number, exactly one of less, equal and
  greater holds; at most is less or equal, at least is greater or equal, greater is less turned around; less and equal are
  transitive, although every comparison pads its two versions to a length of its own.
\<close>

theorem version_order:
  assumes "parse_version u = Some a" and "parse_version v = Some b" and "parse_version w = Some c"
  shows "length (filter (\<lambda>op. version_holds x op u v) [OpLt, OpEq, OpGt]) = 1 \<and>
    version_holds x OpLe u v = (version_holds x OpLt u v \<or> version_holds x OpEq u v) \<and>
    version_holds x OpGe u v = (version_holds x OpGt u v \<or> version_holds x OpEq u v) \<and>
    version_holds x OpGt u v = version_holds x OpLt v u \<and>
    (version_holds x OpLt u v \<and> version_holds x OpLt v w \<longrightarrow> version_holds x OpLt u w) \<and>
    (version_holds x OpEq u v \<and> version_holds x OpEq v w \<longrightarrow> version_holds x OpEq u w)"
proof -
  note uv = compare_version [OF assms(1,2), of x] and vu = compare_version [OF assms(2,1), of x]
    and vw = compare_version [OF assms(2,3), of x] and uw = compare_version [OF assms(1,3), of x]
  have "length (filter (\<lambda>op. version_holds x op u v) [OpLt, OpEq, OpGt]) = 1"
    using version_linear [of a b] version_less_asym [of a b] version_less_irrefl [of a b] version_less_irrefl [of b a]
    by (auto simp: version_holds_compare uv)
  moreover have "version_holds x OpLe u v = (version_holds x OpLt u v \<or> version_holds x OpEq u v)"
    "version_holds x OpGe u v = (version_holds x OpGt u v \<or> version_holds x OpEq u v)"
    using version_linear [of a b] version_less_asym [of a b] version_less_irrefl [of a b] version_less_irrefl [of b a]
    by (auto simp: version_holds_compare uv)
  moreover have "version_holds x OpGt u v = version_holds x OpLt v u" by (simp add: version_holds_compare uv vu)
  moreover have "version_holds x OpLt u v \<and> version_holds x OpLt v w \<longrightarrow> version_holds x OpLt u w"
    using version_less_trans [of a b c] by (simp add: version_holds_compare uv vw uw)
  moreover have "version_holds x OpEq u v \<and> version_holds x OpEq v w \<longrightarrow> version_holds x OpEq u w"
    by (simp add: version_holds_compare uv vw uw)
  ultimately show ?thesis by blast
qed

theorem version_order_witness:
  "\<forall>x. version_holds x OpGt ''3.5'' ''v3.4.9'' = version_holds x OpLt ''v3.4.9'' ''3.5'' \<and>
    length (filter (\<lambda>op. version_holds x op ''3.5'' ''v3.4.9'') [OpLt, OpEq, OpGt]) = 1"
proof
  fix x
  have "parse_version ''3.5'' = Some [3, 5]" "parse_version ''v3.4.9'' = Some [3, 4, 9]" "parse_version ''4'' = Some [4]" by code_simp+
  from version_order [OF this, of x] show "version_holds x OpGt ''3.5'' ''v3.4.9'' = version_holds x OpLt ''v3.4.9'' ''3.5'' \<and>
    length (filter (\<lambda>op. version_holds x op ''3.5'' ''v3.4.9'') [OpLt, OpEq, OpGt]) = 1" by blast
qed

text \<open>A release candidate counts as a later version: the digits behind its letters join the number, or become a part.\<close>

theorem prerelease_is_later:
  "version_holds x OpGt ''3.5rc1'' ''3.50''" "version_holds x OpGt ''v3.5-beta2'' ''v3.5''"
proof -
  have p: "parse_version ''3.5rc1'' = Some [3, 51]" "parse_version ''3.50'' = Some [3, 50]"
    "parse_version ''v3.5-beta2'' = Some [3, 5, 2]" "parse_version ''v3.5'' = Some [3, 5]" by code_simp+
  have "version_less [3, 50] [3, 51]" "version_less [3, 5] [3, 5, 2]" by code_simp+
  then show "version_holds x OpGt ''3.5rc1'' ''3.50''" "version_holds x OpGt ''v3.5-beta2'' ''v3.5''"
    by (simp_all add: version_holds_compare compare_version(2) [OF p(1,2)] compare_version(2) [OF p(3,4)])
qed

end
