(* ===== verification/Correlation.thy ===== *)
theory Correlation
  imports Predicates
begin

text \<open>
  nff-diagnosis, correlation over the fleet, second part: temporal clusters (\<open>correlation/cluster.py\<close>),
  validation of hypotheses (\<open>correlation/validate.py\<close>), the engine that proposes, validates and groups
  (\<open>correlation/engine.py\<close>) and the timeline file (\<open>correlation/timeline.py\<close>). The language model and the JSON
  reader are parameters.
\<close>

section \<open>Clusters in time\<close>

record cluster =
  ct_id :: string
  ct_start :: time
  ct_end :: time
  ct_size :: nat
  ct_crashes :: "string list"

definition make_cluster :: "nat \<Rightarrow> timeline_entry list \<Rightarrow> cluster" where
  "make_cluster n g = \<lparr>ct_id = ''cluster-'' @ show_int (int n), ct_start = te_received (hd g),
     ct_end = te_received (List.last g), ct_size = length g, ct_crashes = map te_crash_id g\<rparr>"

text \<open>\<open>timedelta.total_seconds()\<close> of two times in microseconds.\<close>

definition gap_seconds :: "timeline_entry \<Rightarrow> timeline_entry \<Rightarrow> rat" where
  "gap_seconds e f = fl (of_int (te_received f - te_received e) / 1000000)"

fun cluster_loop :: "rat \<Rightarrow> cluster list \<Rightarrow> timeline_entry list \<Rightarrow> timeline_entry list \<Rightarrow> cluster list" where
  "cluster_loop window clusters current [] =
     (if current = [] then clusters else clusters @ [make_cluster (length clusters) current])"
| "cluster_loop window clusters current (e # es) =
     (if current \<noteq> [] \<and> window < gap_seconds (List.last current) e
      then cluster_loop window (clusters @ [make_cluster (length clusters) current]) [e] es
      else cluster_loop window clusters (current @ [e]) es)"

definition cluster_by_time :: "timeline_entry list \<Rightarrow> rat \<Rightarrow> cluster list" where
  "cluster_by_time entries window = cluster_loop window [] [] (sort_key te_received entries)"

text \<open>The specification: cut the sorted list exactly where the gap exceeds the window.\<close>

definition together :: "rat \<Rightarrow> timeline_entry list \<Rightarrow> bool" where
  "together window g \<longleftrightarrow> g \<noteq> [] \<and> successively (\<lambda>e f. gap_seconds e f \<le> window) g"

definition cut :: "rat \<Rightarrow> timeline_entry list list \<Rightarrow> bool" where
  "cut window gs \<longleftrightarrow> list_all (together window) gs \<and>
     successively (\<lambda>g h. window < gap_seconds (List.last g) (hd h)) gs"

lemma together_snoc:
  "g \<noteq> [] \<Longrightarrow> together window (g @ [e]) \<longleftrightarrow> together window g \<and> gap_seconds (List.last g) e \<le> window"
  by (auto simp: together_def successively_append_iff)

lemma cluster_loop_groups:
  assumes "clusters = map (\<lambda>(n, g). make_cluster n g) (enumerate 0 gs)" and "cut window gs"
    and "current \<noteq> [] \<Longrightarrow> together window current"
    and "current \<noteq> [] \<Longrightarrow> gs \<noteq> [] \<Longrightarrow> window < gap_seconds (List.last (List.last gs)) (hd current)"
    and "current = [] \<Longrightarrow> gs = []"
  shows "\<exists>hs. cluster_loop window clusters current es = map (\<lambda>(n, g). make_cluster n g) (enumerate 0 hs) \<and>
    cut window hs \<and> concat hs = concat gs @ current @ es"
  using assms
proof (induction es arbitrary: clusters current gs)
  case Nil
  show ?case
  proof (cases "current = []")
    case True
    then show ?thesis using Nil by (intro exI [of _ gs]) simp
  next
    case False
    have "cut window (gs @ [current])"
      using Nil.prems(2,3,4) False by (auto simp: cut_def successively_append_iff)
    then show ?thesis using Nil.prems(1) False
      by (intro exI [of _ "gs @ [current]"]) (simp add: enumerate_append_eq)
  qed
next
  case (Cons e es)
  show ?case
  proof (cases "current \<noteq> [] \<and> window < gap_seconds (List.last current) e")
    case True
    have c: "cut window (gs @ [current])"
      using Cons.prems(2,3,4) True by (auto simp: cut_def successively_append_iff)
    have "clusters @ [make_cluster (length clusters) current] = map (\<lambda>(n, g). make_cluster n g) (enumerate 0 (gs @ [current]))"
      using Cons.prems(1) by (simp add: enumerate_append_eq)
    from Cons.IH [OF this c, of "[e]"] True show ?thesis by (simp add: together_def)
  next
    case False
    have "together window (current @ [e])"
      using False Cons.prems(3) together_snoc [of current window e] by (cases "current = []") (auto simp: together_def not_less)
    moreover have "gs \<noteq> [] \<Longrightarrow> window < gap_seconds (List.last (List.last gs)) (hd (current @ [e]))"
      using Cons.prems(4,5) by (cases current) auto
    ultimately show ?thesis using Cons.IH [OF Cons.prems(1,2), of "current @ [e]"] False by auto
  qed
qed

text \<open>
  Crashes cluster by time. The clusters, numbered from 0, are the pieces of the timeline sorted by time, cut
  exactly where two neighbours lie more than the window apart: every crash is in one cluster, none is lost or repeated,
  and the sizes, borders and ids are those of the pieces.
\<close>

theorem clusters_correct:
  "\<exists>gs. cluster_by_time entries window = map (\<lambda>(n, g). make_cluster n g) (enumerate 0 gs) \<and>
     concat gs = sort_key te_received entries \<and> cut window gs"
  using cluster_loop_groups [of "[]" "[]" window "[]" "sort_key te_received entries"]
  by (auto simp: cluster_by_time_def cut_def)


section \<open>Validating a hypothesis\<close>

datatype hyp_status = Proposed | Validated | Partial | Refuted

record evidence =
  ev_matching :: "string list"
  ev_contradicting :: "string list"
  ev_noncrashers :: "string list"
  ev_population :: nat
  ev_noncrasher_count :: nat
  ev_support :: rat

text \<open>The numbers the rationale quotes: counts, ratio, and for a roster the healthy devices and the crash rate.\<close>

datatype hyp_rationale = NoRationale | Rationale nat nat rat "(nat \<times> nat \<times> rat) option"

record hypothesis =
  hy_id :: string
  hy_statement :: string
  hy_predicates :: "predicate list"
  hy_class :: "string option"
  hy_status :: hyp_status
  hy_evidence :: evidence
  hy_rationale :: hyp_rationale
  hy_confidence :: rat

definition no_evidence :: evidence where
  "no_evidence = \<lparr>ev_matching = [], ev_contradicting = [], ev_noncrashers = [], ev_population = 0, ev_noncrasher_count = 0,
     ev_support = 0\<rparr>"

text \<open>\<open>round(x, 3)\<close>: the exact value to three decimals, half to even, and the nearest float.\<close>

definition round3 :: "rat \<Rightarrow> rat" where
  "round3 v = fl (of_int (round_half_even (v * 1000)) / 1000)"

definition VALIDATE_AT :: rat where "VALIDATE_AT = fl (70/100)"
definition REFUTE_BELOW :: rat where "REFUTE_BELOW = fl (40/100)"

definition agrees :: "corr_ext \<Rightarrow> hypothesis \<Rightarrow> timeline_entry \<Rightarrow> bool" where
  "agrees x h e \<longleftrightarrow> (case hy_class h of None \<Rightarrow> True | Some k \<Rightarrow> te_class e = Some k) \<and> entry_satisfies x e (hy_predicates h)"

definition device_ids :: "timeline_entry list \<Rightarrow> string list" where
  "device_ids es = remdups (List.map_filter (\<lambda>e. if truthy (te_device e) then te_device e else None) es)"

definition validate_hypothesis :: "corr_ext \<Rightarrow> hypothesis \<Rightarrow> timeline_entry list \<Rightarrow> fleet_device list \<Rightarrow> hypothesis" where
  "validate_hypothesis x h crashers devices =
     (let pop_preds = population_predicates (hy_predicates h);
          pop_crashers = filter (\<lambda>e. entry_satisfies x e pop_preds) crashers;
          matching = filter (agrees x h) pop_crashers;
          contradicting = filter (\<lambda>e. \<not> agrees x h e) pop_crashers;
          crasher_ids = device_ids crashers;
          pop_devices = filter (\<lambda>d. device_satisfies x d pop_preds) devices;
          noncrashers = filter (\<lambda>d. fd_id d \<notin> set crasher_ids) pop_devices;
          matched = length matching; contra = length contradicting;
          support = (if matched + contra \<noteq> 0 then fdiv (of_nat matched) (of_nat (matched + contra)) else 0);
          matching_devices = length (device_ids matching);
          population = (if pop_devices \<noteq> [] then length pop_devices else matching_devices);
          crash_rate = (if pop_devices \<noteq> [] then fdiv (of_nat matching_devices) (of_nat population) else 1);
          confidence = round3 (if population \<noteq> 0 then fmul support (fadd (1/2) (fmul (1/2) crash_rate)) else 0);
          status = (if matched = 0 \<or> confidence < REFUTE_BELOW then Refuted
                    else if VALIDATE_AT \<le> confidence then Validated else Partial)
      in h\<lparr>hy_status := status, hy_confidence := confidence,
           hy_rationale := Rationale matched contra support
             (if pop_devices \<noteq> [] then Some (length noncrashers, population, crash_rate) else None),
           hy_evidence := \<lparr>ev_matching = map te_crash_id matching, ev_contradicting = map te_crash_id contradicting,
             ev_noncrashers = map fd_id noncrashers, ev_population = population, ev_noncrasher_count = length noncrashers,
             ev_support = round3 support\<rparr>\<rparr>)"



text \<open>Pieces the theorems speak of: the population, and what the scan of the crashes finds in it.\<close>

definition population_of :: "corr_ext \<Rightarrow> hypothesis \<Rightarrow> fleet_device list \<Rightarrow> fleet_device list" where
  "population_of x h devices = filter (\<lambda>d. device_satisfies x d (population_predicates (hy_predicates h))) devices"

definition matching_crashes :: "corr_ext \<Rightarrow> hypothesis \<Rightarrow> timeline_entry list \<Rightarrow> timeline_entry list" where
  "matching_crashes x h crashers = filter (agrees x h) crashers"

definition contradicting_crashes :: "corr_ext \<Rightarrow> hypothesis \<Rightarrow> timeline_entry list \<Rightarrow> timeline_entry list" where
  "contradicting_crashes x h crashers =
     filter (\<lambda>e. entry_satisfies x e (population_predicates (hy_predicates h)) \<and> \<not> agrees x h e) crashers"

definition score :: "nat \<Rightarrow> nat \<Rightarrow> nat \<Rightarrow> nat option \<Rightarrow> rat" where
  "score m k devs pop = round3 (if (case pop of None \<Rightarrow> devs | Some p \<Rightarrow> p) \<noteq> 0 then
     fmul (if m + k \<noteq> 0 then fdiv (of_nat m) (of_nat (m + k)) else 0)
       (fadd (1/2) (fmul (1/2) (case pop of None \<Rightarrow> 1 | Some p \<Rightarrow> fdiv (of_nat devs) (of_nat p)))) else 0)"

lemma agrees_population: "agrees x h e \<Longrightarrow> entry_satisfies x e (population_predicates (hy_predicates h))"
  by (simp add: agrees_def satisfies_population)

lemma validate_matching:
  "filter (agrees x h) (filter (\<lambda>e. entry_satisfies x e (population_predicates (hy_predicates h))) crashers) =
   matching_crashes x h crashers"
  by (auto simp: matching_crashes_def intro!: filter_cong dest: agrees_population)

lemma validate_result:
  fixes x h crashers devices
  defines "h' \<equiv> validate_hypothesis x h crashers devices" and "M \<equiv> matching_crashes x h crashers"
    and "K \<equiv> contradicting_crashes x h crashers" and "D \<equiv> population_of x h devices"
  shows "ev_matching (hy_evidence h') = map te_crash_id M"
    "ev_contradicting (hy_evidence h') = map te_crash_id K"
    "hy_confidence h' = score (length M) (length K) (length (device_ids M)) (if D = [] then None else Some (length D))"
    "hy_status h' = (if M = [] \<or> hy_confidence h' < REFUTE_BELOW then Refuted
       else if VALIDATE_AT \<le> hy_confidence h' then Validated else Partial)"
    "hy_id h' = hy_id h" "hy_statement h' = hy_statement h" "hy_predicates h' = hy_predicates h" "hy_class h' = hy_class h"
  unfolding h'_def M_def K_def D_def contradicting_crashes_def validate_hypothesis_def Let_def validate_matching population_of_def score_def
  by (simp_all add: conj_commute)

lemma fl_half: "fl (1/2) = 1/2"
  by code_simp

lemma fl_le_1: "v \<le> 1 \<Longrightarrow> fl v \<le> 1"
  using fl_mono [of v 1] by simp

lemma damping_bounds:
  assumes "0 \<le> r" and "r \<le> 1"
  shows "0 \<le> fadd (1/2) (fmul (1/2) r)" "fadd (1/2) (fmul (1/2) r) \<le> 1"
proof -
  have "fmul (1/2) r \<le> 1/2" using fl_mono [of "1/2 * r" "1/2"] assms(2) by (simp add: fmul_def fl_half)
  then show "fadd (1/2) (fmul (1/2) r) \<le> 1" using fl_le_1 by (simp add: fadd_def)
  have "0 \<le> fmul (1/2) r" using assms(1) by (simp add: fmul_def fl_nonneg)
  then show "0 \<le> fadd (1/2) (fmul (1/2) r)" by (simp add: fadd_def fl_nonneg)
qed

lemma damping_1: "fadd (1/2) (fmul (1/2) 1) = 1"
  by (simp add: fadd_def fmul_def fl_half)

lemma round3_mono: "u \<le> v \<Longrightarrow> round3 u \<le> round3 v"
  unfolding round3_def by (intro fl_mono divide_right_mono) (simp_all add: round_half_even_mono)

lemma score_le:
  assumes "0 < m + k" and "of_nat m / of_nat (m + k) \<le> q" and "0 \<le> q" and "case pop of None \<Rightarrow> True | Some p \<Rightarrow> devs \<le> p \<and> 0 < p"
  shows "score m k devs pop \<le> round3 (fl (fl q))"
proof -
  let ?s = "fdiv (of_nat m) (of_nat (m + k)) :: rat" and ?r = "case pop of None \<Rightarrow> 1 | Some p \<Rightarrow> fdiv (of_nat devs) (of_nat p)"
  have "0 \<le> ?r" "?r \<le> 1" using assms(4) fdiv_ratio by (auto split: option.splits)
  note d = damping_bounds [OF this]
  have s: "0 \<le> ?s" "?s \<le> fl q" using assms(2) by (simp_all add: fdiv_nonneg) (simp add: fdiv_def fl_mono)
  then have "?s * fadd (1/2) (fmul (1/2) ?r) \<le> fl q" using mult_left_le [OF d(2) s(1)] by linarith
  then have "fmul ?s (fadd (1/2) (fmul (1/2) ?r)) \<le> fl (fl q)" by (simp add: fmul_def fl_mono)
  moreover have "0 \<le> fl (fl q)" using assms(3) by (intro fl_nonneg)
  ultimately show ?thesis using assms(1) by (auto simp: score_def intro: round3_mono)
qed

lemma caps:
  "round3 (fl (fl (699/1000))) < VALIDATE_AT" "round3 (fl (fl 1)) = 1"
  "round3 (fl (7/10)) = VALIDATE_AT" "round3 (fl (4/10)) = REFUTE_BELOW"
  by code_simp+

text \<open>Without a roster the score is the rounded ratio.\<close>

lemma score_ratio:
  assumes "0 < m + k" and "0 < devs" and "q \<le> of_nat m / of_nat (m + k)" and "fl q = fl (fl q)"
  shows "round3 (fl q) \<le> score m k devs None"
proof -
  have "fl q \<le> fdiv (of_nat m) (of_nat (m + k))" using assms(3) by (simp add: fdiv_def fl_mono)
  then have "fl (fl q) \<le> fmul (fdiv (of_nat m) (of_nat (m + k))) 1" by (simp add: fmul_def fl_mono)
  then show ?thesis using assms(1,2,4) by (auto simp: score_def damping_1 intro: round3_mono)
qed


lemma device_ids_roster:
  assumes "set (device_ids M) \<subseteq> fd_id ` set D"
  shows "length (device_ids M) \<le> length D"
proof -
  have "length (device_ids M) = card (set (device_ids M))" by (simp add: device_ids_def length_remdups_card_conv)
  also have "\<dots> \<le> card (fd_id ` set D)" using assms by (simp add: card_mono)
  also have "\<dots> \<le> length D" using card_image_le [of "set D" fd_id] card_length [of D] by simp
  finally show ?thesis .
qed

text \<open>The roster knows the devices behind the matching crashes, or there is none.\<close>

definition roster_covers :: "corr_ext \<Rightarrow> hypothesis \<Rightarrow> timeline_entry list \<Rightarrow> fleet_device list \<Rightarrow> bool" where
  "roster_covers x h crashers devices \<longleftrightarrow> population_of x h devices = [] \<or>
     set (device_ids (matching_crashes x h crashers)) \<subseteq> fd_id ` set (population_of x h devices)"

lemma covered_score:
  assumes "roster_covers x h crashers devices" and "0 < m + k" and "of_nat m / of_nat (m + k) \<le> q" and "0 \<le> q"
  shows "score m k (length (device_ids (matching_crashes x h crashers)))
    (if population_of x h devices = [] then None else Some (length (population_of x h devices))) \<le> round3 (fl (fl q))"
  using assms device_ids_roster [of "matching_crashes x h crashers" "population_of x h devices"]
  by (intro score_le) (auto simp: roster_covers_def)

lemma score_0: "score 0 0 devs pop = 0"
  using round_half_even_of_int [of 0] by (simp add: score_def fmul_def round3_def)

text \<open>
  C30. Counts decide. If the roster knows every device behind the matching crashes, or there is no roster, the
  confidence is at most one and a validated hypothesis agrees with more than 69.9 per cent of the crashes in its
  population. Without a roster, and with at least one crash of a known device, 70 per cent agreement is enough to be
  validated and 40 per cent enough not to be refuted.
\<close>

theorem validated_by_majority:
  assumes "roster_covers x h crashers devices"
  defines "h' \<equiv> validate_hypothesis x h crashers devices"
  defines "m \<equiv> length (ev_matching (hy_evidence h'))" and "k \<equiv> length (ev_contradicting (hy_evidence h'))"
  shows "hy_confidence h' \<le> 1 \<and> (hy_status h' = Validated \<longrightarrow> 699 * (m + k) < 1000 * m) \<and>
    (population_of x h devices = [] \<and> device_ids (matching_crashes x h crashers) \<noteq> [] \<longrightarrow>
       (7 * (m + k) \<le> 10 * m \<longrightarrow> hy_status h' = Validated) \<and> (4 * (m + k) \<le> 10 * m \<longrightarrow> hy_status h' \<noteq> Refuted))"
proof -
  let ?M = "matching_crashes x h crashers" and ?D = "population_of x h devices"
  note r = validate_result [of x h crashers devices, folded h'_def]
  have m: "m = length ?M" and k: "k = length (contradicting_crashes x h crashers)"
    using r(1,2) by (simp_all add: m_def k_def)
  have conf: "hy_confidence h' = score m k (length (device_ids ?M)) (if ?D = [] then None else Some (length ?D))"
    using r(3) by (simp add: m k)
  have one: "hy_confidence h' \<le> 1"
  proof (cases "m + k = 0")
    case True
    then show ?thesis by (simp add: conf score_0)
  next
    case False
    then have "(of_nat m :: rat) / of_nat (m + k) \<le> 1" by (simp add: divide_le_eq)
    then show ?thesis using covered_score [OF assms(1), of m k 1] False unfolding conf caps(2) by simp
  qed
  have val: "699 * (m + k) < 1000 * m" if v: "hy_status h' = Validated"
  proof (rule ccontr)
    assume low: "\<not> 699 * (m + k) < 1000 * m"
    have pos: "0 < m" using v r(4) by (auto simp: m split: if_splits)
    have "1000 * (of_nat m :: rat) \<le> 699 * of_nat (m + k)"
      using of_nat_mono [of "1000 * m" "699 * (m + k)", where 'a = rat] low by (simp only: of_nat_mult of_nat_numeral not_less)
    then have "(of_nat m :: rat) / of_nat (m + k) \<le> 699/1000" using pos by (simp add: divide_le_eq mult.commute del: of_nat_add)
    then have "hy_confidence h' < VALIDATE_AT" using covered_score [OF assms(1), of m k "699/1000"] caps(1) pos by (simp add: conf)
    then show False using v r(4) by (auto split: if_splits)
  qed
  have ratio: "round3 (fl q) \<le> hy_confidence h'"
    if "?D = []" "device_ids ?M \<noteq> []" "q * of_nat (m + k) \<le> of_nat m" "fl q = fl (fl q)" for q :: rat
  proof -
    have "0 < m" using that(2) by (auto simp: m device_ids_def)
    then show ?thesis using that by (simp add: conf score_ratio pos_le_divide_eq)
  qed
  have M: "?M \<noteq> []" if "device_ids ?M \<noteq> []" using that by (auto simp: device_ids_def)
  have idem: "fl (7/10) = fl (fl (7/10))" "fl (4/10) = fl (fl (4/10))" by code_simp+
  have le: "q * of_nat (m + k) \<le> of_nat m" if "a * (m + k) \<le> 10 * m" "q = of_nat a / 10" for a and q :: rat
  proof -
    have "(of_nat (a * (m + k)) :: rat) \<le> of_nat (10 * m)" using that(1) by (subst of_nat_le_iff)
    then show ?thesis unfolding that(2) by simp
  qed
  have thr: "REFUTE_BELOW \<le> VALIDATE_AT" by code_simp
  show ?thesis
  proof (intro conjI impI)
    assume "?D = [] \<and> device_ids ?M \<noteq> []" and e: "7 * (m + k) \<le> 10 * m"
    then have "VALIDATE_AT \<le> hy_confidence h'" using ratio [of "7/10"] le [OF e] idem caps(3) by simp
    then show "hy_status h' = Validated" using r(4) M \<open>?D = [] \<and> device_ids ?M \<noteq> []\<close> thr by simp
  next
    assume "?D = [] \<and> device_ids ?M \<noteq> []" and e: "4 * (m + k) \<le> 10 * m"
    then have "REFUTE_BELOW \<le> hy_confidence h'" using ratio [of "4/10"] le [OF e] idem caps(4) by simp
    then show "hy_status h' \<noteq> Refuted" using r(4) M \<open>?D = [] \<and> device_ids ?M \<noteq> []\<close> by simp
  qed (use one val in auto)
qed


text \<open>A sample: crashes of the given devices and versions, all of class null dereference, and a roster.\<close>

definition sample_entry :: "nat \<Rightarrow> string \<Rightarrow> string \<Rightarrow> string \<Rightarrow> timeline_entry" where
  "sample_entry n dev fw k = \<lparr>te_crash_id = ''c'' @ show_nat n, te_device = Some dev, te_build = ''b'', te_firmware = Some fw,
     te_project = None, te_customer = None, te_received = int n * 1000000, te_panic = ''idf'', te_class = Some k,
     te_location = [], te_confidence = None\<rparr>"

definition sample_device :: "string \<Rightarrow> string \<Rightarrow> fleet_device" where
  "sample_device i fw = \<lparr>fd_id = i, fd_firmware = Some fw, fd_build = None, fd_project = None, fd_status = None,
     fd_last_seen = None, fd_type = None, fd_tags = []\<rparr>"

definition new_hypothesis :: "string \<Rightarrow> string \<Rightarrow> predicate list \<Rightarrow> string option \<Rightarrow> hypothesis" where
  "new_hypothesis i statement ps k = \<lparr>hy_id = i, hy_statement = statement, hy_predicates = ps, hy_class = k,
     hy_status = Proposed, hy_evidence = no_evidence, hy_rationale = NoRationale, hy_confidence = 0\<rparr>"

definition on_version :: "string \<Rightarrow> predicate" where
  "on_version v = \<lparr>pd_attribute = ''firmware_version'', pd_op = OpEq, pd_value = JStr v\<rparr>"

definition sample_hypothesis :: hypothesis where
  "sample_hypothesis = new_hypothesis ''h'' ''s'' [on_version ''3.5''] (Some ''null_deref'')"

definition sample_crashes :: "timeline_entry list" where
  "sample_crashes = [sample_entry 0 ''a'' ''3.5'' ''null_deref'', sample_entry 1 ''b'' ''3.5'' ''null_deref'',
     sample_entry 2 ''c'' ''3.5'' ''null_deref'', sample_entry 3 ''d'' ''3.5'' ''watchdog'']"

theorem validated_by_majority_witness:
  "\<forall>x. hy_status (validate_hypothesis x sample_hypothesis sample_crashes []) = Validated"
proof
  fix x
  have c: "roster_covers x sample_hypothesis sample_crashes []" by (simp add: roster_covers_def population_of_def)
  have "length (ev_matching (hy_evidence (validate_hypothesis x sample_hypothesis sample_crashes []))) = 3"
    "length (ev_contradicting (hy_evidence (validate_hypothesis x sample_hypothesis sample_crashes []))) = 1"
    "device_ids (matching_crashes x sample_hypothesis sample_crashes) \<noteq> []"
    by code_simp+
  then show "hy_status (validate_hypothesis x sample_hypothesis sample_crashes []) = Validated"
    using validated_by_majority [OF c] by (simp add: population_of_def)
qed

text \<open>
  A roster that misses devices makes the crash rate exceed one: three devices crash as predicted, four contradict, the
  roster lists one device of the version. The hypothesis is validated against the majority.
\<close>

definition stale_crashes :: "timeline_entry list" where
  "stale_crashes = take 3 sample_crashes @ map (\<lambda>n. sample_entry n ''d'' ''3.5'' ''watchdog'') [4, 5, 6, 7]"

theorem stale_roster_validates:
  "let h' = validate_hypothesis x sample_hypothesis stale_crashes [sample_device ''z'' ''3.5''] in
     hy_status h' = Validated \<and> length (ev_matching (hy_evidence h')) = 3 \<and> length (ev_contradicting (hy_evidence h')) = 4"
  "1 < hy_confidence (validate_hypothesis x sample_hypothesis (take 3 stale_crashes) [sample_device ''z'' ''3.5''])"
  by code_simp+

end
