(* ===== verification/Fleet_Report.thy ===== *)
theory Fleet_Report
  imports Correlation "HOL-Library.Multiset"
begin

text \<open>
  nff-diagnosis, correlation over the fleet, third part: the engine that proposes, validates and groups
  (\<open>correlation/engine.py\<close>) and the timeline file (\<open>correlation/timeline.py\<close>). The language model and the JSON reader
  are parameters; where the code iterates a set, the model takes one fixed order. \<open>None\<close> is an exception that
  reaches the caller.
\<close>

section \<open>Hypotheses from the language model\<close>

definition CLASS_NAMES :: "string list" where
  "CLASS_NAMES = [''null_deref'', ''stack_overflow'', ''watchdog'', ''heap_corruption'', ''divide_by_zero'', ''unaligned_access'',
     ''illegal_instruction'', ''bad_instruction_fetch'', ''assert_failed'', ''brownout'', ''unknown'']"

definition OPS :: "(string \<times> predicate_op) list" where
  "OPS = [(''<='', OpLe), (''<'', OpLt), (''>='', OpGe), (''>'', OpGt), (''=='', OpEq), (''in'', OpIn), (''matches'', OpMatches)]"

definition op_text :: "predicate_op \<Rightarrow> string" where
  "op_text op = (case op of OpLe \<Rightarrow> ''<='' | OpLt \<Rightarrow> ''<'' | OpGe \<Rightarrow> ''>='' | OpGt \<Rightarrow> ''>'' | OpEq \<Rightarrow> ''==''
     | OpIn \<Rightarrow> ''in'' | OpMatches \<Rightarrow> ''matches'')"

text \<open>A Python list slice \<open>xs[:n]\<close>.\<close>

definition py_take :: "int \<Rightarrow> 'a list \<Rightarrow> 'a list" where
  "py_take n xs = (if n < 0 then take (length xs - nat (- n)) xs else take (nat n) xs)"

text \<open>What precedes the next code fence.\<close>

fun until_fence :: "string \<Rightarrow> string" where
  "until_fence [] = []"
| "until_fence (c # s) = (if starts_with ''```'' (c # s) then [] else c # until_fence s)"

definition strip_fence :: "string \<Rightarrow> string" where
  "strip_fence text = (let t = strip text in
     if starts_with ''```'' t
     then (let body = until_fence (drop 3 t) in if starts_with ''json'' body then drop 4 body else body)
     else t)"

text \<open>\<open>for v in data\<close> where the items are used as objects: other values than a list only iterate when empty.\<close>

definition items_of :: "json \<Rightarrow> json list option" where
  "items_of v = (case v of JList xs \<Rightarrow> Some xs | JObj [] \<Rightarrow> Some [] | JStr [] \<Rightarrow> Some [] | _ \<Rightarrow> None)"

fun all_some :: "'a option list \<Rightarrow> 'a list option" where
  "all_some [] = Some []"
| "all_some (None # _) = None"
| "all_some (Some v # vs) = map_option ((#) v) (all_some vs)"

definition json_text :: "json \<Rightarrow> string option" where
  "json_text v = (case v of JStr s \<Rightarrow> Some s | _ \<Rightarrow> None)"

definition json_predicate :: "json \<Rightarrow> predicate option" where
  "json_predicate v = (case v of
      JObj d \<Rightarrow> (case (json_text (jget ''attribute'' d), Option.bind (json_text (jget ''op'' d)) (map_of OPS), map_of d ''value'') of
          (Some a, Some op, Some w) \<Rightarrow> Some \<lparr>pd_attribute = a, pd_op = op, pd_value = w\<rparr>
        | _ \<Rightarrow> None)
    | _ \<Rightarrow> None)"

definition json_class :: "json \<Rightarrow> string option option" where
  "json_class v = (case v of JNull \<Rightarrow> Some None | JStr s \<Rightarrow> if s \<in> set CLASS_NAMES then Some (Some s) else None | _ \<Rightarrow> None)"

definition json_hypothesis :: "json \<Rightarrow> hypothesis option" where
  "json_hypothesis v = (case v of
      JObj d \<Rightarrow> (case (Option.bind (items_of (jget_or ''predicates'' (JList []) d)) (\<lambda>ps. all_some (map json_predicate ps)),
                     json_text (jget_or ''id'' (JStr []) d), json_text (jget_or ''statement'' (JStr []) d),
                     json_class (jget ''predicted_crash_class'' d)) of
          (Some ps, Some i, Some st, Some k) \<Rightarrow> Some (new_hypothesis i st ps k)
        | _ \<Rightarrow> None)
    | _ \<Rightarrow> None)"

definition parse_hypotheses :: "(string \<Rightarrow> json option) \<Rightarrow> string \<Rightarrow> hypothesis list option" where
  "parse_hypotheses loads text =
     Option.bind (Option.bind (loads (strip_fence text)) items_of) (\<lambda>xs. all_some (map json_hypothesis xs))"


section \<open>The engine\<close>

record engine =
  en_ext :: corr_ext
  en_use_llm :: bool
  en_answer :: "nat \<Rightarrow> timeline_entry list \<Rightarrow> string option"
  en_loads :: "string \<Rightarrow> json option"
  en_story :: "hypothesis \<Rightarrow> timeline_entry list \<Rightarrow> string list \<Rightarrow> string option"
  en_roster :: "fleet_device list option"

text \<open>
  \<open>en_answer\<close> is the text the model answers to the prompt built from a sample, with the number of hypotheses proposed so
  far, or \<open>None\<close> when building the prompt or the call raises; \<open>en_story\<close> the paragraph for a group;
  \<open>en_roster\<close> what \<open>list_devices\<close> returns, \<open>None\<close> when there is no roster or it raises.
\<close>

definition load_devices :: "engine \<Rightarrow> fleet_device list" where
  "load_devices en = (case en_roster en of None \<Rightarrow> [] | Some ds \<Rightarrow> ds)"

definition sig_of :: "corr_ext \<Rightarrow> hypothesis \<Rightarrow> string option \<times> (string \<times> string \<times> string) list" where
  "sig_of x h = (hy_class h, sort (map (\<lambda>p. (pd_attribute p, op_text (pd_op p), json_str x (pd_value p))) (hy_predicates h)))"

definition opt_text :: "string option \<Rightarrow> string" where
  "opt_text s = (case s of None \<Rightarrow> ''None'' | Some t \<Rightarrow> t)"

definition combo_hypothesis :: "string option \<times> string option \<Rightarrow> hypothesis option" where
  "combo_hypothesis c = (case c of (fw, k) \<Rightarrow>
     if (case k of None \<Rightarrow> False | Some s \<Rightarrow> s \<notin> set CLASS_NAMES) then None
     else Some (new_hypothesis [] (''Devices on firmware '' @ opt_text fw @ '' crash with '' @ opt_text k @ ''.'')
       (case fw of None \<Rightarrow> [] | Some v \<Rightarrow> [on_version v]) k))"

definition propose_deterministic :: "timeline_entry list \<Rightarrow> hypothesis list option" where
  "propose_deterministic sample =
     (let combos = sort_key (\<lambda>(fw, k). (opt_text fw, opt_text k))
          (remdups (map (\<lambda>e. (te_firmware e, te_class e)) (filter (\<lambda>e. truthy (te_class e)) sample))) in
      all_some (map combo_hypothesis combos))"

fun assign_ids :: "nat \<Rightarrow> hypothesis list \<Rightarrow> hypothesis list" where
  "assign_ids n [] = []"
| "assign_ids n (h # hs) = (if hy_id h = [] then h\<lparr>hy_id := ''hyp-'' @ show_nat n\<rparr> else h) # assign_ids (Suc n) hs"

definition propose :: "engine \<Rightarrow> nat \<Rightarrow> timeline_entry list \<Rightarrow> (hypothesis list \<times> nat) option" where
  "propose en n sample =
     (let hyps = (if en_use_llm en
          then (case Option.bind (en_answer en n sample) (parse_hypotheses (en_loads en)) of None \<Rightarrow> [] | Some hs \<Rightarrow> hs) else []) in
      map_option (\<lambda>hs. (assign_ids n hs, n + length hs)) (if hyps = [] then propose_deterministic sample else Some hyps))"

text \<open>The rounds; \<open>todo\<close> is how many are left.\<close>

fun correlate_rounds :: "engine \<Rightarrow> int \<Rightarrow> timeline_entry list \<Rightarrow> fleet_device list \<Rightarrow> nat \<Rightarrow> nat \<Rightarrow> timeline_entry list \<Rightarrow>
    (string option \<times> (string \<times> string \<times> string) list) list \<Rightarrow> string list \<Rightarrow> hypothesis list \<Rightarrow> hypothesis list option" where
  "correlate_rounds en limit timeline devices 0 n focus seen explained hyps = Some hyps"
| "correlate_rounds en limit timeline devices (Suc todo) n focus seen explained hyps =
     (case propose en n focus of None \<Rightarrow> None
      | Some (proposed, n') \<Rightarrow>
          let fresh = filter (\<lambda>h. sig_of (en_ext en) h \<notin> set seen) proposed in
          if fresh = [] then Some hyps
          else
            let validated = map (\<lambda>h. validate_hypothesis (en_ext en) h timeline devices) fresh;
                hyps' = hyps @ validated;
                explained' = explained @ concat (map (\<lambda>h. ev_matching (hy_evidence h)) (filter (\<lambda>h. hy_status h = Validated) validated));
                unexplained = filter (\<lambda>e. te_crash_id e \<notin> set explained') timeline in
            if unexplained = [] then Some hyps'
            else correlate_rounds en limit timeline devices todo n' (py_take limit unexplained)
              (seen @ map (sig_of (en_ext en)) fresh) explained' hyps')"


section \<open>Groups\<close>

record device_group =
  gr_id :: string
  gr_label :: string
  gr_class :: "string option"
  gr_location :: "(string \<times> json) list"
  gr_root_cause :: string
  gr_devices :: "string list"
  gr_crashes :: "string list"
  gr_firmwares :: "string list"
  gr_hypothesis :: string
  gr_confidence :: rat
  gr_count :: nat

text \<open>\<open>Counter(locs).most_common(1)\<close>: the first of the most frequent, counted by equality; a list or object in a
  location is not hashable and raises.\<close>

type_synonym loc = "json \<times> json \<times> json"

definition loc_eq :: "loc \<Rightarrow> loc \<Rightarrow> bool" where
  "loc_eq a b = (case (a, b) of ((f, g, h), (u, v, w)) \<Rightarrow> py_eq f u \<and> py_eq g v \<and> py_eq h w)"

definition loc_count :: "loc list \<Rightarrow> loc \<Rightarrow> nat" where
  "loc_count ls a = length (filter (loc_eq a) ls)"

fun most_common :: "loc list \<Rightarrow> loc \<Rightarrow> loc list \<Rightarrow> loc" where
  "most_common ls best [] = best"
| "most_common ls best (a # as) = most_common ls (if loc_count ls best < loc_count ls a then a else best) as"

definition hashable :: "json \<Rightarrow> bool" where
  "hashable v = (case v of JList _ \<Rightarrow> False | JObj _ \<Rightarrow> False | _ \<Rightarrow> True)"

definition location_triples :: "timeline_entry list \<Rightarrow> loc list" where
  "location_triples entries = filter (\<lambda>(f, g, h). jtruthy f \<or> jtruthy g \<or> jtruthy h)
     (map (\<lambda>e. (jget ''function'' (te_location e), jget ''file'' (te_location e), jget ''line'' (te_location e)))
       (filter (\<lambda>e. te_location e \<noteq> []) entries))"

definition dominant_location :: "timeline_entry list \<Rightarrow> (string \<times> json) list option" where
  "dominant_location entries = (case location_triples entries of
      [] \<Rightarrow> Some []
    | l # ls \<Rightarrow> if list_all (\<lambda>(f, g, h). hashable f \<and> hashable g \<and> hashable h) (l # ls)
        then (case most_common (l # ls) l ls of (f, g, h) \<Rightarrow> Some [(''function'', f), (''file'', g), (''line'', h)])
        else None)"

definition by_crash :: "timeline_entry list \<Rightarrow> string \<Rightarrow> timeline_entry option" where
  "by_crash timeline = map_of (rev (map (\<lambda>e. (te_crash_id e, e)) timeline))"

definition sorted_texts :: "string option list \<Rightarrow> string list" where
  "sorted_texts ss = sort (remdups (List.map_filter (\<lambda>s. if truthy s then s else None) ss))"

definition root_cause :: "engine \<Rightarrow> hypothesis \<Rightarrow> timeline_entry list \<Rightarrow> string list \<Rightarrow> string" where
  "root_cause en h entries firmwares =
     (if en_use_llm en then (case en_story en h entries firmwares of None \<Rightarrow> hy_statement h | Some t \<Rightarrow> strip t) else hy_statement h)"

definition make_group :: "engine \<Rightarrow> nat \<Rightarrow> hypothesis \<Rightarrow> timeline_entry list \<Rightarrow> string list \<Rightarrow> device_group option" where
  "make_group en n h timeline members =
     (let entries = List.map_filter (by_crash timeline) members; firmwares = sorted_texts (map te_firmware entries) in
      map_option (\<lambda>loc. \<lparr>gr_id = ''group-'' @ show_nat n, gr_label = hy_statement h, gr_class = hy_class h, gr_location = loc,
          gr_root_cause = root_cause en h entries firmwares, gr_devices = sorted_texts (map te_device entries),
          gr_crashes = members, gr_firmwares = firmwares, gr_hypothesis = hy_id h, gr_confidence = hy_confidence h,
          gr_count = length members\<rparr>) (dominant_location entries))"

fun group_loop :: "engine \<Rightarrow> timeline_entry list \<Rightarrow> hypothesis list \<Rightarrow> string list \<Rightarrow> device_group list \<Rightarrow> device_group list option" where
  "group_loop en timeline [] claimed gs = Some gs"
| "group_loop en timeline (h # hs) claimed gs =
     (let members = filter (\<lambda>c. c \<notin> set claimed) (ev_matching (hy_evidence h)) in
      if hy_status h \<noteq> Validated \<or> members = [] then group_loop en timeline hs claimed gs
      else (case make_group en (length gs) h timeline members of None \<Rightarrow> None
            | Some g \<Rightarrow> group_loop en timeline hs (claimed @ members) (gs @ [g])))"

definition build_groups :: "engine \<Rightarrow> hypothesis list \<Rightarrow> timeline_entry list \<Rightarrow> device_group list option" where
  "build_groups en hyps timeline = group_loop en timeline (sort_key (\<lambda>h. - hy_confidence h) hyps) [] []"

record report =
  rp_window :: rat
  rp_sample :: int
  rp_crashes :: nat
  rp_devices :: nat
  rp_clusters :: "cluster list"
  rp_hypotheses :: "hypothesis list"
  rp_groups :: "device_group list"
  rp_unexplained :: "string list"

definition correlate :: "engine \<Rightarrow> timeline_entry list \<Rightarrow> int \<Rightarrow> rat \<Rightarrow> int \<Rightarrow> nat \<Rightarrow> report option" where
  "correlate en timeline limit window max_rounds counter =
     (let devices = load_devices en in
      case correlate_rounds en limit timeline devices (nat max_rounds) counter (py_take limit timeline) [] [] [] of
        None \<Rightarrow> None
      | Some hyps \<Rightarrow> (case build_groups en hyps timeline of
          None \<Rightarrow> None
        | Some gs \<Rightarrow> (let grouped = concat (map gr_crashes gs) in
            Some \<lparr>rp_window = window, rp_sample = limit, rp_crashes = length timeline,
              rp_devices = length (device_ids timeline) + length (remdups (map fd_id devices)),
              rp_clusters = cluster_by_time timeline window, rp_hypotheses = hyps, rp_groups = gs,
              rp_unexplained = map te_crash_id (filter (\<lambda>e. te_crash_id e \<notin> set grouped) timeline)\<rparr>)))"



section \<open>What a report says\<close>

lemma all_some_iff: "all_some vs = (if None \<in> set vs then None else Some (map the vs))"
  by (induction vs rule: all_some.induct) auto

lemma set_py_take: "set (py_take n xs) \<subseteq> set xs"
  by (auto simp: py_take_def dest: in_set_takeD)

text \<open>Entries the engine does not raise on: a known class, or none, and a location of scalars.\<close>

definition plain :: "timeline_entry \<Rightarrow> bool" where
  "plain e \<longleftrightarrow> (truthy (te_class e) \<longrightarrow> the (te_class e) \<in> set CLASS_NAMES) \<and>
     list_all (\<lambda>k. hashable (jget k (te_location e))) [''function'', ''file'', ''line'']"

lemma propose_deterministic_some:
  assumes "\<And>e. e \<in> set sample \<Longrightarrow> plain e"
  shows "\<exists>hs. propose_deterministic sample = Some hs"
proof -
  have "combo_hypothesis (te_firmware e, te_class e) \<noteq> None" if "e \<in> set sample" "truthy (te_class e)" for e
    using assms [OF that(1)] that(2) by (auto simp: combo_hypothesis_def plain_def split: option.split)
  then have "None \<notin> combo_hypothesis ` (\<lambda>e. (te_firmware e, te_class e)) ` {e \<in> set sample. truthy (te_class e)}"
    by fastforce
  then show ?thesis by (simp add: propose_deterministic_def all_some_iff Let_def)
qed

lemma propose_some:
  assumes "\<And>e. e \<in> set sample \<Longrightarrow> plain e"
  shows "\<exists>hs n'. propose en n sample = Some (hs, n')"
  using propose_deterministic_some [OF assms] by (auto simp: propose_def Let_def)

text \<open>The rounds return, and every hypothesis they return has been validated against the whole timeline.\<close>

lemma correlate_rounds_some:
  assumes "\<And>e. e \<in> set timeline \<Longrightarrow> plain e" and "set focus \<subseteq> set timeline"
    and "list_all (\<lambda>h. \<exists>h0. h = validate_hypothesis (en_ext en) h0 timeline devices) hyps"
  shows "\<exists>hs. correlate_rounds en limit timeline devices todo n focus seen explained hyps = Some hs \<and>
    list_all (\<lambda>h. \<exists>h0. h = validate_hypothesis (en_ext en) h0 timeline devices) hs"
  using assms(2,3)
proof (induction todo arbitrary: n focus seen explained hyps)
  case 0
  then show ?case by simp
next
  case (Suc todo)
  obtain proposed n' where p: "propose en n focus = Some (proposed, n')"
    using propose_some [of focus en n] assms(1) Suc.prems(1) by blast
  have sub: "set (py_take limit (filter P timeline)) \<subseteq> set timeline" for P
    using set_py_take [of limit "filter P timeline"] by auto
  let ?new = "map (\<lambda>h. validate_hypothesis (en_ext en) h timeline devices)
    (filter (\<lambda>h. sig_of (en_ext en) h \<notin> set seen) proposed)"
  have "list_all (\<lambda>h. \<exists>h0. h = validate_hypothesis (en_ext en) h0 timeline devices) (hyps @ ?new)"
    using Suc.prems(2) by (auto simp: list_all_iff)
  note step = Suc.IH [OF sub this] and this
  then show ?case using Suc.prems(2) by (simp add: p Let_def)
qed

lemma by_crash_in: "by_crash timeline c = Some e \<Longrightarrow> e \<in> set timeline \<and> te_crash_id e = c"
  by (auto simp: by_crash_def dest: map_of_SomeD)

lemma entries_in:
  assumes "e \<in> set (List.map_filter (by_crash timeline) cs)"
  shows "e \<in> set timeline"
proof -
  obtain c where "by_crash timeline c = Some e" using assms by (auto simp: List.map_filter_def)
  then show ?thesis by (simp add: by_crash_in)
qed

lemma dominant_location_some:
  assumes "\<And>e. e \<in> set entries \<Longrightarrow> plain e"
  shows "\<exists>l. dominant_location entries = Some l"
proof -
  have "list_all (\<lambda>(f, g, h). hashable f \<and> hashable g \<and> hashable h) (location_triples entries)"
    using assms by (auto simp: location_triples_def list_all_iff plain_def)
  then show ?thesis
    by (cases "location_triples entries"; cases "most_common (location_triples entries) (hd (location_triples entries)) (tl (location_triples entries))")
      (simp_all add: dominant_location_def)
qed

lemma make_group_some:
  assumes "\<And>e. e \<in> set timeline \<Longrightarrow> plain e"
  obtains g where "make_group en n h timeline members = Some g" "gr_id g = ''group-'' @ show_nat n" "gr_class g = hy_class h"
    "gr_crashes g = members" "gr_hypothesis g = hy_id h" "gr_confidence g = hy_confidence h" "gr_count g = length members"
  using dominant_location_some [of "List.map_filter (by_crash timeline) members"] assms entries_in [of _ timeline members]
  by (fastforce simp: make_group_def Let_def)

text \<open>A group stands for a hypothesis: it holds crashes only that hypothesis matches.\<close>

definition stands_for :: "device_group \<Rightarrow> hypothesis \<Rightarrow> bool" where
  "stands_for g h \<longleftrightarrow> hy_status h = Validated \<and> gr_hypothesis g = hy_id h \<and> gr_class g = hy_class h \<and>
     gr_confidence g = hy_confidence h \<and> gr_crashes g \<noteq> [] \<and> gr_count g = length (gr_crashes g) \<and>
     set (gr_crashes g) \<subseteq> set (ev_matching (hy_evidence h))"

lemma group_loop_some:
  assumes "\<And>e. e \<in> set timeline \<Longrightarrow> plain e"
    and "claimed = concat (map gr_crashes gs)" and "distinct claimed"
    and "\<forall>h \<in> set hs. distinct (ev_matching (hy_evidence h))"
    and "sorted_wrt (\<lambda>h k. hy_confidence k \<le> hy_confidence h) hs"
    and "sorted_wrt (\<lambda>g k. gr_confidence k \<le> gr_confidence g) gs"
    and "\<forall>g \<in> set gs. \<forall>h \<in> set hs. hy_confidence h \<le> gr_confidence g"
  shows "\<exists>new. group_loop en timeline hs claimed gs = Some (gs @ new) \<and> (\<forall>g \<in> set new. \<exists>h \<in> set hs. stands_for g h) \<and>
    distinct (concat (map gr_crashes (gs @ new))) \<and> sorted_wrt (\<lambda>g k. gr_confidence k \<le> gr_confidence g) (gs @ new) \<and>
    (\<forall>h \<in> set hs. hy_status h = Validated \<longrightarrow> set (ev_matching (hy_evidence h)) \<subseteq> set (concat (map gr_crashes (gs @ new))))"
  using assms(2-7)
proof (induction hs arbitrary: claimed gs)
  case Nil
  then show ?case by simp
next
  case (Cons h hs)
  let ?ms = "filter (\<lambda>c. c \<notin> set claimed) (ev_matching (hy_evidence h))"
  show ?case
  proof (cases "hy_status h \<noteq> Validated \<or> ?ms = []")
    case True
    have "\<exists>new. group_loop en timeline hs claimed gs = Some (gs @ new) \<and> (\<forall>g \<in> set new. \<exists>h \<in> set hs. stands_for g h) \<and>
      distinct (concat (map gr_crashes (gs @ new))) \<and> sorted_wrt (\<lambda>g k. gr_confidence k \<le> gr_confidence g) (gs @ new) \<and>
      (\<forall>h \<in> set hs. hy_status h = Validated \<longrightarrow> set (ev_matching (hy_evidence h)) \<subseteq> set (concat (map gr_crashes (gs @ new))))"
      using Cons.prems by (intro Cons.IH) auto
    moreover have "hy_status h = Validated \<longrightarrow> set (ev_matching (hy_evidence h)) \<subseteq> set claimed"
      using True by (auto simp: filter_empty_conv)
    ultimately show ?thesis using True Cons.prems(1) by (auto simp: Let_def)
  next
    case False
    obtain g where g: "make_group en (length gs) h timeline ?ms = Some g" "gr_class g = hy_class h" "gr_crashes g = ?ms"
      "gr_hypothesis g = hy_id h" "gr_confidence g = hy_confidence h" "gr_count g = length ?ms"
      using make_group_some [OF assms(1)] by metis
    have "\<exists>new. group_loop en timeline hs (claimed @ ?ms) (gs @ [g]) = Some ((gs @ [g]) @ new) \<and>
      (\<forall>g \<in> set new. \<exists>h \<in> set hs. stands_for g h) \<and> distinct (concat (map gr_crashes ((gs @ [g]) @ new))) \<and>
      sorted_wrt (\<lambda>g k. gr_confidence k \<le> gr_confidence g) ((gs @ [g]) @ new) \<and>
      (\<forall>h \<in> set hs. hy_status h = Validated \<longrightarrow> set (ev_matching (hy_evidence h)) \<subseteq> set (concat (map gr_crashes ((gs @ [g]) @ new))))"
      using Cons.prems g(3,5) by (intro Cons.IH) (auto simp: sorted_wrt_append)
    moreover have "stands_for g h" using False g by (auto simp: stands_for_def)
    moreover have "set (ev_matching (hy_evidence h)) \<subseteq> set claimed \<union> set ?ms" by auto
    ultimately show ?thesis using False g(1,3) Cons.prems(1) by (auto simp: Let_def)
  qed
qed


lemma validated_matching:
  assumes "h = validate_hypothesis x h0 timeline devices"
  shows "ev_matching (hy_evidence h) = map te_crash_id (filter (agrees x h) timeline)"
proof -
  note r = validate_result [of x h0 timeline devices, folded assms]
  have "agrees x h = agrees x h0" by (simp add: fun_eq_iff agrees_def r(7,8))
  then show ?thesis using r(1) by (simp add: matching_crashes_def)
qed

lemma report_partition:
  assumes "distinct (map te_crash_id timeline)" and "\<forall>e \<in> set timeline. plain e"
  shows "\<exists>r. correlate en timeline limit window max_rounds n = Some r \<and>
    mset (concat (map gr_crashes (rp_groups r)) @ rp_unexplained r) = mset (map te_crash_id timeline) \<and>
    (\<forall>g \<in> set (rp_groups r). \<exists>h \<in> set (rp_hypotheses r). stands_for g h \<and>
       (\<forall>c \<in> set (gr_crashes g). \<exists>e \<in> set timeline. te_crash_id e = c \<and> agrees (en_ext en) h e)) \<and>
    sorted_wrt (\<lambda>g k. gr_confidence k \<le> gr_confidence g) (rp_groups r) \<and>
    (\<forall>e \<in> set timeline. te_crash_id e \<in> set (rp_unexplained r) \<longrightarrow>
       (\<forall>h \<in> set (rp_hypotheses r). hy_status h = Validated \<longrightarrow> \<not> agrees (en_ext en) h e))"
proof -
  let ?x = "en_ext en" and ?ds = "load_devices en" and ?ids = "map te_crash_id timeline"
  obtain hs where hs: "correlate_rounds en limit timeline ?ds (nat max_rounds) n (py_take limit timeline) [] [] [] = Some hs"
    and "list_all (\<lambda>h. \<exists>h0. h = validate_hypothesis ?x h0 timeline ?ds) hs"
    using correlate_rounds_some [of timeline "py_take limit timeline" en ?ds "[]"] set_py_take [of limit timeline] assms(2)
    by auto blast
  then have m: "ev_matching (hy_evidence h) = map te_crash_id (filter (agrees ?x h) timeline)" if "h \<in> set hs" for h
    using that validated_matching by (auto simp: list_all_iff)
  let ?s = "sort_key (\<lambda>h. - hy_confidence h) hs"
  have d: "\<forall>h \<in> set ?s. distinct (ev_matching (hy_evidence h))"
    using assms(1) by (auto simp: m distinct_map inj_on_def)
  have srt: "sorted_wrt (\<lambda>h k. hy_confidence k \<le> hy_confidence h) ?s"
    using sorted_sort_key [of "\<lambda>h. - hy_confidence h" hs] by (simp add: sorted_wrt_map)
  have "\<exists>gs. build_groups en hs timeline = Some gs \<and> (\<forall>g \<in> set gs. \<exists>h \<in> set hs. stands_for g h) \<and>
      distinct (concat (map gr_crashes gs)) \<and> sorted_wrt (\<lambda>g k. gr_confidence k \<le> gr_confidence g) gs \<and>
      (\<forall>h \<in> set hs. hy_status h = Validated \<longrightarrow> set (ev_matching (hy_evidence h)) \<subseteq> set (concat (map gr_crashes gs)))"
    using group_loop_some [of timeline "[]" "[]" ?s en, OF _ _ _ d srt] assms(2) by (simp add: build_groups_def)
  then obtain gs where gs: "build_groups en hs timeline = Some gs" "\<And>g. g \<in> set gs \<Longrightarrow> \<exists>h \<in> set hs. stands_for g h"
    "distinct (concat (map gr_crashes gs))" "sorted_wrt (\<lambda>g k. gr_confidence k \<le> gr_confidence g) gs"
    "\<And>h. h \<in> set hs \<Longrightarrow> hy_status h = Validated \<Longrightarrow> set (ev_matching (hy_evidence h)) \<subseteq> set (concat (map gr_crashes gs))"
    by blast
  let ?g = "concat (map gr_crashes gs)"
  let ?u = "map te_crash_id (filter (\<lambda>e. te_crash_id e \<notin> set ?g) timeline)"
  have sound: "\<exists>h \<in> set hs. stands_for g h \<and> (\<forall>c \<in> set (gr_crashes g). \<exists>e \<in> set timeline. te_crash_id e = c \<and> agrees ?x h e)"
    if g: "g \<in> set gs" for g
  proof -
    obtain h where h: "h \<in> set hs" "stands_for g h" using gs(2) [OF g] by blast
    then have "set (gr_crashes g) \<subseteq> te_crash_id ` set (filter (agrees ?x h) timeline)" by (simp add: stands_for_def m)
    then show ?thesis using h by fastforce
  qed
  have "set ?g \<subseteq> set ?ids" using sound by fastforce
  then have "set (?g @ ?u) = set ?ids" by auto
  moreover have "distinct (?g @ ?u)" using gs(3) assms(1) by (auto simp: distinct_map_filter)
  ultimately have parts: "mset (?g @ ?u) = mset ?ids" using assms(1) set_eq_iff_mset_eq_distinct by blast
  have rest: "\<not> agrees ?x h e" if "e \<in> set timeline" "te_crash_id e \<in> set ?u" "h \<in> set hs" "hy_status h = Validated" for e h
    using gs(5) [OF that(3,4)] that(1,2) by (auto simp: m [OF that(3)])
  obtain r where "correlate en timeline limit window max_rounds n = Some r" "rp_groups r = gs" "rp_hypotheses r = hs" "rp_unexplained r = ?u"
    by (simp add: correlate_def hs gs(1) Let_def)
  then show ?thesis using parts sound gs(4) rest by auto
qed



definition sample_engine :: engine where
  "sample_engine = \<lparr>en_ext = \<lparr>ce_repr = (\<lambda>_. []), ce_float = (\<lambda>_. None), ce_time = (\<lambda>_. []), ce_member = (\<lambda>_. AJson JNull)\<rparr>,
     en_use_llm = False, en_answer = (\<lambda>_ _. None), en_loads = (\<lambda>_. None), en_story = (\<lambda>_ _ _. None), en_roster = None\<rparr>"



text \<open>A class the schema does not know, in a sample proposed from without a language model, ends the run with an exception.\<close>

theorem unknown_class_raises:
  assumes "\<not> en_use_llm en" and "0 < max_rounds" and "e \<in> set (py_take limit timeline)" and "te_class e = Some k"
    and "k \<noteq> []" and "k \<notin> set CLASS_NAMES"
  shows "correlate en timeline limit window max_rounds n = None"
proof -
  have "combo_hypothesis (te_firmware e, te_class e) = None" using assms(4,6) by (simp add: combo_hypothesis_def)
  then have "None \<in> combo_hypothesis ` (\<lambda>e. (te_firmware e, te_class e)) ` {e \<in> set (py_take limit timeline). truthy (te_class e)}"
    using assms(3-5) by force
  then have "propose_deterministic (py_take limit timeline) = None"
    by (simp add: propose_deterministic_def all_some_iff Let_def)
  moreover obtain m where "nat max_rounds = Suc m" using assms(2) by (metis gr0_implies_Suc zero_less_nat_eq)
  ultimately show ?thesis using assms(1) by (simp add: correlate_def propose_def)
qed

text \<open>A device that crashed and is on the roster counts twice among the devices considered.\<close>

theorem devices_counted_twice:
  assumes "correlate en timeline limit window max_rounds n = Some r"
    and "d \<in> set (device_ids timeline)" and "d \<in> fd_id ` set (load_devices en)"
  shows "card (set (device_ids timeline) \<union> fd_id ` set (load_devices en)) < rp_devices r"
proof -
  let ?A = "set (device_ids timeline)" and ?B = "fd_id ` set (load_devices en)"
  have "rp_devices r = card ?A + card ?B"
    using assms(1) by (auto simp: correlate_def Let_def length_remdups_card_conv device_ids_def split: option.splits)
  moreover have "card ?A + card ?B = card (?A \<union> ?B) + card (?A \<inter> ?B)" by (rule card_Un_Int) simp_all
  moreover have "0 < card (?A \<inter> ?B)" using assms(2,3) by (auto simp: card_gt_0_iff)
  ultimately show ?thesis by simp
qed

end
