(* ===== verification/Timeline.thy ===== *)
theory Timeline
  imports Fleet_Report
begin

text \<open>
  nff-diagnosis, the crash timeline (\<open>correlation/timeline.py\<close>): the join of crashes, diagnoses and ELF records, and the
  file that collects it over many runs. A file is the list of the rows it holds; the text of a row is the serializer's.
  With \<open>Fleet_Report\<close> the theorems show that whatever the pipeline stored can be correlated.
\<close>

section \<open>Building the timeline\<close>

definition class_text :: "crash_class \<Rightarrow> string" where
  "class_text k = (case k of NullDeref \<Rightarrow> ''null_deref'' | StackOverflow \<Rightarrow> ''stack_overflow'' | Watchdog \<Rightarrow> ''watchdog''
     | HeapCorruption \<Rightarrow> ''heap_corruption'' | DivideByZero \<Rightarrow> ''divide_by_zero'' | UnalignedAccess \<Rightarrow> ''unaligned_access''
     | IllegalInstruction \<Rightarrow> ''illegal_instruction'' | BadInstructionFetch \<Rightarrow> ''bad_instruction_fetch''
     | AssertFailed \<Rightarrow> ''assert_failed'' | Brownout \<Rightarrow> ''brownout'' | UnknownClass \<Rightarrow> ''unknown'')"

definition location_json :: "location option \<Rightarrow> (string \<times> json) list" where
  "location_json l = (case l of None \<Rightarrow> []
     | Some l \<Rightarrow> [(''function'', JStr (lo_function l)), (''file'', JStr (lo_file l)),
         (''line'', case lo_line l of None \<Rightarrow> JNull | Some n \<Rightarrow> JInt n)])"

definition timeline_row :: "elf list \<Rightarrow> storage \<Rightarrow> crash_record \<Rightarrow> timeline_entry" where
  "timeline_row es s c = (let diag = get_diagnosis (cr_id c) s; e = elf_get (cr_build c) es in
     \<lparr>te_crash_id = cr_id c, te_device = cr_device c, te_build = cr_build c, te_firmware = map_option el_version e,
      te_project = map_option el_project e, te_customer = map_option el_customer e, te_received = cr_received c,
      te_panic = cr_panic c, te_class = map_option (\<lambda>d. class_text (dg_class d)) diag,
      te_location = (case diag of None \<Rightarrow> [] | Some d \<Rightarrow> location_json (dg_location d)),
      te_confidence = map_option dg_confidence diag\<rparr>)"

definition build_timeline :: "elf list \<Rightarrow> storage \<Rightarrow> timeline_entry list option" where
  "build_timeline es s = map_option (\<lambda>cs. sort_key te_received (map (timeline_row es s) cs)) (iter_all_crashes 500 s)"

lemma build_timeline_eq: "build_timeline es s = Some (sort_key te_received (map (timeline_row es s) (rev (st_crashes s))))"
  by (simp add: build_timeline_def iter_all_crashes_def iter_pages_all)

lemma row_simps [simp]: "te_crash_id (timeline_row es s c) = cr_id c" "te_received (timeline_row es s c) = cr_received c"
  by (simp_all add: timeline_row_def Let_def)

lemma class_text_named: "class_text k \<in> set CLASS_NAMES"
  by (cases k) (simp_all add: class_text_def CLASS_NAMES_def)

lemma row_plain: "plain (timeline_row es s c)"
  using class_text_named
  by (auto simp: plain_def timeline_row_def Let_def location_json_def hashable_def split: option.split)




section \<open>The timeline file\<close>

definition upsert :: "timeline_entry \<Rightarrow> timeline_entry list \<Rightarrow> timeline_entry list" where
  "upsert e f = (if te_crash_id e \<in> te_crash_id ` set f
     then map (\<lambda>g. if te_crash_id g = te_crash_id e then e else g) f else f @ [e])"

definition read_jsonl :: "timeline_entry list option \<Rightarrow> timeline_entry list" where
  "read_jsonl file = (case file of None \<Rightarrow> [] | Some rows \<Rightarrow> rows)"

definition write_jsonl :: "timeline_entry list \<Rightarrow> timeline_entry list option \<Rightarrow> timeline_entry list option" where
  "write_jsonl entries file =
     (let merged = fold upsert (read_jsonl file) []; merged' = fold upsert entries merged in
      Some (sort_key te_received merged'))"

lemma look_upsert:
  "look_key te_crash_id i (upsert e f) = (if i = te_crash_id e then Some e else look_key te_crash_id i f)"
proof -
  have "look_key te_crash_id i (map (\<lambda>g. if te_crash_id g = te_crash_id e then e else g) f) =
      (if i = te_crash_id e \<and> te_crash_id e \<in> te_crash_id ` set f then Some e else look_key te_crash_id i f)"
    by (induction f) (auto simp: look_key_def)
  moreover have "look_key te_crash_id i (f @ [e]) = (if look_key te_crash_id i f = None \<and> i = te_crash_id e then Some e else look_key te_crash_id i f)"
    by (induction f) (auto simp: look_key_def)
  moreover have "look_key te_crash_id (te_crash_id e) f = None" if "te_crash_id e \<notin> te_crash_id ` set f"
    using that by (simp add: look_key_def find_None_iff image_iff) metis
  ultimately show ?thesis by (auto simp: upsert_def)
qed

lemma look_fold_upsert:
  "look_key te_crash_id i (fold upsert es f) =
     (case by_crash es i of None \<Rightarrow> look_key te_crash_id i f | Some e \<Rightarrow> Some e)"
  by (induction es rule: rev_induct) (auto simp: by_crash_def look_upsert)

lemma keys_upsert:
  "map te_crash_id (upsert e f) = (if te_crash_id e \<in> te_crash_id ` set f then map te_crash_id f else map te_crash_id f @ [te_crash_id e])"
  by (auto simp: upsert_def)

lemma distinct_fold_upsert: "distinct (map te_crash_id f) \<Longrightarrow> distinct (map te_crash_id (fold upsert es f))"
  by (induction es arbitrary: f) (simp_all add: keys_upsert)

lemma keys_fold_upsert:
  "te_crash_id ` set es \<subseteq> te_crash_id ` set f \<Longrightarrow> map te_crash_id (fold upsert es f) = map te_crash_id f"
proof (induction es arbitrary: f)
  case (Cons e es)
  have k: "map te_crash_id (upsert e f) = map te_crash_id f" using Cons.prems by (simp add: keys_upsert)
  then have "te_crash_id ` set (upsert e f) = te_crash_id ` set f" by (metis list.set_map)
  then show ?case using Cons k by simp
qed simp

lemma fold_upsert_new: "distinct (map te_crash_id (f @ es)) \<Longrightarrow> fold upsert es f = f @ es"
  by (induction es arbitrary: f) (auto simp: upsert_def)

text \<open>A table with distinct keys is determined by its keys and its look-ups; order does not matter to them.\<close>

lemma rows_by_key:
  assumes "map te_crash_id f = map te_crash_id g" and "distinct (map te_crash_id f)"
    and "\<And>i. look_key te_crash_id i f = look_key te_crash_id i g"
  shows "f = g"
proof (rule nth_equalityI)
  show len: "length f = length g" using assms(1) by (metis length_map)
  have look: "look_key te_crash_id (te_crash_id (h ! n)) h = Some (h ! n)" if "distinct (map te_crash_id h)" "n < length h" for h n
    using that
  proof (induction h arbitrary: n)
    case (Cons a h)
    then show ?case by (cases n) (auto simp: look_key_def)
  qed simp
  show "f ! n = g ! n" if "n < length f" for n
    using look [of f n] look [of g n] that assms len by (metis nth_map option.inject)
qed

lemma look_distinct: "distinct (map te_crash_id f) \<Longrightarrow> look_key te_crash_id i f = Some e \<longleftrightarrow> e \<in> set f \<and> te_crash_id e = i"
  by (induction f) (auto simp: look_key_def)

lemma look_sort:
  assumes "distinct (map te_crash_id f)"
  shows "look_key te_crash_id i (sort_key te_received f) = look_key te_crash_id i f"
proof -
  have "distinct (map te_crash_id (sort_key te_received f))" using assms by (simp add: distinct_map)
  then have "look_key te_crash_id i (sort_key te_received f) = Some e \<longleftrightarrow> look_key te_crash_id i f = Some e" for e
    using assms by (simp add: look_distinct)
  then show ?thesis by (metis not_None_eq)
qed


end
