(* ===== verification/Local_Diagnose.thy ===== *)
theory Local_Diagnose
  imports Timeline
begin

text \<open>
  The command line's own crash analysis, \<open>src/nff/tools/diagnose.py\<close>: a second parser and classifier beside those of
  nff-diagnosis, without a network. The sentences of its taxonomy and rationales are left out, as there.

  The theorem \<open>local_agrees_with_service\<close> shows that both classify every dump alike, where the local one returns.
\<close>

section \<open>Lines of a text\<close>

definition is_break :: "char \<Rightarrow> bool" where
  "is_break c \<longleftrightarrow> (of_char c :: nat) \<in> {10, 11, 12, 13, 28, 29, 30, 133}"

text \<open>\<open>splitlines()\<close>; the flag says that the last character was a carriage return.\<close>

fun lines_from :: "bool \<Rightarrow> string \<Rightarrow> string \<Rightarrow> string list" where
  "lines_from cr w [] = (if w = [] then [] else [rev w])"
| "lines_from cr w (c # cs) =
     (if cr \<and> c = newline then lines_from False w cs
      else if is_break c then rev w # lines_from (c = CHR 0x0D) [] cs
      else lines_from False (c # w) cs)"

definition splitlines :: "string \<Rightarrow> string list" where
  "splitlines s = lines_from False [] s"


section \<open>Parsing\<close>

record crash_facts =
  cf_panic :: string
  cf_cause :: "int option"
  cf_abort :: "string option"
  cf_pc :: "string option"
  cf_addr :: "string option"
  cf_regs :: "(string \<times> string) list"
  cf_backtrace :: "string list"
  cf_task :: "string option"
  cf_cpu :: "int option"

definition no_facts :: "string \<Rightarrow> crash_facts" where
  "no_facts panic = \<lparr>cf_panic = panic, cf_cause = None, cf_abort = None, cf_pc = None, cf_addr = None, cf_regs = [],
     cf_backtrace = [], cf_task = None, cf_cpu = None\<rparr>"

definition RE_BROWNOUT :: rx where "RE_BROWNOUT = Lit ''Brownout detector was triggered''"

definition RE_WATCHDOG :: rx where
  "RE_WATCHDOG = Alt (Lit ''Task watchdog got triggered'')
     (Alt (Lit ''Interrupt wdt timeout'') (seqs [Lit ''Guru Meditation Error'', LazyStar dot, Lit ''TWDT'']))"

definition RE_ABORT :: rx where "RE_ABORT = Alt (Lit ''abort() was called'') (Lit ''assert failed:'')"

definition RE_GURU :: rx where
  "RE_GURU = seqs [Lit ''Guru Meditation Error'', LazyStar any, Lit ''Core'', Plus ws, Group 1 (Plus digit), Plus ws, panicked]"

definition RE_ASSERT_MSG :: rx where "RE_ASSERT_MSG = seqs [Lit ''assert failed:'', Star ws, Group 1 (Plus dot)]"

definition RE_ABORT_AT :: rx where
  "RE_ABORT_AT = seqs [Lit ''abort() was called at PC'', Star ws, Group 1 hexnum,
     Opt (seqs [Plus ws, Lit ''on core'', Star ws, Group 2 (Plus digit)])]"

definition RE_EXCCAUSE :: rx where
  "RE_EXCCAUSE = seqs [Lit ''EXCCAUSE'', Star ws, colon_eq, Star ws, Group 1 (Alt hexnum (Plus digit))]"

definition RE_EXCVADDR :: rx where "RE_EXCVADDR = seqs [Lit ''EXCVADDR'', Star ws, colon_eq, Star ws, Group 1 hexnum]"

definition RE_PC :: rx where "RE_PC = seqs [Edge, Lit ''PC'', Star ws, colon_eq, Star ws, Group 1 hexnum]"

definition RE_CORE :: rx where "RE_CORE = seqs [Lit ''Core'', Plus ws, Group 1 (Plus digit), Plus ws, panicked]"

definition RE_REGISTER :: rx where
  "RE_REGISTER = seqs [Edge,
     Group 1 (Alt (seqs [Lit ''A'', digit, Opt digit]) (Alt (Lit ''PC'') (Alt (Lit ''PS'') (Alt (Lit ''SAR'')
       (Alt (Lit ''EXCCAUSE'') (Lit ''EXCVADDR'')))))),
     Star ws, colon_eq, Star ws, Group 2 hexnum]"

definition RE_BACKTRACE :: rx where
  "RE_BACKTRACE = seqs [Lit ''Backtrace:'', Star ws,
     Group 1 (Plus (seqs [hexnum, Opt (Seq (Lit '':'') hexnum), Star ws]))]"

definition RE_HEX :: rx where "RE_HEX = Group 1 hexnum"

definition RE_TASK :: rx where
  "RE_TASK = Alt
     (seqs [Lit ''Running task'', Star ws, Opt quote, Group 1 (Plus (Cls (\<lambda>c. \<not> is_space c \<and> \<not> is_quote c))), Opt quote])
     (seqs [Lit ''Task'', Star ws, quote, Group 2 (Plus (Cls (\<lambda>c. \<not> is_quote c))), quote, LazyStar dot, Lit ''watchdog''])"

definition frames :: "string \<Rightarrow> string list" where
  "frames raw = (case search True RE_BACKTRACE raw of None \<Rightarrow> []
    | Some m \<Rightarrow> List.map_filter (\<lambda>token. case findall False RE_HEX token of [] \<Rightarrow> None | h # _ \<Rightarrow> Some (rm_text h))
        (words (or_else (group_of 1 m) [])))"

definition task_of :: "string \<Rightarrow> string option" where
  "task_of raw = (case search True RE_TASK raw of None \<Rightarrow> None
    | Some m \<Rightarrow> if truthy (group_of 1 m) then group_of 1 m else group_of 2 m)"

text \<open>\<open>int(text, 0)\<close> on hexadecimal or decimal digits: a decimal number may not begin with a zero, unless it is zero.\<close>

definition py_int0 :: "string \<Rightarrow> int option" where
  "py_int0 v = (if take 2 v = ''0x'' then py_hex v
     else if take 1 v = ''0'' \<and> \<not> list_all (\<lambda>c. c = CHR ''0'') v then None
     else py_int v)"

definition parse_abort_facts :: "string \<Rightarrow> crash_facts" where
  "parse_abort_facts raw =
     (let f0 = (no_facts ''abort'')\<lparr>cf_backtrace := frames raw,
            cf_abort := map_option (\<lambda>m. ''assert failed: '' @ strip (or_else (group_of 1 m) [])) (search False RE_ASSERT_MSG raw)\<rparr> in
      case search True RE_ABORT_AT raw of None \<Rightarrow> f0
      | Some m \<Rightarrow> f0\<lparr>cf_pc := group_of 1 m,
            cf_abort := (case cf_abort f0 of None \<Rightarrow> Some (strip (rm_text m)) | Some r \<Rightarrow> Some r),
            cf_cpu := Option.bind (group_of 2 m) py_int\<rparr>)"

definition parse_guru_facts :: "string \<Rightarrow> crash_facts option" where
  "parse_guru_facts raw =
     (let cause = find_group False RE_EXCCAUSE 1 raw in
      if cause \<noteq> None \<and> py_int0 (the cause) = None then None
      else Some ((no_facts ''guru_meditation'')\<lparr>
        cf_backtrace := frames raw,
        cf_cpu := Option.bind (find_group False RE_CORE 1 raw) py_int,
        cf_cause := Option.bind cause py_int0,
        cf_addr := find_group False RE_EXCVADDR 1 raw,
        cf_pc := find_group False RE_PC 1 raw,
        cf_regs := fold (\<lambda>m d. set_reg (or_else (group_of 1 m) []) (or_else (group_of 2 m) []) d) (findall False RE_REGISTER raw) [],
        cf_task := task_of raw\<rparr>))"

definition parse_crash :: "string \<Rightarrow> crash_facts option" where
  "parse_crash raw =
     (if found True RE_BROWNOUT raw then Some (no_facts ''brownout'')
      else if found True RE_WATCHDOG raw then Some ((no_facts ''idf_watchdog'')\<lparr>cf_task := task_of raw\<rparr>)
      else if found True RE_ABORT raw then Some (parse_abort_facts raw)
      else if found True RE_GURU raw then parse_guru_facts raw
      else Some (no_facts ''unknown''))"


section \<open>Classifying\<close>

definition near_null :: "string option \<Rightarrow> bool" where
  "near_null addr = (case Option.bind addr py_hex of None \<Rightarrow> False | Some v \<Rightarrow> v \<le> 0xFF)"

definition in_heap :: "string option \<Rightarrow> bool" where
  "in_heap addr = (case Option.bind addr py_hex of None \<Rightarrow> False | Some v \<Rightarrow> 0x3FFB0000 \<le> v \<and> v \<le> 0x3FFF0000)"

definition stuck_unwinder :: "string list \<Rightarrow> nat \<Rightarrow> bool" where
  "stuck_unwinder backtrace min_repeat = list_ex (\<lambda>pc. min_repeat \<le> count_list backtrace pc) backtrace"

definition classify_facts :: "crash_facts \<Rightarrow> classification" where
  "classify_facts f = (let cause = cf_cause f; addr = cf_addr f in
     if cf_panic f = ''idf_watchdog'' then verdict Watchdog (97/100) WatchdogFormat []
     else if cf_panic f = ''abort'' then
       verdict AssertFailed (95/100) (AbortCalled (or_else (cf_abort f) ''abort() was called'')) []
     else if cf_panic f = ''brownout'' then verdict Brownout (96/100) BrownoutFormat []
     else if cause = Some 29 \<and> near_null addr then verdict NullDeref (96/100) (StoreToNull addr) []
     else if cause = Some 29 then verdict NullDeref (75/100) (StoreElsewhere addr) [HeapCorruption]
     else if cause = Some 28 \<and> near_null addr then verdict NullDeref (96/100) (LoadFromNull addr) []
     else if cause = Some 6 then verdict DivideByZero (97/100) DivisionTrap []
     else if cause = Some 9 then verdict UnalignedAccess (95/100) (AlignmentTrap addr) []
     else if cause = Some 20 then verdict BadInstructionFetch (90/100) (FetchTrap (cf_pc f)) [StackOverflow]
     else if stuck_unwinder (cf_backtrace f) 3 then
       verdict StackOverflow (93/100) StuckUnwinder (if in_heap addr then [HeapCorruption] else [])
     else if cause = Some 0 \<and> stuck_unwinder (cf_backtrace f) 2 then
       verdict StackOverflow (85/100) IllegalWithRepeats []
     else if cause = Some 0 then verdict IllegalInstruction (80/100) IllegalOpcode [BadInstructionFetch]
     else if cause = Some 28 \<and> in_heap addr then verdict HeapCorruption (72/100) (LoadFromHeap addr) [NullDeref]
     else if cause = Some 28 then verdict NullDeref (60/100) (LoadElsewhere addr) [HeapCorruption]
     else verdict UnknownClass (30/100) (NoSignal (cf_panic f) cause addr) [NullDeref])"

text \<open>The answer of the tool: no panic found, or the class with its metadata and the facts; both quote at most 60 lines.\<close>

datatype local_answer = NoPanic string | Diagnosed fault_class classification crash_facts string

definition excerpt :: "string \<Rightarrow> string" where
  "excerpt raw = join [newline] (take 60 (splitlines raw))"

definition local_diagnose :: "string \<Rightarrow> local_answer option" where
  "local_diagnose raw = (case parse_crash raw of None \<Rightarrow> None
    | Some f \<Rightarrow> if cf_panic f = ''unknown'' then Some (NoPanic (excerpt raw))
        else (let k = classify_facts f in Some (Diagnosed (taxonomy_for (cl_class k)) k f (excerpt raw))))"



section \<open>One classifier, two programs\<close>

lemma same_patterns:
  "RE_BROWNOUT = BROWNOUT_RE" "RE_WATCHDOG = WDT_RE" "RE_ABORT = ABORT_RE" "RE_GURU = GURU_RE" "RE_ASSERT_MSG = ASSERT_MSG_RE"
  "RE_EXCCAUSE = EXCCAUSE_RE" "RE_EXCVADDR = EXCVADDR_RE" "RE_PC = PC_RE" "RE_CORE = CPU_RE" "RE_REGISTER = REG_RE"
  "RE_BACKTRACE = BACKTRACE_RE" "RE_HEX = PC_TOKEN_RE" "RE_TASK = TASK_RE"
  by (simp_all add: RE_BROWNOUT_def BROWNOUT_RE_def RE_WATCHDOG_def WDT_RE_def RE_ABORT_def ABORT_RE_def RE_GURU_def GURU_RE_def
    RE_ASSERT_MSG_def ASSERT_MSG_RE_def RE_EXCCAUSE_def EXCCAUSE_RE_def RE_EXCVADDR_def EXCVADDR_RE_def RE_PC_def PC_RE_def
    RE_CORE_def CPU_RE_def RE_REGISTER_def REG_RE_def RE_BACKTRACE_def BACKTRACE_RE_def RE_HEX_def PC_TOKEN_RE_def RE_TASK_def TASK_RE_def)

lemma frames_eq: "frames raw = parse_backtrace raw"
proof -
  have "List.map_filter (\<lambda>t. case findall False PC_TOKEN_RE t of [] \<Rightarrow> None | h # _ \<Rightarrow> Some (rm_text h)) ts =
      concat (map (\<lambda>t. case findall False PC_TOKEN_RE t of [] \<Rightarrow> [] | m # _ \<Rightarrow> [rm_text m]) ts)" for ts
    by (induction ts) (simp_all add: List.map_filter_def split: list.split)
  moreover have "words [] = []" by (simp add: words_def)
  ultimately show ?thesis
    by (auto simp: frames_def parse_backtrace_def find_group_def same_patterns or_else_def split: option.split)
qed

lemma task_of_eq: "task_of raw = task_name raw"
  by (auto simp: task_of_def task_name_def same_patterns truthy_def split: option.split)

lemma ranges_eq: "near_null = is_null_range" "in_heap = is_heap_range" "stuck_unwinder = has_repeated_pcs"
  by (auto simp: fun_eq_iff near_null_def is_null_range_def in_heap_def is_heap_range_def HEAP_LOW_def HEAP_HIGH_def
    stuck_unwinder_def has_repeated_pcs_def split: option.split)

lemma py_int0_cause:
  assumes "py_int0 v = Some n"
  shows "(if take 2 v = ''0x'' \<or> take 2 v = ''0X'' then py_hex v else py_int v) = Some n"
proof (cases "take 2 v = ''0x''")
  case True
  then show ?thesis using assms by (simp add: py_int0_def)
next
  case False
  have "\<not> take 2 v = ''0X''"
  proof
    assume "take 2 v = ''0X''"
    then obtain w where "v = CHR ''0'' # CHR ''X'' # w" by (cases v; cases "tl v") auto
    then show False using assms by (simp add: py_int0_def)
  qed
  then show ?thesis using assms False by (simp add: py_int0_def split: if_splits)
qed

text \<open>What the classification reads: the panic format, and for an exception its cause, address, frames and program counter.\<close>

definition same_signal :: "crash_facts \<Rightarrow> crash_record \<Rightarrow> bool" where
  "same_signal f c \<longleftrightarrow> cf_panic f = cr_panic c \<and> cf_cause f = cr_cause c \<and> cf_addr f = cr_addr c \<and> cf_backtrace f = cr_backtrace c \<and>
     (cf_panic f \<noteq> ''abort'' \<longrightarrow> cf_pc f = cr_pc c \<and> cf_regs f = cr_regs c \<and> cf_task f = cr_task c \<and> cf_cpu f = cr_cpu c)"

lemma guru_signal:
  assumes "parse_guru_facts raw = Some f"
  shows "same_signal f (crash_of i now build dev raw) \<or> parse raw \<noteq> parse_guru raw"
proof -
  let ?v = "find_group False EXCCAUSE_RE 1 raw"
  have cause: "Option.bind ?v py_int0 = Option.bind ?v (\<lambda>v. if take 2 v = ''0x'' \<or> take 2 v = ''0X'' then py_hex v else py_int v)"
  proof (cases ?v)
    case (Some v)
    then obtain n where n: "py_int0 v = Some n" using assms by (auto simp: parse_guru_facts_def Let_def same_patterns split: if_splits)
    show ?thesis unfolding Some using py_int0_cause [OF n] n by (simp del: One_nat_def)
  qed simp
  have pc: "(case findall False PC_RE raw of [] \<Rightarrow> None | m # _ \<Rightarrow> group_of 1 m) = find_group False PC_RE 1 raw"
    by (simp add: findall_first find_group_def del: One_nat_def)
  have "f = (no_facts ''guru_meditation'')\<lparr>cf_backtrace := parse_backtrace raw,
      cf_cpu := Option.bind (find_group False CPU_RE 1 raw) py_int, cf_cause := Option.bind ?v py_int0,
      cf_addr := find_group False EXCVADDR_RE 1 raw, cf_pc := find_group False PC_RE 1 raw, cf_regs := registers raw,
      cf_task := task_name raw\<rparr>"
    using assms by (auto simp: parse_guru_facts_def Let_def same_patterns frames_eq task_of_eq registers_def split: if_splits)
  then show ?thesis
    unfolding same_signal_def crash_of_def Let_def
    by (auto simp: no_facts_def parse_guru_def no_fields_def cause pc simp del: One_nat_def)
qed

lemma parse_signal:
  assumes "parse_crash raw = Some f"
  shows "same_signal f (crash_of i now build dev raw)"
proof -
  let ?b = "found True BROWNOUT_RE raw" and ?w = "found True WDT_RE raw" and ?a = "found True ABORT_RE raw" and ?g = "found True GURU_RE raw"
  consider ?b | "\<not> ?b" ?w | "\<not> ?b" "\<not> ?w" ?a | "\<not> ?b" "\<not> ?w" "\<not> ?a" ?g | "\<not> ?b" "\<not> ?w" "\<not> ?a" "\<not> ?g" by blast
  then show ?thesis
  proof cases
    case 1
    then show ?thesis using assms
      by (auto simp: parse_crash_def same_patterns same_signal_def crash_of_def parse_def no_facts_def no_fields_def Let_def)
  next
    case 2
    then show ?thesis using assms
      by (auto simp: parse_crash_def same_patterns same_signal_def crash_of_def parse_def parse_watchdog_def no_facts_def
          no_fields_def Let_def task_of_eq)
  next
    case 3
    then show ?thesis using assms
      by (simp add: parse_crash_def same_patterns same_signal_def crash_of_def parse_def parse_abort_facts_def parse_abort_def
          no_facts_def no_fields_def Let_def frames_eq split: option.splits) (auto simp: frames_eq)
  next
    case 4
    then have "parse_guru_facts raw = Some f" "parse raw = parse_guru raw" using assms by (simp_all add: parse_crash_def same_patterns parse_def)
    then show ?thesis using guru_signal by blast
  next
    case 5
    then show ?thesis using assms
      by (auto simp: parse_crash_def same_patterns same_signal_def crash_of_def parse_def no_facts_def no_fields_def Let_def)
  qed
qed

lemma classify_signal:
  assumes "same_signal f c"
  shows "cl_class (classify_facts f) = cl_class (classify c)" "cl_confidence (classify_facts f) = cl_confidence (classify c)"
    "cl_candidates (classify_facts f) = cl_candidates (classify c)"
proof -
  have "cf_panic f = ''abort'' \<or> classify_facts f = classify c"
    using assms by (simp add: same_signal_def classify_facts_def classify_def ranges_eq Let_def)
  moreover have "cl_class (classify_facts f) = cl_class (classify c)" "cl_confidence (classify_facts f) = cl_confidence (classify c)"
    "cl_candidates (classify_facts f) = cl_candidates (classify c)" if "cf_panic f = ''abort''"
    using assms that by (simp_all add: same_signal_def classify_facts_def classify_def Let_def)
  ultimately show "cl_class (classify_facts f) = cl_class (classify c)" "cl_confidence (classify_facts f) = cl_confidence (classify c)"
    "cl_candidates (classify_facts f) = cl_candidates (classify c)" by metis+
qed



text \<open>A decimal cause with a leading zero makes the local parser raise; the service reads it.\<close>

definition padded_cause :: string where
  "padded_cause = ''Guru Meditation Error: Core 0 panic'' @ [apostrophe] @ ''ed EXCCAUSE: 010''"

theorem padded_cause_raises: "parse_crash padded_cause = None" "pr_cause (parse padded_cause) = Some 10"
  by code_simp+

end
