(* ===== verification/Bench_Policy.thy ===== *)
theory Bench_Policy
  imports Local_Diagnose
begin

text \<open>
  The policy layer of the command line, \<open>src/nff/tools/policy.py\<close>: the belief about the bench, the graph of observed
  transitions, the planner (value iteration over expected times) and the tap on every tool call. The hash of a
  state, the configuration and the disk are parameters; a graph file that cannot be read counts as no file.
\<close>

section \<open>Belief\<close>

record bench =
  bs_device :: string
  bs_fault :: string

definition HEALTHY :: string where "HEALTHY = ''none''"
definition NO_DEVICE :: string where "NO_DEVICE = ''none''"

definition ACTUATION_TOOLS :: "string list" where
  "ACTUATION_TOOLS = [''compile'', ''flash'', ''reset_device'', ''serial_write'', ''ota_deploy'']"

definition canonical_id :: "(string \<Rightarrow> string) \<Rightarrow> string \<Rightarrow> string \<Rightarrow> string" where
  "canonical_id digest device fault = take 16 (digest (''bench|device='' @ device @ ''|fault='' @ fault))"

definition bench_id :: "(string \<Rightarrow> string) \<Rightarrow> bench \<Rightarrow> string" where
  "bench_id digest b = canonical_id digest (bs_device b) (bs_fault b)"

definition faulty :: "bench \<Rightarrow> bool" where
  "faulty b \<longleftrightarrow> bs_fault b \<noteq> HEALTHY"

definition initial_state :: "string option \<Rightarrow> bench" where
  "initial_state board = \<lparr>bs_device = or_else board NO_DEVICE, bs_fault = HEALTHY\<rparr>"

definition apply_outcome :: "bench \<Rightarrow> string \<Rightarrow> bool \<Rightarrow> string option \<Rightarrow> string option \<Rightarrow> bool \<Rightarrow> bench" where
  "apply_outcome b tool ok crash_class board serial_clean =
     (let device = (case board of None \<Rightarrow> bs_device b | Some d \<Rightarrow> if d \<noteq> [] then d else NO_DEVICE);
          fault = (if truthy crash_class then ''crash:'' @ the crash_class
            else if tool = ''compile'' then
              (if ok then (if bs_fault b = ''compile:fail'' then HEALTHY else bs_fault b) else ''compile:fail'')
            else if tool = ''flash'' then (if ok then HEALTHY else ''flash:fail'')
            else if tool = ''serial_read'' \<and> serial_clean \<and> starts_with ''crash:'' (bs_fault b) then HEALTHY
            else bs_fault b)
      in \<lparr>bs_device = device, bs_fault = fault\<rparr>)"


section \<open>The graph of transitions\<close>

record pnode =
  pn_id :: string
  pn_device :: string
  pn_fault :: string
  pn_visits :: int

record pedge =
  pe_from :: string
  pe_action :: string
  pe_to :: string
  pe_count :: int
  pe_success :: int
  pe_wall :: int

record pgraph =
  pg_nodes :: "pnode list"
  pg_edges :: "pedge list"

definition EMPTY_GRAPH :: pgraph where
  "EMPTY_GRAPH = \<lparr>pg_nodes = [], pg_edges = []\<rparr>"

definition load_graph :: "pgraph option \<Rightarrow> pgraph" where
  "load_graph file = (case file of None \<Rightarrow> EMPTY_GRAPH | Some g \<Rightarrow> g)"

definition visit :: "(string \<Rightarrow> string) \<Rightarrow> bench \<Rightarrow> pnode list \<Rightarrow> pnode list" where
  "visit digest b ns = (if look_key pn_id (bench_id digest b) ns = None
     then ns @ [\<lparr>pn_id = bench_id digest b, pn_device = bs_device b, pn_fault = bs_fault b, pn_visits = 1\<rparr>]
     else upd_key pn_id (bench_id digest b) (\<lambda>n. n\<lparr>pn_visits := pn_visits n + 1\<rparr>) ns)"

fun bump :: "string \<Rightarrow> string \<Rightarrow> string \<Rightarrow> bool \<Rightarrow> int \<Rightarrow> pedge list \<Rightarrow> pedge list" where
  "bump f a t ok wall [] =
     [\<lparr>pe_from = f, pe_action = a, pe_to = t, pe_count = 1, pe_success = (if ok then 1 else 0), pe_wall = wall\<rparr>]"
| "bump f a t ok wall (e # es) =
     (if pe_from e = f \<and> pe_action e = a \<and> pe_to e = t
      then e\<lparr>pe_count := pe_count e + 1, pe_success := pe_success e + (if ok then 1 else 0), pe_wall := pe_wall e + wall\<rparr> # es
      else e # bump f a t ok wall es)"

definition record_transition :: "(string \<Rightarrow> string) \<Rightarrow> pgraph \<Rightarrow> bench \<Rightarrow> string \<Rightarrow> bool \<Rightarrow> int \<Rightarrow> bench \<Rightarrow> bool \<times> pgraph" where
  "record_transition digest g pre tool ok wall post =
     (if bench_id digest pre = bench_id digest post \<and> tool \<notin> set ACTUATION_TOOLS \<and> ok then (False, g)
      else (True, \<lparr>pg_nodes = visit digest post (visit digest pre (pg_nodes g)),
              pg_edges = bump (bench_id digest pre) tool (bench_id digest post) ok wall (pg_edges g)\<rparr>))"


section \<open>The planner\<close>

record action_value =
  av_q :: xfloat
  av_cost :: rat
  av_to :: "string option"
  av_p :: rat
  av_support :: int

definition edge_p :: "int \<Rightarrow> pedge \<Rightarrow> rat" where
  "edge_p calls e = fdiv (of_int (pe_success e)) (of_int calls)"

text \<open>One pass over the edges of an action: progress, numerator and the likeliest target so far.\<close>

definition eval_edge :: "string \<Rightarrow> (string \<Rightarrow> xfloat) \<Rightarrow> int \<Rightarrow> pedge \<Rightarrow> rat \<times> xfloat \<times> string option \<times> rat \<Rightarrow>
    rat \<times> xfloat \<times> string option \<times> rat" where
  "eval_edge s values calls e acc = (case acc of (progress, numerator, to, np) \<Rightarrow>
     let p = edge_p calls e in
     if pe_to e = s \<or> p \<le> 0 then acc
     else (fadd progress p, xadd numerator (xscale p (values (pe_to e))),
           if np < p then Some (pe_to e) else to, if np < p then p else np))"

definition eval_action :: "string \<Rightarrow> pedge list \<Rightarrow> (string \<Rightarrow> xfloat) \<Rightarrow> rat \<Rightarrow> action_value" where
  "eval_action s es values min_edge_cost =
     (let calls = sum_list (map pe_count es) in
      if calls \<le> 0 then \<lparr>av_q = PInf, av_cost = min_edge_cost, av_to = None, av_p = 0, av_support = 0\<rparr>
      else (let cost = max min_edge_cost (fdiv (of_int (sum_list (map pe_wall es))) (of_int calls)) in
        case fold (eval_edge s values calls) es (0, Fin cost, None, 0) of (progress, numerator, to, np) \<Rightarrow>
          let progress' = min 1 (max 0 progress) in
          \<lparr>av_q = (if 0 < progress' then xdiv numerator progress' else PInf), av_cost = cost, av_to = to, av_p = np,
           av_support = calls\<rparr>))"

definition actions_of :: "pedge list \<Rightarrow> string list" where
  "actions_of es = sort (remdups (map pe_action es))"

definition better :: "string \<times> action_value \<Rightarrow> (string \<times> action_value) option \<Rightarrow> (string \<times> action_value) option" where
  "better a best = (case best of None \<Rightarrow> Some a | Some b \<Rightarrow> if xless (av_q (snd a)) (av_q (snd b)) then Some a else Some b)"

definition best_action :: "string \<Rightarrow> pedge list \<Rightarrow> (string \<Rightarrow> xfloat) \<Rightarrow> rat \<Rightarrow> (string \<times> action_value) option" where
  "best_action s es values min_edge_cost =
     fold better (map (\<lambda>a. (a, eval_action s (filter (\<lambda>e. pe_action e = a) es) values min_edge_cost)) (actions_of es)) None"

datatype plan_reason = UnknownStart | NoOutgoingEdges | UnreachableGoal

datatype plan_status = Planned | AlreadyGoal | Defer plan_reason

record plan_step =
  ps_action :: string
  ps_to :: string
  ps_wall :: rat
  ps_p :: rat

record plan =
  pl_status :: plan_status
  pl_path :: "plan_step list"
  pl_cost :: xfloat
  pl_support :: int

definition is_goal :: "pnode \<Rightarrow> bool" where
  "is_goal n \<longleftrightarrow> pn_fault n = HEALTHY"

definition goal_id :: "pgraph \<Rightarrow> string \<Rightarrow> bool" where
  "goal_id g s \<longleftrightarrow> (case look_key pn_id s (pg_nodes g) of None \<Rightarrow> False | Some n \<Rightarrow> is_goal n)"

definition edges_from :: "pgraph \<Rightarrow> string \<Rightarrow> pedge list" where
  "edges_from g s = filter (\<lambda>e. pe_from e = s) (pg_edges g)"

text \<open>The values, a dictionary; a missing key reads as infinity.\<close>

type_synonym vals = "(string \<times> xfloat) list"

definition value_of :: "vals \<Rightarrow> string \<Rightarrow> xfloat" where
  "value_of vs s = (case map_of vs s of None \<Rightarrow> PInf | Some v \<Rightarrow> v)"

fun set_value :: "string \<Rightarrow> xfloat \<Rightarrow> vals \<Rightarrow> vals" where
  "set_value s v [] = [(s, v)]"
| "set_value s v ((t, w) # vs) = (if t = s then (s, v) # vs else (t, w) # set_value s v vs)"

definition start_values :: "pgraph \<Rightarrow> vals" where
  "start_values g = map (\<lambda>n. (pn_id n, if is_goal n then Fin 0 else PInf)) (pg_nodes g)"

text \<open>The states with an edge, in the order of their first one, without the healthy ones.\<close>

definition relaxable :: "pgraph \<Rightarrow> string list" where
  "relaxable g = filter (\<lambda>s. value_of (start_values g) s \<noteq> Fin 0) (rev (remdups (rev (map pe_from (pg_edges g)))))"

definition xmax :: "xfloat \<Rightarrow> xfloat \<Rightarrow> xfloat" where
  "xmax a b = (if xless a b then b else a)"

definition relax :: "pgraph \<Rightarrow> rat \<Rightarrow> string \<Rightarrow> vals \<times> xfloat \<Rightarrow> vals \<times> xfloat" where
  "relax g min_edge_cost s acc = (case acc of (values, max_delta) \<Rightarrow>
     case best_action s (edges_from g s) (value_of values) min_edge_cost of None \<Rightarrow> acc
     | Some (a, v) \<Rightarrow>
         if xless (av_q v) (value_of values s)
         then (set_value s (av_q v) values,
           xmax max_delta (case (value_of values s, av_q v) of (Fin old, Fin q) \<Rightarrow> Fin (fsub old q) | _ \<Rightarrow> PInf))
         else acc)"

fun iterate :: "pgraph \<Rightarrow> rat \<Rightarrow> rat \<Rightarrow> nat \<Rightarrow> vals \<Rightarrow> vals" where
  "iterate g epsilon mec 0 values = values"
| "iterate g epsilon mec (Suc n) values =
     (case fold (relax g mec) (relaxable g) (values, Fin 0) of (values', max_delta) \<Rightarrow>
        if xless max_delta (Fin epsilon) then values' else iterate g epsilon mec n values')"

text \<open>The greedy path; \<open>room\<close> is how many steps it may still take, \<open>None\<close> an infinite support.\<close>

fun greedy_path :: "pgraph \<Rightarrow> rat \<Rightarrow> vals \<Rightarrow> nat \<Rightarrow> string list \<Rightarrow> string \<Rightarrow> plan_step list \<times> int option" where
  "greedy_path g mec values 0 seen s = ([], None)"
| "greedy_path g mec values (Suc room) seen s =
     (if goal_id g s then ([], None)
      else case best_action s (edges_from g s) (value_of values) mec of
        None \<Rightarrow> ([], None)
      | Some (a, v) \<Rightarrow>
          (if av_q v = PInf \<or> \<not> truthy (av_to v) then ([], None)
           else (let t = the (av_to v); st = \<lparr>ps_action = a, ps_to = t, ps_wall = av_cost v, ps_p = av_p v\<rparr> in
             if t \<in> set seen then ([st], Some (av_support v))
             else (case greedy_path g mec values room (t # seen) t of (path, spt) \<Rightarrow>
               (st # path, Some (case spt of None \<Rightarrow> av_support v | Some n \<Rightarrow> min (av_support v) n))))))"

definition no_plan :: "plan_status \<Rightarrow> xfloat \<Rightarrow> plan" where
  "no_plan st cost = \<lparr>pl_status = st, pl_path = [], pl_cost = cost, pl_support = 0\<rparr>"

definition plan_to_goal :: "pgraph \<Rightarrow> string \<Rightarrow> nat \<Rightarrow> rat \<Rightarrow> rat \<Rightarrow> nat \<Rightarrow> plan" where
  "plan_to_goal g start max_iters epsilon mec max_path_len =
     (case look_key pn_id start (pg_nodes g) of
        None \<Rightarrow> no_plan (Defer UnknownStart) PInf
      | Some n \<Rightarrow>
          if is_goal n then no_plan AlreadyGoal (Fin 0)
          else if edges_from g start = [] then no_plan (Defer NoOutgoingEdges) PInf
          else (let values = iterate g epsilon mec max_iters (start_values g) in
            if value_of values start = PInf then no_plan (Defer UnreachableGoal) PInf
            else (case greedy_path g mec values max_path_len [start] start of (path, spt) \<Rightarrow>
              \<lparr>pl_status = Planned, pl_path = path, pl_cost = value_of values start,
               pl_support = (if path = [] then 0 else case spt of None \<Rightarrow> 0 | Some n \<Rightarrow> n)\<rparr>)))"

text \<open>With the defaults of the code.\<close>

definition plan_default :: "pgraph \<Rightarrow> string \<Rightarrow> plan" where
  "plan_default g start = plan_to_goal g start 1000 (fl (1/1000)) 1 32"


section \<open>The advice\<close>

definition ACTION_GLOSS :: "(string \<times> string) list" where
  "ACTION_GLOSS = [(''compile'', ''compile the sketch to verify it builds''),
     (''flash'', ''compile and upload the (fixed) sketch to the board''),
     (''serial_read'', ''capture serial output to check the device behavior''),
     (''serial_write'', ''send input to the device over serial''),
     (''reset_device'', ''hardware-reset the board via DTR''),
     (''diagnose'', ''classify the crash locally from the serial output''),
     (''repair'', ''run the platform diagnosis to find the root cause''),
     (''list_devices'', ''enumerate the connected boards''),
     (''get_device_info'', ''inspect the connected board''),
     (''ota_deploy'', ''roll out the build over the air'')]"

text \<open>The values the text of a directive quotes: the state, the support, the seconds and the steps with their gloss.\<close>

record directive =
  di_state :: bench
  di_support :: int
  di_seconds :: int
  di_steps :: "(string \<times> string) list"

definition render_directive :: "bench \<Rightarrow> plan \<Rightarrow> int \<Rightarrow> directive option" where
  "render_directive b pl min_support =
     (if pl_status pl \<noteq> Planned \<or> pl_path pl = [] \<or> pl_support pl < min_support then None
      else Some \<lparr>di_state = b, di_support = pl_support pl,
        di_seconds = (case pl_cost pl of Fin c \<Rightarrow> round_half_even (fdiv c 1000) | PInf \<Rightarrow> 0),
        di_steps = map (\<lambda>st. (ps_action st, case map_of ACTION_GLOSS (ps_action st) of None \<Rightarrow> ps_action st | Some g \<Rightarrow> g))
          (pl_path pl)\<rparr>)"


section \<open>The tap\<close>

text \<open>What a tool returned: a dictionary, or anything else by its text. \<open>str\<close> of other values is a parameter.\<close>

datatype tool_result = RDict "(string \<times> json) list" | RText string

record outcome =
  oc_ok :: bool
  oc_crash :: "string option"
  oc_board :: "string option"
  oc_clean :: bool

text \<open>\<open>str(x or '''')\<close>.\<close>

definition str_or_empty :: "corr_ext \<Rightarrow> json \<Rightarrow> string" where
  "str_or_empty x v = (if jtruthy v then json_str x v else [])"

definition first_board :: "corr_ext \<Rightarrow> json \<Rightarrow> string option option" where
  "first_board x devices = (if \<not> jtruthy devices then Some (Some [])
     else (case devices of JList (JObj d # _) \<Rightarrow> Some (Some (str_or_empty x (jget ''board'' d))) | _ \<Rightarrow> None))"

definition parse_dict :: "corr_ext \<Rightarrow> string \<Rightarrow> (string \<times> json) list \<Rightarrow> outcome option" where
  "parse_dict x tool r =
     (let ok = (case map_of r ''ok'' of Some v \<Rightarrow> jtruthy v | None \<Rightarrow> \<not> jtruthy (jget ''error'' r));
          crash = (if tool = ''diagnose'' \<and> jtruthy (jget ''ok'' r) \<and> jtruthy (jget ''crash_class'' r)
                   then Some (json_str x (jget ''crash_class'' r)) else None);
          board = (if tool = ''list_devices'' then first_board x (jget ''devices'' r)
                   else if tool = ''get_device_info'' \<and> \<not> jtruthy (jget ''error'' r) \<and> jtruthy (jget ''board'' r)
                   then Some (Some (json_str x (jget ''board'' r))) else Some None) in
      map_option (\<lambda>b. \<lparr>oc_ok = ok, oc_crash = crash, oc_board = b, oc_clean = False\<rparr>) board)"

definition head_line :: "string \<Rightarrow> string" where
  "head_line t = (case splitlines t of [] \<Rightarrow> []
     | l # ls \<Rightarrow> if starts_with ''warning:'' l then (case ls of [] \<Rightarrow> [] | m # _ \<Rightarrow> m) else l)"

definition parse_text :: "string \<Rightarrow> string \<Rightarrow> outcome option" where
  "parse_text tool t =
     (let ok = (\<not> starts_with ''ERROR'' (head_line t));
          plain_outcome = \<lparr>oc_ok = ok, oc_crash = None, oc_board = None, oc_clean = False\<rparr> in
      if tool = ''serial_read'' \<and> ok \<and> strip t \<noteq> [] then
        (case parse_crash t of None \<Rightarrow> None
         | Some f \<Rightarrow> if cf_panic f \<noteq> ''unknown'' then Some (plain_outcome\<lparr>oc_crash := Some (class_text (cl_class (classify_facts f)))\<rparr>)
             else Some (plain_outcome\<lparr>oc_clean := True\<rparr>))
      else Some plain_outcome)"

fun parse_outcome :: "corr_ext \<Rightarrow> string \<Rightarrow> tool_result \<Rightarrow> outcome option" where
  "parse_outcome x tool (RDict r) = parse_dict x tool r"
| "parse_outcome x tool (RText t) = parse_text tool t"

text \<open>Parameters of the tap: the digest, the configured board, \<open>str\<close>, the minimal support, and whether the disk takes writes.\<close>

record tap_env =
  ta_digest :: "string \<Rightarrow> string"
  ta_board :: "string option"
  ta_ext :: corr_ext
  ta_support :: int
  ta_writable :: bool

record tap_state =
  ts_belief :: "bench option"
  ts_file :: "pgraph option"

definition observe_tool :: "tap_env \<Rightarrow> string \<Rightarrow> tool_result \<Rightarrow> int \<Rightarrow> tap_state \<Rightarrow> directive option \<times> tap_state" where
  "observe_tool en tool result wall ts =
     (let pre = (case ts_belief ts of None \<Rightarrow> initial_state (ta_board en) | Some b \<Rightarrow> b); ts0 = ts\<lparr>ts_belief := Some pre\<rparr> in
      case parse_outcome (ta_ext en) tool result of None \<Rightarrow> (None, ts0)
      | Some p \<Rightarrow>
          let post = apply_outcome pre tool (oc_ok p) (oc_crash p) (oc_board p) (oc_clean p);
              ts1 = ts0\<lparr>ts_belief := Some post\<rparr>;
              (recorded, g) = record_transition (ta_digest en) (load_graph (ts_file ts)) pre tool (oc_ok p) wall post in
          if recorded \<and> \<not> ta_writable en then (None, ts1)
          else (let ts2 = (if recorded then ts1\<lparr>ts_file := Some g\<rparr> else ts1) in
            (if faulty post \<and> bench_id (ta_digest en) pre \<noteq> bench_id (ta_digest en) post
             then render_directive post (plan_default g (bench_id (ta_digest en) post)) (ta_support en) else None, ts2)))"

text \<open>The switches: the variable \<open>NFF_POLICY\<close> and the configuration, \<open>None\<close> when it cannot be read.\<close>

definition policy_enabled :: "string option \<Rightarrow> bool option \<Rightarrow> bool" where
  "policy_enabled env cfg =
     (if lower (strip (case env of None \<Rightarrow> [] | Some v \<Rightarrow> v)) \<in> {''0'', ''false'', ''no'', ''off''} then False
      else (case cfg of None \<Rightarrow> True | Some b \<Rightarrow> b))"

end
