(* ===== verification/Bench_Plans.thy ===== *)
theory Bench_Plans
  imports Bench_Policy
begin

text \<open>
  What holds of the policy layer in \<open>Bench_Policy\<close>: the graph stays well formed over any run of tool calls; value iteration
  finds a plan exactly for the states from which the observed transitions can reach a healthy one; the steps of a plan are
  observed transitions; and three ways in which the advice falls short of its wording.
\<close>

section \<open>The graph\<close>

definition edge_key :: "pedge \<Rightarrow> string \<times> string \<times> string" where
  "edge_key e = (pe_from e, pe_action e, pe_to e)"

definition edge_ok :: "string set \<Rightarrow> pedge \<Rightarrow> bool" where
  "edge_ok ids e \<longleftrightarrow> pe_from e \<in> ids \<and> pe_to e \<in> ids \<and> 1 \<le> pe_count e \<and> 0 \<le> pe_success e \<and> pe_success e \<le> pe_count e \<and> 0 \<le> pe_wall e"

definition graph_ok :: "(string \<Rightarrow> string) \<Rightarrow> pgraph \<Rightarrow> bool" where
  "graph_ok digest g \<longleftrightarrow> distinct (map pn_id (pg_nodes g)) \<and> distinct (map edge_key (pg_edges g)) \<and>
     list_all (edge_ok (pn_id ` set (pg_nodes g))) (pg_edges g) \<and>
     list_all (\<lambda>n. pn_id n = canonical_id digest (pn_device n) (pn_fault n) \<and> 1 \<le> pn_visits n) (pg_nodes g)"

definition calls_seen :: "pgraph \<Rightarrow> int" where
  "calls_seen g = sum_list (map pe_count (pg_edges g))"

lemma look_key_None: "look_key k i rs = None \<longleftrightarrow> i \<notin> k ` set rs"
  by (auto simp: look_key_def find_None_iff)

lemma visit_keys:
  "map pn_id (visit digest b ns) = (if bench_id digest b \<in> pn_id ` set ns then map pn_id ns else map pn_id ns @ [bench_id digest b])"
  by (simp add: visit_def look_key_None keys_upd_key)

lemma visit_nodes:
  assumes "distinct (map pn_id ns)" and "list_all (\<lambda>n. pn_id n = canonical_id digest (pn_device n) (pn_fault n) \<and> 1 \<le> pn_visits n) ns"
  shows "distinct (map pn_id (visit digest b ns))" "pn_id ` set (visit digest b ns) = insert (bench_id digest b) (pn_id ` set ns)"
    "list_all (\<lambda>n. pn_id n = canonical_id digest (pn_device n) (pn_fault n) \<and> 1 \<le> pn_visits n) (visit digest b ns)"
proof -
  show "distinct (map pn_id (visit digest b ns))" using assms(1) by (simp add: visit_keys)
  have "set (map pn_id (visit digest b ns)) = insert (bench_id digest b) (pn_id ` set ns)"
    by (simp only: visit_keys) (auto split: if_splits)
  then show "pn_id ` set (visit digest b ns) = insert (bench_id digest b) (pn_id ` set ns)" by simp
  show "list_all (\<lambda>n. pn_id n = canonical_id digest (pn_device n) (pn_fault n) \<and> 1 \<le> pn_visits n) (visit digest b ns)"
    using assms(2) by (auto simp: visit_def list_all_iff bench_id_def dest!: upd_key_in)
qed

lemma bump_keys:
  "map edge_key (bump f a t ok wall es) = (if (f, a, t) \<in> edge_key ` set es then map edge_key es else map edge_key es @ [(f, a, t)])"
  by (induction es) (auto simp: edge_key_def)

lemma bump_ok:
  assumes "list_all (edge_ok ids) es" and "f \<in> ids" and "t \<in> ids" and "0 \<le> wall"
  shows "list_all (edge_ok ids) (bump f a t ok wall es)"
  using assms by (induction es) (auto simp: edge_ok_def)

lemma bump_counts: "sum_list (map pe_count (bump f a t ok wall es)) = sum_list (map pe_count es) + 1"
  by (induction es) auto

lemma edge_ok_mono: "list_all (edge_ok ids) es \<Longrightarrow> ids \<subseteq> ids' \<Longrightarrow> list_all (edge_ok ids') es"
  by (auto simp: list_all_iff edge_ok_def)

lemma record_transition_ok:
  assumes "graph_ok digest g" and "0 \<le> wall" and "record_transition digest g pre tool ok wall post = (r, g')"
  shows "graph_ok digest g' \<and> calls_seen g' = calls_seen g + (if r then 1 else 0)"
proof (cases r)
  case False
  then have "g' = g" using assms(3) by (simp add: record_transition_def split: if_splits)
  then show ?thesis using assms(1) False by simp
next
  case True
  let ?ns = "visit digest post (visit digest pre (pg_nodes g))"
  let ?es = "bump (bench_id digest pre) tool (bench_id digest post) ok wall (pg_edges g)"
  have g': "g' = \<lparr>pg_nodes = ?ns, pg_edges = ?es\<rparr>"
    using True assms(3) by (simp add: record_transition_def split: if_splits)
  have n: "distinct (map pn_id (pg_nodes g))"
    "list_all (\<lambda>n. pn_id n = canonical_id digest (pn_device n) (pn_fault n) \<and> 1 \<le> pn_visits n) (pg_nodes g)"
    and e: "distinct (map edge_key (pg_edges g))" "list_all (edge_ok (pn_id ` set (pg_nodes g))) (pg_edges g)"
    using assms(1) unfolding graph_ok_def by blast+
  note pre = visit_nodes [OF n, of pre]
  note post = visit_nodes [OF pre(1,3), of post]
  have ids: "pn_id ` set ?ns = insert (bench_id digest post) (insert (bench_id digest pre) (pn_id ` set (pg_nodes g)))"
    by (simp only: post(2) pre(2))
  have "list_all (edge_ok (pn_id ` set ?ns)) (pg_edges g)" by (rule edge_ok_mono [OF e(2)]) (simp only: ids, blast)
  then have "list_all (edge_ok (pn_id ` set ?ns)) ?es" by (rule bump_ok [OF _ _ _ assms(2)]) (simp_all only: ids, simp_all)
  moreover have "distinct (map edge_key ?es)" using e(1) by (simp add: bump_keys)
  moreover have "calls_seen g' = calls_seen g + 1" by (simp add: g' calls_seen_def bump_counts)
  ultimately show ?thesis using post(1,3) True by (simp add: g' graph_ok_def)
qed

text \<open>A run of the tap over a session.\<close>

fun run_tap :: "tap_env \<Rightarrow> (string \<times> tool_result \<times> int) list \<Rightarrow> tap_state \<Rightarrow> tap_state" where
  "run_tap en [] ts = ts"
| "run_tap en ((tool, r, wall) # cs) ts = run_tap en cs (snd (observe_tool en tool r wall ts))"

lemma observe_tool_ok:
  assumes "graph_ok (ta_digest en) (load_graph (ts_file ts))" and "0 \<le> wall" and "observe_tool en tool r wall ts = (d, ts')"
  shows "graph_ok (ta_digest en) (load_graph (ts_file ts')) \<and>
    calls_seen (load_graph (ts_file ts)) \<le> calls_seen (load_graph (ts_file ts')) \<and>
    calls_seen (load_graph (ts_file ts')) \<le> calls_seen (load_graph (ts_file ts)) + 1"
proof (cases "parse_outcome (ta_ext en) tool r")
  case None
  then show ?thesis using assms by (auto simp: observe_tool_def Let_def)
next
  case (Some p)
  let ?pre = "case ts_belief ts of None \<Rightarrow> initial_state (ta_board en) | Some b \<Rightarrow> b"
  let ?post = "apply_outcome ?pre tool (oc_ok p) (oc_crash p) (oc_board p) (oc_clean p)"
  obtain rec g where g: "record_transition (ta_digest en) (load_graph (ts_file ts)) ?pre tool (oc_ok p) wall ?post = (rec, g)"
    by fastforce
  have "ts_file ts' = (if rec \<and> ta_writable en then Some g else ts_file ts)"
    using assms(3) Some g by (auto simp: observe_tool_def Let_def split: if_splits)
  then show ?thesis using record_transition_ok [OF assms(1,2) g] assms(1) by (auto simp: load_graph_def)
qed

text \<open>
  C33. The learned graph stays well formed. Over any session, whatever the tools return and whether or not the disk takes
  the writes, the saved graph keeps distinct nodes and one edge per state, action and target, whose ends are nodes;
  successes never exceed the calls of an edge, nodes are named by the hash of their state, and the calls it has seen grow
  by at most one per tool call and never shrink.
\<close>

theorem tap_keeps_graph:
  assumes "graph_ok (ta_digest en) (load_graph (ts_file ts))" and "\<forall>(tool, r, wall) \<in> set cs. 0 \<le> wall"
  shows "graph_ok (ta_digest en) (load_graph (ts_file (run_tap en cs ts))) \<and>
    calls_seen (load_graph (ts_file ts)) \<le> calls_seen (load_graph (ts_file (run_tap en cs ts))) \<and>
    calls_seen (load_graph (ts_file (run_tap en cs ts))) \<le> calls_seen (load_graph (ts_file ts)) + int (length cs)"
  using assms
proof (induction cs arbitrary: ts)
  case (Cons c cs)
  obtain tool r wall where c: "c = (tool, r, wall)" by (cases c)
  obtain d ts' where o: "observe_tool en tool r wall ts = (d, ts')" by fastforce
  have "0 \<le> wall" using Cons.prems(2) c by simp
  note step = observe_tool_ok [OF Cons.prems(1) this o]
  show ?case using Cons.IH [of ts'] step Cons.prems(2) o c by auto
qed simp



section \<open>When there is a plan\<close>

text \<open>An action that can help: it has been called, it succeeded in leaving the state, and all its successes led to known values.\<close>

definition action_edges :: "pgraph \<Rightarrow> string \<Rightarrow> string \<Rightarrow> pedge list" where
  "action_edges g s a = filter (\<lambda>e. pe_action e = a) (edges_from g s)"

definition exits :: "pgraph \<Rightarrow> string \<Rightarrow> string \<Rightarrow> pedge list" where
  "exits g s a = filter (\<lambda>e. pe_to e \<noteq> s \<and> 0 < pe_success e) (action_edges g s a)"

definition can_act :: "pgraph \<Rightarrow> string \<Rightarrow> string \<Rightarrow> bool" where
  "can_act g s a \<longleftrightarrow> 0 < sum_list (map pe_count (action_edges g s a)) \<and> exits g s a \<noteq> []"

definition helps :: "pgraph \<Rightarrow> string set \<Rightarrow> string \<Rightarrow> string \<Rightarrow> bool" where
  "helps g K s a \<longleftrightarrow> can_act g s a \<and> pe_to ` set (exits g s a) \<subseteq> K"

text \<open>The states from which observed successes surely lead to a healthy state.\<close>

inductive solvable :: "pgraph \<Rightarrow> string \<Rightarrow> bool" for g where
  healthy: "goal_id g s \<Longrightarrow> solvable g s"
| act: "can_act g s a \<Longrightarrow> (\<And>e. e \<in> set (exits g s a) \<Longrightarrow> solvable g (pe_to e)) \<Longrightarrow> solvable g s"

definition known :: "(string \<Rightarrow> xfloat) \<Rightarrow> string set" where
  "known V = {s. V s \<noteq> PInf}"

lemma xfloat_cases: "v \<noteq> PInf \<longleftrightarrow> (\<exists>a. v = Fin a)"
  by (cases v) auto

lemma edge_p_pos: "0 < calls \<Longrightarrow> 0 < edge_p calls e \<longleftrightarrow> 0 < pe_success e"
  by (simp add: edge_p_def fdiv_def fl_pos_iff zero_less_divide_iff)

lemma fadd_pos: "0 \<le> p \<Longrightarrow> 0 < q \<Longrightarrow> 0 < fadd p q"
  by (simp add: fadd_def fl_pos_iff)

lemma eval_edges:
  assumes "0 < calls" and "0 \<le> p0" and "fold (eval_edge s V calls) es (p0, num0, to0, np0) = (p, num, t, np)" and "0 \<le> np0"
    and "p0 = 0 \<longrightarrow> np0 = 0"
  defines "X \<equiv> filter (\<lambda>e. pe_to e \<noteq> s \<and> 0 < pe_success e) es"
  shows "0 \<le> p \<and> (0 < p \<longleftrightarrow> 0 < p0 \<or> X \<noteq> []) \<and> (num \<noteq> PInf \<longleftrightarrow> num0 \<noteq> PInf \<and> pe_to ` set X \<subseteq> known V) \<and>
    (t = to0 \<and> np = np0 \<or> (\<exists>e \<in> set X. t = Some (pe_to e) \<and> np = edge_p calls e)) \<and> (X \<noteq> [] \<and> np0 = 0 \<longrightarrow> 0 < np)"
  using assms(2-5) unfolding X_def
proof (induction es arbitrary: p0 num0 to0 np0)
  case Nil
  then show ?case by auto
next
  case (Cons e es)
  show ?case
  proof (cases "pe_to e = s \<or> edge_p calls e \<le> 0")
    case True
    then have "eval_edge s V calls e (p0, num0, to0, np0) = (p0, num0, to0, np0)" by (auto simp: eval_edge_def Let_def)
    then have st: "fold (eval_edge s V calls) es (p0, num0, to0, np0) = (p, num, t, np)" using Cons.prems(2) by simp
    have "\<not> (pe_to e \<noteq> s \<and> 0 < pe_success e)" using True edge_p_pos [OF assms(1), of e] by auto
    then have f: "filter (\<lambda>e. pe_to e \<noteq> s \<and> 0 < pe_success e) (e # es) = filter (\<lambda>e. pe_to e \<noteq> s \<and> 0 < pe_success e) es" by simp
    show ?thesis using Cons.IH [OF Cons.prems(1) st Cons.prems(3,4)] unfolding f .
  next
    case False
    let ?q = "edge_p calls e" and ?np = "if np0 < edge_p calls e then edge_p calls e else np0"
      and ?t = "if np0 < edge_p calls e then Some (pe_to e) else to0"
    have s: "0 < pe_success e" "pe_to e \<noteq> s" "0 < ?q" using False edge_p_pos [OF assms(1), of e] by auto
    have st: "eval_edge s V calls e (p0, num0, to0, np0) = (fadd p0 ?q, xadd num0 (xscale ?q (V (pe_to e))), ?t, ?np)"
      using False by (simp add: eval_edge_def Let_def)
    have pos: "0 < fadd p0 ?q" using Cons.prems(1) s(3) by (rule fadd_pos)
    have num: "xadd num0 (xscale ?q (V (pe_to e))) \<noteq> PInf \<longleftrightarrow> num0 \<noteq> PInf \<and> V (pe_to e) \<noteq> PInf"
      by (cases num0; cases "V (pe_to e)") auto
    have mono: "np0' \<le> np" if "fold (eval_edge s V calls) fs (a, b, c, np0') = (p, num, t, np)" for fs a b c np0'
      using that by (induction fs arbitrary: a b c np0') (auto simp: eval_edge_def Let_def split: if_splits, force+)
    have "?np \<le> np" using Cons.prems(2) st mono by (simp only: fold_simps)
    then have np: "0 < np" using s(3) Cons.prems(3) by (auto split: if_splits)
    have "fold (eval_edge s V calls) es (fadd p0 ?q, xadd num0 (xscale ?q (V (pe_to e))), ?t, ?np) = (p, num, t, np)"
      using Cons.prems(2) st by simp
    from Cons.IH [OF less_imp_le [OF pos] this] pos Cons.prems(3) s(3)
    have "0 \<le> p \<and> 0 < p \<and> (num \<noteq> PInf \<longleftrightarrow> (num0 \<noteq> PInf \<and> V (pe_to e) \<noteq> PInf) \<and>
        pe_to ` set (filter (\<lambda>e. pe_to e \<noteq> s \<and> 0 < pe_success e) es) \<subseteq> known V) \<and>
      (t = ?t \<and> np = ?np \<or> (\<exists>e \<in> set (filter (\<lambda>e. pe_to e \<noteq> s \<and> 0 < pe_success e) es). t = Some (pe_to e) \<and> np = edge_p calls e))"
      unfolding num by simp
    then show ?thesis using s np by (cases "np0 < edge_p calls e") (auto simp: known_def)
  qed
qed


lemma eval_action_facts:
  fixes g s a V mec
  defines "v \<equiv> eval_action s (action_edges g s a) V mec"
  shows "av_q v \<noteq> PInf \<longleftrightarrow> helps g (known V) s a"
    "can_act g s a \<Longrightarrow> \<exists>e \<in> set (exits g s a). av_to v = Some (pe_to e) \<and> av_p v = edge_p (av_support v) e"
    "0 < sum_list (map pe_count (action_edges g s a)) \<Longrightarrow> av_support v = sum_list (map pe_count (action_edges g s a))"
proof -
  let ?es = "action_edges g s a"
  let ?c = "sum_list (map pe_count ?es)"
  let ?k = "max mec (fdiv (of_int (sum_list (map pe_wall ?es))) (of_int ?c))"
  obtain p num t np where f: "fold (eval_edge s V ?c) ?es (0, Fin ?k, None, 0) = (p, num, t, np)"
    by (metis surj_pair)
  have X: "filter (\<lambda>e. pe_to e \<noteq> s \<and> 0 < pe_success e) ?es = exits g s a" by (simp add: exits_def)
  have v: "0 < ?c \<Longrightarrow> v = \<lparr>av_q = (if 0 < min 1 (max 0 p) then xdiv num (min 1 (max 0 p)) else PInf), av_cost = ?k, av_to = t, av_p = np,
      av_support = ?c\<rparr>"
    using f by (simp add: v_def eval_action_def Let_def)
  have v0: "\<not> 0 < ?c \<Longrightarrow> av_q v = PInf" by (simp add: v_def eval_action_def)
  have d: "xdiv n r \<noteq> PInf \<longleftrightarrow> n \<noteq> PInf" for n r by (cases n) auto
  have F: "(0 < p \<longleftrightarrow> exits g s a \<noteq> []) \<and> (num \<noteq> PInf \<longleftrightarrow> pe_to ` set (exits g s a) \<subseteq> known V) \<and>
      (t = None \<and> np = 0 \<or> (\<exists>e \<in> set (exits g s a). t = Some (pe_to e) \<and> np = edge_p ?c e)) \<and> (exits g s a \<noteq> [] \<longrightarrow> 0 < np)"
    if "0 < ?c" using eval_edges [OF that _ f] unfolding X by simp
  show "av_q v \<noteq> PInf \<longleftrightarrow> helps g (known V) s a"
  proof (cases "0 < ?c")
    case True
    then show ?thesis using F [OF True] by (auto simp: v helps_def can_act_def d)
  next
    case False
    then show ?thesis by (simp add: v0 helps_def can_act_def)
  qed
  show "\<exists>e \<in> set (exits g s a). av_to v = Some (pe_to e) \<and> av_p v = edge_p (av_support v) e" if "can_act g s a"
  proof -
    have c: "0 < ?c" "exits g s a \<noteq> []" using that by (simp_all add: can_act_def)
    then show ?thesis using F [OF c(1)] by (auto simp: v)
  qed
  show "av_support v = ?c" if "0 < ?c" using v [OF that] by simp
qed

lemma better_facts:
  "\<exists>y. better x b = Some y \<and> (y = x \<or> b = Some y) \<and>
    (av_q (snd y) = PInf \<longrightarrow> av_q (snd x) = PInf \<and> (\<forall>z. b = Some z \<longrightarrow> av_q (snd z) = PInf))"
proof (cases b)
  case None
  then show ?thesis by (simp add: better_def)
next
  case (Some z)
  show ?thesis
    by (cases x; cases z; cases "av_q (snd x)"; cases "av_q (snd z)") (auto simp: Some better_def)
qed

lemma better_fold:
  assumes "fold better xs b = Some r"
  shows "(r \<in> set xs \<or> b = Some r) \<and>
    (av_q (snd r) = PInf \<longrightarrow> (\<forall>x \<in> set xs. av_q (snd x) = PInf) \<and> (\<forall>z. b = Some z \<longrightarrow> av_q (snd z) = PInf))"
  using assms
proof (induction xs arbitrary: b)
  case (Cons x xs)
  obtain y where y: "better x b = Some y" "y = x \<or> b = Some y"
    "av_q (snd y) = PInf \<Longrightarrow> av_q (snd x) = PInf \<and> (\<forall>z. b = Some z \<longrightarrow> av_q (snd z) = PInf)"
    using better_facts [of x b] by blast
  have "fold better xs (Some y) = Some r" using Cons.prems y(1) by simp
  note ih = Cons.IH [OF this]
  have "r \<in> set (x # xs) \<or> b = Some r" using ih y(2) by auto
  moreover have "(\<forall>x \<in> set (x # xs). av_q (snd x) = PInf) \<and> (\<forall>z. b = Some z \<longrightarrow> av_q (snd z) = PInf)" if "av_q (snd r) = PInf"
    using ih y(3) that by simp
  ultimately show ?case by blast
qed simp

lemma set_actions_of: "set (actions_of es) = pe_action ` set es"
  by (simp add: actions_of_def)

lemma better_fold_Some: "xs \<noteq> [] \<or> b \<noteq> None \<Longrightarrow> fold better xs b \<noteq> None"
  by (induction xs arbitrary: b) (auto simp: better_def split: option.splits)

lemma can_act_action: "can_act g s a \<Longrightarrow> a \<in> set (actions_of (edges_from g s))"
  by (auto simp: can_act_def exits_def action_edges_def actions_of_def filter_empty_conv)

text \<open>The best action is finite exactly when some action helps, and it is then one that helps.\<close>

lemma best_action_facts:
  assumes "best_action s (edges_from g s) V mec = b"
  shows "b = None \<longleftrightarrow> edges_from g s = []"
    "b = Some (a, v) \<Longrightarrow> v = eval_action s (action_edges g s a) V mec"
    "b = Some (a, v) \<Longrightarrow> av_q v \<noteq> PInf \<longleftrightarrow> (\<exists>a. helps g (known V) s a)"
    "b = Some (a, v) \<Longrightarrow> av_q v \<noteq> PInf \<Longrightarrow> helps g (known V) s a"
proof -
  let ?xs = "map (\<lambda>a. (a, eval_action s (action_edges g s a) V mec)) (actions_of (edges_from g s))"
  have b: "fold better ?xs None = b" using assms by (simp add: best_action_def action_edges_def)
  show "b = None \<longleftrightarrow> edges_from g s = []"
  proof (cases "edges_from g s = []")
    case True
    then show ?thesis using b by (simp add: actions_of_def)
  next
    case False
    then have "actions_of (edges_from g s) \<noteq> []" using set_actions_of [of "edges_from g s"] by auto
    then have "?xs \<noteq> []" by simp
    then show ?thesis using better_fold_Some [of ?xs None] b False by auto
  qed
  assume bs: "b = Some (a, v)"
  note f = better_fold [OF b [unfolded bs]]
  show v: "v = eval_action s (action_edges g s a) V mec" using f by auto
  show iff: "av_q v \<noteq> PInf \<longleftrightarrow> (\<exists>a. helps g (known V) s a)"
  proof
    assume "av_q v \<noteq> PInf"
    then show "\<exists>a. helps g (known V) s a" using eval_action_facts(1) v by blast
  next
    assume "\<exists>a. helps g (known V) s a"
    then obtain a' where h: "helps g (known V) s a'" by blast
    then have "a' \<in> set (actions_of (edges_from g s))" by (simp add: helps_def can_act_action)
    then have "(a', eval_action s (action_edges g s a') V mec) \<in> set ?xs" by simp
    moreover have "av_q (eval_action s (action_edges g s a') V mec) \<noteq> PInf" using h eval_action_facts(1) by blast
    ultimately show "av_q v \<noteq> PInf" using f by force
  qed
  show "helps g (known V) s a" if "av_q v \<noteq> PInf" using that eval_action_facts(1) v by blast
qed


lemma helps_mono: "helps g K s a \<Longrightarrow> K \<subseteq> L \<Longrightarrow> helps g L s a"
  by (auto simp: helps_def)

lemma xmax_PInf [simp]: "xmax PInf b = PInf" "xmax a PInf = PInf"
  by (cases a; simp add: xmax_def)+

abbreviation knownv :: "vals \<Rightarrow> string set" where
  "knownv V \<equiv> known (value_of V)"

lemma value_of_set: "value_of (set_value s v V) = (value_of V)(s := v)"
  by (induction V) (auto simp: value_of_def fun_eq_iff)

lemma value_of_start: "value_of (start_values g) s = (if goal_id g s then Fin 0 else PInf)"
proof -
  have "map_of (map (\<lambda>n. (pn_id n, f n)) ns) s = map_option f (look_key pn_id s ns)" for f :: "pnode \<Rightarrow> xfloat" and ns
    by (induction ns) (auto simp: look_key_def)
  then show ?thesis by (auto simp: value_of_def start_values_def goal_id_def split: option.split)
qed

text \<open>One relaxation makes a state known exactly when an action helps there, and records an infinite change when it was not.\<close>

lemma relax_facts:
  assumes "relax g mec s (V, d) = (V', d')"
  shows "knownv V' = knownv V \<union> (if \<exists>a. helps g (knownv V) s a then {s} else {})"
    "d = PInf \<Longrightarrow> d' = PInf" "knownv V' \<noteq> knownv V \<Longrightarrow> d' = PInf" "d' = PInf \<Longrightarrow> d = PInf \<or> s \<in> knownv V' - knownv V"
proof -
  have "knownv V' = knownv V \<union> (if \<exists>a. helps g (knownv V) s a then {s} else {}) \<and> (d = PInf \<longrightarrow> d' = PInf) \<and>
    (knownv V' \<noteq> knownv V \<longrightarrow> d' = PInf) \<and> (d' = PInf \<longrightarrow> d = PInf \<or> s \<in> knownv V' - knownv V)"
  proof (cases "best_action s (edges_from g s) (value_of V) mec")
    case None
    then have "edges_from g s = []" using best_action_facts(1) by blast
    then have "\<not> helps g (knownv V) s a" for a by (simp add: helps_def can_act_def action_edges_def)
    then show ?thesis using assms None by (simp add: relax_def)
  next
    case (Some r)
    obtain a v where r: "r = (a, v)" by fastforce
    note q = best_action_facts(3) [OF Some r [THEN arg_cong [of _ _ Some]]]
    show ?thesis
    proof (cases "av_q v")
      case PInf
      then have "V' = V" "d' = d" using assms Some r by (auto simp: relax_def)
      then show ?thesis using q PInf by auto
    next
      case (Fin c)
      then have h: "\<exists>a. helps g (knownv V) s a" using q by simp
      show ?thesis
      proof (cases "value_of V s")
        case PInf
        then have "V' = set_value s (Fin c) V" "d' = PInf" using assms Some r Fin by (auto simp: relax_def)
        then show ?thesis using h PInf by (auto simp: known_def value_of_set)
      next
        case (Fin old)
        have "(V', d') = (if c < old then (set_value s (av_q v) V, xmax d (Fin (fsub old c))) else (V, d))"
          using assms Some r Fin \<open>av_q v = Fin c\<close> by (simp add: relax_def split: if_splits)
        then have "knownv V' = knownv V" "d' = d \<or> d' = xmax d (Fin (fsub old c))"
          using Fin \<open>av_q v = Fin c\<close> by (auto simp: known_def value_of_set split: if_splits)
        moreover have "s \<in> knownv V" using Fin by (simp add: known_def)
        moreover have "xmax d (Fin q) = PInf \<longleftrightarrow> d = PInf" for q by (cases d) (simp_all add: xmax_def)
        then have "d' = PInf \<longleftrightarrow> d = PInf" using calculation(2) by auto
        ultimately show ?thesis by auto
      qed
    qed
  qed
  then show "knownv V' = knownv V \<union> (if \<exists>a. helps g (knownv V) s a then {s} else {})"
    "d = PInf \<Longrightarrow> d' = PInf" "knownv V' \<noteq> knownv V \<Longrightarrow> d' = PInf" "d' = PInf \<Longrightarrow> d = PInf \<or> s \<in> knownv V' - knownv V"
    by blast+
qed


text \<open>A sweep over the states: nothing known is forgotten; an infinite change means a new state; else all is settled.\<close>

definition settled :: "pgraph \<Rightarrow> string set \<Rightarrow> string set \<Rightarrow> bool" where
  "settled g S K \<longleftrightarrow> (\<forall>s \<in> S. (\<exists>a. helps g K s a) \<longrightarrow> s \<in> K)"

text \<open>Known values are sound: a known state is healthy or an action helps there, and it can be solved.\<close>

definition sound :: "pgraph \<Rightarrow> string set \<Rightarrow> bool" where
  "sound g K \<longleftrightarrow> (\<forall>s \<in> K. solvable g s \<and> (goal_id g s \<or> (\<exists>a. helps g K s a)))"

lemma helps_solvable: "helps g K s a \<Longrightarrow> (\<And>t. t \<in> K \<Longrightarrow> solvable g t) \<Longrightarrow> solvable g s"
  by (rule solvable.act [of g s a]) (auto simp: helps_def)

lemma sound_insert:
  assumes "sound g K" and "helps g K s a"
  shows "sound g (K \<union> {s})"
proof -
  have "solvable g s" using helps_solvable [OF assms(2)] assms(1) by (simp add: sound_def)
  moreover have "helps g (K \<union> {s}) t b" if "helps g K t b" for t b using helps_mono [OF that] by blast
  ultimately show ?thesis using assms by (fastforce simp: sound_def)
qed

lemma sweep_facts:
  assumes "fold (relax g mec) rs (V, d) = (V', d')"
  shows "knownv V \<subseteq> knownv V' \<and> (sound g (knownv V) \<longrightarrow> sound g (knownv V')) \<and> knownv V' - knownv V \<subseteq> set rs \<and>
    (d = PInf \<longrightarrow> d' = PInf) \<and> (d' = PInf \<longrightarrow> d = PInf \<or> knownv V' \<inter> set rs - knownv V \<noteq> {}) \<and>
    (d' \<noteq> PInf \<longrightarrow> knownv V' = knownv V \<and> settled g (set rs) (knownv V))"
  using assms
proof (induction rs arbitrary: V d)
  case Nil
  then show ?case by (auto simp: settled_def)
next
  case (Cons s rs)
  obtain V1 d1 where r: "relax g mec s (V, d) = (V1, d1)" by fastforce
  note f = relax_facts [OF r]
  have "fold (relax g mec) rs (V1, d1) = (V', d')" using Cons.prems r by simp
  note ih = Cons.IH [OF this]
  have sub: "knownv V \<subseteq> knownv V1" "knownv V1 - knownv V \<subseteq> {s}" using f(1) by auto
  have same: "knownv V1 = knownv V \<and> ((\<exists>a. helps g (knownv V) s a) \<longrightarrow> s \<in> knownv V)" if "d' \<noteq> PInf"
  proof -
    have "d1 \<noteq> PInf" using ih that by blast
    then have k: "knownv V1 = knownv V" using f(3) by blast
    have "s \<in> knownv V1" if "\<exists>a. helps g (knownv V) s a" using f(1) that by simp
    then show ?thesis using k by blast
  qed
  show ?case
  proof (intro conjI impI)
    show "knownv V \<subseteq> knownv V'" using sub(1) ih by blast
    show "sound g (knownv V')" if "sound g (knownv V)"
    proof -
      have "sound g (knownv V1)" using that f(1) sound_insert by (cases "\<exists>a. helps g (knownv V) s a") auto
      then show ?thesis using ih by blast
    qed
    show "knownv V' - knownv V \<subseteq> set (s # rs)" using sub(2) ih by auto
    show "d' = PInf" if "d = PInf" using that f(2) ih by blast
    show "d = PInf \<or> knownv V' \<inter> set (s # rs) - knownv V \<noteq> {}" if "d' = PInf"
    proof (cases "d1 = PInf")
      case True
      then show ?thesis using f(4) ih by auto
    next
      case False
      then have "knownv V' \<inter> set rs - knownv V1 \<noteq> {}" using ih that by blast
      then show ?thesis using sub(1) by auto
    qed
    show "knownv V' = knownv V" if "d' \<noteq> PInf" using ih same that by blast
    show "settled g (set (s # rs)) (knownv V)" if "d' \<noteq> PInf"
    proof -
      have "settled g (set rs) (knownv V)" using ih same that by metis
      then show ?thesis using same [OF that] by (simp add: settled_def)
    qed
  qed
qed

lemma settled_solves:
  assumes "settled g (set (relaxable g)) K" and "\<And>s. goal_id g s \<Longrightarrow> s \<in> K" and "solvable g s"
  shows "s \<in> K"
  using assms(3)
proof (induction rule: solvable.induct)
  case (healthy s)
  then show ?case by (rule assms(2))
next
  case (act s a)
  show ?case
  proof (cases "goal_id g s")
    case True
    then show ?thesis by (rule assms(2))
  next
    case False
    have "edges_from g s \<noteq> []" using act(1) by (auto simp: can_act_def action_edges_def)
    then have "s \<in> set (relaxable g)" using False by (auto simp: relaxable_def value_of_start edges_from_def filter_empty_conv)
    moreover have "helps g K s a" using act by (auto simp: helps_def)
    ultimately show ?thesis using assms(1) unfolding settled_def by blast
  qed
qed

lemma iterate_facts:
  assumes "sound g (knownv V)"
  shows "knownv V \<subseteq> knownv (iterate g eps mec n V)" "sound g (knownv (iterate g eps mec n V))"
proof -
  have "knownv V \<subseteq> knownv (iterate g eps mec n V) \<and> sound g (knownv (iterate g eps mec n V))"
    using assms
  proof (induction n arbitrary: V)
    case (Suc n)
    obtain V' d' where s: "fold (relax g mec) (relaxable g) (V, Fin 0) = (V', d')" by fastforce
    note f = sweep_facts [OF s]
    show ?case using Suc.IH [of V'] f Suc.prems by (auto simp: s)
  qed simp
  then show "knownv V \<subseteq> knownv (iterate g eps mec n V)" "sound g (knownv (iterate g eps mec n V))" by blast+
qed

lemma iterate_solves:
  assumes "sound g (knownv V)" and "\<And>s. goal_id g s \<Longrightarrow> s \<in> knownv V"
    and "card (set (relaxable g) - knownv V) \<le> n" and "solvable g s"
  shows "s \<in> knownv (iterate g eps mec n V)"
  using assms(1-3)
proof (induction n arbitrary: V)
  case 0
  then have "settled g (set (relaxable g)) (knownv V)" by (auto simp: settled_def card_eq_0_iff)
  then show ?case using settled_solves [OF _ 0(2) assms(4)] by simp
next
  case (Suc n)
  obtain V' d' where s: "fold (relax g mec) (relaxable g) (V, Fin 0) = (V', d')" by fastforce
  note f = sweep_facts [OF s]
  have snd: "sound g (knownv V')" and goal: "\<And>s. goal_id g s \<Longrightarrow> s \<in> knownv V'" using f Suc.prems(1,2) by blast+
  show ?case
  proof (cases "d' = PInf")
    case True
    then obtain t where t: "t \<in> set (relaxable g)" "t \<in> knownv V'" "t \<notin> knownv V" using f by auto
    have "set (relaxable g) - knownv V' \<subset> set (relaxable g) - knownv V" using f t by blast
    then have "card (set (relaxable g) - knownv V') < card (set (relaxable g) - knownv V)" by (simp add: psubset_card_mono)
    then have "card (set (relaxable g) - knownv V') \<le> n" using Suc.prems(3) by simp
    then show ?thesis using Suc.IH [OF snd goal] True by (simp add: s)
  next
    case False
    then have "s \<in> knownv V'" using settled_solves [OF _ Suc.prems(2) assms(4)] f by auto
    then show ?thesis using iterate_facts(1) [OF snd] by (auto simp: s)
  qed
qed

lemma start_sound: "sound g (knownv (start_values g))" "goal_id g s \<Longrightarrow> s \<in> knownv (start_values g)"
  by (auto simp: sound_def known_def value_of_start intro: solvable.healthy split: if_splits)

text \<open>The plan for a state that is neither unknown nor healthy exists if and only if the state can be solved.\<close>

lemma plan_iff_solvable:
  assumes "length (relaxable g) \<le> max_iters"
  shows "pl_status (plan_to_goal g start max_iters eps mec len) = Planned \<longleftrightarrow>
    look_key pn_id start (pg_nodes g) \<noteq> None \<and> \<not> goal_id g start \<and> solvable g start"
proof (cases "look_key pn_id start (pg_nodes g)")
  case None
  then show ?thesis by (simp add: plan_to_goal_def no_plan_def)
next
  case (Some n)
  have goal: "goal_id g start \<longleftrightarrow> is_goal n" by (simp add: goal_id_def Some)
  let ?V = "iterate g eps mec max_iters (start_values g)"
  have "card (set (relaxable g) - knownv (start_values g)) \<le> length (relaxable g)"
    using card_mono [of "set (relaxable g)" "set (relaxable g) - knownv (start_values g)"] card_length [of "relaxable g"] by simp
  then have "solvable g start \<longleftrightarrow> start \<in> knownv ?V"
    using iterate_solves [OF start_sound, of g max_iters start eps mec] iterate_facts(2) [OF start_sound(1), of g eps mec max_iters] assms
    by (auto simp: sound_def)
  moreover have "edges_from g start \<noteq> []" if "solvable g start" "\<not> is_goal n"
    using that goal by cases (auto simp: can_act_def action_edges_def)
  ultimately show ?thesis using goal Some
    by (auto simp: plan_to_goal_def no_plan_def known_def Let_def split: prod.split)
qed



section \<open>The steps of a plan\<close>

text \<open>A path of observed transitions, each of which succeeded and left its state.\<close>

fun observed_path :: "pgraph \<Rightarrow> string \<Rightarrow> plan_step list \<Rightarrow> bool" where
  "observed_path g s [] = True"
| "observed_path g s (st # path) =
     (list_ex (\<lambda>e. pe_from e = s \<and> pe_action e = ps_action st \<and> pe_to e = ps_to st \<and> pe_to e \<noteq> s \<and> 0 < pe_success e) (pg_edges g) \<and>
      observed_path g (ps_to st) path)"

definition path_states :: "string \<Rightarrow> plan_step list \<Rightarrow> string list" where
  "path_states s path = s # map ps_to path"

definition ends_well :: "pgraph \<Rightarrow> nat \<Rightarrow> string list \<Rightarrow> string \<Rightarrow> plan_step list \<Rightarrow> bool" where
  "ends_well g room seen s path \<longleftrightarrow> goal_id g (List.last (path_states s path)) \<or> length path = room \<or>
     (path \<noteq> [] \<and> List.last (path_states s path) \<in> set seen \<union> set (butlast (path_states s path)))"

lemma exit_edge: "e \<in> set (exits g s a) \<Longrightarrow> e \<in> set (pg_edges g) \<and> pe_from e = s \<and> pe_action e = a \<and> pe_to e \<noteq> s \<and> 0 < pe_success e"
  by (auto simp: exits_def action_edges_def edges_from_def)

lemma greedy_step:
  assumes "sound g (knownv V)" and "s \<in> knownv V" and "\<not> goal_id g s" and "list_all (\<lambda>e. pe_to e \<noteq> []) (pg_edges g)"
  obtains a v t e where "best_action s (edges_from g s) (value_of V) mec = Some (a, v)" "av_q v \<noteq> PInf" "av_to v = Some t" "t \<noteq> []"
    "t \<in> knownv V" "e \<in> set (pg_edges g)" "pe_from e = s" "pe_action e = a" "pe_to e = t" "t \<noteq> s" "0 < pe_success e"
    "av_support v = sum_list (map pe_count (action_edges g s a))"
proof -
  obtain b where b: "helps g (knownv V) s b" using assms(1-3) by (auto simp: sound_def)
  then have ne: "edges_from g s \<noteq> []" by (auto simp: helps_def can_act_def action_edges_def)
  obtain a v where av: "best_action s (edges_from g s) (value_of V) mec = Some (a, v)"
    using best_action_facts(1) [of s g "value_of V" mec] ne by (cases "best_action s (edges_from g s) (value_of V) mec") auto
  note f = best_action_facts(2,3,4) [OF av refl]
  have q: "av_q v \<noteq> PInf" using f(2) b by blast
  then have h: "helps g (knownv V) s a" by (rule f(3))
  then obtain e where e: "e \<in> set (exits g s a)" "av_to v = Some (pe_to e)"
    using eval_action_facts(2) [of g s a "value_of V" mec] f(1) by (auto simp: helps_def)
  have "pe_to e \<in> knownv V" using h e(1) by (auto simp: helps_def)
  moreover have "pe_to e \<noteq> []" using assms(4) exit_edge [OF e(1)] by (auto simp: list_all_iff)
  moreover have "av_support v = sum_list (map pe_count (action_edges g s a))"
    using eval_action_facts(3) [of g s a "value_of V" mec] h f(1) by (simp add: helps_def can_act_def)
  ultimately show thesis using that [OF av q e(2)] exit_edge [OF e(1)] by blast
qed

lemma greedy_path_facts:
  assumes "sound g (knownv V)" and "s \<in> knownv V" and "list_all (\<lambda>e. pe_to e \<noteq> []) (pg_edges g)" and "s \<in> set seen"
    and "greedy_path g mec V room seen s = (path, spt)"
  shows "observed_path g s path \<and> length path \<le> room \<and> ends_well g room seen s path"
  using assms(2,4,5)
proof (induction room arbitrary: seen s path spt)
  case 0
  then show ?case by (simp add: ends_well_def)
next
  case (Suc room)
  show ?case
  proof (cases "goal_id g s")
    case True
    then show ?thesis using Suc.prems(3) by (simp add: ends_well_def path_states_def)
  next
    case False
    obtain a v t e where st: "best_action s (edges_from g s) (value_of V) mec = Some (a, v)" "av_q v \<noteq> PInf" "av_to v = Some t" "t \<noteq> []"
      "t \<in> knownv V" "e \<in> set (pg_edges g)" "pe_from e = s" "pe_action e = a" "pe_to e = t" "t \<noteq> s" "0 < pe_success e"
      using greedy_step [OF assms(1) Suc.prems(1) False assms(3)] by metis
    let ?p = "\<lparr>ps_action = a, ps_to = t, ps_wall = av_cost v, ps_p = av_p v\<rparr>"
    have edge: "list_ex (\<lambda>e. pe_from e = s \<and> pe_action e = a \<and> pe_to e = t \<and> pe_to e \<noteq> s \<and> 0 < pe_success e) (pg_edges g)"
      using st(6-11) by (auto simp: list_ex_iff)
    show ?thesis
    proof (cases "t \<in> set seen")
      case True
      then have "path = [?p]" using Suc.prems(3) False st(1-4) by (simp add: Let_def)
      then show ?thesis using edge True by (simp add: ends_well_def path_states_def)
    next
      case False': False
      obtain path' spt' where r: "greedy_path g mec V room (t # seen) t = (path', spt')" by fastforce
      have p: "path = ?p # path'" using Suc.prems(3) False False' st(1-4) r by (simp add: Let_def)
      have ih: "observed_path g t path' \<and> length path' \<le> room \<and> ends_well g room (t # seen) t path'"
        using Suc.IH [OF st(5) _ r] by simp
      have "ends_well g (Suc room) seen s path"
        using ih unfolding ends_well_def p path_states_def by (auto split: if_splits)
      then show ?thesis using ih edge by (simp add: p)
    qed
  qed
qed


text \<open>What a plan with finite cost is made of, whatever the bounds.\<close>

lemma planned_facts:
  assumes "pl_status (plan_to_goal g start n eps mec len) = Planned" and "list_all (\<lambda>e. pe_to e \<noteq> []) (pg_edges g)" and "0 < len"
  defines "path \<equiv> pl_path (plan_to_goal g start n eps mec len)"
  shows "solvable g start \<and> path \<noteq> [] \<and> observed_path g start path \<and> length path \<le> len \<and> ends_well g len [start] start path"
proof -
  let ?V = "iterate g eps mec n (start_values g)"
  obtain nd where nd: "look_key pn_id start (pg_nodes g) = Some nd" "\<not> is_goal nd" "value_of ?V start \<noteq> PInf"
    using assms(1) by (auto simp: plan_to_goal_def no_plan_def Let_def split: option.splits if_splits)
  obtain path' spt where gp: "greedy_path g mec ?V len [start] start = (path', spt)" by fastforce
  have p: "path = path'"
    using assms(1) nd gp unfolding path_def by (auto simp: plan_to_goal_def no_plan_def Let_def split: if_splits)
  have k: "sound g (knownv ?V)" "start \<in> knownv ?V" using iterate_facts(2) [OF start_sound(1)] nd(3) by (auto simp: known_def value_of_set)
  have ng: "\<not> goal_id g start" using nd by (simp add: goal_id_def)
  have "path' \<noteq> []"
  proof -
    obtain a v t where st: "best_action start (edges_from g start) (value_of ?V) mec = Some (a, v)" "av_q v \<noteq> PInf" "av_to v = Some t" "t \<noteq> []"
      using greedy_step [OF k ng assms(2)] by metis
    obtain m where "len = Suc m" using assms(3) gr0_implies_Suc by blast
    then show ?thesis using gp st ng by (auto simp: Let_def split: if_splits prod.splits)
  qed
  moreover have "solvable g start" using k by (auto simp: sound_def)
  ultimately show ?thesis using greedy_path_facts [OF k assms(2) _ gp] p by simp
qed

text \<open>
  C32. Plans are found exactly where history supports one. On a graph of at most 1000 states with outgoing edges, the planner
  returns a plan for a state if and only if the state is known, faulty, and solvable: some action's observed successes
  all lead to states that are healthy or solvable in turn. A plan is a non-empty sequence of at most 32 observed transitions
  that succeeded, and it ends in a healthy state unless it ran into the bound or came back to a state it had passed.
\<close>

theorem plan_iff_history_solves:
  assumes "length (relaxable g) \<le> 1000" and "list_all (\<lambda>e. pe_to e \<noteq> []) (pg_edges g)"
  shows "(pl_status (plan_default g start) = Planned \<longleftrightarrow>
      look_key pn_id start (pg_nodes g) \<noteq> None \<and> \<not> goal_id g start \<and> solvable g start) \<and>
    (pl_status (plan_default g start) = Planned \<longrightarrow> pl_path (plan_default g start) \<noteq> [] \<and>
      observed_path g start (pl_path (plan_default g start)) \<and> length (pl_path (plan_default g start)) \<le> 32 \<and>
      ends_well g 32 [start] start (pl_path (plan_default g start)))"
proof -
  have "observed_path g start (pl_path (plan_default g start)) \<and> length (pl_path (plan_default g start)) \<le> 32 \<and>
      ends_well g 32 [start] start (pl_path (plan_default g start)) \<and> pl_path (plan_default g start) \<noteq> []"
    if "pl_status (plan_default g start) = Planned"
    using planned_facts [OF that [unfolded plan_default_def] assms(2)] unfolding plan_default_def by simp
  then show ?thesis using plan_iff_solvable [OF assms(1)] unfolding plan_default_def by blast
qed

definition pnode_of :: "string \<Rightarrow> string \<Rightarrow> pnode" where
  "pnode_of i fault = \<lparr>pn_id = i, pn_device = ''esp32'', pn_fault = fault, pn_visits = 1\<rparr>"

definition pedge_of :: "string \<Rightarrow> string \<Rightarrow> string \<Rightarrow> int \<Rightarrow> int \<Rightarrow> int \<Rightarrow> pedge" where
  "pedge_of f a t n k wall = \<lparr>pe_from = f, pe_action = a, pe_to = t, pe_count = n, pe_success = k, pe_wall = wall\<rparr>"

definition flash_graph :: pgraph where
  "flash_graph = \<lparr>pg_nodes = [pnode_of ''h'' ''none'', pnode_of ''s'' ''compile:fail''],
     pg_edges = [pedge_of ''s'' ''flash'' ''h'' 1 1 1000, pedge_of ''s'' ''flash'' ''s'' 2 0 2000]\<rparr>"

theorem plan_iff_history_solves_witness:
  "pl_status (plan_default flash_graph ''s'') = Planned \<and> pl_path (plan_default flash_graph ''s'') \<noteq> []"
proof -
  have a: "length (relaxable flash_graph) \<le> 1000" "list_all (\<lambda>e. pe_to e \<noteq> []) (pg_edges flash_graph)"
    "look_key pn_id ''s'' (pg_nodes flash_graph) \<noteq> None \<and> \<not> goal_id flash_graph ''s''" "can_act flash_graph ''s'' ''flash''"
    "list_all (\<lambda>e. goal_id flash_graph (pe_to e)) (exits flash_graph ''s'' ''flash'')"
    by code_simp+
  have "solvable flash_graph ''s''"
    by (rule solvable.act [OF a(4)]) (use a(5) in \<open>auto simp: list_all_iff intro: solvable.healthy\<close>)
  then show ?thesis using plan_iff_history_solves [OF a(1,2), of "''s''"] a(3) by blast
qed

text \<open>The support of a plan counts the calls that failed: one success in three calls reads as three runs that fixed it.\<close>

theorem support_counts_failures:
  "pl_support (plan_default flash_graph ''s'') = 3" "sum_list (map pe_success (pg_edges flash_graph)) = 1"
  by code_simp+

text \<open>
  The greedy path follows the likeliest target of the best action, not the value: here it leads from \<open>s\<close> to \<open>t\<close> and
  back and is advised, although it never reaches a healthy state.
\<close>

definition circle_graph :: pgraph where
  "circle_graph = \<lparr>pg_nodes = [pnode_of ''h'' ''none'', pnode_of ''s'' ''compile:fail'', pnode_of ''t'' ''flash:fail''],
     pg_edges = [pedge_of ''t'' ''flash'' ''h'' 3 3 21, pedge_of ''t'' ''compile'' ''s'' 3 3 3,
       pedge_of ''s'' ''repair'' ''t'' 2 2 2, pedge_of ''s'' ''repair'' ''h'' 1 1 1, pedge_of ''s'' ''repair'' ''s'' 1 0 1]\<rparr>"

lemma fl_exact: "fl (1/2) = 1/2" "fl (1/4) = 1/4" "fl (3/4) = 3/4" "fl (7/2) = 7/2" "fl (9/2) = 9/2" "fl 6 = 6" "fl 7 = 7"
  by code_simp+

lemma circle_actions:
  "actions_of (edges_from circle_graph ''s'') = [''repair'']" "actions_of (edges_from circle_graph ''t'') = [''compile'', ''flash'']"
  "relaxable circle_graph = [''t'', ''s'']" "start_values circle_graph = [(''h'', Fin 0), (''s'', PInf), (''t'', PInf)]"
  "look_key pn_id ''s'' (pg_nodes circle_graph) = Some (pnode_of ''s'' ''compile:fail'')"
  by code_simp+

lemmas circle_eval = best_action_def eval_action_def eval_edge_def edge_p_def edges_from_def circle_graph_def pedge_of_def
  value_of_def better_def fdiv_def fmul_def fadd_def fl_exact Let_def

lemma circle_best_t:
  "best_action ''t'' (edges_from circle_graph ''t'') (value_of [(''h'', Fin 0), (''s'', PInf), (''t'', PInf)]) 1 =
     Some (''flash'', \<lparr>av_q = Fin 7, av_cost = 7, av_to = Some ''h'', av_p = 1, av_support = 3\<rparr>)"
  "best_action ''t'' (edges_from circle_graph ''t'') (value_of [(''h'', Fin 0), (''s'', Fin 6), (''t'', Fin 7)]) 1 =
     Some (''compile'', \<lparr>av_q = Fin 7, av_cost = 1, av_to = Some ''s'', av_p = 1, av_support = 3\<rparr>)"
  unfolding best_action_def circle_actions by (simp_all add: circle_eval)

lemma circle_best_s:
  "best_action ''s'' (edges_from circle_graph ''s'') (value_of [(''h'', Fin 0), (''s'', v), (''t'', Fin 7)]) 1 =
     Some (''repair'', \<lparr>av_q = Fin 6, av_cost = 1, av_to = Some ''t'', av_p = 1/2, av_support = 4\<rparr>)"
  unfolding best_action_def circle_actions by (simp add: circle_eval)

lemma circle_values:
  "iterate circle_graph (fl (1/1000)) 1 1000 (start_values circle_graph) = [(''h'', Fin 0), (''s'', Fin 6), (''t'', Fin 7)]"
proof -
  let ?V = "[(''h'', Fin 0), (''s'', Fin 6), (''t'', Fin 7)]"
  have pos: "0 < fl (1/1000)" by (simp add: fl_pos_iff)
  have s1: "fold (relax circle_graph 1) (relaxable circle_graph) (start_values circle_graph, Fin 0) = (?V, PInf)"
    by (simp add: circle_actions relax_def circle_best_t circle_best_s) (simp add: value_of_def)
  have s2: "fold (relax circle_graph 1) (relaxable circle_graph) (?V, Fin 0) = (?V, Fin 0)"
    by (simp add: circle_actions relax_def circle_best_t circle_best_s) (simp add: value_of_def)
  have "iterate circle_graph (fl (1/1000)) 1 (Suc (Suc 998)) (start_values circle_graph) = ?V"
    using pos by (simp only: iterate.simps s1 s2 prod.case xless.simps if_True if_False)
  then show ?thesis by simp
qed

theorem plan_can_circle:
  "pl_status (plan_default circle_graph ''s'') = Planned"
  "map (\<lambda>st. (ps_action st, ps_to st)) (pl_path (plan_default circle_graph ''s'')) = [(''repair'', ''t''), (''compile'', ''s'')]"
proof -
  let ?V = "[(''h'', Fin 0), (''s'', Fin 6), (''t'', Fin 7)]"
  have g: "\<not> goal_id circle_graph ''s''" "\<not> goal_id circle_graph ''t''" "edges_from circle_graph ''s'' \<noteq> []" "value_of ?V ''s'' = Fin 6"
    "\<not> is_goal (pnode_of ''s'' ''compile:fail'')"
    by code_simp+
  have "\<exists>st1 st2 n. greedy_path circle_graph 1 ?V (Suc (Suc k)) [''s''] ''s'' = ([st1, st2], Some n) \<and>
      ps_action st1 = ''repair'' \<and> ps_to st1 = ''t'' \<and> ps_action st2 = ''compile'' \<and> ps_to st2 = ''s''" for k
    by (simp add: g circle_best_s circle_best_t Let_def)
  from this [of 30] obtain st1 st2 n where gp: "greedy_path circle_graph 1 ?V 32 [''s''] ''s'' = ([st1, st2], Some n)"
    and st: "ps_action st1 = ''repair''" "ps_to st1 = ''t''" "ps_action st2 = ''compile''" "ps_to st2 = ''s''"
    by auto
  have "plan_default circle_graph ''s'' = \<lparr>pl_status = Planned, pl_path = [st1, st2], pl_cost = Fin 6, pl_support = n\<rparr>"
    using gp by (simp add: plan_default_def plan_to_goal_def circle_actions(5) circle_values g Let_def)
  then show "pl_status (plan_default circle_graph ''s'') = Planned"
    "map (\<lambda>st. (ps_action st, ps_to st)) (pl_path (plan_default circle_graph ''s'')) = [(''repair'', ''t''), (''compile'', ''s'')]"
    using st by simp_all
qed



section \<open>The advice\<close>

text \<open>
  C34. Advice rests on history. When a tool call is answered with a learned procedure, the belief has just entered a faulty
  state, the procedure has at least the configured support, and its steps are successful transitions of the saved graph
  from that state, which is solvable there.
\<close>

theorem advice_backed_by_history:
  assumes "observe_tool en tool r wall ts = (Some d, ts')" and "\<forall>s. ta_digest en s \<noteq> []"
    and "graph_ok (ta_digest en) (load_graph (ts_file ts))" and "0 \<le> wall"
  shows "\<exists>b g path. ts_belief ts' = Some b \<and> ts_file ts' = Some g \<and> di_state d = b \<and> faulty b \<and>
    ts_belief ts \<noteq> Some b \<and> ta_support en \<le> di_support d \<and> solvable g (bench_id (ta_digest en) b) \<and>
    path \<noteq> [] \<and> observed_path g (bench_id (ta_digest en) b) path \<and> map fst (di_steps d) = map ps_action path"
proof -
  let ?dg = "ta_digest en"
  let ?pre = "case ts_belief ts of None \<Rightarrow> initial_state (ta_board en) | Some b \<Rightarrow> b"
  obtain p where p: "parse_outcome (ta_ext en) tool r = Some p"
    using assms(1) by (cases "parse_outcome (ta_ext en) tool r") (auto simp: observe_tool_def Let_def)
  let ?post = "apply_outcome ?pre tool (oc_ok p) (oc_crash p) (oc_board p) (oc_clean p)"
  obtain c g where g: "record_transition ?dg (load_graph (ts_file ts)) ?pre tool (oc_ok p) wall ?post = (c, g)" by fastforce
  have o: "faulty ?post \<and> bench_id ?dg ?pre \<noteq> bench_id ?dg ?post \<and>
      render_directive ?post (plan_default g (bench_id ?dg ?post)) (ta_support en) = Some d \<and>
      ts_belief ts' = Some ?post \<and> (c \<longrightarrow> ts_file ts' = Some g)"
    using assms(1) by (simp add: observe_tool_def p g Let_def split: if_splits) auto
  then have f: "faulty ?post" "bench_id ?dg ?pre \<noteq> bench_id ?dg ?post"
    and rd: "render_directive ?post (plan_default g (bench_id ?dg ?post)) (ta_support en) = Some d"
    by blast+
  have c: "c" using g f(2) by (simp add: record_transition_def split: if_splits)
  then have ts': "ts_belief ts' = Some ?post" "ts_file ts' = Some g" using o by blast+
  have pl: "pl_status (plan_default g (bench_id ?dg ?post)) = Planned" "pl_path (plan_default g (bench_id ?dg ?post)) \<noteq> []"
    "ta_support en \<le> di_support d" "di_state d = ?post"
    "map fst (di_steps d) = map ps_action (pl_path (plan_default g (bench_id ?dg ?post)))"
    using rd by (auto simp: render_directive_def split: if_splits)
  have ne: "bench_id ?dg b \<noteq> []" for b using assms(2) by (simp add: bench_id_def canonical_id_def)
  have "list_all (edge_ok (pn_id ` set (pg_nodes g))) (pg_edges g)"
    using record_transition_ok [OF assms(3,4) g] by (simp add: graph_ok_def)
  moreover have "[] \<notin> pn_id ` set (pg_nodes g)"
  proof -
    have n: "list_all (\<lambda>n. pn_id n = canonical_id ?dg (pn_device n) (pn_fault n) \<and> 1 \<le> pn_visits n) (pg_nodes g)"
      using record_transition_ok [OF assms(3,4) g] by (simp add: graph_ok_def)
    then show ?thesis using ne by (auto simp: list_all_iff canonical_id_def assms(2))
  qed
  ultimately have "list_all (\<lambda>e. pe_to e \<noteq> []) (pg_edges g)"
    unfolding list_all_iff edge_ok_def by metis
  note facts = planned_facts [OF pl(1) [unfolded plan_default_def] this]
  have "ts_belief ts \<noteq> Some ?post" using f(2) by (auto split: option.splits)
  then show ?thesis using ts' pl f(1) facts unfolding plan_default_def
    by (intro exI [of _ ?post] exI [of _ g] exI [of _ "pl_path (plan_default g (bench_id ?dg ?post))"]) (simp add: plan_default_def)
qed

definition sample_tap :: tap_env where
  "sample_tap = \<lparr>ta_digest = (\<lambda>s. ''x'' @ rev s), ta_board = Some ''esp32'', ta_ext = en_ext sample_engine, ta_support = 3, ta_writable = True\<rparr>"

definition state_node :: "string \<Rightarrow> pnode" where
  "state_node fault = (pnode_of (canonical_id (ta_digest sample_tap) ''esp32'' fault) fault)"

definition sample_session :: tap_state where
  "sample_session = \<lparr>ts_belief = None, ts_file = Some \<lparr>pg_nodes = [state_node ''none'', state_node ''compile:fail''],
     pg_edges = [pedge_of (pn_id (state_node ''compile:fail'')) ''flash'' (pn_id (state_node ''none'')) 3 3 3000]\<rparr>\<rparr>"

lemma sample_graph_ok: "graph_ok (ta_digest sample_tap) (load_graph (ts_file sample_session))"
  by code_simp

theorem tap_keeps_graph_witness:
  "graph_ok (ta_digest sample_tap) (load_graph (ts_file (run_tap sample_tap
     [(''compile'', RText ''ERROR'', 5), (''flash'', RText ''done'', 7)] sample_session)))"
  using tap_keeps_graph [OF sample_graph_ok, of "[(''compile'', RText ''ERROR'', 5), (''flash'', RText ''done'', 7)]"] by simp

theorem advice_backed_by_history_witness:
  "\<exists>d ts'. observe_tool sample_tap ''compile'' (RText ''ERROR'') 5 sample_session = (Some d, ts') \<and> 3 \<le> di_support d"
proof -
  have "map_option di_support (fst (observe_tool sample_tap ''compile'' (RText ''ERROR'') 5 sample_session)) = Some 3" by code_simp
  then obtain d ts' where o: "observe_tool sample_tap ''compile'' (RText ''ERROR'') 5 sample_session = (Some d, ts')"
    by (cases "observe_tool sample_tap ''compile'' (RText ''ERROR'') 5 sample_session") auto
  have "\<forall>s. ta_digest sample_tap s \<noteq> []" "ta_support sample_tap = 3" by (simp_all add: sample_tap_def)
  then show ?thesis using advice_backed_by_history [OF o _ sample_graph_ok] o by auto
qed

text \<open>
  A crash is believed repaired only after a successful flash or a clean capture, in one step. In two it is forgotten: a
  failed compile overwrites it, and a compile that succeeds then reports the bench healthy.
\<close>

theorem crash_cleared_by:
  assumes "starts_with ''crash:'' (bs_fault b)" and "\<not> faulty (apply_outcome b tool ok crash_class board clean)"
  shows "tool = ''flash'' \<and> ok \<or> tool = ''serial_read'' \<and> clean"
  using assms by (auto simp: apply_outcome_def faulty_def HEALTHY_def starts_with_def Let_def split: if_splits)

theorem crash_forgotten_by_compile:
  assumes "starts_with ''crash:'' (bs_fault b)"
  shows "\<not> faulty (apply_outcome (apply_outcome b ''compile'' False None None False) ''compile'' True None None False)"
  by (simp add: apply_outcome_def faulty_def Let_def)

end
