(* ===== verification/Attack_Matcher.thy ===== *)
theory Attack_Matcher
  imports Predicates
begin

text \<open>
  nff-pentester, the condition matcher of the vulnerability tree (\<open>tools/analysis/matcher.py\<close>). A condition is a JSON object
  dispatched on its \<open>op\<close>; the answer is whether it holds and the witness. \<open>None\<close> is an exception: a missing key,
  an unknown operator, a value of a type the operator cannot use.
\<close>

section \<open>Paths and comparisons\<close>

fun descend :: "json \<Rightarrow> string list \<Rightarrow> json option" where
  "descend v [] = Some v"
| "descend v (k # ks) = (case v of JObj d \<Rightarrow> (case map_of d k of None \<Rightarrow> None | Some w \<Rightarrow> descend w ks) | _ \<Rightarrow> None)"

text \<open>\<open>resolve\<close>; the inner \<open>None\<close> is the sentinel for an absent path, the outer an exception.\<close>

definition resolve_path :: "json \<Rightarrow> json \<Rightarrow> json option option" where
  "resolve_path obj field = (case field of
      JStr f \<Rightarrow> Some (if f = ''.'' then Some obj else descend obj (split_on (CHR ''.'') f))
    | _ \<Rightarrow> None)"

definition json_length :: "json \<Rightarrow> nat option" where
  "json_length v = (case v of JList xs \<Rightarrow> Some (length xs) | JStr s \<Rightarrow> Some (length s) | JObj d \<Rightarrow> Some (length d) | _ \<Rightarrow> None)"

text \<open>\<open><\<close>: numbers with numbers, texts with texts, lists by their first difference; anything else raises.\<close>

fun json_less :: "json \<Rightarrow> json \<Rightarrow> bool option" and list_less :: "json list \<Rightarrow> json list \<Rightarrow> bool option" where
  "json_less (JStr s) (JStr t) = Some (s < t)"
| "json_less (JList xs) (JList ys) = list_less xs ys"
| "json_less a b = (case (jnum a, jnum b) of (Some m, Some n) \<Rightarrow> Some (m < n) | _ \<Rightarrow> None)"
| "list_less [] [] = Some False"
| "list_less [] (y # ys) = Some True"
| "list_less (x # xs) [] = Some False"
| "list_less (x # xs) (y # ys) = (if json_eq x y then list_less xs ys else json_less x y)"

definition order_test :: "string \<Rightarrow> json \<Rightarrow> json \<Rightarrow> bool option" where
  "order_test op v t =
     (if op = ''gt'' then json_less t v
      else if op = ''gte'' then map_option Not (json_less v t)
      else if op = ''lt'' then json_less v t
      else map_option Not (json_less t v))"

text \<open>\<open>target in value\<close>.\<close>

definition json_contains :: "json \<Rightarrow> json \<Rightarrow> bool option" where
  "json_contains v target = (case v of
      JList xs \<Rightarrow> Some (list_ex (json_eq target) xs)
    | JStr s \<Rightarrow> (case target of JStr t \<Rightarrow> Some (has_lit False t s) | _ \<Rightarrow> None)
    | JObj d \<Rightarrow> (case target of JList _ \<Rightarrow> None | JObj _ \<Rightarrow> None | JStr t \<Rightarrow> Some (t \<in> set (map fst d)) | _ \<Rightarrow> Some False)
    | _ \<Rightarrow> Some False)"

type_synonym verdict = "(bool \<times> json) option"

definition answer :: "bool \<Rightarrow> json \<Rightarrow> verdict" where
  "answer b w = Some (b, if b then w else JNull)"

text \<open>The operators on one value, \<open>None\<close> in the middle argument when the path is absent.\<close>

definition leaf_test :: "(string \<times> json) list \<Rightarrow> json option \<Rightarrow> json \<Rightarrow> verdict" where
  "leaf_test m value op =
     (if op = JStr ''exists'' then
        Some (value \<noteq> None \<and> value \<noteq> Some JNull, case value of None \<Rightarrow> JNull | Some v \<Rightarrow> v)
      else if op = JStr ''missing'' then Some (value = None \<or> value = Some JNull, JNull)
      else if op = JStr ''non_empty'' then
        (case Option.bind value json_length of None \<Rightarrow> Some (False, JNull) | Some n \<Rightarrow> answer (0 < n) (the value))
      else if op = JStr ''empty'' then Some (Option.bind value json_length = Some 0, JNull)
      else case value of
        None \<Rightarrow> Some (False, JNull)
      | Some v \<Rightarrow>
          if op = JStr ''equals'' then (case map_of m ''value'' of None \<Rightarrow> None | Some t \<Rightarrow> answer (json_eq v t) v)
          else if op = JStr ''not_equals'' then (case map_of m ''value'' of None \<Rightarrow> None | Some t \<Rightarrow> answer (\<not> json_eq v t) v)
          else if op = JStr ''contains'' then
            (case map_of m ''value'' of None \<Rightarrow> None
             | Some t \<Rightarrow> (case json_contains v t of None \<Rightarrow> None | Some b \<Rightarrow> answer b t))
          else if op \<in> {JStr ''gt'', JStr ''gte'', JStr ''lt'', JStr ''lte''} then
            (case map_of m ''value'' of None \<Rightarrow> None
             | Some t \<Rightarrow> (case op of JStr s \<Rightarrow> (case order_test s v t of None \<Rightarrow> Some (False, JNull) | Some b \<Rightarrow> answer b v) | _ \<Rightarrow> None))
          else None)"


section \<open>Evaluation\<close>

lemma size_map_of: "map_of d k = Some v \<Longrightarrow> size v < size (JObj d)"
  by (induction d) (auto split: if_splits)

lemma size_member: "v \<in> set xs \<Longrightarrow> size v < size (JList xs)"
  by (induction xs) auto

definition items_or_none :: "json option \<Rightarrow> json list option" where
  "items_or_none v = (case v of None \<Rightarrow> Some []
    | Some (JList xs) \<Rightarrow> Some xs | Some (JObj []) \<Rightarrow> Some [] | Some (JStr []) \<Rightarrow> Some [] | Some _ \<Rightarrow> None)"

text \<open>\<open>matcher.get("of", [])\<close> gives no subconditions when absent; the loops stop at the first that decides.\<close>

function (sequential) evaluate :: "json \<Rightarrow> json \<Rightarrow> verdict"
  and eval_and :: "json list \<Rightarrow> json \<Rightarrow> json \<Rightarrow> verdict"
  and eval_or :: "json list \<Rightarrow> json \<Rightarrow> verdict"
  and eval_any :: "json \<Rightarrow> json list \<Rightarrow> verdict"
  and eval_every :: "json \<Rightarrow> json list \<Rightarrow> json \<Rightarrow> verdict" where
  "evaluate (JObj m) ctx_obj =
     (let op = jget ''op'' m in
      if op = JStr ''and'' then
        (case map_of m ''of'' of Some (JList subs) \<Rightarrow> eval_and subs ctx_obj JNull
         | v \<Rightarrow> (case items_or_none v of None \<Rightarrow> None | Some _ \<Rightarrow> Some (True, JNull)))
      else if op = JStr ''or'' then
        (case map_of m ''of'' of Some (JList subs) \<Rightarrow> eval_or subs ctx_obj
         | v \<Rightarrow> (case items_or_none v of None \<Rightarrow> None | Some _ \<Rightarrow> Some (False, JNull)))
      else if op = JStr ''not'' then
        (case map_of m ''of'' of None \<Rightarrow> None
         | Some sub \<Rightarrow> (case evaluate sub ctx_obj of None \<Rightarrow> None | Some (b, _) \<Rightarrow> Some (\<not> b, JNull)))
      else if (case op of JList _ \<Rightarrow> True | JObj _ \<Rightarrow> True | _ \<Rightarrow> False) then None
      else if op = JStr ''any'' \<or> op = JStr ''all'' then
        (case Option.bind (map_of m ''field'') (resolve_path ctx_obj) of
           None \<Rightarrow> None
         | Some (Some (JList xs)) \<Rightarrow>
             (case map_of m ''match'' of
                None \<Rightarrow> if xs = [] then Some (op = JStr ''all'', JNull) else None
              | Some sub \<Rightarrow> if op = JStr ''any'' then eval_any sub xs
                  else eval_every sub xs (case xs of [] \<Rightarrow> JNull | x # _ \<Rightarrow> x))
         | Some _ \<Rightarrow> Some (op = JStr ''all'', JNull))
      else (case resolve_path ctx_obj (jget_or ''field'' (JStr ''.'') m) of
          None \<Rightarrow> None
        | Some value \<Rightarrow> leaf_test m value op))"
| "evaluate _ ctx_obj = None"
| "eval_and [] ctx_obj w = Some (True, w)"
| "eval_and (s # ss) ctx_obj w = (case evaluate s ctx_obj of
      None \<Rightarrow> None | Some (b, v) \<Rightarrow> if b then eval_and ss ctx_obj (if w = JNull then v else w) else Some (False, JNull))"
| "eval_or [] ctx_obj = Some (False, JNull)"
| "eval_or (s # ss) ctx_obj = (case evaluate s ctx_obj of
      None \<Rightarrow> None | Some (b, v) \<Rightarrow> if b then Some (True, v) else eval_or ss ctx_obj)"
| "eval_any sub [] = Some (False, JNull)"
| "eval_any sub (x # xs) = (case evaluate sub x of
      None \<Rightarrow> None | Some (b, _) \<Rightarrow> if b then Some (True, x) else eval_any sub xs)"
| "eval_every sub [] w = Some (True, w)"
| "eval_every sub (x # xs) w = (case evaluate sub x of
      None \<Rightarrow> None | Some (b, _) \<Rightarrow> if b then eval_every sub xs w else Some (False, JNull))"
  by pat_completeness auto

termination
  by (relation "measures [\<lambda>p. case p of Inl (Inl (m, c)) \<Rightarrow> size m | Inl (Inr (ss, c, w)) \<Rightarrow> size_list size ss
        | Inr (Inl (ss, c)) \<Rightarrow> size_list size ss | Inr (Inr (Inl (m, xs))) \<Rightarrow> size m | Inr (Inr (Inr (m, xs, w))) \<Rightarrow> size m,
      \<lambda>p. case p of Inl (Inl (m, c)) \<Rightarrow> 0 | Inl (Inr (ss, c, w)) \<Rightarrow> 0 | Inr (Inl (ss, c)) \<Rightarrow> 0
        | Inr (Inr (Inl (m, xs))) \<Rightarrow> Suc (length xs) | Inr (Inr (Inr (m, xs, w))) \<Rightarrow> Suc (length xs)]")
    (auto dest!: size_map_of)

end
