(* ===== verification/Attack_Tree.thy ===== *)
theory Attack_Tree
  imports Attack_Matcher "HOL-Library.Multiset"
begin

text \<open>
  nff-pentester, the vulnerability tree: its rows in the database and back (\<open>db.py\<close>, \<open>flatten\<close> and \<open>reconstruct\<close>) and
  the walk that turns the outputs of a session into attack chains (\<open>tools/analysis/tree_walker.py\<close>). A node always
  carries its severity, as both the bundled tree and the table require; the narratives are left out.
\<close>

section \<open>Trees and rows\<close>

record next_check =
  nc_tool :: string
  nc_reason :: string
  nc_hint :: "(string \<times> json) list"

record payoff =
  po_compromised :: string
  po_impact :: string
  po_cvss :: string

datatype vnode = VNode (vn_id: string) (vn_label: string) (vn_tool: "string option") (vn_condition: json) (vn_severity: string)
  (vn_next: "next_check option") (vn_outcome: "payoff option") (vn_children: "vnode list")

record tree_row =
  tr_id :: string
  tr_parent :: "string option"
  tr_ordinal :: nat
  tr_label :: string
  tr_tool :: "string option"
  tr_severity :: string
  tr_condition :: json
  tr_next :: "next_check option"
  tr_outcome :: "payoff option"

definition row_of :: "string option \<Rightarrow> nat \<Rightarrow> vnode \<Rightarrow> tree_row" where
  "row_of parent n t = \<lparr>tr_id = vn_id t, tr_parent = parent, tr_ordinal = n, tr_label = vn_label t, tr_tool = vn_tool t,
     tr_severity = vn_severity t, tr_condition = vn_condition t, tr_next = vn_next t, tr_outcome = vn_outcome t\<rparr>"

fun visit_node :: "string option \<Rightarrow> nat \<Rightarrow> vnode \<Rightarrow> tree_row list"
  and visit_all :: "string option \<Rightarrow> nat \<Rightarrow> vnode list \<Rightarrow> tree_row list" where
  "visit_node parent n (VNode i l t c s nx oc cs) =
     row_of parent n (VNode i l t c s nx oc cs) # visit_all (Some i) (Suc n) cs"
| "visit_all parent n [] = []"
| "visit_all parent n (t # ts) = (let rows = visit_node parent n t in rows @ visit_all parent (n + length rows) ts)"

definition flatten :: "vnode list \<Rightarrow> tree_row list" where
  "flatten roots = visit_all None 0 roots"

definition by_parent :: "tree_row list \<Rightarrow> string option \<Rightarrow> tree_row list" where
  "by_parent rows p = filter (\<lambda>r. tr_parent r = p) (sort_key tr_ordinal rows)"

fun all_built :: "'a option list \<Rightarrow> 'a list option" where
  "all_built [] = Some []"
| "all_built (None # _) = None"
| "all_built (Some v # vs) = map_option ((#) v) (all_built vs)"

text \<open>The recursion of \<open>build\<close>; \<open>depth\<close> bounds it, \<open>None\<close> means it was too small.\<close>

fun build :: "tree_row list \<Rightarrow> nat \<Rightarrow> tree_row \<Rightarrow> vnode option" where
  "build rows 0 r = None"
| "build rows (Suc depth) r = map_option
     (VNode (tr_id r) (tr_label r) (tr_tool r) (tr_condition r) (tr_severity r) (tr_next r) (tr_outcome r))
     (all_built (map (build rows depth) (by_parent rows (Some (tr_id r)))))"

definition reconstruct :: "tree_row list \<Rightarrow> vnode list option" where
  "reconstruct rows = all_built (map (build rows (length rows)) (by_parent rows None))"


text \<open>
  The node table: a row and its origin. An upsert writes over the row with the same id or appends one; the table of the model
  keeps the order of insertion, which no reader depends on.
\<close>

type_synonym node_table = "(tree_row \<times> string) list"

definition upsert_row :: "tree_row \<times> string \<Rightarrow> node_table \<Rightarrow> node_table" where
  "upsert_row r table = (if tr_id (fst r) \<in> set (map (tr_id \<circ> fst) table)
     then map (\<lambda>x. if tr_id (fst x) = tr_id (fst r) then r else x) table else table @ [r])"

definition seed_tree :: "vnode list \<Rightarrow> node_table \<Rightarrow> node_table" where
  "seed_tree roots table = fold upsert_row (map (\<lambda>r. (r, ''seed'')) (flatten roots)) table"

definition fetch_tree :: "node_table \<Rightarrow> vnode list option" where
  "fetch_tree table = reconstruct (map fst table)"


section \<open>The walk\<close>

text \<open>A result is an object, a list of results, or something else that is skipped.\<close>

type_synonym tool_outputs = "(string \<times> json) list"

datatype node_state = Confirmed json | Refuted | Unevaluated

definition outputs_of :: "json \<Rightarrow> json list" where
  "outputs_of raw = filter (\<lambda>v. case v of JObj _ \<Rightarrow> True | _ \<Rightarrow> False) (case raw of JList xs \<Rightarrow> xs | _ \<Rightarrow> [raw])"

fun first_match :: "json \<Rightarrow> json list \<Rightarrow> node_state option" where
  "first_match cond [] = Some Refuted"
| "first_match cond (v # vs) = (case evaluate cond v of
      None \<Rightarrow> None | Some (b, w) \<Rightarrow> if b then Some (Confirmed w) else first_match cond vs)"

definition node_state :: "tool_outputs \<Rightarrow> vnode \<Rightarrow> node_state option" where
  "node_state outputs t = (case Option.bind (vn_tool t) (map_of outputs) of
      None \<Rightarrow> Some Unevaluated
    | Some raw \<Rightarrow> first_match (vn_condition t) (outputs_of raw))"

fun terminal_node :: "vnode \<Rightarrow> vnode option" and terminal_of :: "vnode list \<Rightarrow> vnode option" where
  "terminal_node (VNode i l t c s nx oc cs) = (case terminal_of cs of
      Some u \<Rightarrow> Some u | None \<Rightarrow> if oc \<noteq> None then Some (VNode i l t c s nx oc cs) else None)"
| "terminal_of [] = None"
| "terminal_of (t # ts) = (case terminal_node t of Some u \<Rightarrow> Some u | None \<Rightarrow> terminal_of ts)"

text \<open>\<open>re.sub\<close> of the placeholder by the target, a text without backslash, in the hints that are texts.\<close>

fun replace_target :: "string \<Rightarrow> nat \<Rightarrow> string \<Rightarrow> string" where
  "replace_target target skip [] = []"
| "replace_target target skip (c # s) =
     (if 0 < skip then replace_target target (skip - 1) s
      else if starts_with ''<target>'' (c # s) then target @ replace_target target 7 s
      else c # replace_target target 0 s)"

definition interpolate :: "string option \<Rightarrow> (string \<times> json) list \<Rightarrow> (string \<times> json) list" where
  "interpolate target hint = (if \<not> truthy target then hint
     else map (\<lambda>(k, v). (k, case v of JStr s \<Rightarrow> JStr (replace_target (the target) 0 s) | _ \<Rightarrow> v)) hint)"

record chain_step =
  cs_id :: string
  cs_label :: string
  cs_tool :: "string option"
  cs_finding :: json

definition confirmed_step :: "vnode \<Rightarrow> json \<Rightarrow> chain_step" where
  "confirmed_step t w = \<lparr>cs_id = vn_id t, cs_label = vn_label t, cs_tool = vn_tool t, cs_finding = w\<rparr>"

record active_chain =
  ac_id :: string
  ac_severity :: string
  ac_steps :: "chain_step list"
  ac_payoff :: payoff

record partial_chain =
  pc_id :: string
  pc_steps :: "chain_step list"
  pc_next :: next_check
  pc_severity :: string
  pc_cvss :: string

definition make_partial :: "string option \<Rightarrow> chain_step list \<Rightarrow> vnode \<Rightarrow> partial_chain list" where
  "make_partial target path t = (case vn_next t of
      None \<Rightarrow> []
    | Some nc \<Rightarrow> if path = [] then [] else
        [\<lparr>pc_id = vn_id t, pc_steps = path, pc_next = nc\<lparr>nc_hint := interpolate target (nc_hint nc)\<rparr>,
          pc_severity = vn_severity (case terminal_node t of None \<Rightarrow> t | Some u \<Rightarrow> u),
          pc_cvss = (case terminal_node t of None \<Rightarrow> [] | Some u \<Rightarrow> po_cvss (the (vn_outcome u)))\<rparr>])"

definition make_active :: "chain_step list \<Rightarrow> vnode \<Rightarrow> active_chain list" where
  "make_active path t = (case vn_outcome t of None \<Rightarrow> []
     | Some oc \<Rightarrow> [\<lparr>ac_id = vn_id t, ac_severity = vn_severity t, ac_steps = path, ac_payoff = oc\<rparr>])"

type_synonym walked = "active_chain list \<times> partial_chain list \<times> nat"

fun walk_node :: "tool_outputs \<Rightarrow> string option \<Rightarrow> chain_step list \<Rightarrow> vnode \<Rightarrow> walked option"
  and walk_all :: "tool_outputs \<Rightarrow> string option \<Rightarrow> chain_step list \<Rightarrow> vnode list \<Rightarrow> walked option" where
  "walk_node outputs target path (VNode i l t c s nx oc cs) =
     (let v = VNode i l t c s nx oc cs in
      case node_state outputs v of
        None \<Rightarrow> None
      | Some Refuted \<Rightarrow> Some ([], [], 1)
      | Some Unevaluated \<Rightarrow> Some ([], make_partial target path v, 1)
      | Some (Confirmed w) \<Rightarrow>
          (if cs = [] then Some (make_active (path @ [confirmed_step v w]) v, [], 1)
           else map_option (\<lambda>(a, p, n). (a, p, Suc n)) (walk_all outputs target (path @ [confirmed_step v w]) cs)))"
| "walk_all outputs target path [] = Some ([], [], 0)"
| "walk_all outputs target path (t # ts) = (case walk_node outputs target path t of
      None \<Rightarrow> None
    | Some (a, p, n) \<Rightarrow> map_option (\<lambda>(b, q, m). (a @ b, p @ q, n + m)) (walk_all outputs target path ts))"

definition severity_rank :: "string \<Rightarrow> int" where
  "severity_rank s = (case map_of [(''low'', 0), (''medium'', 1), (''high'', 2), (''critical'', 3)] s of None \<Rightarrow> 0 | Some n \<Rightarrow> n)"

record walk_result =
  wr_active :: "active_chain list"
  wr_partial :: "partial_chain list"
  wr_evaluated :: nat
  wr_tools :: "string list"

definition walk_vuln_tree :: "vnode list \<Rightarrow> tool_outputs \<Rightarrow> string option \<Rightarrow> string \<Rightarrow> walk_result option" where
  "walk_vuln_tree roots outputs target min_severity =
     map_option (\<lambda>(active, partial, n).
       \<lparr>wr_active = sort_key (\<lambda>c. (- severity_rank (ac_severity c), - int (length (ac_steps c))))
            (filter (\<lambda>c. severity_rank min_severity \<le> severity_rank (ac_severity c)) active),
        wr_partial = sort_key (\<lambda>c. (- severity_rank (pc_severity c), - int (length (pc_steps c))))
            (filter (\<lambda>c. severity_rank min_severity \<le> severity_rank (pc_severity c)) partial),
        wr_evaluated = n, wr_tools = map fst outputs\<rparr>)
     (walk_all outputs target [] roots)"



section \<open>Rows and back\<close>

fun node_ids :: "vnode \<Rightarrow> string list" and forest_ids :: "vnode list \<Rightarrow> string list" where
  "node_ids (VNode i l t c s nx oc cs) = i # forest_ids cs"
| "forest_ids [] = []"
| "forest_ids (t # ts) = node_ids t @ forest_ids ts"

text \<open>The rows of the roots of a forest, with the ordinals they get.\<close>

fun child_rows :: "string option \<Rightarrow> nat \<Rightarrow> vnode list \<Rightarrow> tree_row list" where
  "child_rows p n [] = []"
| "child_rows p n (t # ts) = row_of p n t # child_rows p (n + length (visit_node p n t)) ts"

definition with_parent :: "tree_row list \<Rightarrow> string option \<Rightarrow> tree_row list" where
  "with_parent rows p = filter (\<lambda>r. tr_parent r = p) rows"

text \<open>Every node of the forest finds its children among the rows.\<close>

fun kids_node :: "tree_row list \<Rightarrow> nat \<Rightarrow> vnode \<Rightarrow> bool" and kids_all :: "tree_row list \<Rightarrow> string option \<Rightarrow> nat \<Rightarrow> vnode list \<Rightarrow> bool" where
  "kids_node F n (VNode i l t c s nx oc cs) \<longleftrightarrow>
     with_parent F (Some i) = child_rows (Some i) (Suc n) cs \<and> kids_all F (Some i) (Suc n) cs"
| "kids_all F p n [] \<longleftrightarrow> True"
| "kids_all F p n (t # ts) \<longleftrightarrow> kids_node F n t \<and> kids_all F p (n + length (visit_node p n t)) ts"

lemma with_parent_append [simp]: "with_parent (A @ B) p = with_parent A p @ with_parent B p"
  "with_parent (r # A) p = (if tr_parent r = p then r # with_parent A p else with_parent A p)" "with_parent [] p = []"
  by (simp_all add: with_parent_def)

lemma visit_parents:
  "tr_parent ` set (visit_node p n t) \<subseteq> insert p (Some ` set (node_ids t))"
  "tr_parent ` set (visit_all p n ts) \<subseteq> insert p (Some ` set (forest_ids ts))"
proof (induction p n t and p n ts rule: visit_node_visit_all.induct)
  case (1 p n i l t c s nx oc cs)
  then show ?case by (simp add: row_of_def insert_commute subset_insertI2)
next
  case (2 p n)
  then show ?case by simp
next
  case (3 p n t ts)
  then show ?case unfolding visit_all.simps(2) Let_def set_append image_Un forest_ids.simps(2) by blast
qed

lemma with_parent_none:
  assumes "tr_parent ` set A \<subseteq> S" and "q \<notin> S"
  shows "with_parent A q = []"
  using assms by (auto simp: with_parent_def filter_empty_conv)

lemma visit_all_roots:
  assumes "p \<notin> Some ` set (forest_ids ts)"
  shows "with_parent (visit_all p n ts) p = child_rows p n ts"
  using assms
proof (induction ts arbitrary: n)
  case (Cons t ts)
  obtain i l tl c s nx oc cs where t: "t = VNode i l tl c s nx oc cs" by (cases t)
  have "with_parent (visit_all (Some i) (Suc n) cs) p = []"
    by (rule with_parent_none [OF visit_parents(2)]) (use Cons.prems t in auto)
  then have "with_parent (visit_node p n t) p = [row_of p n t]" by (simp add: t row_of_def)
  moreover have "with_parent (visit_all p (n + length (visit_node p n t)) ts) p
      = child_rows p (n + length (visit_node p n t)) ts"
    by (rule Cons.IH) (use Cons.prems in auto)
  ultimately show ?case by (simp add: Let_def)
qed simp

lemma rows_kids:
  "F = A @ visit_node p n t @ B \<Longrightarrow> distinct (node_ids t) \<Longrightarrow> p \<notin> Some ` set (node_ids t) \<Longrightarrow>
     tr_parent ` (set A \<union> set B) \<inter> Some ` set (node_ids t) = {} \<Longrightarrow> kids_node F n t"
  "F = A @ visit_all p n ts @ B \<Longrightarrow> distinct (forest_ids ts) \<Longrightarrow> p \<notin> Some ` set (forest_ids ts) \<Longrightarrow>
     tr_parent ` (set A \<union> set B) \<inter> Some ` set (forest_ids ts) = {} \<Longrightarrow> kids_all F p n ts"
proof (induction p n t and p n ts arbitrary: A B and A B rule: visit_node_visit_all.induct)
  case (1 p n i l t c s nx oc cs)
  let ?r = "row_of p n (VNode i l t c s nx oc cs)"
  have i: "Some i \<notin> Some ` set (forest_ids cs)" "Some i \<noteq> p" using 1(3,4) by auto
  have AB: "with_parent A (Some i) = []" "with_parent B (Some i) = []"
    using 1(5) by (intro with_parent_none [of _ "tr_parent ` (set A \<union> set B)"]; auto)+
  have "with_parent F (Some i) = child_rows (Some i) (Suc n) cs"
    using visit_all_roots [OF i(1)] AB i(2) by (simp add: 1(2) row_of_def)
  moreover have "kids_all F (Some i) (Suc n) cs"
  proof (rule 1(1) [of "A @ [?r]" B])
    show "F = (A @ [?r]) @ visit_all (Some i) (Suc n) cs @ B" by (simp add: 1(2))
    show "tr_parent ` (set (A @ [?r]) \<union> set B) \<inter> Some ` set (forest_ids cs) = {}" using 1(4,5) by (auto simp: row_of_def)
  qed (use 1(3) i in auto)
  ultimately show ?case by simp
next
  case (2 p n)
  then show ?case by simp
next
  case (3 p n t ts)
  let ?vt = "visit_node p n t" and ?vs = "visit_all p (n + length (visit_node p n t)) ts"
  have dj: "set (node_ids t) \<inter> set (forest_ids ts) = {}" using 3(4) by auto
  have "kids_node F n t"
  proof (rule 3(1) [of A "?vs @ B"])
    show "tr_parent ` (set A \<union> set (?vs @ B)) \<inter> Some ` set (node_ids t) = {}"
      using visit_parents(2) [of p "n + length ?vt" ts] 3(5,6) dj by fastforce
  qed (use 3(3,4,5) in \<open>auto simp: Let_def\<close>)
  moreover have "kids_all F p (n + length ?vt) ts"
  proof (rule 3(2) [OF refl, of "A @ ?vt" B])
    show "tr_parent ` (set (A @ ?vt) \<union> set B) \<inter> Some ` set (forest_ids ts) = {}"
      using visit_parents(1) [of p n t] 3(5,6) dj by fastforce
  qed (use 3(3,4,5) in \<open>auto simp: Let_def\<close>)
  ultimately show ?case by simp
qed


lemma visit_ordinals:
  "map tr_ordinal (visit_node p n t) = [n..<n + length (visit_node p n t)]"
  "map tr_ordinal (visit_all p n ts) = [n..<n + length (visit_all p n ts)]"
proof (induction p n t and p n ts rule: visit_node_visit_all.induct)
  case (1 p n i l t c s nx oc cs)
  then show ?case by (simp add: row_of_def upt_rec [of n] del: upt_Suc)
next
  case (2 p n)
  then show ?case by simp
next
  case (3 p n t ts)
  then show ?case
    using upt_add_eq_append [of n "n + length (visit_node p n t)"] by (simp add: Let_def add.assoc)
qed

lemma sorted_flatten:
  assumes "mset rows = mset (flatten roots)"
  shows "sort_key tr_ordinal rows = flatten roots"
proof (rule sort_key_inj_key_eq [OF assms])
  have ord: "map tr_ordinal (flatten roots) = [0..<length (flatten roots)]"
    using visit_ordinals(2) [of None 0 roots] by (simp add: flatten_def)
  then show "sorted (map tr_ordinal (flatten roots))" by simp
  have "distinct (map tr_ordinal (flatten roots))" by (simp add: ord)
  then show "inj_on tr_ordinal (set rows)" using mset_eq_setD [OF assms] by (simp add: distinct_map)
qed

lemma build_kids:
  "by_parent rows = with_parent F \<Longrightarrow> kids_node F n t \<Longrightarrow> length (visit_node p n t) \<le> depth \<Longrightarrow>
     build rows depth (row_of p n t) = Some t"
  "by_parent rows = with_parent F \<Longrightarrow> kids_all F p n ts \<Longrightarrow> length (visit_all p n ts) \<le> depth \<Longrightarrow>
     all_built (map (build rows depth) (child_rows p n ts)) = Some ts"
proof (induction p n t and p n ts arbitrary: depth and depth rule: visit_node_visit_all.induct)
  case (1 p n i l t c s nx oc cs)
  obtain d where d: "depth = Suc d" using 1(4) by (cases depth) auto
  have "all_built (map (build rows d) (child_rows (Some i) (Suc n) cs)) = Some cs" using 1 d by simp
  then show ?case using 1(2,3) by (simp add: d row_of_def)
qed (auto simp: Let_def)

lemma flatten_read_back:
  assumes "distinct (forest_ids roots)" and "mset rows = mset (flatten roots)"
  shows "reconstruct rows = Some roots"
proof -
  have bp: "by_parent rows = with_parent (flatten roots)"
    by (simp add: fun_eq_iff by_parent_def with_parent_def sorted_flatten [OF assms(2)])
  have "kids_all (flatten roots) None 0 roots"
    by (rule rows_kids(2) [of _ "[]" _ _ _ "[]"]) (use assms(1) in \<open>auto simp: flatten_def\<close>)
  then show ?thesis
    using build_kids(2) [OF bp, of None 0 roots "length rows"] visit_all_roots [of None roots 0]
      mset_eq_length [OF assms(2)]
    by (auto simp: reconstruct_def bp flatten_def)
qed

text \<open>A row and its ancestors up to a root.\<close>

fun root_path :: "tree_row list \<Rightarrow> tree_row list \<Rightarrow> bool" where
  "root_path rows [] \<longleftrightarrow> False"
| "root_path rows [r] \<longleftrightarrow> r \<in> set rows \<and> tr_parent r = None"
| "root_path rows (c # r # p) \<longleftrightarrow> c \<in> set rows \<and> tr_parent c = Some (tr_id r) \<and> root_path rows (r # p)"

lemma root_path_rows: "root_path rows p \<Longrightarrow> set p \<subseteq> set rows"
  by (induction rows p rule: root_path.induct) auto

lemma root_path_suffix: "root_path rows (u @ v) \<Longrightarrow> v \<noteq> [] \<Longrightarrow> root_path rows v"
proof (induction u)
  case (Cons x u)
  then show ?case by (cases "u @ v") auto
qed simp

lemma root_path_unique:
  assumes "distinct (map tr_id rows)"
  shows "root_path rows (r # p) \<Longrightarrow> root_path rows (r # q) \<Longrightarrow> p = q"
proof (induction p arbitrary: r q)
  case Nil
  then show ?case by (cases q) auto
next
  case (Cons s p)
  then obtain s' q' where q: "q = s' # q'" by (cases q) auto
  have "s \<in> set rows" "s' \<in> set rows" using Cons.prems q root_path_rows by fastforce+
  then have "s = s'" using Cons.prems q assms by (auto simp: distinct_map inj_on_def)
  then show ?case using Cons q by auto
qed

lemma root_path_distinct: "distinct (map tr_id rows) \<Longrightarrow> root_path rows p \<Longrightarrow> distinct p"
proof (induction p)
  case (Cons c p)
  have "c \<notin> set p"
  proof
    assume "c \<in> set p"
    then obtain u v where p: "p = u @ c # v" by (auto dest: split_list)
    then have "root_path rows (c # v)" using root_path_suffix [of rows "c # u" "c # v"] Cons.prems by simp
    then have "p = v" using root_path_unique Cons.prems by blast
    then show False using p by simp
  qed
  moreover have "distinct p" using Cons root_path_suffix [of rows "[c]" p] by (cases p) auto
  ultimately show ?case by simp
qed simp

lemma all_built_some: "(\<And>x. x \<in> set xs \<Longrightarrow> f x \<noteq> None) \<Longrightarrow> all_built (map f xs) \<noteq> None"
proof (induction xs)
  case (Cons x xs)
  then have "f x \<noteq> None" "all_built (map f xs) \<noteq> None" by simp_all
  then show ?case by auto
qed simp

lemma by_parent_iff: "r \<in> set (by_parent rows p) \<longleftrightarrow> r \<in> set rows \<and> tr_parent r = p"
  by (auto simp: by_parent_def)

lemma build_returns:
  "distinct (map tr_id rows) \<Longrightarrow> root_path rows (r # p) \<Longrightarrow> length rows < length (r # p) + depth \<Longrightarrow>
     build rows depth r \<noteq> None"
proof (induction depth arbitrary: r p)
  case 0
  have "length (r # p) \<le> length rows"
    using card_mono [OF finite_set root_path_rows [OF 0(2)]] distinct_card [OF root_path_distinct [OF 0(1,2)]] card_length [of rows]
    by simp
  then show ?case using 0 by simp
next
  case (Suc depth)
  have "build rows depth c \<noteq> None" if "c \<in> set (by_parent rows (Some (tr_id r)))" for c
    by (rule Suc.IH [of c "r # p"]) (use Suc.prems that in \<open>auto simp: by_parent_iff\<close>)
  from all_built_some [OF this] show ?case by simp
qed

text \<open>
  Reading the tree back always ends, whatever rows are stored under distinct ids: rows on a cycle of parents, or with a
  parent that is not stored, are never reached from a root.
\<close>

theorem reconstruct_returns:
  assumes "distinct (map tr_id rows)"
  shows "reconstruct rows \<noteq> None"
proof -
  have "build rows (length rows) r \<noteq> None" if "r \<in> set (by_parent rows None)" for r
    using build_returns [OF assms, of r "[]" "length rows"] that by (simp add: by_parent_iff)
  from all_built_some [OF this] show ?thesis by (simp add: reconstruct_def)
qed


section \<open>Seeding\<close>

abbreviation table_ids :: "node_table \<Rightarrow> string list" where
  "table_ids table \<equiv> map (tr_id \<circ> fst) table"

lemma upsert_ids: "table_ids (upsert_row r table) =
    (if tr_id (fst r) \<in> set (table_ids table) then table_ids table else table_ids table @ [tr_id (fst r)])"
  by (auto simp: upsert_row_def)

lemma upsert_members:
  "set (upsert_row r table) = insert r {x \<in> set table. tr_id (fst x) \<noteq> tr_id (fst r)}"
  by (force simp: upsert_row_def image_iff)

lemma upserts_distinct: "distinct (table_ids table) \<Longrightarrow> distinct (table_ids (fold upsert_row rs table))"
  by (induction rs arbitrary: table) (simp_all add: upsert_ids)

lemma upserts_members:
  "distinct (table_ids rs) \<Longrightarrow>
     set (fold upsert_row rs table) = set rs \<union> {x \<in> set table. tr_id (fst x) \<notin> set (table_ids rs)}"
proof (induction rs arbitrary: table)
  case (Cons r rs)
  have "set (fold upsert_row rs (upsert_row r table))
      = set rs \<union> {x \<in> insert r {x \<in> set table. tr_id (fst x) \<noteq> tr_id (fst r)}. tr_id (fst x) \<notin> set (table_ids rs)}"
    using Cons by (simp add: upsert_members)
  then show ?case using Cons.prems by auto
qed simp

lemma upsert_same: "r \<in> set table \<Longrightarrow> distinct (table_ids table) \<Longrightarrow> upsert_row r table = table"
  by (auto simp: upsert_row_def distinct_map inj_on_def intro!: map_idI)

lemma upserts_same: "set rs \<subseteq> set table \<Longrightarrow> distinct (table_ids table) \<Longrightarrow> fold upsert_row rs table = table"
  by (induction rs) (simp_all add: upsert_same)

lemma flatten_ids:
  "map tr_id (visit_node p n t) = node_ids t" "map tr_id (visit_all p n ts) = forest_ids ts"
  by (induction p n t and p n ts rule: visit_node_visit_all.induct) (simp_all add: row_of_def Let_def)

lemma seed_members:
  assumes "distinct (forest_ids roots)"
  shows "set (seed_tree roots table) = (\<lambda>r. (r, ''seed'')) ` set (flatten roots) \<union> {x \<in> set table. tr_id (fst x) \<notin> set (forest_ids roots)}"
  using upserts_members [of "map (\<lambda>r. (r, ''seed'')) (flatten roots)" table] assms
  by (simp add: seed_tree_def o_def flatten_ids flatten_def)

text \<open>
  C37. Seeding the bundled tree stores exactly its rows beside the rows with ids of their own, which it leaves alone; it keeps ids
  distinct, doing it again changes nothing, and on a table with no other ids the tree that is then read is the bundled one.
\<close>

theorem seed_tree_correct:
  assumes "distinct (forest_ids roots)" and "distinct (table_ids table)"
  shows "set (seed_tree roots table)
      = (\<lambda>r. (r, ''seed'')) ` set (flatten roots) \<union> {x \<in> set table. tr_id (fst x) \<notin> set (forest_ids roots)} \<and>
    distinct (table_ids (seed_tree roots table)) \<and>
    seed_tree roots (seed_tree roots table) = seed_tree roots table \<and>
    (set (table_ids table) \<subseteq> set (forest_ids roots) \<longrightarrow> fetch_tree (seed_tree roots table) = Some roots)"
proof -
  have d: "distinct (table_ids (seed_tree roots table))" using assms(2) by (simp add: seed_tree_def upserts_distinct)
  have "fold upsert_row (map (\<lambda>r. (r, ''seed'')) (flatten roots)) (seed_tree roots table) = seed_tree roots table"
    by (rule upserts_same [OF _ d]) (auto simp: seed_members [OF assms(1)])
  then have again: "seed_tree roots (seed_tree roots table) = seed_tree roots table" by (simp add: seed_tree_def)
  have "fetch_tree (seed_tree roots table) = Some roots" if "set (table_ids table) \<subseteq> set (forest_ids roots)"
  proof -
    have "set (map fst (seed_tree roots table)) = set (flatten roots)"
    proof -
      have other: "{x \<in> set table. tr_id (fst x) \<notin> set (forest_ids roots)} = {}" using that by auto
      show ?thesis unfolding set_map seed_members [OF assms(1)] other by (simp add: image_image)
    qed
    moreover have "distinct (map fst (seed_tree roots table))" using d by (auto simp: distinct_map inj_on_def)
    moreover have "distinct (flatten roots)" using assms(1) distinct_map [of tr_id "flatten roots"] by (simp add: flatten_ids flatten_def)
    ultimately have "mset (map fst (seed_tree roots table)) = mset (flatten roots)" by (simp only: set_eq_iff_mset_eq_distinct)
    then show ?thesis using flatten_read_back [OF assms(1)] by (simp add: fetch_tree_def)
  qed
  with d again seed_members [OF assms(1)] show ?thesis by blast
qed


section \<open>The walk as an enumeration of paths\<close>

text \<open>The paths from a root, in the order of the walk; a path is visited when all nodes above its end are confirmed.\<close>

fun paths_node :: "vnode \<Rightarrow> vnode list list" and paths_all :: "vnode list \<Rightarrow> vnode list list" where
  "paths_node (VNode i l t c s nx oc cs) =
     [VNode i l t c s nx oc cs] # map ((#) (VNode i l t c s nx oc cs)) (paths_all cs)"
| "paths_all [] = []"
| "paths_all (t # ts) = paths_node t @ paths_all ts"

definition finding_of :: "tool_outputs \<Rightarrow> vnode \<Rightarrow> json option" where
  "finding_of outputs v = (case node_state outputs v of Some (Confirmed w) \<Rightarrow> Some w | _ \<Rightarrow> None)"

definition visited :: "tool_outputs \<Rightarrow> vnode list \<Rightarrow> bool" where
  "visited outputs p \<longleftrightarrow> list_all (\<lambda>v. finding_of outputs v \<noteq> None) (butlast p)"

definition steps_of :: "tool_outputs \<Rightarrow> vnode list \<Rightarrow> chain_step list" where
  "steps_of outputs p = map (\<lambda>v. confirmed_step v (the (finding_of outputs v))) p"

definition active_of :: "tool_outputs \<Rightarrow> chain_step list \<Rightarrow> vnode list \<Rightarrow> active_chain list" where
  "active_of outputs pre p = (if finding_of outputs (List.last p) \<noteq> None \<and> vn_children (List.last p) = []
     then make_active (pre @ steps_of outputs p) (List.last p) else [])"

definition partial_of :: "tool_outputs \<Rightarrow> string option \<Rightarrow> chain_step list \<Rightarrow> vnode list \<Rightarrow> partial_chain list" where
  "partial_of outputs target pre p = (if node_state outputs (List.last p) = Some Unevaluated
     then make_partial target (pre @ steps_of outputs (butlast p)) (List.last p) else [])"

definition walk_of :: "tool_outputs \<Rightarrow> string option \<Rightarrow> chain_step list \<Rightarrow> vnode list list \<Rightarrow> walked option" where
  "walk_of outputs target pre ps = (let vs = filter (visited outputs) ps in
     if list_ex (\<lambda>p. node_state outputs (List.last p) = None) vs then None
     else Some (concat (map (active_of outputs pre) vs), concat (map (partial_of outputs target pre) vs), length vs))"

lemma walk_of_append:
  "walk_of outputs target pre (ps @ qs) = (case walk_of outputs target pre ps of
      None \<Rightarrow> None
    | Some (a, p, n) \<Rightarrow> map_option (\<lambda>(b, q, m). (a @ b, p @ q, n + m)) (walk_of outputs target pre qs))"
  by (simp add: walk_of_def Let_def)

lemma walk_of_one:
  "walk_of outputs target pre [p] =
     (if visited outputs p then if node_state outputs (List.last p) = None then None
        else Some (active_of outputs pre p, partial_of outputs target pre p, 1)
      else Some ([], [], 0))"
  "walk_of outputs target pre [] = Some ([], [], 0)"
  by (auto simp: walk_of_def Let_def)

lemma paths_nonempty: "p \<in> set (paths_node t) \<Longrightarrow> p \<noteq> []" "p \<in> set (paths_all ts) \<Longrightarrow> p \<noteq> []"
  by (induction t and ts rule: paths_node_paths_all.induct) auto

lemma walk_of_cons:
  assumes "\<forall>p\<in>set ps. p \<noteq> []"
  shows "walk_of outputs target pre (map ((#) v) ps) = (case finding_of outputs v of
      None \<Rightarrow> Some ([], [], 0) | Some w \<Rightarrow> walk_of outputs target (pre @ [confirmed_step v w]) ps)"
  using assms
proof (induction ps)
  case Nil
  then show ?case by (simp add: walk_of_one split: option.splits)
next
  case (Cons p ps)
  have "walk_of outputs target pre [v # p] = (case finding_of outputs v of
      None \<Rightarrow> Some ([], [], 0) | Some w \<Rightarrow> walk_of outputs target (pre @ [confirmed_step v w]) [p])"
    using Cons.prems
    by (auto simp: walk_of_one visited_def active_of_def partial_of_def steps_of_def split: option.splits)
  then show ?case
    using Cons walk_of_append [of outputs target pre "[v # p]" "map ((#) v) ps"]
      walk_of_append [of outputs target "pre @ [confirmed_step v w]" "[p]" ps for w]
    by (auto split: option.splits)
qed

lemma walk_paths:
  "walk_node outputs target pre t = walk_of outputs target pre (paths_node t)"
  "walk_all outputs target pre ts = walk_of outputs target pre (paths_all ts)"
proof (induction outputs target pre t and outputs target pre ts rule: walk_node_walk_all.induct)
  case (1 outputs target pre i l t c s nx oc cs)
  define v where "v = VNode i l t c s nx oc cs"
  have rest: "walk_of outputs target pre (map ((#) v) (paths_all cs)) = (case finding_of outputs v of
      None \<Rightarrow> Some ([], [], 0) | Some w \<Rightarrow> walk_of outputs target (pre @ [confirmed_step v w]) (paths_all cs))"
    by (rule walk_of_cons) (use paths_nonempty(2) in blast)
  have paths: "paths_node v = [[v]] @ map ((#) v) (paths_all cs)" and kids: "vn_children v = cs" by (simp_all add: v_def)
  note walk = walk_node.simps [of outputs target pre i l t c s nx oc cs, folded v_def, unfolded Let_def]
  have IH: "walk_all outputs target (pre @ [confirmed_step v w]) cs = walk_of outputs target (pre @ [confirmed_step v w]) (paths_all cs)"
    if "node_state outputs v = Some (Confirmed w)" "cs \<noteq> []" for w
    using 1 [OF v_def that(1) refl that(2)] .
  show ?case
  proof (cases "node_state outputs v")
    case None
    then show ?thesis unfolding v_def [symmetric] walk paths walk_of_append rest by (simp add: walk_of_one visited_def)
  next
    case (Some st)
    then show ?thesis unfolding v_def [symmetric] walk paths walk_of_append rest
      using IH kids
      by (cases st) (auto simp: walk_of_one visited_def active_of_def partial_of_def steps_of_def finding_of_def)
  qed
next
  case (2 outputs target pre)
  then show ?case by (simp add: walk_of_def)
next
  case (3 outputs target pre t ts)
  then show ?case by (auto simp: walk_of_append split: option.splits)
qed

lemma visited_confirmed:
  "p \<noteq> [] \<Longrightarrow> visited outputs p \<and> finding_of outputs (List.last p) \<noteq> None \<longleftrightarrow> (\<forall>v\<in>set p. finding_of outputs v \<noteq> None)"
  by (induction p rule: rev_induct) (auto simp: visited_def list_all_iff)

lemma finding_of_some: "finding_of outputs v = Some w \<longleftrightarrow> node_state outputs v = Some (Confirmed w)"
  by (auto simp: finding_of_def split: option.splits node_state.splits)

definition actives :: "tool_outputs \<Rightarrow> vnode list \<Rightarrow> active_chain set" where
  "actives outputs roots = {c. \<exists>p oc. p \<in> set (paths_all roots) \<and> (\<forall>v\<in>set p. finding_of outputs v \<noteq> None) \<and>
     vn_children (List.last p) = [] \<and> vn_outcome (List.last p) = Some oc \<and>
     c = \<lparr>ac_id = vn_id (List.last p), ac_severity = vn_severity (List.last p), ac_steps = steps_of outputs p, ac_payoff = oc\<rparr>}"

definition frontier :: "tool_outputs \<Rightarrow> string option \<Rightarrow> vnode list \<Rightarrow> partial_chain set" where
  "frontier outputs target roots = {c. \<exists>q v. q @ [v] \<in> set (paths_all roots) \<and> q \<noteq> [] \<and> (\<forall>u\<in>set q. finding_of outputs u \<noteq> None) \<and>
     node_state outputs v = Some Unevaluated \<and> c \<in> set (make_partial target (steps_of outputs q) v)}"

lemma active_set:
  "\<Union> (set ` active_of outputs [] ` {p \<in> set (paths_all roots). visited outputs p}) = actives outputs roots"
proof (intro set_eqI iffI)
  fix c assume "c \<in> \<Union> (set ` active_of outputs [] ` {p \<in> set (paths_all roots). visited outputs p})"
  then obtain p where p: "p \<in> set (paths_all roots)" "visited outputs p" "c \<in> set (active_of outputs [] p)" by auto
  then have "\<forall>v\<in>set p. finding_of outputs v \<noteq> None" and leaf: "vn_children (List.last p) = []"
    and c: "c \<in> set (make_active (steps_of outputs p) (List.last p))"
    using visited_confirmed [OF paths_nonempty(2) [OF p(1)], of outputs] by (auto simp: active_of_def split: if_splits)
  then show "c \<in> actives outputs roots" unfolding actives_def mem_Collect_eq
    by (intro exI [of _ p] exI [of _ "the (vn_outcome (List.last p))"]) (use p(1) in \<open>auto simp: make_active_def split: option.splits dest: sym\<close>)
next
  fix c assume "c \<in> actives outputs roots"
  then obtain p where p: "p \<in> set (paths_all roots)" "\<forall>v\<in>set p. finding_of outputs v \<noteq> None"
    "vn_children (List.last p) = []" and c: "c \<in> set (make_active (steps_of outputs p) (List.last p))"
    unfolding actives_def by (auto simp: make_active_def)
  then have "visited outputs p \<and> finding_of outputs (List.last p) \<noteq> None"
    using visited_confirmed [OF paths_nonempty(2) [OF p(1)], of outputs] by blast
  then show "c \<in> \<Union> (set ` active_of outputs [] ` {p \<in> set (paths_all roots). visited outputs p})"
    using p c by (auto simp: active_of_def intro!: bexI [of _ p])
qed

lemma partial_set:
  "\<Union> (set ` partial_of outputs target [] ` {p \<in> set (paths_all roots). visited outputs p}) = frontier outputs target roots"
proof (intro set_eqI iffI)
  fix c assume "c \<in> \<Union> (set ` partial_of outputs target [] ` {p \<in> set (paths_all roots). visited outputs p})"
  then obtain p where p: "p \<in> set (paths_all roots)" "visited outputs p" "c \<in> set (partial_of outputs target [] p)" by auto
  obtain q v where qv: "p = q @ [v]" using paths_nonempty(2) [OF p(1)] by (cases p rule: rev_cases) auto
  show "c \<in> frontier outputs target roots" unfolding frontier_def mem_Collect_eq
    by (intro exI [of _ q] exI [of _ v]) (use p qv in \<open>auto simp: visited_def list_all_iff partial_of_def steps_of_def
        make_partial_def split: if_splits option.splits\<close>)
next
  fix c assume "c \<in> frontier outputs target roots"
  then obtain q v where "q @ [v] \<in> set (paths_all roots)" "\<forall>u\<in>set q. finding_of outputs u \<noteq> None"
    "node_state outputs v = Some Unevaluated" "c \<in> set (make_partial target (steps_of outputs q) v)"
    unfolding frontier_def by blast
  then show "c \<in> \<Union> (set ` partial_of outputs target [] ` {p \<in> set (paths_all roots). visited outputs p})"
    by (auto simp: visited_def list_all_iff partial_of_def intro!: bexI [of _ "q @ [v]"])
qed

lemma sorted_fst: "sorted (map f (sort_key (\<lambda>c. (f c :: int, g c :: int)) xs))"
proof -
  have "sorted_wrt (\<lambda>x y. (f x, g x) \<le> (f y, g y)) (sort_key (\<lambda>c. (f c, g c)) xs)"
    using sorted_sort_key [of "\<lambda>c. (f c, g c)" xs] by (simp add: sorted_map)
  then show ?thesis unfolding sorted_map by (rule sorted_wrt_mono_rel [rotated]) (auto simp: less_eq_prod_def)
qed


text \<open>What confirms an \<open>any\<close> condition is an element that satisfies it, the first one.\<close>

lemma any_witness:
  "eval_any sub xs = Some (True, w) \<Longrightarrow>
     \<exists>us vs v. xs = us @ w # vs \<and> evaluate sub w = Some (True, v) \<and> (\<forall>u\<in>set us. \<exists>v. evaluate sub u = Some (False, v))"
proof (induction xs)
  case (Cons x xs)
  show ?case
  proof (cases "evaluate sub x")
    case (Some bv)
    obtain b v where bv: "bv = (b, v)" by (cases bv)
    show ?thesis
    proof (cases b)
      case True
      then show ?thesis using Cons Some bv by (intro exI [of _ "[]"] exI [of _ xs]) auto
    next
      case False
      then obtain us vs v' where "xs = us @ w # vs" "evaluate sub w = Some (True, v')" "\<forall>u\<in>set us. \<exists>v. evaluate sub u = Some (False, v)"
        using Cons Some bv by auto
      then show ?thesis using False Some bv by (intro exI [of _ "x # us"] exI [of _ vs] exI [of _ v']) auto
    qed
  qed (use Cons in simp)
qed simp


section \<open>Witnesses\<close>

text \<open>A camera whose telnet takes a default password; the pivot that follows has not been tried.\<close>

definition sample_tree :: "vnode list" where
  "sample_tree = [VNode ''telnet_open'' ''Telnet open'' (Some ''port_scan'')
      (JObj [(''op'', JStr ''any''), (''field'', JStr ''ports''), (''match'', JObj [(''op'', JStr ''equals''), (''field'', JStr ''port''), (''value'', JInt 23)])])
      ''medium'' None None
      [VNode ''telnet_creds'' ''Default login'' (Some ''telnet_brute'') (JObj [(''op'', JStr ''exists''), (''field'', JStr ''login'')])
         ''critical'' None (Some \<lparr>po_compromised = ''device'', po_impact = ''root shell'', po_cvss = ''AV:N''\<rparr>) [],
       VNode ''telnet_fw'' ''Old firmware'' (Some ''fw_scan'') (JObj [(''op'', JStr ''exists''), (''field'', JStr ''cve'')])
         ''high'' (Some \<lparr>nc_tool = ''fw_scan'', nc_reason = ''banner'', nc_hint = [(''ip'', JStr ''<target>'')]\<rparr>) None []]]"

definition sample_session :: tool_outputs where
  "sample_session = [(''port_scan'', JObj [(''ports'', JList [JObj [(''port'', JInt 22)], JObj [(''port'', JInt 23)]])]),
     (''telnet_brute'', JList [JObj [], JObj [(''login'', JStr ''root'')]])]"

lemma sample_chains: "map_option (\<lambda>r. (map ac_id (wr_active r), map pc_id (wr_partial r), wr_evaluated r))
    (walk_vuln_tree sample_tree sample_session (Some ''10.0.0.7'') ''low'') = Some ([''telnet_creds''], [''telnet_fw''], 3)"
  by code_simp

lemma sample_hint: "interpolate (Some ''10.0.0.7'') [(''ip'', JStr ''<target>''), (''n'', JInt 3)] = [(''ip'', JStr ''10.0.0.7''), (''n'', JInt 3)]"
  by code_simp


text \<open>A table in which somebody changed a row of the tree by hand: the seed writes over it.\<close>

definition edited_table :: node_table where
  "edited_table = [((row_of None 7 (hd sample_tree))\<lparr>tr_severity := ''low''\<rparr>, ''user'')]"

theorem seed_tree_correct_witness:
  "distinct (forest_ids sample_tree) \<and> distinct (table_ids edited_table) \<and>
   fetch_tree edited_table \<noteq> Some sample_tree \<and> fetch_tree (seed_tree sample_tree edited_table) = Some sample_tree"
proof -
  have 1: "distinct (forest_ids sample_tree)" by code_simp
  have 2: "distinct (table_ids edited_table)" "set (table_ids edited_table) \<subseteq> set (forest_ids sample_tree)"
    by (code_simp, code_simp)
  have 3: "map_option (map vn_severity) (fetch_tree edited_table) = Some [''low'']" by code_simp
  have "fetch_tree edited_table \<noteq> Some sample_tree"
  proof
    assume "fetch_tree edited_table = Some sample_tree"
    then show False using 3 by (simp add: sample_tree_def)
  qed
  with seed_tree_correct [OF 1 2(1)] 1 2 show ?thesis by blast
qed

text \<open>Two rows that are each other's parent beside a root.\<close>

definition looped_rows :: "tree_row list" where
  "looped_rows = flatten sample_tree @ [(row_of (Some ''b'') 3 (hd sample_tree))\<lparr>tr_id := ''a''\<rparr>, (row_of (Some ''a'') 4 (hd sample_tree))\<lparr>tr_id := ''b''\<rparr>]"

theorem reconstruct_returns_witness: "distinct (map tr_id looped_rows) \<and> reconstruct looped_rows \<noteq> None"
proof -
  have "distinct (map tr_id looped_rows)" by code_simp
  then show ?thesis using reconstruct_returns by blast
qed
end
