(* ===== verification/Self_Update.thy ===== *)
theory Self_Update
  imports Local_Diagnose
begin

text \<open>
  The command line's update of itself, \<open>src/nff/tools/updater.py\<close>: versions, the asset of the platform, the install channel,
  the throttle and the lock, download and checksum, the swap on both systems, and the flow with its background mode. The files
  an update touches go by their role. Which calls of the operating system fail, what they leave behind, what the network
  answers, the digest and what a program prints when run are parameters. Texts of messages are left out.
\<close>

section \<open>Versions and assets\<close>

definition strip_v :: "string \<Rightarrow> string" where
  "strip_v s = dropWhile (\<lambda>c. c = CHR ''v'') s"

definition parse_release :: "string \<Rightarrow> int list option" where
  "parse_release text = (let parts = split_on (CHR ''.'') (strip_v (strip text)) in
     if length parts \<noteq> 3 then None else those (map py_int parts))"

definition path_tail :: "string \<Rightarrow> string" where
  "path_tail url = rev (takeWhile (\<lambda>c. c \<noteq> CHR ''/'') (dropWhile (\<lambda>c. c = CHR ''/'') (rev url)))"

definition parse_tag_version :: "string \<Rightarrow> string option" where
  "parse_tag_version location = (let tail = path_tail location in
     if parse_release tail \<noteq> None then Some (strip_v tail) else None)"

definition is_newer :: "string \<Rightarrow> string \<Rightarrow> bool" where
  "is_newer candidate current = (case (parse_release candidate, parse_release current) of
      (Some a, Some b) \<Rightarrow> b < a | _ \<Rightarrow> False)"

definition asset_name :: "string \<Rightarrow> string \<Rightarrow> string option" where
  "asset_name system machine = (let s = lower system; m = lower machine in
     if s = ''linux'' then
       (if m \<in> {''x86_64'', ''amd64''} then Some ''nff-linux-x64''
        else if m \<in> {''aarch64'', ''arm64''} then Some ''nff-linux-arm64'' else None)
     else if s = ''darwin'' then
       (if m = ''arm64'' then Some ''nff-macos-arm64'' else if m = ''x86_64'' then Some ''nff-macos-x64'' else None)
     else if s = ''windows'' then Some ''nff-windows-x64.exe'' else None)"

definition words :: "string \<Rightarrow> string list" where
  "words s = filter (\<lambda>w. w \<noteq> []) (split_on (CHR '' '') (map (\<lambda>c. if is_space c then CHR '' '' else c) s))"

definition parse_sha256sums :: "string \<Rightarrow> string \<Rightarrow> string option" where
  "parse_sha256sums text asset = (case filter (\<lambda>parts. 2 \<le> length parts \<and> dropWhile (\<lambda>c. c = CHR ''*'') (parts ! 1) = asset)
       (map words (splitlines text)) of
      [] \<Rightarrow> None | parts # _ \<Rightarrow> Some (lower (hd parts)))"

definition truthy_word :: "string \<Rightarrow> bool" where
  "truthy_word raw \<longleftrightarrow> lower (strip raw) \<in> {''1'', ''true'', ''yes'', ''on''}"

definition base_url :: "string \<Rightarrow> string" where
  "base_url raw = (let url = (if strip raw = [] then ''https://github.com/GLechevalier/nff/releases'' else strip raw) in
     rev (dropWhile (\<lambda>c. c = CHR ''/'') (rev url)))"

definition every_hours :: "string \<Rightarrow> int" where
  "every_hours raw = (if strip raw = [] then 24
     else case py_int (strip raw) of None \<Rightarrow> 24 | Some n \<Rightarrow> if 0 < n then n else 24)"


section \<open>The install channel\<close>

type_synonym path = "string list"

datatype channel = Standalone | Wheel | Dev

text \<open>The marker file: the channel it names and the path, absent when empty.\<close>

record marker =
  mk_channel :: "string option"
  mk_path :: "path option"

record installation =
  in_exe :: path
  in_frozen :: bool
  in_default :: path
  in_package :: path
  in_resolve :: "path \<Rightarrow> path option"

definition marked_path :: "marker option \<Rightarrow> path option" where
  "marked_path m = (case m of None \<Rightarrow> None | Some k \<Rightarrow> if mk_channel k = Some ''standalone'' then mk_path k else None)"

definition detect_channel :: "installation \<Rightarrow> marker option \<Rightarrow> channel" where
  "detect_channel inst m = (let parts = map lower (in_exe inst); pkg = map lower (in_package inst) in
     if ''target'' \<in> set parts \<and> (''debug'' \<in> set parts \<or> ''release'' \<in> set parts) then Dev
     else if Option.bind (marked_path m) (in_resolve inst) = Some (in_exe inst) then Standalone
     else if in_frozen inst then Standalone
     else if butlast (in_exe inst) = in_default inst then Standalone
     else if ''site-packages'' \<in> set pkg \<or> ''dist-packages'' \<in> set pkg then Wheel
     else if pkg \<noteq> [] then Dev else Wheel)"

definition standalone_target :: "installation \<Rightarrow> marker option \<Rightarrow> path option" where
  "standalone_target inst m = (case marked_path m of
      Some p \<Rightarrow> Some p
    | None \<Rightarrow> if butlast (in_exe inst) = in_default inst then Some (in_exe inst) else None)"


section \<open>The disk\<close>

datatype stage = AtCheck | AtDownload | AtChecksum | AtVerify | AtSwap

datatype failure = Update_Error stage | OS_Error

record update_error =
  er_version :: "string option"
  er_stage :: stage
  er_at :: int

record update_state =
  us_checked :: int
  us_latest :: "string option"
  us_updated :: "string option"
  us_notified :: "string option"
  us_error :: "update_error option"
  us_surfaced :: bool

definition default_state :: update_state where
  "default_state = \<lparr>us_checked = 0, us_latest = None, us_updated = None, us_notified = None, us_error = None, us_surfaced = False\<rparr>"

record disk_file =
  f_bytes :: string
  f_mtime :: int

datatype slot = Target | Target_New | Target_Old | Temp_Copy | Staged_File | Partial_File

text \<open>Missing or unreadable is \<open>None\<close> for the state file; the lock file is known by its modification time.\<close>

record disk =
  dk_files :: "slot \<Rightarrow> disk_file option"
  dk_state :: "update_state option"
  dk_lock :: "int option"
  dk_marker :: "marker option"

datatype os_call = Lock_Dir | Lock_Create | Lock_Stat | Lock_Reclaim | Lock_Release | Gc_Partial | Gc_Staged | Staging_Dir
  | Write_Partial | Read_Partial | Drop_Partial | Stage_Partial | Target_Dir | Copy_Temp | Replace_Target | Drop_Temp
  | Copy_New | Drop_Old | Move_Target | Move_New | Move_Back | Drop_New | Drop_Staged | Save_Check | Save_Error | Save_Done
  | Save_Notices | Write_Marker | Cleanup_Old

datatype reply = No_Reply | Cut_Off string | Body string

record upd_env =
  ue_version :: string
  ue_inst :: installation
  ue_windows :: bool
  ue_system :: string
  ue_machine :: string
  ue_now :: int
  ue_every :: int
  ue_base :: string
  ue_head :: "string option"
  ue_net :: "string \<Rightarrow> reply"
  ue_sha256 :: "string \<Rightarrow> string"
  ue_runs :: "string \<Rightarrow> (int \<times> string) option"
  ue_fails :: "os_call \<Rightarrow> bool"
  ue_torn :: "os_call \<Rightarrow> disk_file option"

definition put_file :: "slot \<Rightarrow> disk_file option \<Rightarrow> disk \<Rightarrow> disk" where
  "put_file sl f d = d\<lparr>dk_files := (dk_files d)(sl := f)\<rparr>"

text \<open>An unlink whose failure is ignored.\<close>

definition drop_file :: "upd_env \<Rightarrow> os_call \<Rightarrow> slot \<Rightarrow> disk \<Rightarrow> disk" where
  "drop_file env call sl d = (if ue_fails env call then d else put_file sl None d)"

definition load_state :: "disk \<Rightarrow> update_state" where
  "load_state d = (case dk_state d of None \<Rightarrow> default_state | Some s \<Rightarrow> s)"

definition save_state :: "upd_env \<Rightarrow> os_call \<Rightarrow> update_state \<Rightarrow> disk \<Rightarrow> disk" where
  "save_state env call s d = (if ue_fails env call then d else d\<lparr>dk_state := Some s\<rparr>)"

definition record_error :: "upd_env \<Rightarrow> string option \<Rightarrow> stage \<Rightarrow> disk \<Rightarrow> disk" where
  "record_error env version st d = save_state env Save_Error ((load_state d)\<lparr>
     us_error := Some \<lparr>er_version = version, er_stage = st, er_at = ue_now env\<rparr>, us_surfaced := False\<rparr>) d"

definition write_marker :: "upd_env \<Rightarrow> path \<Rightarrow> disk \<Rightarrow> disk" where
  "write_marker env p d = (if ue_fails env Write_Marker then d
     else d\<lparr>dk_marker := Some \<lparr>mk_channel = Some ''standalone'', mk_path = Some p\<rparr>\<rparr>)"


section \<open>Throttle and lock\<close>

definition should_check :: "int \<Rightarrow> update_state \<Rightarrow> int \<Rightarrow> bool" where
  "should_check every s now \<longleftrightarrow> every * 3600 \<le> now - us_checked s"

definition acquire_lock :: "upd_env \<Rightarrow> disk \<Rightarrow> bool \<times> disk" where
  "acquire_lock env d =
     (let create = (\<lambda>d. if ue_fails env Lock_Create then (False, d) else (True, d\<lparr>dk_lock := Some (ue_now env)\<rparr>)) in
      if ue_fails env Lock_Dir then (False, d)
      else case dk_lock d of
        None \<Rightarrow> create d
      | Some m \<Rightarrow>
          if ue_fails env Lock_Stat then (False, d)
          else if ue_now env - m > 3600 then
            (if ue_fails env Lock_Reclaim then (False, d) else create (d\<lparr>dk_lock := None\<rparr>))
          else (False, d))"

definition release_lock :: "upd_env \<Rightarrow> disk \<Rightarrow> disk" where
  "release_lock env d = (if ue_fails env Lock_Release then d else d\<lparr>dk_lock := None\<rparr>)"

definition lock_held :: "upd_env \<Rightarrow> disk \<Rightarrow> bool" where
  "lock_held env d \<longleftrightarrow> (case dk_lock d of None \<Rightarrow> False | Some m \<Rightarrow> \<not> ue_fails env Lock_Stat \<and> ue_now env - m \<le> 3600)"


section \<open>Check, download, verify\<close>

text \<open>\<open>check_latest\<close>: \<open>None\<close> is the \<open>UpdateError\<close> of the stage check; no header is an empty one.\<close>

definition check_latest :: "upd_env \<Rightarrow> string option" where
  "check_latest env = (case ue_head env of None \<Rightarrow> None | Some location \<Rightarrow> if location = [] then None else parse_tag_version location)"

definition asset_url :: "upd_env \<Rightarrow> string \<Rightarrow> string \<Rightarrow> string" where
  "asset_url env version name = ue_base env @ ''/download/v'' @ version @ ''/'' @ name"

definition gc_staging :: "upd_env \<Rightarrow> disk \<Rightarrow> disk" where
  "gc_staging env d = (let d1 = drop_file env Gc_Partial Partial_File d in
     case dk_files d1 Staged_File of
       None \<Rightarrow> d1
     | Some f \<Rightarrow> if ue_now env - f_mtime f > 24 * 3600 then drop_file env Gc_Staged Staged_File d1 else d1)"

definition download_and_stage :: "upd_env \<Rightarrow> string \<Rightarrow> disk \<Rightarrow> (failure + unit) \<times> disk" where
  "download_and_stage env version d = (case asset_name (ue_system env) (ue_machine env) of
      None \<Rightarrow> (Inl (Update_Error AtCheck), d)
    | Some asset \<Rightarrow>
        (let d1 = gc_staging env d in
         if ue_fails env Staging_Dir then (Inl OS_Error, d1)
         else case ue_net env (asset_url env version asset) of
           No_Reply \<Rightarrow> (Inl (Update_Error AtDownload), d1)
         | Cut_Off b \<Rightarrow> (Inl (Update_Error AtDownload), put_file Partial_File (Some \<lparr>f_bytes = b, f_mtime = ue_now env\<rparr>) d1)
         | Body b \<Rightarrow>
             if ue_fails env Write_Partial then (Inl (Update_Error AtDownload), put_file Partial_File (ue_torn env Write_Partial) d1)
             else
               (let f = \<lparr>f_bytes = b, f_mtime = ue_now env\<rparr>; d2 = put_file Partial_File (Some f) d1 in
                case ue_net env (asset_url env version ''SHA256SUMS'') of
                  Body text \<Rightarrow>
                    (case parse_sha256sums text asset of
                       None \<Rightarrow> (Inl (Update_Error AtChecksum), d2)
                     | Some expected \<Rightarrow>
                         if ue_fails env Read_Partial then (Inl OS_Error, d2)
                         else if ue_sha256 env b \<noteq> expected then
                           (Inl (Update_Error AtChecksum), drop_file env Drop_Partial Partial_File d2)
                         else if ue_fails env Stage_Partial then (Inl (Update_Error AtDownload), d2)
                         else (Inr (), put_file Partial_File None (put_file Staged_File (Some f) d2)))
                | _ \<Rightarrow> (Inl (Update_Error AtChecksum), d2))))"

definition verify_staged :: "upd_env \<Rightarrow> string \<Rightarrow> disk \<Rightarrow> bool" where
  "verify_staged env version d = (case dk_files d Staged_File of
      None \<Rightarrow> False
    | Some f \<Rightarrow> (case ue_runs env (f_bytes f) of
        None \<Rightarrow> False | Some (code, output) \<Rightarrow> code = 0 \<and> has_lit False version output))"


section \<open>The swap\<close>

definition swap_posix :: "upd_env \<Rightarrow> disk \<Rightarrow> bool \<times> disk" where
  "swap_posix env d =
     (if ue_fails env Copy_Temp then (False, drop_file env Drop_Temp Temp_Copy (put_file Temp_Copy (ue_torn env Copy_Temp) d))
      else
        (let staged = dk_files d Staged_File; d1 = put_file Temp_Copy staged d in
         if ue_fails env Replace_Target then (False, drop_file env Drop_Temp Temp_Copy d1)
         else (True, put_file Temp_Copy None (put_file Target staged d1))))"

text \<open>On Windows a rename fails when the destination exists.\<close>

definition swap_windows :: "upd_env \<Rightarrow> disk \<Rightarrow> bool \<times> disk" where
  "swap_windows env d =
     (if ue_fails env Copy_New then (False, put_file Target_New (ue_torn env Copy_New) d)
      else
        (let staged = dk_files d Staged_File; d1 = drop_file env Drop_Old Target_Old (put_file Target_New staged d);
             target = dk_files d1 Target in
         if target \<noteq> None \<and> (ue_fails env Move_Target \<or> dk_files d1 Target_Old \<noteq> None) then
           (False, drop_file env Drop_New Target_New d1)
         else
           (let d2 = (if target = None then d1 else put_file Target None (put_file Target_Old target d1)) in
            if ue_fails env Move_New then
              (let d3 = (if target = None \<or> ue_fails env Move_Back then d2
                         else put_file Target_Old None (put_file Target target d2)) in
               (False, drop_file env Drop_New Target_New d3))
            else (True, put_file Target_New None (put_file Target staged d2)))))"

definition swap :: "upd_env \<Rightarrow> disk \<Rightarrow> bool \<times> disk" where
  "swap env d = (if ue_fails env Target_Dir then (False, d)
     else if ue_windows env then swap_windows env d else swap_posix env d)"


section \<open>The flow\<close>

datatype outcome = Exit int | Raise failure

definition install_update :: "upd_env \<Rightarrow> string \<Rightarrow> disk \<Rightarrow> (failure + unit) \<times> disk" where
  "install_update env version d = (case download_and_stage env version d of
      (Inl e, d1) \<Rightarrow> (Inl e, d1)
    | (Inr _, d1) \<Rightarrow>
        if \<not> verify_staged env version d1 then (Inl (Update_Error AtVerify), d1)
        else (case swap env d1 of
            (False, d2) \<Rightarrow> (Inl (Update_Error AtSwap), d2)
          | (True, d2) \<Rightarrow> (Inr (), drop_file env Drop_Staged Staged_File d2)))"

text \<open>The part of \<open>run_update\<close> under the lock.\<close>

definition locked_update :: "upd_env \<Rightarrow> bool \<Rightarrow> disk \<Rightarrow> outcome \<times> disk" where
  "locked_update env background d =
     (let fail = (\<lambda>version st d. (if background then Exit 0 else Raise (Update_Error st), record_error env version st d));
          channel = detect_channel (ue_inst env) (dk_marker d) in
      if background \<and> \<not> should_check (ue_every env) (load_state d) (ue_now env) then (Exit 0, d)
      else case check_latest env of
        None \<Rightarrow> fail None AtCheck d
      | Some version \<Rightarrow>
          (let d1 = save_state env Save_Check ((load_state d)\<lparr>us_checked := ue_now env, us_latest := Some version\<rparr>) d in
           if \<not> is_newer version (ue_version env) then (Exit 0, d1)
           else if background \<and> channel \<noteq> Standalone then (Exit 0, d1)
           else case standalone_target (ue_inst env) (dk_marker d1) of
             None \<Rightarrow> fail (Some version) AtSwap d1
           | Some target \<Rightarrow>
               (case install_update env version d1 of
                  (Inl (Update_Error st), d2) \<Rightarrow> fail (Some version) st d2
                | (Inl OS_Error, d2) \<Rightarrow> (Raise OS_Error, d2)
                | (Inr _, d2) \<Rightarrow>
                    (let d3 = save_state env Save_Done ((load_state d2)\<lparr>us_updated := Some version, us_error := None\<rparr>) d2 in
                     (Exit 0, drop_file env Cleanup_Old Target_Old (write_marker env target d3))))))"

definition run_update :: "upd_env \<Rightarrow> bool \<Rightarrow> bool \<Rightarrow> disk \<Rightarrow> outcome \<times> disk" where
  "run_update env background check_only d =
     (if check_only then
        (case check_latest env of
           None \<Rightarrow> (Raise (Update_Error AtCheck), d)
         | Some version \<Rightarrow> (Exit (if is_newer version (ue_version env) then 2 else 0),
             save_state env Save_Check ((load_state d)\<lparr>us_checked := ue_now env, us_latest := Some version\<rparr>) d))
      else if \<not> background \<and> detect_channel (ue_inst env) (dk_marker d) \<noteq> Standalone then (Exit 1, d)
      else case acquire_lock env d of
        (False, d1) \<Rightarrow> (Exit (if background then 0 else 1), d1)
      | (True, d1) \<Rightarrow> (case locked_update env background d1 of (res, d2) \<Rightarrow> (res, release_lock env d2)))"


section \<open>The hook after a command\<close>

datatype notice = Updated_Notice string | Failed_Notice "string option" stage | Reinstall_Notice string

text \<open>The notices of a state and the state that remembers they were shown.\<close>

definition hook_notices :: "upd_env \<Rightarrow> channel \<Rightarrow> update_state \<Rightarrow> notice list \<times> update_state" where
  "hook_notices env channel s =
     (let updated = truthy (us_updated s);
          n1 = (if updated then [Updated_Notice (the (us_updated s))] else []);
          s1 = (if updated then s\<lparr>us_updated := None\<rparr> else s);
          failed = us_error s1 \<noteq> None \<and> \<not> us_surfaced s1;
          n2 = (if failed then [Failed_Notice (er_version (the (us_error s1))) (er_stage (the (us_error s1)))] else []);
          s2 = (if failed then s1\<lparr>us_surfaced := True\<rparr> else s1);
          nag = channel = Wheel \<and> truthy (us_latest s2) \<and> is_newer (the (us_latest s2)) (ue_version env) \<and> us_notified s2 \<noteq> us_latest s2;
          n3 = (if nag then [Reinstall_Notice (the (us_latest s2))] else []) in
      (n1 @ n2 @ n3, if nag then s2\<lparr>us_notified := us_latest s2\<rparr> else s2))"

text \<open>What the hook shows, the disk, and whether it starts the background updater. Its exceptions are swallowed.\<close>

definition after_command_hook :: "upd_env \<Rightarrow> bool \<Rightarrow> string \<Rightarrow> bool \<Rightarrow> disk \<Rightarrow> notice list \<times> disk \<times> bool" where
  "after_command_hook env skip no_auto auto d =
     (let channel = detect_channel (ue_inst env) (dk_marker d) in
      if skip \<or> truthy_word no_auto \<or> \<not> auto \<or> channel = Dev then ([], d, False)
      else case hook_notices env channel (load_state d) of (ns, s) \<Rightarrow>
        (let d1 = (if ns = [] then d else save_state env Save_Notices s d);
             d2 = (if channel = Standalone \<and> standalone_target (ue_inst env) (dk_marker d1) \<noteq> None
                   then drop_file env Cleanup_Old Target_Old d1 else d1) in
         (ns, d2, should_check (ue_every env) s (ue_now env) \<and> \<not> lock_held env d2)))"


section \<open>What an update may do to the installed binary\<close>

lemma files_put [simp]:
  "dk_files (put_file sl f d) = (dk_files d)(sl := f)" "dk_state (put_file sl f d) = dk_state d"
  "dk_lock (put_file sl f d) = dk_lock d" "dk_marker (put_file sl f d) = dk_marker d"
  by (simp_all add: put_file_def)

lemma files_drop:
  "dk_files (drop_file env call sl d) = (if ue_fails env call then dk_files d else (dk_files d)(sl := None))"
  by (simp add: drop_file_def)

lemma drop_other [simp]:
  "dk_state (drop_file env call sl d) = dk_state d" "dk_lock (drop_file env call sl d) = dk_lock d"
  "dk_marker (drop_file env call sl d) = dk_marker d" "sl' \<noteq> sl \<Longrightarrow> dk_files (drop_file env call sl d) sl' = dk_files d sl'"
  by (simp_all add: drop_file_def)

lemma files_other [simp]:
  "dk_files (save_state env call s d) = dk_files d" "dk_lock (save_state env call s d) = dk_lock d"
  "dk_marker (save_state env call s d) = dk_marker d" "dk_files (record_error env v st d) = dk_files d"
  "dk_lock (record_error env v st d) = dk_lock d" "dk_marker (record_error env v st d) = dk_marker d"
  "dk_files (write_marker env p d) = dk_files d" "dk_lock (write_marker env p d) = dk_lock d" "dk_state (write_marker env p d) = dk_state d"
  "dk_files (release_lock env d) = dk_files d" "dk_state (release_lock env d) = dk_state d" "dk_marker (release_lock env d) = dk_marker d"
  by (simp_all add: save_state_def record_error_def write_marker_def release_lock_def)

lemma gc_other [simp]:
  "sl \<notin> {Partial_File, Staged_File} \<Longrightarrow> dk_files (gc_staging env d) sl = dk_files d sl"
  "dk_state (gc_staging env d) = dk_state d" "dk_lock (gc_staging env d) = dk_lock d" "dk_marker (gc_staging env d) = dk_marker d"
  by (auto simp: gc_staging_def Let_def split: option.splits)

text \<open>A text whose digest the checksums of a version list for the asset of the platform.\<close>

definition checked_image :: "upd_env \<Rightarrow> string \<Rightarrow> string \<Rightarrow> bool" where
  "checked_image env version b \<longleftrightarrow> (\<exists>asset listing. asset_name (ue_system env) (ue_machine env) = Some asset \<and>
     ue_net env (asset_url env version asset) = Body b \<and> ue_net env (asset_url env version ''SHA256SUMS'') = Body listing \<and>
     parse_sha256sums listing asset = Some (ue_sha256 env b))"

definition reports_version :: "upd_env \<Rightarrow> string \<Rightarrow> string \<Rightarrow> bool" where
  "reports_version env version b \<longleftrightarrow> (\<exists>output. ue_runs env b = Some (0, output) \<and> has_lit False version output)"

lemma download_frame:
  assumes "download_and_stage env version d = (res, d')"
  shows "dk_state d' = dk_state d" "dk_lock d' = dk_lock d" "dk_marker d' = dk_marker d"
    "sl \<notin> {Partial_File, Staged_File} \<Longrightarrow> dk_files d' sl = dk_files d sl"
  using assms by (auto simp: download_and_stage_def Let_def split: option.splits reply.splits if_splits)

lemma download_staged:
  assumes "download_and_stage env version d = (Inr u, d')"
  shows "\<exists>b. dk_files d' Staged_File = Some \<lparr>f_bytes = b, f_mtime = ue_now env\<rparr> \<and> checked_image env version b"
  using assms by (auto simp: download_and_stage_def checked_image_def Let_def split: option.splits reply.splits if_splits)

lemma swap_frame:
  assumes "swap env d = (ok, d')"
  shows "dk_state d' = dk_state d" "dk_lock d' = dk_lock d" "dk_marker d' = dk_marker d" "dk_files d' Staged_File = dk_files d Staged_File"
  using assms by (auto simp: swap_def swap_posix_def swap_windows_def Let_def split: if_splits)

text \<open>The installed file is the staged one after a swap; else the one before, or, when on Windows the two moves that
  follow the first both fail, it is in the old copy.\<close>

lemma swap_target:
  assumes "swap env d = (ok, d')"
  shows "if ok then dk_files d' Target = dk_files d Staged_File
    else dk_files d' Target = dk_files d Target \<or>
      (ue_windows env \<and> ue_fails env Move_New \<and> ue_fails env Move_Back \<and> dk_files d' Target = None \<and> dk_files d' Target_Old = dk_files d Target)"
  using assms by (auto simp: swap_def swap_posix_def swap_windows_def files_drop Let_def split: if_splits)

lemma verify_runs:
  "verify_staged env version d \<Longrightarrow> dk_files d Staged_File = Some f \<Longrightarrow> reports_version env version (f_bytes f)"
  by (auto simp: verify_staged_def reports_version_def split: option.splits)

definition double_fault :: "upd_env \<Rightarrow> disk \<Rightarrow> disk \<Rightarrow> bool" where
  "double_fault env d d' \<longleftrightarrow> ue_windows env \<and> ue_fails env Move_New \<and> ue_fails env Move_Back \<and>
     dk_files d' Target = None \<and> dk_files d' Target_Old = dk_files d Target"

lemma install_frame:
  assumes "install_update env version d = (res, d')"
  shows "dk_state d' = dk_state d" "dk_lock d' = dk_lock d" "dk_marker d' = dk_marker d"
proof -
  obtain r1 d1 where 1: "download_and_stage env version d = (r1, d1)" by fastforce
  obtain ok d2 where 2: "swap env d1 = (ok, d2)" by fastforce
  show "dk_state d' = dk_state d" "dk_lock d' = dk_lock d" "dk_marker d' = dk_marker d"
    using assms download_frame [OF 1] swap_frame [OF 2] 2 1
    by (auto simp: install_update_def split: sum.splits if_splits bool.splits prod.splits)
qed

lemma install_target:
  assumes "install_update env version d = (res, d')"
  shows "case res of
      Inl e \<Rightarrow> dk_files d' Target = dk_files d Target \<or> double_fault env d d'
    | Inr _ \<Rightarrow> \<exists>f. dk_files d' Target = Some f \<and> checked_image env version (f_bytes f) \<and> reports_version env version (f_bytes f)"
proof -
  obtain r1 d1 where 1: "download_and_stage env version d = (r1, d1)" by fastforce
  have same: "dk_files d1 Target = dk_files d Target" by (rule download_frame(4) [OF 1]) simp
  show ?thesis
  proof (cases r1)
    case (Inl e)
    then show ?thesis using assms 1 same by (auto simp: install_update_def)
  next
    case (Inr u)
    then obtain b where b: "dk_files d1 Staged_File = Some \<lparr>f_bytes = b, f_mtime = ue_now env\<rparr>" "checked_image env version b"
      using download_staged 1 by blast
    obtain ok d2 where 2: "swap env d1 = (ok, d2)" by fastforce
    show ?thesis
    proof (cases "verify_staged env version d1")
      case True
      then have "reports_version env version b" using verify_runs [OF True b(1)] by simp
      then show ?thesis using assms 1 2 Inr True b swap_target [OF 2] same
        by (cases ok) (auto simp: install_update_def double_fault_def)
    qed (use assms 1 Inr same in \<open>auto simp: install_update_def\<close>)
  qed
qed

lemma locked_target:
  assumes "locked_update env background d = (res, d')"
  shows "dk_files d' Target = dk_files d Target \<or> double_fault env d d' \<or>
    (\<exists>f v. dk_files d' Target = Some f \<and> check_latest env = Some v \<and> is_newer v (ue_version env) \<and>
      checked_image env v (f_bytes f) \<and> reports_version env v (f_bytes f))"
proof (cases "check_latest env")
  case None
  then show ?thesis using assms by (auto simp: locked_update_def Let_def split: if_splits)
next
  case (Some v)
  let ?d1 = "save_state env Save_Check ((load_state d)\<lparr>us_checked := ue_now env, us_latest := Some v\<rparr>) d"
  obtain r d2 where 2: "install_update env v ?d1 = (r, d2)" by fastforce
  show ?thesis
    using assms Some 2 install_target [OF 2]
    by (auto simp: locked_update_def Let_def double_fault_def split: if_splits option.splits sum.splits failure.splits)
qed

lemma acquire_files: "acquire_lock env d = (ok, d') \<Longrightarrow> dk_files d' = dk_files d \<and> dk_state d' = dk_state d \<and> dk_marker d' = dk_marker d"
  by (auto simp: acquire_lock_def Let_def split: if_splits option.splits)

text \<open>
  C38. Whatever fails and whatever the network answers, an update leaves the installed binary as it was or puts in its place an
  image of a release strictly newer than the running version, downloaded from that release, with the digest its checksums list
  for the platform, that ran and reported the version. The one exception is Windows when both the move of the new file and
  the move back fail: then the old binary is beside its place.
\<close>

theorem update_safe:
  assumes "run_update env background check_only d = (res, d')"
  shows "dk_files d' Target = dk_files d Target \<or>
    (\<exists>f v. dk_files d' Target = Some f \<and> check_latest env = Some v \<and> is_newer v (ue_version env) \<and>
      checked_image env v (f_bytes f) \<and> reports_version env v (f_bytes f)) \<or>
    ue_windows env \<and> ue_fails env Move_New \<and> ue_fails env Move_Back \<and>
      dk_files d' Target = None \<and> dk_files d' Target_Old = dk_files d Target"
proof -
  obtain ok d1 where 1: "acquire_lock env d = (ok, d1)" by fastforce
  obtain r d2 where 2: "locked_update env background d1 = (r, d2)" by fastforce
  show ?thesis
    using assms 1 2 acquire_files [OF 1] locked_target [OF 2]
    by (auto simp: run_update_def double_fault_def split: if_splits option.splits bool.splits)
qed


section \<open>What an update records\<close>

lemma download_failure: "\<forall>c. \<not> ue_fails env c \<Longrightarrow> download_and_stage env version d \<noteq> (Inl OS_Error, d')"
  by (auto simp: download_and_stage_def Let_def split: option.splits reply.splits)

lemma install_failure:
  assumes "\<forall>c. \<not> ue_fails env c"
  shows "install_update env version d \<noteq> (Inl OS_Error, d')"
  using download_failure [OF assms, of version d]
  by (auto simp: install_update_def split: prod.splits sum.splits bool.splits if_splits)

lemma states_saved [simp]:
  "load_state (d\<lparr>dk_lock := m\<rparr>) = load_state d" "load_state (d\<lparr>dk_marker := k\<rparr>) = load_state d" "load_state (drop_file env call sl d) = load_state d"
  "load_state (write_marker env p d) = load_state d" "load_state (release_lock env d) = load_state d"
  "\<not> ue_fails env call \<Longrightarrow> load_state (save_state env call s d) = s"
  by (simp_all add: load_state_def save_state_def)

lemma locked_outcome:
  assumes ok: "\<forall>c. \<not> ue_fails env c" and run: "locked_update env background d = (res, d')"
  shows "dk_lock d' = dk_lock d \<and> (case res of
      Exit n \<Rightarrow> n = 0 \<and> (dk_files d' Target \<noteq> dk_files d Target \<longrightarrow>
        us_updated (load_state d') = check_latest env \<and> us_error (load_state d') = None \<and>
        (\<exists>p. dk_marker d' = Some \<lparr>mk_channel = Some ''standalone'', mk_path = Some p\<rparr>))
    | Raise e \<Rightarrow> \<not> background \<and> dk_files d' Target = dk_files d Target \<and>
        (\<exists>st v. e = Update_Error st \<and> us_error (load_state d') = Some \<lparr>er_version = v, er_stage = st, er_at = ue_now env\<rparr>))"
proof (cases "check_latest env")
  case None
  then show ?thesis using run ok by (auto simp: locked_update_def record_error_def Let_def split: if_splits)
next
  case (Some v)
  let ?d1 = "save_state env Save_Check ((load_state d)\<lparr>us_checked := ue_now env, us_latest := Some v\<rparr>) d"
  obtain r d2 where 2: "install_update env v ?d1 = (r, d2)" by fastforce
  have "r \<noteq> Inl OS_Error" using install_failure [OF ok] 2 by metis
  then show ?thesis
    using run Some 2 ok install_target [OF 2] install_frame [OF 2]
    by (auto simp: locked_update_def record_error_def write_marker_def double_fault_def Let_def
        split: if_splits option.splits sum.splits failure.splits)
qed

lemma acquire_lock_cases:
  "acquire_lock env d = (ok, d') \<Longrightarrow> \<forall>c. \<not> ue_fails env c \<Longrightarrow> (if ok then dk_lock d' = Some (ue_now env) else d' = d)"
  by (auto simp: acquire_lock_def Let_def split: option.splits if_splits)


text \<open>A check that fails leaves the time of the last check alone, so the next command starts an updater again at once.\<close>

lemma failed_check_not_throttled:
  assumes "check_latest env = None" and "run_update env background False d = (res, d')"
  shows "us_checked (load_state d') = us_checked (load_state d)"
proof -
  obtain got d1 where 1: "acquire_lock env d = (got, d1)" by fastforce
  have "load_state d1 = load_state d" using acquire_files [OF 1] by (simp add: load_state_def)
  then show ?thesis using assms 1
    by (auto simp: run_update_def locked_update_def record_error_def save_state_def load_state_def Let_def
        split: if_splits bool.splits option.splits)
qed

text \<open>A notice is shown once.\<close>

lemma notices_once:
  assumes "hook_notices env ch s = (ns, s')"
  shows "hook_notices env ch s' = ([], s')"
proof -
  have s': "s' = snd (hook_notices env ch s)" using assms by simp
  have "\<not> truthy (us_updated s')" "us_error s' = None \<or> us_surfaced s'"
    "\<not> (ch = Wheel \<and> truthy (us_latest s') \<and> is_newer (the (us_latest s')) (ue_version env) \<and> us_notified s' \<noteq> us_latest s')"
    unfolding s' hook_notices_def Let_def snd_conv by (simp_all add: truthy_def split del: if_split split: if_splits)
  then show ?thesis by (auto simp: hook_notices_def Let_def)
qed

lemma hook_notices_once:
  assumes "\<not> ue_fails env Save_Notices" and "after_command_hook env skip no_auto auto d = (ns, d', spawn)"
  shows "fst (after_command_hook env skip no_auto auto d') = []"
proof (cases "skip \<or> truthy_word no_auto \<or> \<not> auto \<or> detect_channel (ue_inst env) (dk_marker d) = Dev")
  case True
  then show ?thesis using assms(2) by (auto simp: after_command_hook_def)
next
  case False
  obtain ms s where s: "hook_notices env (detect_channel (ue_inst env) (dk_marker d)) (load_state d) = (ms, s)" by fastforce
  have "dk_marker d' = dk_marker d" "load_state d' = (if ns = [] then load_state d else s)" "ms = ns"
    using assms False s by (auto simp: after_command_hook_def Let_def split: if_splits)
  then show ?thesis using False s notices_once [OF s]
    by (cases "ns = []") (auto simp: after_command_hook_def Let_def)
qed


section \<open>Two updaters and a stale lock\<close>

text \<open>
  \<open>acquire_lock\<close> in its system calls: the exclusive creation, the look at the age of a lock that exists, its removal, at most
  two attempts. Time may pass between any two calls. \<open>Try\<close>, \<open>Look\<close> and \<open>Remove\<close> carry the number of the attempt.
\<close>

datatype updater = Try nat | Look nat | Remove nat | Holds int | Gone

record race =
  rc_lock :: "int option"
  rc_now :: int
  rc_at :: "nat \<Rightarrow> updater"

definition move :: "nat \<Rightarrow> updater \<Rightarrow> race \<Rightarrow> race" where
  "move p u r = r\<lparr>rc_at := (rc_at r)(p := u)\<rparr>"

text \<open>With \<open>die\<close> an updater may end without releasing; with \<open>slow\<close> one may hold the lock beyond the hour.\<close>

inductive race_step :: "bool \<Rightarrow> bool \<Rightarrow> race \<Rightarrow> race \<Rightarrow> bool" for die slow where
  created: "rc_at r p = Try n \<Longrightarrow> rc_lock r = None \<Longrightarrow>
    race_step die slow r (move p (Holds (rc_now r)) (r\<lparr>rc_lock := Some (rc_now r)\<rparr>))"
| taken: "rc_at r p = Try n \<Longrightarrow> rc_lock r \<noteq> None \<Longrightarrow> race_step die slow r (move p (Look n) r)"
| stale: "rc_at r p = Look n \<Longrightarrow> rc_lock r = Some m \<Longrightarrow> rc_now r - m > 3600 \<Longrightarrow> race_step die slow r (move p (Remove n) r)"
| given_up: "rc_at r p = Look n \<Longrightarrow> rc_lock r = None \<or> (\<exists>m. rc_lock r = Some m \<and> rc_now r - m \<le> 3600) \<Longrightarrow>
    race_step die slow r (move p Gone r)"
| reclaimed: "rc_at r p = Remove n \<Longrightarrow> rc_lock r \<noteq> None \<Longrightarrow>
    race_step die slow r (move p (if n = 0 then Try 1 else Gone) (r\<lparr>rc_lock := None\<rparr>))"
| vanished: "rc_at r p = Remove n \<Longrightarrow> rc_lock r = None \<Longrightarrow> race_step die slow r (move p Gone r)"
| released: "rc_at r p = Holds t \<Longrightarrow> race_step die slow r (move p Gone (r\<lparr>rc_lock := None\<rparr>))"
| started: "rc_at r p = Gone \<Longrightarrow> race_step die slow r (move p (Try 0) r)"
| passed: "0 \<le> dt \<Longrightarrow> slow \<or> (\<forall>p t. rc_at r p = Holds t \<longrightarrow> rc_now r + dt - t \<le> 3600) \<Longrightarrow>
    race_step die slow r (r\<lparr>rc_now := rc_now r + dt\<rparr>)"
| died: "die \<Longrightarrow> rc_at r p = Holds t \<Longrightarrow> race_step die slow r (move p Gone r)"

definition quiet :: race where
  "quiet = \<lparr>rc_lock = None, rc_now = 0, rc_at = (\<lambda>_. Gone)\<rparr>"

definition lock_owned :: "race \<Rightarrow> bool" where
  "lock_owned r \<longleftrightarrow> (case rc_lock r of
      None \<Rightarrow> \<forall>p t. rc_at r p \<noteq> Holds t
    | Some m \<Rightarrow> rc_now r - m \<le> 3600 \<and> (\<exists>p. rc_at r p = Holds m \<and> (\<forall>q t. rc_at r q = Holds t \<longrightarrow> q = p))) \<and>
     (\<forall>p n. rc_at r p \<noteq> Remove n)"

lemma one_holder: "lock_owned r \<Longrightarrow> rc_at r p = Holds t \<Longrightarrow> rc_at r q = Holds u \<Longrightarrow> p = q"
  by (cases "rc_lock r") (simp_all add: lock_owned_def, metis)

lemma lock_owned_none:
  "rc_lock r = None \<Longrightarrow> lock_owned r \<longleftrightarrow> (\<forall>p t. rc_at r p \<noteq> Holds t) \<and> (\<forall>p n. rc_at r p \<noteq> Remove n)"
  by (simp add: lock_owned_def)

lemma lock_owned_some:
  "rc_lock r = Some m \<Longrightarrow> lock_owned r \<longleftrightarrow> rc_now r - m \<le> 3600 \<and>
     (\<exists>p. rc_at r p = Holds m \<and> (\<forall>q t. rc_at r q = Holds t \<longrightarrow> q = p)) \<and> (\<forall>p n. rc_at r p \<noteq> Remove n)"
  by (simp add: lock_owned_def)

text \<open>A step of an updater that neither holds nor comes to hold the lock.\<close>

lemma moved [simp]:
  "rc_at (move p u r) x = (if x = p then u else rc_at r x)" "rc_lock (move p u r) = rc_lock r" "rc_now (move p u r) = rc_now r"
  by (simp_all add: move_def)

lemma lock_owned_move:
  assumes "lock_owned r" and idle: "\<And>t. rc_at r p \<noteq> Holds t" and "\<And>t. u \<noteq> Holds t" and "\<And>n. u \<noteq> Remove n"
  shows "lock_owned (move p u r)"
proof -
  have holds: "rc_at (move p u r) x = Holds t \<longleftrightarrow> rc_at r x = Holds t" for x t using assms(2,3) by simp
  have remove: "rc_at (move p u r) x \<noteq> Remove n" for x n using assms(1,4) by (simp add: lock_owned_def)
  show ?thesis using assms(1) unfolding lock_owned_def holds moved(2,3) using remove by blast
qed

lemma lock_owned_step: "race_step False False r r' \<Longrightarrow> lock_owned r \<Longrightarrow> lock_owned r'"
proof (induction rule: race_step.induct)
  case (created r p n)
  then have "\<And>q t. rc_at r q \<noteq> Holds t" "\<And>q n. rc_at r q \<noteq> Remove n" by (simp_all add: lock_owned_none)
  then show ?case by (simp add: lock_owned_def)
next
  case (taken r p n)
  then show ?case by (simp add: lock_owned_move)
next
  case (stale r p n m)
  then show ?case by (simp add: lock_owned_some)
next
  case (given_up r p n)
  then show ?case by (simp add: lock_owned_move)
next
  case (reclaimed r p n)
  then show ?case by (simp add: lock_owned_def)
next
  case (vanished r p n)
  then show ?case by (simp add: lock_owned_def)
next
  case (released r p t)
  have only: "q = p" if "rc_at r q = Holds u" for q u
    using one_holder [OF released.prems that released.hyps] .
  have "rc_at (move p Gone (r\<lparr>rc_lock := None\<rparr>)) q \<noteq> Holds u" for q u using only by auto
  moreover have "rc_at r q \<noteq> Remove n" for q n using released.prems by (simp add: lock_owned_def)
  ultimately show ?case by (simp add: lock_owned_none)
next
  case (started r p)
  then show ?case by (simp add: lock_owned_move)
next
  case (passed dt r)
  show ?case
  proof (cases "rc_lock r")
    case None
    then show ?thesis using passed.prems by (simp add: lock_owned_none)
  next
    case (Some m)
    then obtain q where q: "rc_at r q = Holds m" using passed.prems by (auto simp: lock_owned_some)
    have "rc_now r + dt - m \<le> 3600" using passed.hyps(2) q by blast
    moreover have "rc_lock (r\<lparr>rc_now := rc_now r + dt\<rparr>) = Some m" using Some by simp
    ultimately show ?thesis using passed.prems unfolding lock_owned_some [OF Some] by (simp add: lock_owned_some)
  qed
qed simp

text \<open>
  C40. As long as every updater gives its lock back within the hour, over every interleaving of the calls of any number of them at
  most one holds the lock.
\<close>

theorem lock_exclusive:
  assumes "(race_step False False)\<^sup>*\<^sup>* quiet r" and "rc_at r p = Holds t" and "rc_at r q = Holds u"
  shows "p = q"
proof -
  have "lock_owned r" using assms(1)
  proof (induction rule: rtranclp_induct)
    case base
    show ?case by (simp add: quiet_def lock_owned_def)
  qed (rule lock_owned_step)
  then show ?thesis using assms(2,3) by (rule one_holder)
qed


text \<open>Two updaters that both found the lock of a dead one stale: the second removes the fresh lock of the first.\<close>

lemma stale_lock_shared:
  "\<exists>r. (race_step True False)\<^sup>*\<^sup>* quiet r \<and> rc_at r 1 = Holds 3601 \<and> rc_at r 2 = Holds 3601"
proof -
  let ?S = "race_step True False"
  define r1 where "r1 = move 0 (Try 0) quiet"
  define r2 where "r2 = move 0 (Holds 0) (r1\<lparr>rc_lock := Some 0\<rparr>)"
  define r3 where "r3 = move 0 Gone r2"
  define r4 where "r4 = r3\<lparr>rc_now := 3601\<rparr>"
  define r5 where "r5 = move 1 (Try 0) r4"
  define r6 where "r6 = move 1 (Look 0) r5"
  define r7 where "r7 = move 1 (Remove 0) r6"
  define r8 where "r8 = move 2 (Try 0) r7"
  define r9 where "r9 = move 2 (Look 0) r8"
  define r10 where "r10 = move 2 (Remove 0) r9"
  define r11 where "r11 = move 1 (Try 1) (r10\<lparr>rc_lock := None\<rparr>)"
  define r12 where "r12 = move 1 (Holds 3601) (r11\<lparr>rc_lock := Some 3601\<rparr>)"
  define r13 where "r13 = move 2 (Try 1) (r12\<lparr>rc_lock := None\<rparr>)"
  define r14 where "r14 = move 2 (Holds 3601) (r13\<lparr>rc_lock := Some 3601\<rparr>)"
  note defs = quiet_def move_def r1_def r2_def r3_def r4_def r5_def r6_def r7_def r8_def r9_def r10_def r11_def r12_def r13_def r14_def
  have s1: "?S quiet r1" using race_step.started [of quiet 0] by (simp add: defs)
  have s2: "?S r1 r2" using race_step.created [of r1 0] by (simp add: defs)
  have s3: "?S r2 r3" using race_step.died [of _ r2 0 0] by (simp add: defs)
  have s4: "?S r3 r4" using race_step.passed [of 3601 _ r3] by (simp add: defs)
  have s5: "?S r4 r5" using race_step.started [of r4 1] by (simp add: defs)
  have s6: "?S r5 r6" using race_step.taken [of r5 1 0] by (simp add: defs)
  have s7: "?S r6 r7" using race_step.stale [of r6 1 0 0] by (simp add: defs)
  have s8: "?S r7 r8" using race_step.started [of r7 2] by (simp add: defs)
  have s9: "?S r8 r9" using race_step.taken [of r8 2 0] by (simp add: defs)
  have s10: "?S r9 r10" using race_step.stale [of r9 2 0 0] by (simp add: defs)
  have s11: "?S r10 r11" using race_step.reclaimed [of r10 1 0] by (simp add: defs)
  have s12: "?S r11 r12" using race_step.created [of r11 1] by (simp add: defs)
  have s13: "?S r12 r13" using race_step.reclaimed [of r12 2 0] by (simp add: defs)
  have s14: "?S r13 r14" using race_step.created [of r13 2] by (simp add: defs)
  have "?S\<^sup>*\<^sup>* quiet r7" using s1 s2 s3 s4 s5 s6 s7
    by (meson converse_rtranclp_into_rtranclp rtranclp.rtrancl_refl)
  also have "?S\<^sup>*\<^sup>* r7 r14" using s8 s9 s10 s11 s12 s13 s14
    by (meson converse_rtranclp_into_rtranclp rtranclp.rtrancl_refl)
  finally have "?S\<^sup>*\<^sup>* quiet r14" .
  moreover have "rc_at r14 1 = Holds 3601" "rc_at r14 2 = Holds 3601" by (simp_all add: defs)
  ultimately show ?thesis by blast
qed


section \<open>Witnesses\<close>

text \<open>A Linux machine on 0.9.0 with the binary in the default place, and release 0.10.0 upstream.\<close>

definition sample_inst :: installation where
  "sample_inst = \<lparr>in_exe = [''/'', ''bin'', ''nff''], in_frozen = True, in_default = [''/'', ''bin''], in_package = [], in_resolve = Some\<rparr>"

definition sample_net :: "string \<Rightarrow> reply" where
  "sample_net url = (if url = ''https://r/download/v0.10.0/nff-linux-x64'' then Body ''new''
     else if url = ''https://r/download/v0.10.0/SHA256SUMS'' then
       Body (''11ff  nff-macos-x64'' @ [newline] @ ''22EE *nff-linux-x64'' @ [newline])
     else No_Reply)"

definition sample_env :: "bool \<Rightarrow> upd_env" where
  "sample_env broken = \<lparr>ue_version = ''0.9.0'', ue_inst = sample_inst, ue_windows = False, ue_system = ''Linux'', ue_machine = ''x86_64'',
     ue_now = 100000, ue_every = every_hours [], ue_base = base_url ''https://r/'', ue_head = Some ''https://r/tag/v0.10.0'',
     ue_net = sample_net, ue_sha256 = (\<lambda>b. if b = ''new'' \<and> \<not> broken then ''22ee'' else ''0''),
     ue_runs = (\<lambda>b. Some (0, ''nff 0.10.0'')), ue_fails = (\<lambda>_. False), ue_torn = (\<lambda>_. None)\<rparr>"

definition sample_disk :: disk where
  "sample_disk = \<lparr>dk_files = (\<lambda>_. None)(Target := Some \<lparr>f_bytes = ''old'', f_mtime = 0\<rparr>), dk_state = None, dk_lock = None, dk_marker = None\<rparr>"

lemma sample_runs:
  "fst (run_update (sample_env False) False False sample_disk) = Exit 0"
  "dk_files (snd (run_update (sample_env False) False False sample_disk)) Target = Some \<lparr>f_bytes = ''new'', f_mtime = 100000\<rparr>"
  "fst (run_update (sample_env True) False False sample_disk) = Raise (Update_Error AtChecksum)"
  by (code_simp, code_simp, code_simp)

text \<open>A staging directory that cannot be made ends the background update with an error of the operating system.\<close>

lemma background_can_raise:
  "fst (run_update ((sample_env False)\<lparr>ue_fails := (\<lambda>c. c = Staging_Dir)\<rparr>) True False sample_disk) = Raise OS_Error"
  by code_simp

theorem update_safe_witness:
  "\<exists>d'. run_update (sample_env False) False False sample_disk = (Exit 0, d') \<and> dk_files d' Target \<noteq> dk_files sample_disk Target \<and>
     (\<exists>f v. dk_files d' Target = Some f \<and> is_newer v ''0.9.0'' \<and> checked_image (sample_env False) v (f_bytes f))"
proof -
  obtain d' where run: "run_update (sample_env False) False False sample_disk = (Exit 0, d')"
    using sample_runs(1) by (metis prod.collapse)
  have new: "dk_files d' Target = Some \<lparr>f_bytes = ''new'', f_mtime = 100000\<rparr>" using sample_runs(2) run by simp
  have old: "dk_files sample_disk Target = Some \<lparr>f_bytes = ''old'', f_mtime = 0\<rparr>" by (simp add: sample_disk_def)
  have "ue_version (sample_env False) = ''0.9.0''" by (simp add: sample_env_def)
  then show ?thesis using run new old update_safe [OF run] by auto
qed


theorem lock_exclusive_witness:
  "\<exists>r. (race_step False False)\<^sup>*\<^sup>* quiet r \<and> rc_at r 0 = Holds 0 \<and> (\<forall>q u. rc_at r q = Holds u \<longrightarrow> q = 0)"
proof -
  let ?r = "move 0 (Holds 0) ((move 0 (Try 0) quiet)\<lparr>rc_lock := Some 0\<rparr>)"
  have "race_step False False quiet (move 0 (Try 0) quiet)"
    using race_step.started [of quiet 0] by (simp add: quiet_def)
  moreover have "race_step False False (move 0 (Try 0) quiet) ?r"
    using race_step.created [of "move 0 (Try 0) quiet" 0 0] by (simp add: quiet_def)
  ultimately have reach: "(race_step False False)\<^sup>*\<^sup>* quiet ?r"
    by (meson converse_rtranclp_into_rtranclp r_into_rtranclp)
  have "rc_at ?r 0 = Holds 0" by simp
  then show ?thesis using reach lock_exclusive [OF reach] by blast
qed

end
