(* ===== verification/Spec2Isabelle.thy ===== *)
theory Spec2Isabelle
  imports Prelude Floats Json OTA_Types Transitions Phases Targeting Agent_Notify OTA_Samples Deployments Delivery Feedback Devices Sweeps OTA_System Artifacts Fix_Jobs Fix_Status Webhooks Broker_Acl Signing Router Fleet_System Scenarios Mock_Device Device_Life Update_Loop Regexp Crash_Analysis Panic_Parser Dumps Diagnosis Predicates Correlation Fleet_Report Timeline Local_Diagnose Bench_Policy Bench_Plans Attack_Matcher Attack_Tree Self_Update
begin

text \<open>
  nff-core is a platform that watches, updates and repairs ESP32 devices. Its Python services live under
  src/observability/, its command line under src/nff/. This development models the parts that hold the state and take
  the decisions:

  \<^item> nff-ota (src/observability/nff-ota/nff_ota): the database of devices, groups, firmware, deployments and per-device
    jobs; the operations the tools call; the reports that come back; the sweeps that run in the background; the queue
    of firmware fixes; the webhooks the other services post to.
  \<^item> nff-fleet (src/observability/nff-fleet/nff_fleet): the MQTT broker's identities and topic rules, the command signer,
    the router that matches answers with the calls that wait for them, the registry of devices and its reaper.
  \<^item> nff-mock (src/observability/nff-mock): the virtual device, with its command verifier, its updates, its crashes and
    its heartbeats.
  \<^item> nff-diagnosis (src/observability/nff-diagnosis/nff_diagnosis): the parser of panic dumps, the classifier, symbol
    resolution, storage and the pipeline over them, and the correlation of crashes over the fleet.
  \<^item> nff (src/nff): the crash analysis of the command line and its policy layer, which learns repair procedures,
    and its update of itself.
  \<^item> nff-pentester (src/observability/nff-pentester/nff_pentester): the vulnerability tree, its conditions and its walk.

  nff-ota asks nff-fleet to send a signed command; the broker carries it to the device; the device verifies it,
  installs the image, reboots and publishes an outcome; nff-fleet's router receives the outcome and posts it to
  nff-ota's webhook, which ends the job and rolls up the deployment. Update_Loop proves this circle.

  Theories, in the order of the imports, and the files they model:

  \<^item> Prelude: Python's string methods, options read as \<open>or\<close>, lists of rows with a key (locale \<open>keyed_table\<close>). Floats:
    binary64 rounding over the rationals. Json: what \<open>json.loads\<close> returns and dictionary access.
  \<^item> OTA_Types: config.py and models/: the statuses, the rows of each table, settings, \<open>ctx\<close> (clock, settings, fresh
    identifiers of one call). Transitions: transitions.py, as tables and as edges (locale \<open>status_machine\<close>).
  \<^item> Phases, Targeting: the pure helpers of tools/deployments/ops.py (phase lists, waves, compatibility gates).
  \<^item> Agent_Notify: agent_notify.py. Deployments, Delivery, Feedback: the operations of tools/deployments/ops.py (create,
    status, abort, resume, roll-up; fleet.py and the delivery of a wave; the three kinds of device report).
    Devices: tools/devices and tools/device_groups. Sweeps: reaper.py, supervisor.py, poller.py.
  \<^item> OTA_System: all of these operations as one step relation \<open>ota_step\<close>, and what its runs keep.
  \<^item> Artifacts: tools/artifacts/ops.py. Fix_Jobs: source/jobs.py, ops.py, fix_worker.py, baseline.py, realcompile.py, with
    the queue as a step relation \<open>queue_step\<close>; Fix_Status: the polling loop of its status call. Webhooks: webhooks.py.
  \<^item> Broker_Acl: broker/auth.py, acl.py and topic names. Signing: signing.py and the device's security.py. Router:
    broker/router.py, registry.py, reaper.py, commands.py, ota_result.py, the roll-over part of enroll_worker.py.
    Fleet_System: one event loop of nff-fleet, \<open>step\<close> and \<open>run\<close> on a list of events in any order.
  \<^item> Scenarios, Mock_Device: nff_mock_core and nff_mock (store, sketches, telemetry, crashes, updates, session). Device_Life:
    what holds over any sequence of boots and messages. Update_Loop: the three services together.
  \<^item> OTA_Samples holds the small installation on which the theorems are instantiated.
  \<^item> Regexp: the constructs of Python's re that the patterns use, as a matcher that lists all matches in the order of
    backtracking. Crash_Analysis: schemas/ and engine/classifier.py. Panic_Parser: capture/parser.py. Dumps: the dumps of
    the virtual device read back by the parser, for the whole catalog of scenarios. Diagnosis: resolution/addr2line.py,
    storage/, store/local.py, engine/diagnosis.py, server/pipeline.py and repair.py.
  \<^item> Predicates, Correlation, Fleet_Report, Timeline: correlation/ (the predicate language; clusters and the validation of
    a hypothesis; the engine and its groups; the timeline and its file). What the pipeline stores, the timeline joins and
    the engine divides into groups and unexplained crashes.
  \<^item> Local_Diagnose: src/nff/tools/diagnose.py, proved to agree with nff-diagnosis. Bench_Policy: src/nff/tools/policy.py.
    Bench_Plans: what its graph, its planner (value iteration) and its advice guarantee.
  \<^item> Attack_Matcher, Attack_Tree: tools/analysis/matcher.py and tree_walker.py of nff-pentester, and the rows of the tree in
    db.py. Self_Update: src/nff/tools/updater.py, its flow as a function of the failures of the system calls, its lock as
    a step relation over any number of updaters.

  How the code is represented. A table is a list of records in insertion order; a query is a filter and an update maps
  over the rows with the key. One operation runs to its end, as the services do on one event loop between two awaits;
  where a coroutine awaits and another may run, the model has two operations (\<open>send_begin\<close> and \<open>send_resume\<close>,
  \<open>roll_begin\<close> and \<open>roll_resume\<close>) or an explicit list of interleaved steps. Errors are the left side of a sum, or the
  constructors of \<open>hook\<close> for HTTP answers; an exception nothing catches is \<open>None\<close> or \<open>HRaise\<close>. Clocks are rationals
  or integers handed in by the caller. Parameters stand for code outside src/: SHA-256 and ECDSA, the UUID source, the
  file system, SQL constraints on project ids, MQTT filter matching, the language model, addr2line, the firmware compiler; what
  a theorem needs of them is a hypothesis with its name (for instance that a signature verifies only if it was made).

  Lemma groups. \<open>keyed_table\<close> gives the laws of updates by key, interpreted on jobs, deployments, devices, firmware and
  fix jobs. \<open>status_machine\<close> gives reachability and terminality, interpreted on the three registries and on the flow of a
  deployment. Each operation has lemmas for every branch and one that says which rows it changes; the
  step relations have inversion rules, and the invariants are proved by rule induction over them.

  Bounds. The status call of a fix looks at most every five seconds for at most 90 seconds, so twenty looks are
  enough, as \<open>fix_status_returns\<close> proves. The device keeps 16 nonces and accepts commands within 300 seconds. The planner's
  1000 sweeps and 32 steps are the code's own bounds: \<open>plan_iff_history_solves\<close> shows that the sweeps suffice for graphs of
  up to 1000 states. A repetition in a pattern takes at most as many rounds as there are characters left, which is
  enough because an empty round ends it. The paging loop of the crash store is partial, and total for positive pages
  (\<open>iter_all_crashes_total\<close>). Rebuilding the vulnerability tree takes the number of rows as its depth, which suffices for
  any rows with distinct ids (\<open>reconstruct_returns\<close>). No other definition takes fuel.

  Not modelled: the HTTP and MCP servers and clients, process start and configuration from the environment,
  certificate authorities and files, link bridging, the sleeping loops around the sweeps and the reconnect loops,
  prompt wording, hashing of sources by text, the accounts, servers, roster queries and evaluation of nff-diagnosis,
  the controller and QEMU launcher of nff-mock, the probes and reports of nff-pentester, the rest of the nff command
  line (src/nff, src/nff-rs: serial ports, toolchains, installers, power and debug probes, the MCP server) and the C
  SDK. They are input and output around the modelled state, or tools that drive external programs.
\<close>

end
